(* ===== verification/Client_Prelude.thy ===== *)
theory Client_Prelude
  imports Main "HOL-Library.Word"
begin

text \<open>
  Shared vocabulary of the development: machine integers, Rust's \<open>Result\<close> with the
  \<open>?\<close> operator, loops that stop at the first error, \<open>BTreeMap\<close> as an association
  list kept in ascending key order, and two interfaces several components use: the
  ordered map (what a lookup returns after an update, what keeps the order) and the
  lifecycle (a stepwise machine with absorbing final states).
\<close>

section \<open>Collections of facts\<close>

named_theorems step_defs \<open>definitions unfolded by the proofs about state transitions\<close>
named_theorems bt_simps \<open>lookup laws of ordered maps\<close>

section \<open>Machine integers\<close>

type_synonym u8 = "8 word"
type_synonym u16 = "16 word"
type_synonym u32 = "32 word"
type_synonym u64 = "64 word"
type_synonym block_number = u32

text \<open>Rust's \<open>saturating_sub\<close>; also \<open>checked_sub(..).unwrap_or_default()\<close> on a block number.\<close>

definition saturating_sub :: "'a::len word \<Rightarrow> 'a word \<Rightarrow> 'a word" where
  "saturating_sub a b = (if a < b then 0 else a - b)"

lemma unat_saturating_sub: "unat (saturating_sub a b) = unat a - unat b"
  by (auto simp: saturating_sub_def word_less_nat_alt unat_sub word_le_nat_alt)

lemma saturating_sub_le: "saturating_sub a b \<le> a"
  by (simp add: word_le_nat_alt unat_saturating_sub)

text \<open>Below another value there is room for one more.\<close>

lemma unat_plus_one:
  fixes a b :: "'a::len word"
  assumes "a < b"
  shows "unat (a + 1) = Suc (unat a)"
proof -
  have "unat a < unat b" using assms by (simp add: word_less_nat_alt)
  then have "Suc (unat a) < 2 ^ LENGTH('a)"
    using unsigned_less [of b, where ?'a = nat] by (metis Suc_leI le_less_trans)
  then show ?thesis by (simp add: unat_word_ariths)
qed

text \<open>The decimal form in which Rust displays an unsigned integer.\<close>

definition digit_char :: "nat \<Rightarrow> char" where
  "digit_char d = char_of (48 + d)"

fun decimal :: "nat \<Rightarrow> string" where
  "decimal n = (if n < 10 then [digit_char n] else decimal (n div 10) @ [digit_char (n mod 10)])"

declare decimal.simps [simp del]

section \<open>Results\<close>

text \<open>A \<open>Result\<close> is a sum, \<open>Inl\<close> the error. \<open>and_then r f\<close> is \<open>f(r?)\<close>.\<close>

fun and_then :: "'e + 'a \<Rightarrow> ('a \<Rightarrow> 'e + 'b) \<Rightarrow> 'e + 'b" where
  "and_then (Inl e) f = Inl e"
| "and_then (Inr x) f = f x"

fun map_err :: "('e \<Rightarrow> 'f) \<Rightarrow> 'e + 'a \<Rightarrow> 'f + 'a" where
  "map_err g (Inl e) = Inl (g e)"
| "map_err g (Inr x) = Inr x"

fun ok_or :: "'e \<Rightarrow> 'a option \<Rightarrow> 'e + 'a" where
  "ok_or e None = Inl e"
| "ok_or e (Some x) = Inr x"

lemma and_then_Inr_conv: "and_then r f = Inr y \<longleftrightarrow> (\<exists>x. r = Inr x \<and> f x = Inr y)"
  by (cases r) auto

lemma and_then_Inl_conv:
  "and_then r f = Inl e \<longleftrightarrow> r = Inl e \<or> (\<exists>x. r = Inr x \<and> f x = Inl e)"
  by (cases r) auto

lemma map_err_Inr_conv [simp]: "map_err g r = Inr y \<longleftrightarrow> r = Inr y"
  by (cases r) auto

lemma ok_or_Inr_conv [simp]: "ok_or e r = Inr y \<longleftrightarrow> r = Some y"
  by (cases r) auto

text \<open>A \<open>for\<close> loop whose body uses \<open>?\<close>: it stops at the first error.\<close>

fun try_fold :: "('s \<Rightarrow> 'x \<Rightarrow> 'e + 's) \<Rightarrow> 's \<Rightarrow> 'x list \<Rightarrow> 'e + 's" where
  "try_fold f s [] = Inr s"
| "try_fold f s (x # xs) = and_then (f s x) (\<lambda>s'. try_fold f s' xs)"

lemma try_fold_append:
  "try_fold f s (xs @ ys) = and_then (try_fold f s xs) (\<lambda>s'. try_fold f s' ys)"
proof (induction xs arbitrary: s)
  case Nil
  then show ?case by simp
next
  case (Cons x xs)
  then show ?case by (cases "f s x") auto
qed

text \<open>What every iteration keeps, the loop keeps.\<close>

lemma try_fold_invariant:
  assumes "try_fold f s xs = Inr s'" and "I s"
    and "\<And>s x t. x \<in> set xs \<Longrightarrow> I s \<Longrightarrow> f s x = Inr t \<Longrightarrow> I t"
  shows "I s'"
  using assms
proof (induction xs arbitrary: s)
  case Nil
  then show ?case by simp
next
  case (Cons x xs)
  then obtain t where t: "f s x = Inr t" "try_fold f t xs = Inr s'"
    by (auto simp: and_then_Inr_conv)
  with Cons.prems(2,3) have "I t" by auto
  with t(2) show ?case by (rule Cons.IH) (use Cons.prems(3) in auto)
qed

text \<open>\<open>map\<close> with a fallible function, collected into a \<open>Result\<close> of a list.\<close>

fun try_map :: "('a \<Rightarrow> 'e + 'b) \<Rightarrow> 'a list \<Rightarrow> 'e + 'b list" where
  "try_map f [] = Inr []"
| "try_map f (x # xs) = and_then (f x) (\<lambda>y. and_then (try_map f xs) (\<lambda>ys. Inr (y # ys)))"

lemma try_map_Inr_conv: "try_map f xs = Inr ys \<longleftrightarrow> list_all2 (\<lambda>x y. f x = Inr y) xs ys"
  by (induction xs arbitrary: ys) (auto simp: and_then_Inr_conv list_all2_Cons1)

lemma try_map_ok: "(\<And>x. x \<in> set xs \<Longrightarrow> f x = Inr (g x)) \<Longrightarrow> try_map f xs = Inr (map g xs)"
  by (induction xs) auto

section \<open>BTreeMap\<close>

text \<open>
  A \<open>BTreeMap\<close> is an association list in strictly ascending key order; iteration is
  the list itself. The lookup laws below hold for every list, the order is the
  invariant \<open>bt_wf\<close>.
\<close>

type_synonym ('k, 'v) btree_map = "('k \<times> 'v) list"

definition bt_wf :: "('k::linorder, 'v) btree_map \<Rightarrow> bool" where
  "bt_wf m \<longleftrightarrow> sorted_wrt (<) (map fst m)"

abbreviation bt_get :: "('k, 'v) btree_map \<Rightarrow> 'k \<Rightarrow> 'v option" where
  "bt_get m k \<equiv> map_of m k"

abbreviation bt_values :: "('k, 'v) btree_map \<Rightarrow> 'v list" where
  "bt_values m \<equiv> map snd m"

abbreviation bt_keys :: "('k, 'v) btree_map \<Rightarrow> 'k list" where
  "bt_keys m \<equiv> map fst m"

fun bt_insert :: "'k::linorder \<Rightarrow> 'v \<Rightarrow> ('k, 'v) btree_map \<Rightarrow> ('k, 'v) btree_map" where
  "bt_insert k v [] = [(k, v)]"
| "bt_insert k v ((k', v') # m) =
     (if k < k' then (k, v) # (k', v') # m
      else if k = k' then (k, v) # m
      else (k', v') # bt_insert k v m)"

definition bt_remove :: "'k \<Rightarrow> ('k, 'v) btree_map \<Rightarrow> ('k, 'v) btree_map" where
  "bt_remove k m = filter (\<lambda>(k', v). k' \<noteq> k) m"

text \<open>\<open>get_mut\<close> followed by an assignment through the reference.\<close>

definition bt_modify :: "'k \<Rightarrow> ('v \<Rightarrow> 'v) \<Rightarrow> ('k, 'v) btree_map \<Rightarrow> ('k, 'v) btree_map" where
  "bt_modify k f m = map (\<lambda>(k', v). (k', if k' = k then f v else v)) m"

text \<open>\<open>collect\<close> into a map: later pairs overwrite earlier ones.\<close>

definition bt_from_iter :: "('k::linorder \<times> 'v) list \<Rightarrow> ('k, 'v) btree_map" where
  "bt_from_iter xs = fold (\<lambda>(k, v). bt_insert k v) xs []"

text \<open>\<open>entry(k).or_insert(v)\<close>.\<close>

definition bt_or_insert :: "'k::linorder \<Rightarrow> 'v \<Rightarrow> ('k, 'v) btree_map \<Rightarrow> ('k, 'v) btree_map" where
  "bt_or_insert k v m = (case bt_get m k of None \<Rightarrow> bt_insert k v m | Some _ \<Rightarrow> m)"

text \<open>\<open>entry(k).and_modify(f).or_insert(v)\<close>.\<close>

definition bt_upsert ::
  "'k::linorder \<Rightarrow> ('v \<Rightarrow> 'v) \<Rightarrow> 'v \<Rightarrow> ('k, 'v) btree_map \<Rightarrow> ('k, 'v) btree_map" where
  "bt_upsert k f v m = (case bt_get m k of Some _ \<Rightarrow> bt_modify k f m | None \<Rightarrow> bt_insert k v m)"

lemma bt_get_insert [simp, bt_simps]:
  "bt_get (bt_insert k v m) k' = (if k' = k then Some v else bt_get m k')"
  by (induction m) auto

lemma bt_get_remove [simp, bt_simps]:
  "bt_get (bt_remove k m) k' = (if k' = k then None else bt_get m k')"
  by (induction m) (auto simp: bt_remove_def)

lemma bt_get_modify [simp, bt_simps]:
  "bt_get (bt_modify k f m) k' = (if k' = k then map_option f (bt_get m k') else bt_get m k')"
  by (induction m) (auto simp: bt_modify_def)

lemma bt_get_or_insert [simp, bt_simps]:
  "bt_get (bt_or_insert k v m) k' =
     (if k' = k \<and> bt_get m k = None then Some v else bt_get m k')"
  by (auto simp: bt_or_insert_def split: option.splits)

lemma bt_keys_modify [simp]: "bt_keys (bt_modify k f m) = bt_keys m"
  by (simp add: bt_modify_def comp_def case_prod_beta)

lemma set_keys_insert [simp]: "fst ` set (bt_insert k v m) = insert k (fst ` set m)"
  by (induction k v m rule: bt_insert.induct) (simp_all add: insert_commute)

text \<open>What holds of the stored values and of the new one holds of all values after an insert.\<close>

lemma bt_insert_values:
  "\<forall>p \<in> set m. Q (snd p) \<Longrightarrow> Q v \<Longrightarrow> \<forall>p \<in> set (bt_insert k v m). Q (snd p)"
  by (induction k v m rule: bt_insert.induct) auto

lemma bt_wf_Nil [simp]: "bt_wf []"
  by (simp add: bt_wf_def)

lemma bt_wf_Cons: "bt_wf ((k, v) # m) \<longleftrightarrow> (\<forall>k' \<in> fst ` set m. k < k') \<and> bt_wf m"
  by (auto simp: bt_wf_def)

lemma bt_wf_insert [simp, intro]: "bt_wf m \<Longrightarrow> bt_wf (bt_insert k v m)"
proof (induction m)
  case Nil
  then show ?case by (simp add: bt_wf_Cons)
next
  case (Cons p m)
  obtain k' v' where p: "p = (k', v')" by (cases p)
  from Cons.prems have wf: "bt_wf m" and lt: "\<forall>j \<in> fst ` set m. k' < j"
    by (auto simp: p bt_wf_Cons)
  consider "k < k'" | "k = k'" | "k' < k" by force
  then show ?case
  proof cases
    case 1
    then show ?thesis using lt wf by (fastforce simp: p bt_wf_Cons)
  next
    case 2
    then show ?thesis using lt wf by (auto simp: p bt_wf_Cons)
  next
    case 3
    then have "bt_insert k v (p # m) = (k', v') # bt_insert k v m"
      by (auto simp: p)
    moreover have "\<forall>j \<in> fst ` set (bt_insert k v m). k' < j"
      using 3 lt by simp
    ultimately show ?thesis using Cons.IH wf by (simp add: bt_wf_Cons)
  qed
qed

lemma bt_wf_filter: "bt_wf m \<Longrightarrow> bt_wf (filter P m)"
  by (induction m) (auto simp: bt_wf_Cons)

lemma bt_wf_remove [simp, intro]: "bt_wf m \<Longrightarrow> bt_wf (bt_remove k m)"
  by (simp add: bt_remove_def bt_wf_filter)

lemma bt_wf_modify [simp]: "bt_wf (bt_modify k f m) = bt_wf m"
  by (simp add: bt_wf_def)

lemma bt_wf_or_insert [simp, intro]: "bt_wf m \<Longrightarrow> bt_wf (bt_or_insert k v m)"
  by (simp add: bt_or_insert_def split: option.splits)

lemma bt_wf_distinct: "bt_wf m \<Longrightarrow> distinct (bt_keys m)"
  by (auto simp: bt_wf_def strict_sorted_iff)

lemma bt_get_iff_mem: "bt_wf m \<Longrightarrow> bt_get m k = Some v \<longleftrightarrow> (k, v) \<in> set m"
  by (rule map_of_eq_Some_iff) (rule bt_wf_distinct)

lemma bt_get_keys: "bt_get m k \<noteq> None \<longleftrightarrow> k \<in> fst ` set m"
  by (auto simp: map_of_eq_None_iff)

lemma bt_get_upsert:
  "bt_get (bt_upsert k f v m) k' =
     (if k' = k then Some (case bt_get m k of None \<Rightarrow> v | Some w \<Rightarrow> f w) else bt_get m k')"
  by (simp add: bt_upsert_def split: option.split)

lemma bt_wf_upsert [simp, intro]: "bt_wf m \<Longrightarrow> bt_wf (bt_upsert k f v m)"
  by (simp add: bt_upsert_def split: option.split)

lemma bt_wf_fold_upsert: "bt_wf m \<Longrightarrow> bt_wf (fold (\<lambda>r. bt_upsert (k r) (f r) (v r)) rs m)"
  by (induction rs arbitrary: m) auto

lemma bt_keys_sorted_list:
  assumes "bt_wf m"
  shows "bt_keys m = sorted_list_of_set {k. bt_get m k \<noteq> None}"
proof -
  have "sorted_list_of_set (set (bt_keys m)) = bt_keys m"
    using assms by (intro sorted_list_of_set.idem_if_sorted_distinct) (auto simp: bt_wf_def strict_sorted_iff)
  moreover have "set (bt_keys m) = {k. bt_get m k \<noteq> None}"
    using bt_get_keys [of m] by auto
  ultimately show ?thesis by simp
qed

lemma bt_values_lookup:
  assumes "bt_wf m"
  shows "bt_values m = map (\<lambda>k. the (bt_get m k)) (bt_keys m)"
proof -
  have "snd p = the (bt_get m (fst p))" if "p \<in> set m" for p
    using bt_get_iff_mem [OF assms, of "fst p" "snd p"] that by simp
  then show ?thesis by simp
qed

text \<open>The ordered-map interface the components rely on.\<close>

locale ordered_map =
  fixes empty :: 'm
    and insert :: "'k::linorder \<Rightarrow> 'v \<Rightarrow> 'm \<Rightarrow> 'm"
    and remove :: "'k \<Rightarrow> 'm \<Rightarrow> 'm"
    and get :: "'m \<Rightarrow> 'k \<Rightarrow> 'v option"
    and iter :: "'m \<Rightarrow> ('k \<times> 'v) list"
    and wf :: "'m \<Rightarrow> bool"
  assumes get_empty: "get empty k = None"
    and get_insert: "get (insert k v m) k' = (if k' = k then Some v else get m k')"
    and get_remove: "get (remove k m) k' = (if k' = k then None else get m k')"
    and wf_empty: "wf empty"
    and wf_insert: "wf m \<Longrightarrow> wf (insert k v m)"
    and wf_remove: "wf m \<Longrightarrow> wf (remove k m)"
    and iter_sorted: "wf m \<Longrightarrow> sorted_wrt (<) (map fst (iter m))"
    and iter_get: "wf m \<Longrightarrow> (k, v) \<in> set (iter m) \<longleftrightarrow> get m k = Some v"
begin

text \<open>A map collected from pairs holds, for each key, the last value given for it.\<close>

lemma get_fold_insert:
  "get (fold (\<lambda>(k, v). insert k v) xs m) k =
     (case map_of (rev xs) k of None \<Rightarrow> get m k | Some v \<Rightarrow> Some v)"
  by (induction xs arbitrary: m)
    (auto simp: get_insert map_add_def split: option.splits)

lemma wf_fold_insert: "wf m \<Longrightarrow> wf (fold (\<lambda>(k, v). insert k v) xs m)"
  by (induction xs arbitrary: m) (auto simp: wf_insert)

text \<open>Two well-formed maps with the same lookups iterate alike.\<close>

lemma iter_unique:
  assumes "wf m" "wf n" "get m = get n"
  shows "iter m = iter n"
proof (rule map_sorted_distinct_set_unique [where f = fst])
  have mem: "set (iter m) = set (iter n)"
    using assms by (auto simp: iter_get)
  then show "set (iter m) = set (iter n)" .
  have "inj_on fst (set (iter m))"
    using iter_get [OF assms(1)] by (intro inj_onI) (metis option.inject prod.collapse)
  then show "inj_on fst (set (iter m) \<union> set (iter n))" by (simp add: mem)
qed (use assms iter_sorted in \<open>auto simp: strict_sorted_iff\<close>)

end

interpretation bt: ordered_map "[]" bt_insert bt_remove bt_get "\<lambda>m. m" bt_wf
  by unfold_locales (auto simp: bt_wf_def [symmetric] bt_get_iff_mem)

lemma bt_get_from_iter: "bt_get (bt_from_iter xs) k = map_of (rev xs) k"
  using bt.get_fold_insert [of xs "[]" k] by (auto simp: bt_from_iter_def split: option.splits)

lemma bt_wf_from_iter [simp, intro]: "bt_wf (bt_from_iter xs)"
  using bt.wf_fold_insert [of "[]" xs] by (simp add: bt_from_iter_def)

section \<open>Chunks of a slice\<close>

text \<open>\<open>chunks(n)\<close> of a slice; it panics for \<open>n = 0\<close>.\<close>

function chunks_of :: "nat \<Rightarrow> 'a list \<Rightarrow> 'a list list" where
  "chunks_of n xs = (if n = 0 \<or> xs = [] then [] else take n xs # chunks_of n (drop n xs))"
  by pat_completeness auto
termination
  by (relation "measure (\<lambda>(n, xs). length xs)") auto

declare chunks_of.simps [simp del]

lemma chunks_of_Cons: "0 < n \<Longrightarrow> xs \<noteq> [] \<Longrightarrow> chunks_of n xs = take n xs # chunks_of n (drop n xs)"
  by (subst chunks_of.simps) simp

lemma concat_chunks_of: "0 < n \<Longrightarrow> concat (chunks_of n xs) = xs"
proof (induction n xs rule: chunks_of.induct)
  case (1 n xs)
  then show ?case by (subst chunks_of.simps) auto
qed


text \<open>Folding over the chunks, each element in turn, is folding over the list.\<close>

lemma fold_chunks_of: "0 < n \<Longrightarrow> fold (fold f) (chunks_of n xs) s = fold f xs s"
proof (induction n xs arbitrary: s rule: chunks_of.induct)
  case (1 n xs)
  show ?case
  proof (cases "xs = []")
    case False
    then have "fold (fold f) (chunks_of n xs) s = fold f (drop n xs) (fold f (take n xs) s)"
      using 1 by (subst chunks_of.simps) auto
    also have "\<dots> = fold f xs s"
      by (metis append_take_drop_id comp_apply fold_append)
    finally show ?thesis .
  qed (simp add: chunks_of.simps)
qed

section \<open>Keyed tables\<close>

text \<open>
  A table with a key, changed by steps that affect one key each: after any number of steps a lookup
  is the composition of the effects of the steps with its key, in order.
\<close>

locale keyed_table =
  fixes inv :: "'d \<Rightarrow> bool"
    and ok :: "'x \<Rightarrow> 'd \<Rightarrow> bool"
    and step :: "'x \<Rightarrow> 'd \<Rightarrow> 'd"
    and key :: "'x \<Rightarrow> 'k"
    and look :: "'d \<Rightarrow> 'k \<Rightarrow> 'v option"
    and eff :: "'x \<Rightarrow> 'v option \<Rightarrow> 'v option"
  assumes inv_step: "inv d \<Longrightarrow> ok x d \<Longrightarrow> inv (step x d)"
    and ok_step: "inv d \<Longrightarrow> ok x d \<Longrightarrow> ok y d \<Longrightarrow> ok y (step x d)"
    and look_step: "inv d \<Longrightarrow> ok x d \<Longrightarrow> look (step x d) i = (if i = key x then eff x (look d i) else look d i)"
begin

lemma fold_steps:
  assumes "inv d" and "\<forall>x \<in> set xs. ok x d"
  shows "inv (fold step xs d)
    \<and> (\<forall>i. look (fold step xs d) i = fold eff (filter (\<lambda>x. key x = i) xs) (look d i))"
  using assms
proof (induction xs arbitrary: d)
  case Nil
  then show ?case by simp
next
  case (Cons x xs)
  then have "inv (step x d)" "\<forall>y \<in> set xs. ok y (step x d)"
    by (auto intro: inv_step ok_step)
  then show ?case using Cons.IH [of "step x d"] Cons.prems by (simp add: look_step)
qed

end

text \<open>The values of a map whose keys are computed from its values: those with a given key.\<close>

lemma filter_bt_values:
  assumes "bt_wf m" and "\<forall>p \<in> set m. key (snd p) = fst p"
  shows "filter (\<lambda>v. Q v \<and> key v = i) (bt_values m) =
    (case bt_get m i of None \<Rightarrow> [] | Some v \<Rightarrow> if Q v then [v] else [])"
  using assms
proof (induction m)
  case Nil
  then show ?case by simp
next
  case (Cons p m)
  obtain k v where p: "p = (k, v)" by (cases p)
  have tail: "filter (\<lambda>v. Q v \<and> key v = i) (bt_values m) = (case bt_get m i of None \<Rightarrow> [] | Some v \<Rightarrow> if Q v then [v] else [])"
    using Cons by (simp add: p bt_wf_Cons)
  have "bt_get m k = None"
    using Cons.prems(1) by (auto simp: p bt_wf_Cons map_of_eq_None_iff)
  then show ?case using tail Cons.prems(2) by (auto simp: p)
qed

text \<open>Decoding keeps an order that only looks at what is decoded.\<close>

lemma map_sort_key:
  assumes "\<forall>x \<in> set xs. k x = k' (f x)"
  shows "map f (sort_key k xs) = sort_key k' (map f xs)"
proof -
  have ins: "map f (insort_key k x ys) = insort_key k' (f x) (map f ys)" if "\<forall>y \<in> insert x (set ys). k y = k' (f y)" for x ys
    using that by (induction ys) auto
  show ?thesis using assms
  proof (induction xs)
    case (Cons x xs)
    then show ?case using ins [of x "sort_key k xs"] by simp
  qed simp
qed

lemma filter_map_rows:
  assumes "\<forall>x \<in> set xs. p x = q (f x)"
  shows "map f (filter p xs) = filter q (map f xs)"
  using assms by (induction xs) auto

text \<open>Loops that keep the last value.\<close>

lemma fold_const_Some: "xs \<noteq> [] \<Longrightarrow> fold (\<lambda>(a, b) _. Some b) xs y \<noteq> None"
  by (induction xs arbitrary: y rule: rev_induct) (auto simp: case_prod_beta)

lemma filter_key_nonempty: "k \<in> fst ` set xs \<Longrightarrow> filter (\<lambda>x. fst x = k) xs \<noteq> []"
  by (induction xs) auto

lemma fold_last: "fold (\<lambda>r _. Some (f r)) xs y = (case xs of [] \<Rightarrow> y | _ \<Rightarrow> Some (f (last xs)))"
  by (induction xs arbitrary: y) (auto split: list.splits)

text \<open>Lookups in filtered and extended tables.\<close>

lemma get_filter_key: "map_of (filter (\<lambda>(k, v). P k) m) k = (if P k then map_of m k else None)"
  by (induction m) auto

lemma get_filter_key': "(\<And>k v. Q (k, v) = P k) \<Longrightarrow> map_of (filter Q m) k = (if P k then map_of m k else None)"
  by (induction m) auto

lemma bt_get_filter:
  "bt_wf m \<Longrightarrow> bt_get (filter P m) k = (case bt_get m k of Some v \<Rightarrow> if P (k, v) then Some v else None | None \<Rightarrow> None)"
proof (induction m)
  case (Cons x m)
  obtain k' v where x: "x = (k', v)" by (cases x)
  have "bt_get m k' = None" and wf: "bt_wf m"
    using Cons.prems by (force simp: x bt_wf_Cons map_of_eq_None_iff)+
  then show ?case using Cons.IH [OF wf] by (auto simp: x split: option.splits)
qed simp

lemma fold_keeps: "(\<And>x T. x \<in> set xs \<Longrightarrow> P T \<Longrightarrow> P (f x T)) \<Longrightarrow> P T \<Longrightarrow> P (fold f xs T)"
  by (induction xs arbitrary: T) auto

lemma fold_insert_wf: "bt_wf H \<Longrightarrow> bt_wf (fold (\<lambda>x. bt_insert (key x) (f x)) rows H)"
  by (induction rows arbitrary: H) auto

lemma fold_or_insert_wf: "bt_wf H \<Longrightarrow> bt_wf (fold (\<lambda>x. bt_or_insert (key x) (f x)) rows H)"
  by (induction rows arbitrary: H) auto

section \<open>Versioned tables\<close>

text \<open>
  A table of current values and an archive of the values that writes replaced, keyed by the version
  of the write. A write archives, under its version, the value each changed key had before.
\<close>

definition archived_write ::
  "('t \<Rightarrow> 'k \<Rightarrow> 'v option) \<Rightarrow> ('t \<Rightarrow> 'n \<Rightarrow> 'k \<Rightarrow> 'h option) \<Rightarrow> ('h \<Rightarrow> 'v option) \<Rightarrow> 'n \<Rightarrow> 'k set \<Rightarrow> 't \<Rightarrow> 't \<Rightarrow> bool" where
  "archived_write latest hist old n K T T' \<longleftrightarrow>
     (\<forall>k \<in> K. \<exists>h. hist T' n k = Some h \<and> old h = latest T k)
     \<and> (\<forall>k. k \<notin> K \<longrightarrow> hist T' n k = hist T n k \<and> latest T' k = latest T k)
     \<and> (\<forall>m. m \<noteq> n \<longrightarrow> hist T' m = hist T m)"

lemma archived_write_refl: "archived_write latest hist old n {} T T"
  by (simp add: archived_write_def)

lemma archived_writeI:
  "archived_write latest hist old n K T U \<Longrightarrow> K \<subseteq> R \<Longrightarrow> \<exists>K \<subseteq> R. archived_write latest hist old n K T U"
  by blast

text \<open>Writes to different keys under one version make one write.\<close>

lemma archived_write_join:
  assumes "archived_write latest hist old n K T U" "archived_write latest hist old n J U V" "K \<inter> J = {}"
  shows "archived_write latest hist old n (K \<union> J) T V"
  unfolding archived_write_def
proof (intro conjI ballI allI impI)
  fix k assume "k \<in> K \<union> J"
  then consider "k \<in> K" "k \<notin> J" | "k \<in> J" "k \<notin> K" using assms(3) by blast
  then show "\<exists>h. hist V n k = Some h \<and> old h = latest T k"
    using assms(1,2) by cases (auto simp: archived_write_def)
qed (use assms in \<open>auto simp: archived_write_def\<close>)

lemma archived_write_fold:
  assumes "\<And>x T. P T \<Longrightarrow> x \<in> set xs \<Longrightarrow> archived_write latest hist old n (keys x) T (f x T) \<and> P (f x T)"
    and "distinct xs" and "pairwise (\<lambda>x y. keys x \<inter> keys y = {}) (set xs)" and "P T"
  shows "archived_write latest hist old n (\<Union> (keys ` set xs)) T (fold f xs T) \<and> P (fold f xs T)"
  using assms
proof (induction xs arbitrary: T)
  case Nil
  then show ?case by (simp add: archived_write_refl)
next
  case (Cons x xs)
  have step: "archived_write latest hist old n (keys x) T (f x T)" "P (f x T)"
    using Cons.prems(1) [of T x] Cons.prems(4) by auto
  have rest: "archived_write latest hist old n (\<Union> (keys ` set xs)) (f x T) (fold f xs (f x T)) \<and> P (fold f xs (f x T))"
    by (rule Cons.IH) (use Cons.prems step in \<open>auto simp: pairwise_insert\<close>)
  have "keys x \<inter> \<Union> (keys ` set xs) = {}"
    using Cons.prems(2,3) by (auto simp: pairwise_insert)
  with step rest show ?case by (auto dest: archived_write_join)
qed

lemma archived_write_change:
  assumes "archived_write latest hist old n K T U" "hist V = hist U" "\<And>k. k \<notin> K \<Longrightarrow> latest V k = latest U k"
  shows "archived_write latest hist old n K T V"
  using assms by (simp add: archived_write_def)

lemma archived_write_cong:
  "archived_write latest hist old n K T U \<Longrightarrow> latest T' = latest T \<Longrightarrow> hist T' = hist T \<Longrightarrow>
     latest U' = latest U \<Longrightarrow> hist U' = hist U \<Longrightarrow> archived_write latest hist old n K T' U'"
  by (simp add: archived_write_def)

lemma archived_write_ex_cong:
  "\<exists>K \<subseteq> R. archived_write latest hist old n K T U \<Longrightarrow> latest T' = latest T \<Longrightarrow> hist T' = hist T \<Longrightarrow>
     latest U' = latest U \<Longrightarrow> hist U' = hist U \<Longrightarrow> \<exists>K \<subseteq> R. archived_write latest hist old n K T' U'"
  by (auto simp: archived_write_def)

lemma archived_write_elsewhere:
  "archived_write latest hist old n K T U \<Longrightarrow> \<not> (m = n \<and> k \<in> K) \<Longrightarrow> hist U m k = hist T m k"
  by (cases "m = n") (auto simp: archived_write_def)

text \<open>A run of writes at versions that the archive does not have yet for the keys in scope.\<close>

inductive versions ::
  "('t \<Rightarrow> 'k \<Rightarrow> 'v option) \<Rightarrow> ('t \<Rightarrow> 'n \<Rightarrow> 'k \<Rightarrow> 'h option) \<Rightarrow> ('h \<Rightarrow> 'v option) \<Rightarrow> 'k set \<Rightarrow> 'n list \<Rightarrow> 't \<Rightarrow> 't \<Rightarrow> bool"
  for latest hist old scope where
  versions_Nil: "versions latest hist old scope [] T T"
| versions_snoc: "versions latest hist old scope ns T U \<Longrightarrow> archived_write latest hist old n K U V \<Longrightarrow> K \<subseteq> scope \<Longrightarrow>
     \<forall>k \<in> scope. hist U n k = None \<Longrightarrow> n \<notin> set ns \<Longrightarrow> versions latest hist old scope (ns @ [n]) T V"

lemma versions_archive:
  "versions latest hist old scope ns T U \<Longrightarrow>
     hist U m k = (if m \<in> set ns \<and> k \<in> scope then hist U m k else hist T m k)
     \<and> (m \<in> set ns \<and> k \<in> scope \<longrightarrow> hist T m k = None)
     \<and> (k \<notin> scope \<longrightarrow> latest U k = latest T k)"
proof (induction rule: versions.induct)
  case (versions_snoc ns T U n K V)
  then show ?case by (cases "m = n") (auto simp: archived_write_def subset_eq split: if_splits)
qed simp

text \<open>
  Restoring a version puts back what the archive holds under it for the keys in scope. Restoring the
  versions of a run, the last one first, gives the values before the run, also when other versions
  were added to or removed from the archive meanwhile.
\<close>

locale versioned_table =
  fixes inv :: "'t \<Rightarrow> bool"
    and latest :: "'t \<Rightarrow> 'k \<Rightarrow> 'v option"
    and hist :: "'t \<Rightarrow> 'n \<Rightarrow> 'k \<Rightarrow> 'h option"
    and old :: "'h \<Rightarrow> 'v option"
    and scope :: "'k set"
    and restore :: "'n \<Rightarrow> 't \<Rightarrow> 't"
  assumes inv_restore: "inv T \<Longrightarrow> inv (restore n T)"
    and latest_restore: "inv T \<Longrightarrow> latest (restore n T) k =
      (case hist T n k of Some h \<Rightarrow> if k \<in> scope then old h else latest T k | None \<Rightarrow> latest T k)"
    and hist_restore: "inv T \<Longrightarrow> hist (restore n T) = hist T"
begin

lemma restore_run:
  assumes "versions latest hist old scope ns T T'" and "inv U" and "latest U = latest T'"
    and "\<forall>n \<in> set ns. \<forall>k \<in> scope. hist U n k = hist T' n k"
  shows "inv (fold restore (rev ns) U) \<and> latest (fold restore (rev ns) U) = latest T
    \<and> hist (fold restore (rev ns) U) = hist U"
  using assms
proof (induction arbitrary: U rule: versions.induct)
  case (versions_Nil T)
  then show ?case by simp
next
  case (versions_snoc ns T T1 n K T2)
  let ?R = "restore n U"
  have "latest ?R k = latest T1 k" for k
  proof (cases "k \<in> scope")
    case True
    then have "hist U n k = hist T2 n k" using versions_snoc.prems(3) by simp
    then show ?thesis using versions_snoc.hyps(2,4) versions_snoc.prems(1,2) True
      by (cases "k \<in> K") (auto simp: latest_restore archived_write_def)
  next
    case False
    then have "latest T2 k = latest T1 k"
      using versions_snoc.hyps(2,3) by (auto simp: archived_write_def)
    then show ?thesis using False versions_snoc.prems(1,2) by (auto simp: latest_restore split: option.splits)
  qed
  moreover have "\<forall>m \<in> set ns. \<forall>k \<in> scope. hist ?R m k = hist T1 m k"
    using versions_snoc.hyps(2,5) versions_snoc.prems(1,3)
    by (auto simp: hist_restore archived_write_def)
  ultimately have "inv (fold restore (rev ns) ?R) \<and> latest (fold restore (rev ns) ?R) = latest T
      \<and> hist (fold restore (rev ns) ?R) = hist ?R"
    using versions_snoc.IH [of ?R] versions_snoc.prems(1) by (simp add: inv_restore fun_eq_iff)
  then show ?case using versions_snoc.prems(1) by (simp add: hist_restore)
qed

end

section \<open>Lifecycles\<close>

text \<open>
  A lifecycle is a machine whose steps may fail, with final states that every further
  step keeps, together with what a final state has recorded.
\<close>

locale lifecycle =
  fixes step :: "'s \<Rightarrow> 'ev \<Rightarrow> 'e + 's"
    and final :: "'s \<Rightarrow> bool"
    and outcome :: "'s \<Rightarrow> 'o"
  assumes final_step: "final s \<Longrightarrow> step s ev = Inr t \<Longrightarrow> final t \<and> outcome t = outcome s"
begin

lemma final_run:
  assumes "final s" and "try_fold step s evs = Inr t"
  shows "final t \<and> outcome t = outcome s"
  by (rule try_fold_invariant [OF assms(2), where I = "\<lambda>u. final u \<and> outcome u = outcome s"])
    (use assms(1) final_step in auto)

end

end
