(* ===== verification/Protocol_Types.thy ===== *)
theory Protocol_Types
  imports Client_Prelude
begin

text \<open>
  The data of the \<open>miden_protocol\<close> crates that the client handles. The client compares
  identifiers and uses them as map keys, so an identifier is a value with equality and a
  total order and nothing else. Structured data carries the parts the client reads through
  accessors. What the protocol crates compute (identifiers, nullifiers, commitments, Merkle
  path verification) is not part of this repository: it is the argument \<open>protocol\<close> of the
  definitions that use it.
\<close>

section \<open>Identifiers\<close>

datatype digest = Digest (digest_raw: nat)

instantiation digest :: linorder
begin
definition less_eq_digest :: "digest \<Rightarrow> digest \<Rightarrow> bool" where
  "a \<le> b \<longleftrightarrow> digest_raw a \<le> digest_raw b"
definition less_digest :: "digest \<Rightarrow> digest \<Rightarrow> bool" where
  "a < b \<longleftrightarrow> digest_raw a < digest_raw b"
instance
  by standard (auto simp: less_eq_digest_def less_digest_def intro: digest.expand)
end

datatype note_id = NoteId (note_id_word: digest)

instantiation note_id :: linorder
begin
definition less_eq_note_id :: "note_id \<Rightarrow> note_id \<Rightarrow> bool" where
  "a \<le> b \<longleftrightarrow> note_id_word a \<le> note_id_word b"
definition less_note_id :: "note_id \<Rightarrow> note_id \<Rightarrow> bool" where
  "a < b \<longleftrightarrow> note_id_word a < note_id_word b"
instance
  by standard (auto simp: less_eq_note_id_def less_note_id_def intro: note_id.expand)
end

datatype nullifier = Nullifier (nullifier_word: digest)

instantiation nullifier :: linorder
begin
definition less_eq_nullifier :: "nullifier \<Rightarrow> nullifier \<Rightarrow> bool" where
  "a \<le> b \<longleftrightarrow> nullifier_word a \<le> nullifier_word b"
definition less_nullifier :: "nullifier \<Rightarrow> nullifier \<Rightarrow> bool" where
  "a < b \<longleftrightarrow> nullifier_word a < nullifier_word b"
instance
  by standard (auto simp: less_eq_nullifier_def less_nullifier_def intro: nullifier.expand)
end

datatype transaction_id = TransactionId (transaction_id_word: digest)

instantiation transaction_id :: linorder
begin
definition less_eq_transaction_id :: "transaction_id \<Rightarrow> transaction_id \<Rightarrow> bool" where
  "a \<le> b \<longleftrightarrow> transaction_id_word a \<le> transaction_id_word b"
definition less_transaction_id :: "transaction_id \<Rightarrow> transaction_id \<Rightarrow> bool" where
  "a < b \<longleftrightarrow> transaction_id_word a < transaction_id_word b"
instance
  by standard
    (auto simp: less_eq_transaction_id_def less_transaction_id_def intro: transaction_id.expand)
end

datatype account_id = AccountId (account_id_raw: nat)

instantiation account_id :: linorder
begin
definition less_eq_account_id :: "account_id \<Rightarrow> account_id \<Rightarrow> bool" where
  "a \<le> b \<longleftrightarrow> account_id_raw a \<le> account_id_raw b"
definition less_account_id :: "account_id \<Rightarrow> account_id \<Rightarrow> bool" where
  "a < b \<longleftrightarrow> account_id_raw a < account_id_raw b"
instance
  by standard (auto simp: less_eq_account_id_def less_account_id_def intro: account_id.expand)
end

lemmas id_order_defs =
  less_eq_digest_def less_digest_def less_eq_note_id_def less_note_id_def
  less_eq_nullifier_def less_nullifier_def less_eq_transaction_id_def less_transaction_id_def
  less_eq_account_id_def less_account_id_def

section \<open>Notes, proofs and headers\<close>

type_synonym note_tag = u32

datatype note_type = PublicNote | PrivateNote

datatype asset =
    Fungible account_id u64
  | NonFungible account_id digest

type_synonym note_assets = "asset list"

record note_metadata =
  md_sender :: account_id
  md_note_type :: note_type
  md_tag :: note_tag
  md_attachment :: digest

record note_recipient =
  rc_serial_num :: digest
  rc_script_root :: digest
  rc_storage_commitment :: digest

record note_details =
  nd_assets :: note_assets
  nd_recipient :: note_recipient

record full_note =
  nt_assets :: note_assets
  nt_metadata :: note_metadata
  nt_recipient :: note_recipient

definition note_into_details :: "full_note \<Rightarrow> note_details" where
  "note_into_details n = \<lparr>nd_assets = nt_assets n, nd_recipient = nt_recipient n\<rparr>"

record partial_note =
  pn_metadata :: note_metadata
  pn_recipient_digest :: digest
  pn_assets :: note_assets

datatype raw_output_note = FullOutput full_note | PartialOutput partial_note

record note_inclusion_proof =
  ip_block_num :: block_number
  ip_block_note_tree_index :: u16
  ip_note_path :: "digest list"

datatype input_note =
    Authenticated full_note note_inclusion_proof
  | Unauthenticated full_note

datatype note_file =
    FileNoteId note_id
  | FileNoteDetails note_details block_number "note_tag option"
  | FileNoteWithProof full_note note_inclusion_proof

datatype public_key = PublicKey nat

record fee_parameters =
  fp_native_asset_id :: account_id
  fp_verification_base_fee :: u32

record block_header =
  bh_version :: u32
  bh_prev_commitment :: digest
  bh_block_num :: block_number
  bh_chain_commitment :: digest
  bh_account_root :: digest
  bh_nullifier_root :: digest
  bh_note_root :: digest
  bh_tx_commitment :: digest
  bh_tx_kernel_commitment :: digest
  bh_validator_key :: public_key
  bh_fee_parameters :: fee_parameters
  bh_timestamp :: u32

text \<open>What the decoders of the protocol crates report.\<close>

datatype deserialization_error =
    InvalidValue string
  | UnexpectedEOF
  | UnknownError string

section \<open>The protocol crates as a parameter\<close>

record protocol =
  details_id :: "note_details \<Rightarrow> note_id"
  details_nullifier :: "note_details \<Rightarrow> nullifier"
  recipient_digest :: "note_recipient \<Rightarrow> digest"
  assets_commitment :: "note_assets \<Rightarrow> digest"
  note_id_new :: "digest \<Rightarrow> digest \<Rightarrow> note_id"
  nullifier_new :: "digest \<Rightarrow> digest \<Rightarrow> digest \<Rightarrow> digest \<Rightarrow> nullifier"
  note_commitment :: "note_id \<Rightarrow> note_metadata \<Rightarrow> digest"
  verify_path :: "digest list \<Rightarrow> u64 \<Rightarrow> digest \<Rightarrow> digest \<Rightarrow> bool"
  header_commitment :: "block_header \<Rightarrow> digest"
  id_is_private :: "account_id \<Rightarrow> bool"
  note_id_display :: "note_id \<Rightarrow> string"
  nullifier_prefix :: "nullifier \<Rightarrow> u16"

abbreviation note_get_id :: "protocol \<Rightarrow> full_note \<Rightarrow> note_id" where
  "note_get_id P n \<equiv> details_id P (note_into_details n)"

abbreviation note_get_nullifier :: "protocol \<Rightarrow> full_note \<Rightarrow> nullifier" where
  "note_get_nullifier P n \<equiv> details_nullifier P (note_into_details n)"

text \<open>
  A concrete protocol for evaluation: identifiers are read off the serial number, the
  commitment of a note is its identifier's word and a Merkle path is valid when it is the
  committed node followed by the root.
\<close>

definition sample_protocol :: protocol where
  "sample_protocol =
    \<lparr>details_id = (\<lambda>d. NoteId (rc_serial_num (nd_recipient d))),
     details_nullifier = (\<lambda>d. Nullifier (rc_serial_num (nd_recipient d))),
     recipient_digest = rc_serial_num,
     assets_commitment = (\<lambda>as. Digest (length as)),
     note_id_new = (\<lambda>r a. NoteId r),
     nullifier_new = (\<lambda>sr st ac sn. Nullifier sn),
     note_commitment = (\<lambda>i m. note_id_word i),
     verify_path = (\<lambda>path idx node root. path = [node, root]),
     header_commitment = bh_note_root,
     id_is_private = (\<lambda>a. even (account_id_raw a)),
     note_id_display = (\<lambda>i. ''0x''),
     nullifier_prefix = (\<lambda>nf. of_nat (digest_raw (nullifier_word nf)))\<rparr>"

text \<open>Sample values for evaluation: the note with serial number \<open>k\<close>, a proof and a header.\<close>

definition sample_metadata :: note_metadata where
  "sample_metadata =
    \<lparr>md_sender = AccountId 1, md_note_type = PublicNote, md_tag = 9, md_attachment = Digest 0\<rparr>"

definition sample_recipient :: "nat \<Rightarrow> note_recipient" where
  "sample_recipient k =
    \<lparr>rc_serial_num = Digest k, rc_script_root = Digest 1, rc_storage_commitment = Digest 2\<rparr>"

definition sample_note :: "nat \<Rightarrow> full_note" where
  "sample_note k =
    \<lparr>nt_assets = [Fungible (AccountId 3) 10], nt_metadata = sample_metadata,
     nt_recipient = sample_recipient k\<rparr>"

definition sample_proof :: "nat \<Rightarrow> note_inclusion_proof" where
  "sample_proof k =
    \<lparr>ip_block_num = 7, ip_block_note_tree_index = 0, ip_note_path = [Digest k, Digest 100]\<rparr>"

definition sample_header :: block_header where
  "sample_header =
    \<lparr>bh_version = 1, bh_prev_commitment = Digest 0, bh_block_num = 7, bh_chain_commitment = Digest 0,
     bh_account_root = Digest 0, bh_nullifier_root = Digest 0, bh_note_root = Digest 100,
     bh_tx_commitment = Digest 0, bh_tx_kernel_commitment = Digest 0,
     bh_validator_key = PublicKey 0,
     bh_fee_parameters = \<lparr>fp_native_asset_id = AccountId 9, fp_verification_base_fee = 0\<rparr>,
     bh_timestamp = 1000\<rparr>"

lemmas sample_defs =
  sample_protocol_def sample_metadata_def sample_recipient_def sample_note_def sample_proof_def
  sample_header_def note_into_details_def

end
