(* ===== verification/Input_Note_State.thy ===== *)
theory Input_Note_State
  imports Protocol_Types
begin

text \<open>
  The states of an input note (\<^verbatim>\<open>store/note_record/input_note_record/states\<close>): one record per
  state struct, one definition per method of its \<open>NoteStateHandler\<close> implementation, and the
  dispatch of \<open>InputNoteState\<close>. A handler returns an error, \<open>None\<close> when the state does not
  change, or the new state.
\<close>

section \<open>Errors and submission data\<close>

datatype note_record_error =
    ConversionError string
  | NoteError
  | NoteNotConsumable string
  | InvalidStateTransition string
  | StateTransitionError string

record note_submission_data =
  submitted_at :: "u64 option"
  consumer_account :: account_id
  consumer_transaction :: transaction_id

section \<open>State structs\<close>

record expected_note_state =
  ex_metadata :: "note_metadata option"
  ex_after_block_num :: block_number
  ex_tag :: "note_tag option"

record unverified_note_state =
  uv_metadata :: note_metadata
  uv_inclusion_proof :: note_inclusion_proof

record committed_note_state =
  cm_metadata :: note_metadata
  cm_inclusion_proof :: note_inclusion_proof
  cm_block_note_root :: digest

record invalid_note_state =
  iv_metadata :: note_metadata
  iv_invalid_inclusion_proof :: note_inclusion_proof
  iv_block_note_root :: digest

record processing_authenticated_note_state =
  pa_metadata :: note_metadata
  pa_inclusion_proof :: note_inclusion_proof
  pa_block_note_root :: digest
  pa_submission_data :: note_submission_data

record processing_unauthenticated_note_state =
  pu_metadata :: note_metadata
  pu_after_block_num :: block_number
  pu_submission_data :: note_submission_data

record consumed_authenticated_local_note_state =
  ca_metadata :: note_metadata
  ca_inclusion_proof :: note_inclusion_proof
  ca_block_note_root :: digest
  ca_nullifier_block_height :: block_number
  ca_submission_data :: note_submission_data
  ca_consumed_tx_order :: "u32 option"

record consumed_unauthenticated_local_note_state =
  cu_metadata :: note_metadata
  cu_nullifier_block_height :: block_number
  cu_submission_data :: note_submission_data
  cu_consumed_tx_order :: "u32 option"

record consumed_external_note_state =
  ce_nullifier_block_height :: block_number
  ce_consumed_tx_order :: "u32 option"

datatype input_note_state =
    Expected expected_note_state
  | Unverified unverified_note_state
  | Committed committed_note_state
  | Invalid invalid_note_state
  | ProcessingAuthenticated processing_authenticated_note_state
  | ProcessingUnauthenticated processing_unauthenticated_note_state
  | ConsumedAuthenticatedLocal consumed_authenticated_local_note_state
  | ConsumedUnauthenticatedLocal consumed_unauthenticated_local_note_state
  | ConsumedExternal consumed_external_note_state

type_synonym transition_result = "note_record_error + input_note_state option"

text \<open>The check of an inclusion proof against the note root of a block header.\<close>

definition proof_verifies ::
  "protocol \<Rightarrow> note_id \<Rightarrow> note_metadata \<Rightarrow> note_inclusion_proof \<Rightarrow> digest \<Rightarrow> bool" where
  "proof_verifies P i md pr root \<longleftrightarrow>
     verify_path P (ip_note_path pr) (ucast (ip_block_note_tree_index pr))
       (note_commitment P i md) root"

section \<open>\<open>ExpectedNoteState\<close>\<close>

definition expected_inclusion_proof_received ::
  "expected_note_state \<Rightarrow> note_inclusion_proof \<Rightarrow> note_metadata \<Rightarrow> transition_result" where
  "expected_inclusion_proof_received st pr md =
     Inr (Some (Unverified \<lparr>uv_metadata = md, uv_inclusion_proof = pr\<rparr>))"

definition expected_consumed_externally ::
  "expected_note_state \<Rightarrow> block_number \<Rightarrow> transition_result" where
  "expected_consumed_externally st h =
     Inr (Some (ConsumedExternal
       \<lparr>ce_nullifier_block_height = h, ce_consumed_tx_order = None\<rparr>))"

definition expected_block_header_received ::
  "protocol \<Rightarrow> expected_note_state \<Rightarrow> note_id \<Rightarrow> block_header \<Rightarrow> transition_result" where
  "expected_block_header_received P st i hdr =
     Inl (StateTransitionError ''Can't verify an expected note'')"

definition expected_consumed_locally ::
  "expected_note_state \<Rightarrow> account_id \<Rightarrow> transaction_id \<Rightarrow> u64 option \<Rightarrow> transition_result" where
  "expected_consumed_locally st acc tx ts =
     (case ex_metadata st of
        None \<Rightarrow> Inl (NoteNotConsumable ''Can't consume note without metadata'')
      | Some md \<Rightarrow> Inr (Some (ProcessingUnauthenticated
          \<lparr>pu_metadata = md,
           pu_after_block_num = ex_after_block_num st,
           pu_submission_data = \<lparr>submitted_at = ts, consumer_account = acc,
          consumer_transaction = tx\<rparr>\<rparr>)))"

definition expected_transaction_committed ::
  "expected_note_state \<Rightarrow> transaction_id \<Rightarrow> block_number \<Rightarrow> transition_result" where
  "expected_transaction_committed st tx h =
     Inl (InvalidStateTransition
       ''Only processing notes can be committed in a local transaction'')"

definition expected_metadata ::
  "expected_note_state \<Rightarrow> note_metadata option" where
  "expected_metadata st =
     ex_metadata st"

definition expected_inclusion_proof ::
  "expected_note_state \<Rightarrow> note_inclusion_proof option" where
  "expected_inclusion_proof st =
     None"

definition expected_consumer_transaction_id ::
  "expected_note_state \<Rightarrow> transaction_id option" where
  "expected_consumer_transaction_id st =
     None"

section \<open>\<open>UnverifiedNoteState\<close>\<close>

definition unverified_inclusion_proof_received ::
  "unverified_note_state \<Rightarrow> note_inclusion_proof \<Rightarrow> note_metadata \<Rightarrow> transition_result" where
  "unverified_inclusion_proof_received st pr md =
     Inr (Some (Unverified \<lparr>uv_metadata = md, uv_inclusion_proof = pr\<rparr>))"

definition unverified_consumed_externally ::
  "unverified_note_state \<Rightarrow> block_number \<Rightarrow> transition_result" where
  "unverified_consumed_externally st h =
     Inr (Some (ConsumedExternal
       \<lparr>ce_nullifier_block_height = h, ce_consumed_tx_order = None\<rparr>))"

definition unverified_block_header_received ::
  "protocol \<Rightarrow> unverified_note_state \<Rightarrow> note_id \<Rightarrow> block_header \<Rightarrow> transition_result" where
  "unverified_block_header_received P st i hdr =
     (if proof_verifies P i (uv_metadata st) (uv_inclusion_proof st) (bh_note_root hdr)
      then Inr (Some (Committed
            \<lparr>cm_metadata = uv_metadata st,
             cm_inclusion_proof = uv_inclusion_proof st,
             cm_block_note_root = bh_note_root hdr\<rparr>))
      else Inr (Some (Invalid
            \<lparr>iv_metadata = uv_metadata st,
             iv_invalid_inclusion_proof = uv_inclusion_proof st,
             iv_block_note_root = bh_note_root hdr\<rparr>)))"

definition unverified_consumed_locally ::
  "unverified_note_state \<Rightarrow> account_id \<Rightarrow> transaction_id \<Rightarrow> u64 option \<Rightarrow> transition_result" where
  "unverified_consumed_locally st acc tx ts =
     (let after_block_num = saturating_sub (ip_block_num (uv_inclusion_proof st)) 1
      in Inr (Some (ProcessingUnauthenticated
          \<lparr>pu_metadata = uv_metadata st,
           pu_after_block_num = after_block_num,
           pu_submission_data = \<lparr>submitted_at = None, consumer_account = acc,
          consumer_transaction = tx\<rparr>\<rparr>)))"

definition unverified_transaction_committed ::
  "unverified_note_state \<Rightarrow> transaction_id \<Rightarrow> block_number \<Rightarrow> transition_result" where
  "unverified_transaction_committed st tx h =
     Inl (InvalidStateTransition
       ''Only processing notes can be committed in a local transaction'')"

definition unverified_metadata ::
  "unverified_note_state \<Rightarrow> note_metadata option" where
  "unverified_metadata st =
     Some (uv_metadata st)"

definition unverified_inclusion_proof ::
  "unverified_note_state \<Rightarrow> note_inclusion_proof option" where
  "unverified_inclusion_proof st =
     Some (uv_inclusion_proof st)"

definition unverified_consumer_transaction_id ::
  "unverified_note_state \<Rightarrow> transaction_id option" where
  "unverified_consumer_transaction_id st =
     None"

section \<open>\<open>CommittedNoteState\<close>\<close>

definition committed_inclusion_proof_received ::
  "committed_note_state \<Rightarrow> note_inclusion_proof \<Rightarrow> note_metadata \<Rightarrow> transition_result" where
  "committed_inclusion_proof_received st pr md =
     (if cm_inclusion_proof st \<noteq> pr \<or> cm_metadata st \<noteq> md
      then Inl (StateTransitionError
        ''Inclusion proof or metadata do not match the expected values'')
      else Inr None)"

definition committed_consumed_externally ::
  "committed_note_state \<Rightarrow> block_number \<Rightarrow> transition_result" where
  "committed_consumed_externally st h =
     Inr (Some (ConsumedExternal
       \<lparr>ce_nullifier_block_height = h, ce_consumed_tx_order = None\<rparr>))"

definition committed_block_header_received ::
  "protocol \<Rightarrow> committed_note_state \<Rightarrow> note_id \<Rightarrow> block_header \<Rightarrow> transition_result" where
  "committed_block_header_received P st i hdr =
     (if bh_note_root hdr \<noteq> cm_block_note_root st
      then Inl (StateTransitionError ''Block header does not match the expected note root'')
      else Inr None)"

definition committed_consumed_locally ::
  "committed_note_state \<Rightarrow> account_id \<Rightarrow> transaction_id \<Rightarrow> u64 option \<Rightarrow> transition_result" where
  "committed_consumed_locally st acc tx ts =
     Inr (Some (ProcessingAuthenticated
          \<lparr>pa_metadata = cm_metadata st,
           pa_inclusion_proof = cm_inclusion_proof st,
           pa_block_note_root = cm_block_note_root st,
           pa_submission_data = \<lparr>submitted_at = ts, consumer_account = acc,
          consumer_transaction = tx\<rparr>\<rparr>))"

definition committed_transaction_committed ::
  "committed_note_state \<Rightarrow> transaction_id \<Rightarrow> block_number \<Rightarrow> transition_result" where
  "committed_transaction_committed st tx h =
     Inl (InvalidStateTransition
       ''Only processing notes can be committed in a local transaction'')"

definition committed_metadata ::
  "committed_note_state \<Rightarrow> note_metadata option" where
  "committed_metadata st =
     Some (cm_metadata st)"

definition committed_inclusion_proof ::
  "committed_note_state \<Rightarrow> note_inclusion_proof option" where
  "committed_inclusion_proof st =
     Some (cm_inclusion_proof st)"

definition committed_consumer_transaction_id ::
  "committed_note_state \<Rightarrow> transaction_id option" where
  "committed_consumer_transaction_id st =
     None"

section \<open>\<open>InvalidNoteState\<close>\<close>

definition invalid_inclusion_proof_received ::
  "invalid_note_state \<Rightarrow> note_inclusion_proof \<Rightarrow> note_metadata \<Rightarrow> transition_result" where
  "invalid_inclusion_proof_received st pr md =
     Inr (Some (Unverified \<lparr>uv_metadata = md, uv_inclusion_proof = pr\<rparr>))"

definition invalid_consumed_externally ::
  "invalid_note_state \<Rightarrow> block_number \<Rightarrow> transition_result" where
  "invalid_consumed_externally st h =
     Inr (Some (ConsumedExternal
       \<lparr>ce_nullifier_block_height = h, ce_consumed_tx_order = None\<rparr>))"

definition invalid_block_header_received ::
  "protocol \<Rightarrow> invalid_note_state \<Rightarrow> note_id \<Rightarrow> block_header \<Rightarrow> transition_result" where
  "invalid_block_header_received P st i hdr =
     (if proof_verifies P i (iv_metadata st) (iv_invalid_inclusion_proof st) (bh_note_root hdr)
      then Inr (Some (Committed
            \<lparr>cm_metadata = iv_metadata st,
             cm_inclusion_proof = iv_invalid_inclusion_proof st,
             cm_block_note_root = bh_note_root hdr\<rparr>))
      else Inr None)"

definition invalid_consumed_locally ::
  "invalid_note_state \<Rightarrow> account_id \<Rightarrow> transaction_id \<Rightarrow> u64 option \<Rightarrow> transition_result" where
  "invalid_consumed_locally st acc tx ts =
     Inl (NoteNotConsumable ''Can't consume invalid note'')"

definition invalid_transaction_committed ::
  "invalid_note_state \<Rightarrow> transaction_id \<Rightarrow> block_number \<Rightarrow> transition_result" where
  "invalid_transaction_committed st tx h =
     Inl (InvalidStateTransition
       ''Only processing notes can be committed in a local transaction'')"

definition invalid_metadata ::
  "invalid_note_state \<Rightarrow> note_metadata option" where
  "invalid_metadata st =
     Some (iv_metadata st)"

definition invalid_inclusion_proof ::
  "invalid_note_state \<Rightarrow> note_inclusion_proof option" where
  "invalid_inclusion_proof st =
     Some (iv_invalid_inclusion_proof st)"

definition invalid_consumer_transaction_id ::
  "invalid_note_state \<Rightarrow> transaction_id option" where
  "invalid_consumer_transaction_id st =
     None"

section \<open>\<open>ProcessingAuthenticatedNoteState\<close>\<close>

definition processing_authenticated_inclusion_proof_received ::
  "processing_authenticated_note_state \<Rightarrow> note_inclusion_proof \<Rightarrow> note_metadata \<Rightarrow> transition_result" where
  "processing_authenticated_inclusion_proof_received st pr md =
     (if pa_inclusion_proof st \<noteq> pr \<or> pa_metadata st \<noteq> md
      then Inl (StateTransitionError
        ''Inclusion proof or metadata do not match the expected values'')
      else Inr None)"

definition processing_authenticated_consumed_externally ::
  "processing_authenticated_note_state \<Rightarrow> block_number \<Rightarrow> transition_result" where
  "processing_authenticated_consumed_externally st h =
     Inr (Some (ConsumedExternal
       \<lparr>ce_nullifier_block_height = h, ce_consumed_tx_order = None\<rparr>))"

definition processing_authenticated_block_header_received ::
  "protocol \<Rightarrow> processing_authenticated_note_state \<Rightarrow> note_id \<Rightarrow> block_header \<Rightarrow> transition_result" where
  "processing_authenticated_block_header_received P st i hdr =
     Inr None"

definition processing_authenticated_consumed_locally ::
  "processing_authenticated_note_state \<Rightarrow> account_id \<Rightarrow> transaction_id \<Rightarrow> u64 option \<Rightarrow> transition_result" where
  "processing_authenticated_consumed_locally st acc tx ts =
     Inl (NoteNotConsumable ''Note being consumed'')"

definition processing_authenticated_transaction_committed ::
  "processing_authenticated_note_state \<Rightarrow> transaction_id \<Rightarrow> block_number \<Rightarrow> transition_result" where
  "processing_authenticated_transaction_committed st tx h =
     (if tx \<noteq> consumer_transaction (pa_submission_data st)
      then Inl (StateTransitionError ''Transaction ID does not match the expected value'')
      else Inr (Some (ConsumedAuthenticatedLocal
            \<lparr>ca_metadata = pa_metadata st,
             ca_inclusion_proof = pa_inclusion_proof st,
             ca_block_note_root = pa_block_note_root st,
             ca_nullifier_block_height = h,
             ca_submission_data = pa_submission_data st,
             ca_consumed_tx_order = None\<rparr>)))"

definition processing_authenticated_metadata ::
  "processing_authenticated_note_state \<Rightarrow> note_metadata option" where
  "processing_authenticated_metadata st =
     Some (pa_metadata st)"

definition processing_authenticated_inclusion_proof ::
  "processing_authenticated_note_state \<Rightarrow> note_inclusion_proof option" where
  "processing_authenticated_inclusion_proof st =
     Some (pa_inclusion_proof st)"

definition processing_authenticated_consumer_transaction_id ::
  "processing_authenticated_note_state \<Rightarrow> transaction_id option" where
  "processing_authenticated_consumer_transaction_id st =
     Some (consumer_transaction (pa_submission_data st))"

section \<open>\<open>ProcessingUnauthenticatedNoteState\<close>\<close>

definition processing_unauthenticated_inclusion_proof_received ::
  "processing_unauthenticated_note_state \<Rightarrow> note_inclusion_proof \<Rightarrow> note_metadata \<Rightarrow> transition_result" where
  "processing_unauthenticated_inclusion_proof_received st pr md =
     Inr None"

definition processing_unauthenticated_consumed_externally ::
  "processing_unauthenticated_note_state \<Rightarrow> block_number \<Rightarrow> transition_result" where
  "processing_unauthenticated_consumed_externally st h =
     Inr (Some (ConsumedExternal
       \<lparr>ce_nullifier_block_height = h, ce_consumed_tx_order = None\<rparr>))"

definition processing_unauthenticated_block_header_received ::
  "protocol \<Rightarrow> processing_unauthenticated_note_state \<Rightarrow> note_id \<Rightarrow> block_header \<Rightarrow> transition_result" where
  "processing_unauthenticated_block_header_received P st i hdr =
     Inr None"

definition processing_unauthenticated_consumed_locally ::
  "processing_unauthenticated_note_state \<Rightarrow> account_id \<Rightarrow> transaction_id \<Rightarrow> u64 option \<Rightarrow> transition_result" where
  "processing_unauthenticated_consumed_locally st acc tx ts =
     Inl (NoteNotConsumable ''Note being consumed'')"

definition processing_unauthenticated_transaction_committed ::
  "processing_unauthenticated_note_state \<Rightarrow> transaction_id \<Rightarrow> block_number \<Rightarrow> transition_result" where
  "processing_unauthenticated_transaction_committed st tx h =
     (if tx \<noteq> consumer_transaction (pu_submission_data st)
      then Inl (StateTransitionError ''Transaction ID does not match the expected value'')
      else Inr (Some (ConsumedUnauthenticatedLocal
            \<lparr>cu_metadata = pu_metadata st,
             cu_nullifier_block_height = h,
             cu_submission_data = pu_submission_data st,
             cu_consumed_tx_order = None\<rparr>)))"

definition processing_unauthenticated_metadata ::
  "processing_unauthenticated_note_state \<Rightarrow> note_metadata option" where
  "processing_unauthenticated_metadata st =
     Some (pu_metadata st)"

definition processing_unauthenticated_inclusion_proof ::
  "processing_unauthenticated_note_state \<Rightarrow> note_inclusion_proof option" where
  "processing_unauthenticated_inclusion_proof st =
     None"

definition processing_unauthenticated_consumer_transaction_id ::
  "processing_unauthenticated_note_state \<Rightarrow> transaction_id option" where
  "processing_unauthenticated_consumer_transaction_id st =
     Some (consumer_transaction (pu_submission_data st))"

section \<open>\<open>ConsumedAuthenticatedLocalNoteState\<close>\<close>

definition consumed_authenticated_local_inclusion_proof_received ::
  "consumed_authenticated_local_note_state \<Rightarrow> note_inclusion_proof \<Rightarrow> note_metadata \<Rightarrow> transition_result" where
  "consumed_authenticated_local_inclusion_proof_received st pr md =
     Inr None"

definition consumed_authenticated_local_consumed_externally ::
  "consumed_authenticated_local_note_state \<Rightarrow> block_number \<Rightarrow> transition_result" where
  "consumed_authenticated_local_consumed_externally st h =
     Inr None"

definition consumed_authenticated_local_block_header_received ::
  "protocol \<Rightarrow> consumed_authenticated_local_note_state \<Rightarrow> note_id \<Rightarrow> block_header \<Rightarrow> transition_result" where
  "consumed_authenticated_local_block_header_received P st i hdr =
     Inr None"

definition consumed_authenticated_local_consumed_locally ::
  "consumed_authenticated_local_note_state \<Rightarrow> account_id \<Rightarrow> transaction_id \<Rightarrow> u64 option \<Rightarrow> transition_result" where
  "consumed_authenticated_local_consumed_locally st acc tx ts =
     Inl (NoteNotConsumable ''Note already consumed'')"

definition consumed_authenticated_local_transaction_committed ::
  "consumed_authenticated_local_note_state \<Rightarrow> transaction_id \<Rightarrow> block_number \<Rightarrow> transition_result" where
  "consumed_authenticated_local_transaction_committed st tx h =
     Inl (InvalidStateTransition
       ''Only processing notes can be committed in a local transaction'')"

definition consumed_authenticated_local_metadata ::
  "consumed_authenticated_local_note_state \<Rightarrow> note_metadata option" where
  "consumed_authenticated_local_metadata st =
     Some (ca_metadata st)"

definition consumed_authenticated_local_inclusion_proof ::
  "consumed_authenticated_local_note_state \<Rightarrow> note_inclusion_proof option" where
  "consumed_authenticated_local_inclusion_proof st =
     Some (ca_inclusion_proof st)"

definition consumed_authenticated_local_consumer_transaction_id ::
  "consumed_authenticated_local_note_state \<Rightarrow> transaction_id option" where
  "consumed_authenticated_local_consumer_transaction_id st =
     Some (consumer_transaction (ca_submission_data st))"

section \<open>\<open>ConsumedUnauthenticatedLocalNoteState\<close>\<close>

definition consumed_unauthenticated_local_inclusion_proof_received ::
  "consumed_unauthenticated_local_note_state \<Rightarrow> note_inclusion_proof \<Rightarrow> note_metadata \<Rightarrow> transition_result" where
  "consumed_unauthenticated_local_inclusion_proof_received st pr md =
     Inr None"

definition consumed_unauthenticated_local_consumed_externally ::
  "consumed_unauthenticated_local_note_state \<Rightarrow> block_number \<Rightarrow> transition_result" where
  "consumed_unauthenticated_local_consumed_externally st h =
     Inr None"

definition consumed_unauthenticated_local_block_header_received ::
  "protocol \<Rightarrow> consumed_unauthenticated_local_note_state \<Rightarrow> note_id \<Rightarrow> block_header \<Rightarrow> transition_result" where
  "consumed_unauthenticated_local_block_header_received P st i hdr =
     Inr None"

definition consumed_unauthenticated_local_consumed_locally ::
  "consumed_unauthenticated_local_note_state \<Rightarrow> account_id \<Rightarrow> transaction_id \<Rightarrow> u64 option \<Rightarrow> transition_result" where
  "consumed_unauthenticated_local_consumed_locally st acc tx ts =
     Inl (NoteNotConsumable ''Note already consumed'')"

definition consumed_unauthenticated_local_transaction_committed ::
  "consumed_unauthenticated_local_note_state \<Rightarrow> transaction_id \<Rightarrow> block_number \<Rightarrow> transition_result" where
  "consumed_unauthenticated_local_transaction_committed st tx h =
     Inl (InvalidStateTransition
       ''Only processing notes can be committed in a local transaction'')"

definition consumed_unauthenticated_local_metadata ::
  "consumed_unauthenticated_local_note_state \<Rightarrow> note_metadata option" where
  "consumed_unauthenticated_local_metadata st =
     Some (cu_metadata st)"

definition consumed_unauthenticated_local_inclusion_proof ::
  "consumed_unauthenticated_local_note_state \<Rightarrow> note_inclusion_proof option" where
  "consumed_unauthenticated_local_inclusion_proof st =
     None"

definition consumed_unauthenticated_local_consumer_transaction_id ::
  "consumed_unauthenticated_local_note_state \<Rightarrow> transaction_id option" where
  "consumed_unauthenticated_local_consumer_transaction_id st =
     Some (consumer_transaction (cu_submission_data st))"

section \<open>\<open>ConsumedExternalNoteState\<close>\<close>

definition consumed_external_inclusion_proof_received ::
  "consumed_external_note_state \<Rightarrow> note_inclusion_proof \<Rightarrow> note_metadata \<Rightarrow> transition_result" where
  "consumed_external_inclusion_proof_received st pr md =
     Inr None"

definition consumed_external_consumed_externally ::
  "consumed_external_note_state \<Rightarrow> block_number \<Rightarrow> transition_result" where
  "consumed_external_consumed_externally st h =
     Inr None"

definition consumed_external_block_header_received ::
  "protocol \<Rightarrow> consumed_external_note_state \<Rightarrow> note_id \<Rightarrow> block_header \<Rightarrow> transition_result" where
  "consumed_external_block_header_received P st i hdr =
     Inr None"

definition consumed_external_consumed_locally ::
  "consumed_external_note_state \<Rightarrow> account_id \<Rightarrow> transaction_id \<Rightarrow> u64 option \<Rightarrow> transition_result" where
  "consumed_external_consumed_locally st acc tx ts =
     Inl (NoteNotConsumable ''Note already consumed'')"

definition consumed_external_transaction_committed ::
  "consumed_external_note_state \<Rightarrow> transaction_id \<Rightarrow> block_number \<Rightarrow> transition_result" where
  "consumed_external_transaction_committed st tx h =
     Inl (InvalidStateTransition
       ''Only processing notes can be committed in a local transaction'')"

definition consumed_external_metadata ::
  "consumed_external_note_state \<Rightarrow> note_metadata option" where
  "consumed_external_metadata st =
     None"

definition consumed_external_inclusion_proof ::
  "consumed_external_note_state \<Rightarrow> note_inclusion_proof option" where
  "consumed_external_inclusion_proof st =
     None"

definition consumed_external_consumer_transaction_id ::
  "consumed_external_note_state \<Rightarrow> transaction_id option" where
  "consumed_external_consumer_transaction_id st =
     None"

section \<open>\<open>InputNoteState\<close>\<close>

text \<open>The dispatch through \<open>inner\<close>.\<close>

fun state_metadata ::
  "input_note_state \<Rightarrow> note_metadata option" where
  "state_metadata (Expected st) = expected_metadata st"
| "state_metadata (Unverified st) = unverified_metadata st"
| "state_metadata (Committed st) = committed_metadata st"
| "state_metadata (Invalid st) = invalid_metadata st"
| "state_metadata (ProcessingAuthenticated st) = processing_authenticated_metadata st"
| "state_metadata (ProcessingUnauthenticated st) = processing_unauthenticated_metadata st"
| "state_metadata (ConsumedAuthenticatedLocal st) = consumed_authenticated_local_metadata st"
| "state_metadata (ConsumedUnauthenticatedLocal st) = consumed_unauthenticated_local_metadata st"
| "state_metadata (ConsumedExternal st) = consumed_external_metadata st"

fun state_inclusion_proof ::
  "input_note_state \<Rightarrow> note_inclusion_proof option" where
  "state_inclusion_proof (Expected st) = expected_inclusion_proof st"
| "state_inclusion_proof (Unverified st) = unverified_inclusion_proof st"
| "state_inclusion_proof (Committed st) = committed_inclusion_proof st"
| "state_inclusion_proof (Invalid st) = invalid_inclusion_proof st"
| "state_inclusion_proof (ProcessingAuthenticated st) = processing_authenticated_inclusion_proof st"
| "state_inclusion_proof (ProcessingUnauthenticated st) = processing_unauthenticated_inclusion_proof st"
| "state_inclusion_proof (ConsumedAuthenticatedLocal st) = consumed_authenticated_local_inclusion_proof st"
| "state_inclusion_proof (ConsumedUnauthenticatedLocal st) = consumed_unauthenticated_local_inclusion_proof st"
| "state_inclusion_proof (ConsumedExternal st) = consumed_external_inclusion_proof st"

fun state_consumer_transaction_id ::
  "input_note_state \<Rightarrow> transaction_id option" where
  "state_consumer_transaction_id (Expected st) = expected_consumer_transaction_id st"
| "state_consumer_transaction_id (Unverified st) = unverified_consumer_transaction_id st"
| "state_consumer_transaction_id (Committed st) = committed_consumer_transaction_id st"
| "state_consumer_transaction_id (Invalid st) = invalid_consumer_transaction_id st"
| "state_consumer_transaction_id (ProcessingAuthenticated st) = processing_authenticated_consumer_transaction_id st"
| "state_consumer_transaction_id (ProcessingUnauthenticated st) = processing_unauthenticated_consumer_transaction_id st"
| "state_consumer_transaction_id (ConsumedAuthenticatedLocal st) = consumed_authenticated_local_consumer_transaction_id st"
| "state_consumer_transaction_id (ConsumedUnauthenticatedLocal st) = consumed_unauthenticated_local_consumer_transaction_id st"
| "state_consumer_transaction_id (ConsumedExternal st) = consumed_external_consumer_transaction_id st"

fun state_inclusion_proof_received ::
  "input_note_state \<Rightarrow> note_inclusion_proof \<Rightarrow> note_metadata \<Rightarrow> transition_result" where
  "state_inclusion_proof_received (Expected st) pr md = expected_inclusion_proof_received st pr md"
| "state_inclusion_proof_received (Unverified st) pr md = unverified_inclusion_proof_received st pr md"
| "state_inclusion_proof_received (Committed st) pr md = committed_inclusion_proof_received st pr md"
| "state_inclusion_proof_received (Invalid st) pr md = invalid_inclusion_proof_received st pr md"
| "state_inclusion_proof_received (ProcessingAuthenticated st) pr md = processing_authenticated_inclusion_proof_received st pr md"
| "state_inclusion_proof_received (ProcessingUnauthenticated st) pr md = processing_unauthenticated_inclusion_proof_received st pr md"
| "state_inclusion_proof_received (ConsumedAuthenticatedLocal st) pr md = consumed_authenticated_local_inclusion_proof_received st pr md"
| "state_inclusion_proof_received (ConsumedUnauthenticatedLocal st) pr md = consumed_unauthenticated_local_inclusion_proof_received st pr md"
| "state_inclusion_proof_received (ConsumedExternal st) pr md = consumed_external_inclusion_proof_received st pr md"

fun state_consumed_externally ::
  "input_note_state \<Rightarrow> block_number \<Rightarrow> transition_result" where
  "state_consumed_externally (Expected st) h = expected_consumed_externally st h"
| "state_consumed_externally (Unverified st) h = unverified_consumed_externally st h"
| "state_consumed_externally (Committed st) h = committed_consumed_externally st h"
| "state_consumed_externally (Invalid st) h = invalid_consumed_externally st h"
| "state_consumed_externally (ProcessingAuthenticated st) h = processing_authenticated_consumed_externally st h"
| "state_consumed_externally (ProcessingUnauthenticated st) h = processing_unauthenticated_consumed_externally st h"
| "state_consumed_externally (ConsumedAuthenticatedLocal st) h = consumed_authenticated_local_consumed_externally st h"
| "state_consumed_externally (ConsumedUnauthenticatedLocal st) h = consumed_unauthenticated_local_consumed_externally st h"
| "state_consumed_externally (ConsumedExternal st) h = consumed_external_consumed_externally st h"

fun state_block_header_received ::
  "protocol \<Rightarrow> input_note_state \<Rightarrow> note_id \<Rightarrow> block_header \<Rightarrow> transition_result" where
  "state_block_header_received P (Expected st) i hdr = expected_block_header_received P st i hdr"
| "state_block_header_received P (Unverified st) i hdr = unverified_block_header_received P st i hdr"
| "state_block_header_received P (Committed st) i hdr = committed_block_header_received P st i hdr"
| "state_block_header_received P (Invalid st) i hdr = invalid_block_header_received P st i hdr"
| "state_block_header_received P (ProcessingAuthenticated st) i hdr = processing_authenticated_block_header_received P st i hdr"
| "state_block_header_received P (ProcessingUnauthenticated st) i hdr = processing_unauthenticated_block_header_received P st i hdr"
| "state_block_header_received P (ConsumedAuthenticatedLocal st) i hdr = consumed_authenticated_local_block_header_received P st i hdr"
| "state_block_header_received P (ConsumedUnauthenticatedLocal st) i hdr = consumed_unauthenticated_local_block_header_received P st i hdr"
| "state_block_header_received P (ConsumedExternal st) i hdr = consumed_external_block_header_received P st i hdr"

fun state_consumed_locally ::
  "input_note_state \<Rightarrow> account_id \<Rightarrow> transaction_id \<Rightarrow> u64 option \<Rightarrow> transition_result" where
  "state_consumed_locally (Expected st) acc tx ts = expected_consumed_locally st acc tx ts"
| "state_consumed_locally (Unverified st) acc tx ts = unverified_consumed_locally st acc tx ts"
| "state_consumed_locally (Committed st) acc tx ts = committed_consumed_locally st acc tx ts"
| "state_consumed_locally (Invalid st) acc tx ts = invalid_consumed_locally st acc tx ts"
| "state_consumed_locally (ProcessingAuthenticated st) acc tx ts = processing_authenticated_consumed_locally st acc tx ts"
| "state_consumed_locally (ProcessingUnauthenticated st) acc tx ts = processing_unauthenticated_consumed_locally st acc tx ts"
| "state_consumed_locally (ConsumedAuthenticatedLocal st) acc tx ts = consumed_authenticated_local_consumed_locally st acc tx ts"
| "state_consumed_locally (ConsumedUnauthenticatedLocal st) acc tx ts = consumed_unauthenticated_local_consumed_locally st acc tx ts"
| "state_consumed_locally (ConsumedExternal st) acc tx ts = consumed_external_consumed_locally st acc tx ts"

fun state_transaction_committed ::
  "input_note_state \<Rightarrow> transaction_id \<Rightarrow> block_number \<Rightarrow> transition_result" where
  "state_transaction_committed (Expected st) tx h = expected_transaction_committed st tx h"
| "state_transaction_committed (Unverified st) tx h = unverified_transaction_committed st tx h"
| "state_transaction_committed (Committed st) tx h = committed_transaction_committed st tx h"
| "state_transaction_committed (Invalid st) tx h = invalid_transaction_committed st tx h"
| "state_transaction_committed (ProcessingAuthenticated st) tx h = processing_authenticated_transaction_committed st tx h"
| "state_transaction_committed (ProcessingUnauthenticated st) tx h = processing_unauthenticated_transaction_committed st tx h"
| "state_transaction_committed (ConsumedAuthenticatedLocal st) tx h = consumed_authenticated_local_transaction_committed st tx h"
| "state_transaction_committed (ConsumedUnauthenticatedLocal st) tx h = consumed_unauthenticated_local_transaction_committed st tx h"
| "state_transaction_committed (ConsumedExternal st) tx h = consumed_external_transaction_committed st tx h"

fun discriminant :: "input_note_state \<Rightarrow> u8" where
  "discriminant (Expected _) = 0"
| "discriminant (Unverified _) = 1"
| "discriminant (Committed _) = 2"
| "discriminant (Invalid _) = 3"
| "discriminant (ProcessingAuthenticated _) = 4"
| "discriminant (ProcessingUnauthenticated _) = 5"
| "discriminant (ConsumedAuthenticatedLocal _) = 6"
| "discriminant (ConsumedUnauthenticatedLocal _) = 7"
| "discriminant (ConsumedExternal _) = 8"

fun consumed_block_height :: "input_note_state \<Rightarrow> block_number option" where
  "consumed_block_height (ConsumedAuthenticatedLocal s) = Some (ca_nullifier_block_height s)"
| "consumed_block_height (ConsumedUnauthenticatedLocal s) = Some (cu_nullifier_block_height s)"
| "consumed_block_height (ConsumedExternal s) = Some (ce_nullifier_block_height s)"
| "consumed_block_height _ = None"

fun consumed_tx_order :: "input_note_state \<Rightarrow> u32 option" where
  "consumed_tx_order (ConsumedAuthenticatedLocal s) = ca_consumed_tx_order s"
| "consumed_tx_order (ConsumedUnauthenticatedLocal s) = cu_consumed_tx_order s"
| "consumed_tx_order (ConsumedExternal s) = ce_consumed_tx_order s"
| "consumed_tx_order _ = None"

fun state_set_consumed_tx_order :: "u32 option \<Rightarrow> input_note_state \<Rightarrow> input_note_state" where
  "state_set_consumed_tx_order order (ConsumedAuthenticatedLocal s) =
     ConsumedAuthenticatedLocal (s\<lparr>ca_consumed_tx_order := order\<rparr>)"
| "state_set_consumed_tx_order order (ConsumedUnauthenticatedLocal s) =
     ConsumedUnauthenticatedLocal (s\<lparr>cu_consumed_tx_order := order\<rparr>)"
| "state_set_consumed_tx_order order (ConsumedExternal s) =
     ConsumedExternal (s\<lparr>ce_consumed_tx_order := order\<rparr>)"
| "state_set_consumed_tx_order order s = s"

section \<open>Facts the record layer uses\<close>

lemmas handler_defs =
  expected_inclusion_proof_received_def expected_consumed_externally_def
  expected_block_header_received_def expected_consumed_locally_def
  expected_transaction_committed_def expected_metadata_def expected_inclusion_proof_def
  expected_consumer_transaction_id_def
  unverified_inclusion_proof_received_def unverified_consumed_externally_def
  unverified_block_header_received_def unverified_consumed_locally_def
  unverified_transaction_committed_def unverified_metadata_def unverified_inclusion_proof_def
  unverified_consumer_transaction_id_def
  committed_inclusion_proof_received_def committed_consumed_externally_def
  committed_block_header_received_def committed_consumed_locally_def
  committed_transaction_committed_def committed_metadata_def committed_inclusion_proof_def
  committed_consumer_transaction_id_def
  invalid_inclusion_proof_received_def invalid_consumed_externally_def
  invalid_block_header_received_def invalid_consumed_locally_def
  invalid_transaction_committed_def invalid_metadata_def invalid_inclusion_proof_def
  invalid_consumer_transaction_id_def
  processing_authenticated_inclusion_proof_received_def
  processing_authenticated_consumed_externally_def
  processing_authenticated_block_header_received_def
  processing_authenticated_consumed_locally_def
  processing_authenticated_transaction_committed_def processing_authenticated_metadata_def
  processing_authenticated_inclusion_proof_def
  processing_authenticated_consumer_transaction_id_def
  processing_unauthenticated_inclusion_proof_received_def
  processing_unauthenticated_consumed_externally_def
  processing_unauthenticated_block_header_received_def
  processing_unauthenticated_consumed_locally_def
  processing_unauthenticated_transaction_committed_def processing_unauthenticated_metadata_def
  processing_unauthenticated_inclusion_proof_def
  processing_unauthenticated_consumer_transaction_id_def
  consumed_authenticated_local_inclusion_proof_received_def
  consumed_authenticated_local_consumed_externally_def
  consumed_authenticated_local_block_header_received_def
  consumed_authenticated_local_consumed_locally_def
  consumed_authenticated_local_transaction_committed_def
  consumed_authenticated_local_metadata_def consumed_authenticated_local_inclusion_proof_def
  consumed_authenticated_local_consumer_transaction_id_def
  consumed_unauthenticated_local_inclusion_proof_received_def
  consumed_unauthenticated_local_consumed_externally_def
  consumed_unauthenticated_local_block_header_received_def
  consumed_unauthenticated_local_consumed_locally_def
  consumed_unauthenticated_local_transaction_committed_def
  consumed_unauthenticated_local_metadata_def consumed_unauthenticated_local_inclusion_proof_def
  consumed_unauthenticated_local_consumer_transaction_id_def
  consumed_external_inclusion_proof_received_def consumed_external_consumed_externally_def
  consumed_external_block_header_received_def consumed_external_consumed_locally_def
  consumed_external_transaction_committed_def consumed_external_metadata_def
  consumed_external_inclusion_proof_def consumed_external_consumer_transaction_id_def

declare handler_defs [step_defs]

text \<open>The states whose stored proof has been checked against a note root.\<close>

fun state_is_authenticated :: "input_note_state \<Rightarrow> bool" where
  "state_is_authenticated (Committed _) = True"
| "state_is_authenticated (ProcessingAuthenticated _) = True"
| "state_is_authenticated (ConsumedAuthenticatedLocal _) = True"
| "state_is_authenticated _ = False"

fun state_is_consumed :: "input_note_state \<Rightarrow> bool" where
  "state_is_consumed (ConsumedExternal _) = True"
| "state_is_consumed (ConsumedAuthenticatedLocal _) = True"
| "state_is_consumed (ConsumedUnauthenticatedLocal _) = True"
| "state_is_consumed _ = False"

fun state_is_processing :: "input_note_state \<Rightarrow> bool" where
  "state_is_processing (ProcessingAuthenticated _) = True"
| "state_is_processing (ProcessingUnauthenticated _) = True"
| "state_is_processing _ = False"

fun state_is_committed :: "input_note_state \<Rightarrow> bool" where
  "state_is_committed (Committed _) = True"
| "state_is_committed _ = False"

lemma state_is_consumed_iff_height: "state_is_consumed s \<longleftrightarrow> consumed_block_height s \<noteq> None"
  by (cases s) auto

end
