(* ===== verification/Input_Note_Record.thy ===== *)
theory Input_Note_Record
  imports Input_Note_State
begin

text \<open>
  Input note records (\<^verbatim>\<open>store/note_record/input_note_record/mod.rs\<close>): accessors, the five
  transitions, and the conversions to and from protocol notes. The second half gives the
  lifecycle of a record: the events the client applies, the records reachable through
  them, the invariant that an authenticated state carries a verified proof, and the
  absorbing consumed states.
\<close>

section \<open>The record\<close>

record input_note_record =
  inr_details :: note_details
  inr_created_at :: "u64 option"
  inr_state :: input_note_state

definition input_note_record_new ::
  "note_details \<Rightarrow> u64 option \<Rightarrow> input_note_state \<Rightarrow> input_note_record" where
  "input_note_record_new details created st =
     \<lparr>inr_details = details, inr_created_at = created, inr_state = st\<rparr>"

definition inr_id :: "protocol \<Rightarrow> input_note_record \<Rightarrow> note_id" where
  "inr_id P r = details_id P (inr_details r)"

definition inr_recipient :: "protocol \<Rightarrow> input_note_record \<Rightarrow> digest" where
  "inr_recipient P r = recipient_digest P (nd_recipient (inr_details r))"

definition inr_metadata :: "input_note_record \<Rightarrow> note_metadata option" where
  "inr_metadata r = state_metadata (inr_state r)"

definition inr_commitment :: "protocol \<Rightarrow> input_note_record \<Rightarrow> digest option" where
  "inr_commitment P r = map_option (note_commitment P (inr_id P r)) (inr_metadata r)"

definition inr_nullifier :: "protocol \<Rightarrow> input_note_record \<Rightarrow> nullifier" where
  "inr_nullifier P r = details_nullifier P (inr_details r)"

definition inr_inclusion_proof :: "input_note_record \<Rightarrow> note_inclusion_proof option" where
  "inr_inclusion_proof r = state_inclusion_proof (inr_state r)"

definition inr_consumer_transaction_id :: "input_note_record \<Rightarrow> transaction_id option" where
  "inr_consumer_transaction_id r = state_consumer_transaction_id (inr_state r)"

fun state_consumer_account :: "input_note_state \<Rightarrow> account_id option" where
  "state_consumer_account (ProcessingAuthenticated s) =
     Some (consumer_account (pa_submission_data s))"
| "state_consumer_account (ProcessingUnauthenticated s) =
     Some (consumer_account (pu_submission_data s))"
| "state_consumer_account (ConsumedAuthenticatedLocal s) =
     Some (consumer_account (ca_submission_data s))"
| "state_consumer_account (ConsumedUnauthenticatedLocal s) =
     Some (consumer_account (cu_submission_data s))"
| "state_consumer_account _ = None"

definition inr_consumer_account :: "input_note_record \<Rightarrow> account_id option" where
  "inr_consumer_account r = state_consumer_account (inr_state r)"

definition inr_is_authenticated :: "input_note_record \<Rightarrow> bool" where
  "inr_is_authenticated r = state_is_authenticated (inr_state r)"

definition inr_is_consumed :: "input_note_record \<Rightarrow> bool" where
  "inr_is_consumed r = state_is_consumed (inr_state r)"

definition inr_is_processing :: "input_note_record \<Rightarrow> bool" where
  "inr_is_processing r = state_is_processing (inr_state r)"

definition inr_is_committed :: "input_note_record \<Rightarrow> bool" where
  "inr_is_committed r = state_is_committed (inr_state r)"

definition inr_set_consumed_tx_order :: "u32 option \<Rightarrow> input_note_record \<Rightarrow> input_note_record" where
  "inr_set_consumed_tx_order order r =
     r\<lparr>inr_state := state_set_consumed_tx_order order (inr_state r)\<rparr>"

section \<open>Transitions\<close>

text \<open>
  Every transition method ends with the same assignment: a new state replaces the old one
  and the method returns whether it did.
\<close>

fun inr_apply :: "input_note_record \<Rightarrow> input_note_state option \<Rightarrow> bool \<times> input_note_record" where
  "inr_apply r (Some st) = (True, r\<lparr>inr_state := st\<rparr>)"
| "inr_apply r None = (False, r)"

type_synonym record_result = "note_record_error + bool \<times> input_note_record"

definition inr_inclusion_proof_received ::
  "input_note_record \<Rightarrow> note_inclusion_proof \<Rightarrow> note_metadata \<Rightarrow> record_result" where
  "inr_inclusion_proof_received r pr md =
     and_then (state_inclusion_proof_received (inr_state r) pr md) (\<lambda>s. Inr (inr_apply r s))"

definition inr_block_header_received ::
  "protocol \<Rightarrow> input_note_record \<Rightarrow> block_header \<Rightarrow> record_result" where
  "inr_block_header_received P r hdr =
     and_then (state_block_header_received P (inr_state r) (inr_id P r) hdr)
       (\<lambda>s. Inr (inr_apply r s))"

definition inr_consumed_externally ::
  "protocol \<Rightarrow> input_note_record \<Rightarrow> nullifier \<Rightarrow> block_number \<Rightarrow> record_result" where
  "inr_consumed_externally P r nf h =
     (if inr_nullifier P r \<noteq> nf
      then Inl (StateTransitionError ''Nullifier does not match the expected value'')
      else and_then (state_consumed_externally (inr_state r) h) (\<lambda>s. Inr (inr_apply r s)))"

definition inr_consumed_locally ::
  "input_note_record \<Rightarrow> account_id \<Rightarrow> transaction_id \<Rightarrow> u64 option \<Rightarrow> record_result" where
  "inr_consumed_locally r acc tx ts =
     and_then (state_consumed_locally (inr_state r) acc tx ts) (\<lambda>s. Inr (inr_apply r s))"

definition inr_transaction_committed ::
  "input_note_record \<Rightarrow> transaction_id \<Rightarrow> block_number \<Rightarrow> record_result" where
  "inr_transaction_committed r tx h =
     and_then (state_transaction_committed (inr_state r) tx h) (\<lambda>s. Inr (inr_apply r s))"

section \<open>Conversions\<close>

definition inr_from_note :: "full_note \<Rightarrow> input_note_record" where
  "inr_from_note n =
     (let md = nt_metadata n
      in \<lparr>inr_details = note_into_details n, inr_created_at = None,
          inr_state = Expected \<lparr>ex_metadata = Some md, ex_after_block_num = 0,
                                ex_tag = Some (md_tag md)\<rparr>\<rparr>)"

fun inr_from_input_note :: "input_note \<Rightarrow> input_note_record" where
  "inr_from_input_note (Authenticated n pr) =
     \<lparr>inr_details = note_into_details n, inr_created_at = None,
      inr_state = Unverified \<lparr>uv_metadata = nt_metadata n, uv_inclusion_proof = pr\<rparr>\<rparr>"
| "inr_from_input_note (Unauthenticated n) = inr_from_note n"

definition note_of_details :: "note_details \<Rightarrow> note_metadata \<Rightarrow> full_note" where
  "note_of_details d md =
     \<lparr>nt_assets = nd_assets d, nt_metadata = md, nt_recipient = nd_recipient d\<rparr>"

definition inr_try_into_input_note :: "input_note_record \<Rightarrow> note_record_error + input_note" where
  "inr_try_into_input_note r =
     (case (inr_metadata r, inr_inclusion_proof r) of
        (Some md, Some pr) \<Rightarrow> Inr (Authenticated (note_of_details (inr_details r) md) pr)
      | (Some md, None) \<Rightarrow> Inr (Unauthenticated (note_of_details (inr_details r) md))
      | _ \<Rightarrow> Inl (ConversionError ''Input Note Record does not contain metadata''))"

definition inr_try_into_note :: "input_note_record \<Rightarrow> note_record_error + full_note" where
  "inr_try_into_note r =
     (case inr_metadata r of
        Some md \<Rightarrow> Inr (note_of_details (inr_details r) md)
      | None \<Rightarrow> Inl (ConversionError ''Input Note Record does not contain metadata''))"

definition inr_into_details :: "input_note_record \<Rightarrow> note_details" where
  "inr_into_details r = inr_details r"

section \<open>The lifecycle\<close>

datatype input_note_event =
    InclusionProofReceived note_inclusion_proof note_metadata
  | BlockHeaderReceived block_header
  | ConsumedExternally nullifier block_number
  | ConsumedLocally account_id transaction_id "u64 option"
  | TransactionCommitted transaction_id block_number
  | SetConsumedTxOrder "u32 option"

fun input_note_apply :: "protocol \<Rightarrow> input_note_record \<Rightarrow> input_note_event \<Rightarrow> record_result" where
  "input_note_apply P r (InclusionProofReceived pr md) = inr_inclusion_proof_received r pr md"
| "input_note_apply P r (BlockHeaderReceived hdr) = inr_block_header_received P r hdr"
| "input_note_apply P r (ConsumedExternally nf h) = inr_consumed_externally P r nf h"
| "input_note_apply P r (ConsumedLocally acc tx ts) = inr_consumed_locally r acc tx ts"
| "input_note_apply P r (TransactionCommitted tx h) = inr_transaction_committed r tx h"
| "input_note_apply P r (SetConsumedTxOrder order) = Inr (True, inr_set_consumed_tx_order order r)"

definition input_note_step ::
  "protocol \<Rightarrow> input_note_record \<Rightarrow> input_note_event \<Rightarrow> note_record_error + input_note_record" where
  "input_note_step P r ev = and_then (input_note_apply P r ev) (\<lambda>(changed, r'). Inr r')"

text \<open>
  The records the client can hold: created from a note, from an input note, from details
  with an expected state, or from a public note and its proof, and then moved by events.
\<close>

inductive input_note_reachable :: "protocol \<Rightarrow> input_note_record \<Rightarrow> bool" for P where
  from_note: "input_note_reachable P (inr_from_note n)"
| from_input_note: "input_note_reachable P (inr_from_input_note n)"
| new_expected: "input_note_reachable P (input_note_record_new d c (Expected st))"
| new_unverified: "input_note_reachable P (input_note_record_new d c (Unverified st))"
| step: "input_note_reachable P r \<Longrightarrow> input_note_step P r ev = Inr r' \<Longrightarrow>
    input_note_reachable P r'"

inductive_cases input_note_reachableE: "input_note_reachable P r"

fun state_proof_inv :: "protocol \<Rightarrow> note_id \<Rightarrow> input_note_state \<Rightarrow> bool" where
  "state_proof_inv P i (Committed s) =
     proof_verifies P i (cm_metadata s) (cm_inclusion_proof s) (cm_block_note_root s)"
| "state_proof_inv P i (ProcessingAuthenticated s) =
     proof_verifies P i (pa_metadata s) (pa_inclusion_proof s) (pa_block_note_root s)"
| "state_proof_inv P i (ConsumedAuthenticatedLocal s) =
     proof_verifies P i (ca_metadata s) (ca_inclusion_proof s) (ca_block_note_root s)"
| "state_proof_inv P i (Invalid s) =
     (\<not> proof_verifies P i (iv_metadata s) (iv_invalid_inclusion_proof s) (iv_block_note_root s))"
| "state_proof_inv P i _ = True"

definition proof_inv :: "protocol \<Rightarrow> input_note_record \<Rightarrow> bool" where
  "proof_inv P r = state_proof_inv P (inr_id P r) (inr_state r)"

text \<open>How far a record is in its life; the order no step goes against.\<close>

fun note_phase :: "input_note_state \<Rightarrow> nat" where
  "note_phase (Expected _) = 0"
| "note_phase (Unverified _) = 1"
| "note_phase (Invalid _) = 1"
| "note_phase (Committed _) = 1"
| "note_phase (ProcessingAuthenticated _) = 2"
| "note_phase (ProcessingUnauthenticated _) = 2"
| "note_phase (ConsumedAuthenticatedLocal _) = 3"
| "note_phase (ConsumedUnauthenticatedLocal _) = 3"
| "note_phase (ConsumedExternal _) = 3"

lemmas record_defs [step_defs] =
  input_note_step_def inr_inclusion_proof_received_def inr_block_header_received_def
  inr_consumed_externally_def inr_consumed_locally_def inr_transaction_committed_def
  inr_set_consumed_tx_order_def

lemmas record_accessor_defs =
  inr_id_def inr_nullifier_def inr_metadata_def inr_inclusion_proof_def
  inr_consumer_transaction_id_def inr_consumer_account_def inr_is_authenticated_def inr_is_consumed_def
  inr_is_processing_def inr_is_committed_def

lemma inr_apply_state [simp]:
  "inr_state (snd (inr_apply r s)) = (case s of None \<Rightarrow> inr_state r | Some st \<Rightarrow> st)"
  by (cases s) auto

lemma inr_apply_details [simp]: "inr_details (snd (inr_apply r s)) = inr_details r"
  by (cases s) auto

lemma input_note_step_SetOrder [simp]:
  "input_note_step P r (SetConsumedTxOrder order) = Inr (inr_set_consumed_tx_order order r)"
  by (simp add: input_note_step_def)

text \<open>One step never touches what identifies the note.\<close>

lemma input_note_step_details:
  "input_note_step P r ev = Inr r' \<Longrightarrow> inr_details r' = inr_details r"
  by (cases ev)
    (auto simp: record_defs and_then_Inr_conv split: if_splits prod.splits
      dest: arg_cong [of "inr_apply r _" _ "\<lambda>p. inr_details (snd p)"])

text \<open>The new state of a step, as a relation on states.\<close>

definition state_step ::
  "protocol \<Rightarrow> note_id \<Rightarrow> nullifier \<Rightarrow> input_note_state \<Rightarrow> input_note_event \<Rightarrow> input_note_state \<Rightarrow> bool"
where
  "state_step P i nf s ev t \<longleftrightarrow>
     (case ev of
        InclusionProofReceived pr md \<Rightarrow> state_inclusion_proof_received s pr md = Inr (Some t)
      | BlockHeaderReceived hdr \<Rightarrow> state_block_header_received P s i hdr = Inr (Some t)
      | ConsumedExternally nf' h \<Rightarrow> nf' = nf \<and> state_consumed_externally s h = Inr (Some t)
      | ConsumedLocally acc tx ts \<Rightarrow> state_consumed_locally s acc tx ts = Inr (Some t)
      | TransactionCommitted tx h \<Rightarrow> state_transaction_committed s tx h = Inr (Some t)
      | SetConsumedTxOrder order \<Rightarrow> t = state_set_consumed_tx_order order s)"

lemma input_note_step_state:
  assumes "input_note_step P r ev = Inr r'"
  shows "inr_state r' = inr_state r
    \<or> state_step P (inr_id P r) (inr_nullifier P r) (inr_state r) ev (inr_state r')"
proof -
  have apply_cases: "s = None \<and> r' = r \<or> s = Some (inr_state r')"
    if "inr_apply r s = (c, r')" for s c
    using that by (cases s) auto
  show ?thesis
    using assms
    by (cases ev)
      (auto simp: state_step_def record_defs and_then_Inr_conv split: if_splits dest!: apply_cases)
qed

text \<open>Facts about a step follow by cases on the old state from facts about \<open>state_step\<close>.\<close>

lemma state_step_phase: "state_step P i nf s ev t \<Longrightarrow> note_phase s \<le> note_phase t"
  by (cases s; cases ev)
    (auto simp: state_step_def handler_defs Let_def split: if_splits option.splits)

section \<open>Invariants of the lifecycle\<close>

lemma input_note_step_ids [simp]:
  assumes "input_note_step P r ev = Inr r'"
  shows "inr_id P r' = inr_id P r" "inr_nullifier P r' = inr_nullifier P r"
  using input_note_step_details [OF assms] by (simp_all add: inr_id_def inr_nullifier_def)

lemma input_note_step_phase:
  "input_note_step P r ev = Inr r' \<Longrightarrow> note_phase (inr_state r) \<le> note_phase (inr_state r')"
  by (auto dest!: input_note_step_state state_step_phase)

lemma input_note_run_phase:
  assumes "try_fold (input_note_step P) r evs = Inr r'"
  shows "note_phase (inr_state r) \<le> note_phase (inr_state r')"
  by (rule try_fold_invariant [OF assms, where I = "\<lambda>q. note_phase (inr_state r) \<le> note_phase (inr_state q)"])
    (auto dest: input_note_step_phase)

lemma input_note_run_details:
  assumes "try_fold (input_note_step P) r evs = Inr r'"
  shows "inr_details r' = inr_details r"
  by (rule try_fold_invariant [OF assms, where I = "\<lambda>q. inr_details q = inr_details r"])
    (auto dest: input_note_step_details)

lemma state_step_proof_inv:
  assumes "state_step P i nf s ev t" and "state_proof_inv P i s"
  shows "state_proof_inv P i t"
  using assms
  by (cases s; cases ev)
    (auto simp: state_step_def handler_defs Let_def split: if_splits option.splits)

lemma proof_inv_step:
  assumes "input_note_step P r ev = Inr r'" and "proof_inv P r"
  shows "proof_inv P r'"
  using input_note_step_state [OF assms(1)] assms(2) input_note_step_ids(1) [OF assms(1)]
  by (auto simp: proof_inv_def dest: state_step_proof_inv)

lemma proof_inv_reachable: "input_note_reachable P r \<Longrightarrow> proof_inv P r"
proof (induction rule: input_note_reachable.induct)
  case (from_input_note n)
  then show ?case
    by (cases n) (simp_all add: proof_inv_def inr_from_note_def Let_def)
next
  case (step r ev r')
  then show ?case by (blast intro: proof_inv_step)
qed (simp_all add: proof_inv_def inr_from_note_def input_note_record_new_def Let_def)

lemma input_note_reachable_run:
  assumes "try_fold (input_note_step P) r evs = Inr r'" and "input_note_reachable P r"
  shows "input_note_reachable P r'"
  using assms by (rule try_fold_invariant) (auto intro: input_note_reachable.step)

text \<open>What a consumed record has settled: its note, where it was consumed, and by whom.\<close>

definition consumption_outcome ::
  "input_note_record \<Rightarrow> note_details \<times> block_number option \<times> transaction_id option \<times> account_id option"
where
  "consumption_outcome r =
     (inr_details r, consumed_block_height (inr_state r), inr_consumer_transaction_id r,
      inr_consumer_account r)"

lemma state_step_consumed:
  assumes "state_step P i nf s ev t" and "state_is_consumed s"
  shows "state_is_consumed t \<and> consumed_block_height t = consumed_block_height s
    \<and> state_consumer_transaction_id t = state_consumer_transaction_id s
    \<and> state_consumer_account t = state_consumer_account s"
  using assms by (cases s; cases ev) (auto simp: state_step_def handler_defs)

lemma consumed_step:
  assumes "inr_is_consumed r" and "input_note_step P r ev = Inr r'"
  shows "inr_is_consumed r' \<and> consumption_outcome r' = consumption_outcome r"
  using input_note_step_state [OF assms(2)] input_note_step_details [OF assms(2)] assms(1)
  by (auto simp: consumption_outcome_def inr_is_consumed_def inr_consumer_transaction_id_def
      inr_consumer_account_def dest: state_step_consumed)

interpretation inote: lifecycle "input_note_step P" inr_is_consumed consumption_outcome for P
  by unfold_locales (rule consumed_step)

fun state_block_note_root :: "input_note_state \<Rightarrow> digest option" where
  "state_block_note_root (Committed s) = Some (cm_block_note_root s)"
| "state_block_note_root (ProcessingAuthenticated s) = Some (pa_block_note_root s)"
| "state_block_note_root (ConsumedAuthenticatedLocal s) = Some (ca_block_note_root s)"
| "state_block_note_root (Invalid s) = Some (iv_block_note_root s)"
| "state_block_note_root _ = None"

text \<open>The states from which a local transaction may consume the note.\<close>

fun locally_consumable :: "input_note_state \<Rightarrow> bool" where
  "locally_consumable (Expected st) = (ex_metadata st \<noteq> None)"
| "locally_consumable (Unverified _) = True"
| "locally_consumable (Committed _) = True"
| "locally_consumable _ = False"

text \<open>A committed record and the events that lead to it, for evaluation.\<close>

definition sample_commit_events :: "input_note_event list" where
  "sample_commit_events =
     [InclusionProofReceived (sample_proof 5) sample_metadata, BlockHeaderReceived sample_header]"

definition sample_committed :: input_note_record where
  "sample_committed =
     \<lparr>inr_details = note_into_details (sample_note 5), inr_created_at = None,
      inr_state = Committed \<lparr>cm_metadata = sample_metadata, cm_inclusion_proof = sample_proof 5,
                             cm_block_note_root = Digest 100\<rparr>\<rparr>"

definition sample_submission :: note_submission_data where
  "sample_submission =
     \<lparr>submitted_at = Some 44, consumer_account = AccountId 1,
      consumer_transaction = TransactionId (Digest 8)\<rparr>"

definition sample_processing :: input_note_record where
  "sample_processing =
     sample_committed\<lparr>inr_state := ProcessingAuthenticated
       \<lparr>pa_metadata = sample_metadata, pa_inclusion_proof = sample_proof 5,
        pa_block_note_root = Digest 100, pa_submission_data = sample_submission\<rparr>\<rparr>"

definition sample_consumed :: input_note_record where
  "sample_consumed =
     sample_committed\<lparr>inr_state := ConsumedAuthenticatedLocal
       \<lparr>ca_metadata = sample_metadata, ca_inclusion_proof = sample_proof 5,
        ca_block_note_root = Digest 100, ca_nullifier_block_height = 9,
        ca_submission_data = sample_submission, ca_consumed_tx_order = None\<rparr>\<rparr>"

lemmas sample_record_defs =
  sample_committed_def sample_processing_def sample_consumed_def sample_submission_def sample_defs

lemma sample_commit_run:
  "try_fold (input_note_step sample_protocol) (inr_from_note (sample_note 5)) sample_commit_events
     = Inr sample_committed"
  by (simp add: sample_commit_events_def sample_record_defs inr_from_note_def record_defs
      handler_defs proof_verifies_def inr_id_def)

lemma sample_consumed_locally:
  "inr_consumed_locally sample_committed (AccountId 1) (TransactionId (Digest 8)) (Some 44) =
     Inr (True, sample_processing)"
  by (simp add: sample_record_defs inr_consumed_locally_def handler_defs)

section \<open>Properties\<close>

text \<open>
  C4. Authentication is sound: every input note record the client can reach that counts as
  authenticated (committed, being processed as authenticated, or consumed as authenticated)
  has metadata, an inclusion proof and a note root, and the proof verifies the commitment of
  the note's identifier and metadata against that root.
\<close>

theorem authenticated_note_has_verified_proof:
  assumes "input_note_reachable P r" and "inr_is_authenticated r"
  shows "\<exists>md pr root. inr_metadata r = Some md \<and> inr_inclusion_proof r = Some pr
    \<and> state_block_note_root (inr_state r) = Some root
    \<and> proof_verifies P (inr_id P r) md pr root"
  using proof_inv_reachable [OF assms(1)] assms(2)
  by (cases "inr_state r")
    (auto simp: proof_inv_def inr_is_authenticated_def inr_metadata_def inr_inclusion_proof_def
      handler_defs)

theorem authenticated_note_has_verified_proof_witness:
  "inr_is_authenticated sample_committed \<and>
   (\<exists>md pr root. inr_metadata sample_committed = Some md
    \<and> inr_inclusion_proof sample_committed = Some pr
    \<and> state_block_note_root (inr_state sample_committed) = Some root
    \<and> proof_verifies sample_protocol (inr_id sample_protocol sample_committed) md pr root)"
proof -
  have "input_note_reachable sample_protocol sample_committed"
    by (rule input_note_reachable_run [OF sample_commit_run]) (rule from_note)
  moreover have "inr_is_authenticated sample_committed"
    by (simp add: sample_committed_def inr_is_authenticated_def)
  ultimately show ?thesis using authenticated_note_has_verified_proof by blast
qed

text \<open>
  C16. Consumption is final: once a record is consumed, no sequence of events reopens it or
  changes the note, the height at which it was consumed, the consuming transaction or the
  consuming account.
\<close>

theorem consumed_note_is_final:
  assumes "inr_is_consumed r" and "try_fold (input_note_step P) r evs = Inr r'"
  shows "inr_is_consumed r' \<and> consumption_outcome r' = consumption_outcome r"
  using inote.final_run [OF assms] .

theorem consumed_note_is_final_witness:
  "inr_is_consumed sample_consumed
   \<and> try_fold (input_note_step sample_protocol) sample_consumed
       [ConsumedExternally (Nullifier (Digest 5)) 12, SetConsumedTxOrder (Some 3)]
     = Inr (inr_set_consumed_tx_order (Some 3) sample_consumed)
   \<and> inr_is_consumed (inr_set_consumed_tx_order (Some 3) sample_consumed)
   \<and> consumption_outcome (inr_set_consumed_tx_order (Some 3) sample_consumed)
     = consumption_outcome sample_consumed"
proof -
  have c: "inr_is_consumed sample_consumed"
    by (simp add: inr_is_consumed_def sample_record_defs)
  have run: "try_fold (input_note_step sample_protocol) sample_consumed
      [ConsumedExternally (Nullifier (Digest 5)) 12, SetConsumedTxOrder (Some 3)]
    = Inr (inr_set_consumed_tx_order (Some 3) sample_consumed)"
    by (simp add: sample_record_defs record_defs handler_defs inr_nullifier_def)
  show ?thesis using c run consumed_note_is_final [OF c run] by simp
qed

text \<open>
  A note is submitted at most once: after the client starts consuming a note, whatever
  happens to the record afterwards, a second local consumption is refused with
  \<open>NoteNotConsumable\<close>.
\<close>

lemma no_second_local_consumption:
  assumes "inr_consumed_locally r acc tx ts = Inr (b, r1)"
    and "try_fold (input_note_step P) r1 evs = Inr r2"
  shows "\<exists>msg. inr_consumed_locally r2 acc' tx' ts' = Inl (NoteNotConsumable msg)"
proof -
  have "note_phase (inr_state r1) = 2"
    using assms(1)
    by (cases "inr_state r")
      (auto simp: inr_consumed_locally_def and_then_Inr_conv handler_defs Let_def
        split: option.splits)
  then have "2 \<le> note_phase (inr_state r2)"
    using input_note_run_phase [OF assms(2)] by simp
  then show ?thesis
    by (cases "inr_state r2") (auto simp: inr_consumed_locally_def handler_defs)
qed

lemma no_second_local_consumption_witness:
  "inr_consumed_locally sample_committed (AccountId 1) (TransactionId (Digest 8)) (Some 44)
     = Inr (True, sample_processing)
   \<and> try_fold (input_note_step sample_protocol) sample_processing
       [TransactionCommitted (TransactionId (Digest 8)) 9] = Inr sample_consumed
   \<and> (\<exists>msg. inr_consumed_locally sample_consumed (AccountId 2) (TransactionId (Digest 11)) None
        = Inl (NoteNotConsumable msg))"
proof -
  have run: "try_fold (input_note_step sample_protocol) sample_processing
      [TransactionCommitted (TransactionId (Digest 8)) 9] = Inr sample_consumed"
    by (simp add: sample_record_defs record_defs handler_defs)
  show ?thesis
    using sample_consumed_locally run no_second_local_consumption [OF sample_consumed_locally run]
    by simp
qed

text \<open>
  Local consumption is accepted exactly for notes that can be consumed: expected notes
  whose metadata is known, unverified notes and committed notes. The record then is in a
  processing state that names the account and the transaction, keeps the note and its
  metadata, and is authenticated exactly when the note was committed.
\<close>

lemma consumed_locally_spec:
  "case inr_consumed_locally r acc tx ts of
     Inl e \<Rightarrow> \<not> locally_consumable (inr_state r)
   | Inr (b, r') \<Rightarrow>
       locally_consumable (inr_state r) \<and> b
       \<and> inr_metadata r' = inr_metadata r \<and> inr_metadata r' \<noteq> None
       \<and> inr_details r' = inr_details r \<and> inr_is_processing r'
       \<and> inr_consumer_transaction_id r' = Some tx \<and> inr_consumer_account r' = Some acc
       \<and> inr_is_authenticated r' = inr_is_committed r"
  by (cases "inr_state r")
    (auto simp: inr_consumed_locally_def handler_defs Let_def record_accessor_defs
      split: option.splits)

text \<open>
  A local transaction settles a note only if the note is being processed by exactly that
  transaction; the record is then consumed at the given height by the same transaction and
  account, with the same metadata, and keeps whether it was authenticated. In every other
  case the method returns an error.
\<close>

lemma transaction_committed_spec:
  "case inr_transaction_committed r tx h of
     Inl e \<Rightarrow> \<not> (inr_is_processing r \<and> inr_consumer_transaction_id r = Some tx)
   | Inr (b, r') \<Rightarrow>
       inr_is_processing r \<and> inr_consumer_transaction_id r = Some tx \<and> b
       \<and> inr_is_consumed r' \<and> consumed_block_height (inr_state r') = Some h
       \<and> inr_consumer_transaction_id r' = Some tx
       \<and> inr_consumer_account r' = inr_consumer_account r
       \<and> inr_metadata r' = inr_metadata r \<and> inr_is_authenticated r' = inr_is_authenticated r"
  by (cases "inr_state r")
    (auto simp: inr_transaction_committed_def handler_defs record_accessor_defs)

text \<open>
  The way to a settled note: an expected note that
  receives an inclusion proof and then the header of its block becomes committed if the
  proof verifies against the header's note root and invalid otherwise; from committed,
  consuming it in a transaction and seeing that transaction committed ends in the state
  consumed by that transaction at that height.
\<close>

lemma expected_note_settles:
  "case try_fold (input_note_step P) (input_note_record_new d c (Expected st))
      [InclusionProofReceived pr md, BlockHeaderReceived hdr,
       ConsumedLocally acc tx ts, TransactionCommitted tx h] of
     Inr r \<Rightarrow> proof_verifies P (details_id P d) md pr (bh_note_root hdr)
       \<and> inr_details r = d \<and> inr_is_authenticated r \<and> inr_is_consumed r
       \<and> consumed_block_height (inr_state r) = Some h
       \<and> inr_consumer_transaction_id r = Some tx
   | Inl e \<Rightarrow> \<not> proof_verifies P (details_id P d) md pr (bh_note_root hdr)
       \<and> e = NoteNotConsumable ''Can't consume invalid note''"
  by (auto simp: input_note_record_new_def record_defs handler_defs record_accessor_defs)

text \<open>
  A nullifier seen on chain consumes every open note it belongs to, whatever its state,
  at the reported height and with no local consumer; a note already consumed is left as it
  is; a nullifier of another note is refused and changes nothing.
\<close>

lemma consumed_externally_spec:
  "inr_consumed_externally P r nf h =
     (if inr_nullifier P r \<noteq> nf
      then Inl (StateTransitionError ''Nullifier does not match the expected value'')
      else if inr_is_consumed r then Inr (False, r)
      else Inr (True, r\<lparr>inr_state := ConsumedExternal
             \<lparr>ce_nullifier_block_height = h, ce_consumed_tx_order = None\<rparr>\<rparr>))"
  by (cases "inr_state r") (auto simp: inr_consumed_externally_def inr_is_consumed_def handler_defs)

text \<open>
  Converting a protocol input note to a record and back gives the same note, with its
  inclusion proof exactly when it was authenticated.
\<close>

lemma input_note_conversion_roundtrip:
  "inr_try_into_input_note (inr_from_input_note n) = Inr n"
  by (cases n)
    (simp_all add: inr_try_into_input_note_def inr_metadata_def inr_inclusion_proof_def handler_defs
      note_of_details_def note_into_details_def inr_from_note_def Let_def)

end
