(* ===== verification/Output_Note_Record.thy ===== *)
theory Output_Note_Record
  imports Input_Note_State
begin

text \<open>
  Output note records (\<^verbatim>\<open>store/note_record/output_note_record/mod.rs\<close>): the state enum with its
  two transitions, the record around it, the conversions and the export to a note file, and
  the lifecycle of an output note.
\<close>

section \<open>\<open>OutputNoteState\<close>\<close>

datatype output_note_state =
    ExpectedPartial
  | ExpectedFull note_recipient
  | CommittedPartial note_inclusion_proof
  | CommittedFull note_recipient note_inclusion_proof
  | OutputConsumed block_number note_recipient

fun output_discriminant :: "output_note_state \<Rightarrow> u8" where
  "output_discriminant ExpectedPartial = 0"
| "output_discriminant (ExpectedFull _) = 1"
| "output_discriminant (CommittedPartial _) = 2"
| "output_discriminant (CommittedFull _ _) = 3"
| "output_discriminant (OutputConsumed _ _) = 4"

fun output_state_recipient :: "output_note_state \<Rightarrow> note_recipient option" where
  "output_state_recipient (ExpectedFull rc) = Some rc"
| "output_state_recipient (CommittedFull rc _) = Some rc"
| "output_state_recipient (OutputConsumed _ rc) = Some rc"
| "output_state_recipient _ = None"

fun output_state_inclusion_proof :: "output_note_state \<Rightarrow> note_inclusion_proof option" where
  "output_state_inclusion_proof (CommittedPartial pr) = Some pr"
| "output_state_inclusion_proof (CommittedFull _ pr) = Some pr"
| "output_state_inclusion_proof _ = None"

fun output_state_proof_received ::
  "output_note_state \<Rightarrow> note_inclusion_proof \<Rightarrow> note_record_error + output_note_state option" where
  "output_state_proof_received ExpectedPartial pr = Inr (Some (CommittedPartial pr))"
| "output_state_proof_received (ExpectedFull rc) pr = Inr (Some (CommittedFull rc pr))"
| "output_state_proof_received (CommittedPartial prev) pr =
     (if prev = pr then Inr None
      else Inl (StateTransitionError
        ''Cannot receive different inclusion proof for committed note''))"
| "output_state_proof_received (CommittedFull _ prev) pr =
     (if prev = pr then Inr None
      else Inl (StateTransitionError
        ''Cannot receive different inclusion proof for committed note''))"
| "output_state_proof_received (OutputConsumed _ _) pr = Inr None"

fun output_state_nullifier_received ::
  "output_note_state \<Rightarrow> block_number \<Rightarrow> note_record_error + output_note_state option" where
  "output_state_nullifier_received (OutputConsumed _ _) h = Inr None"
| "output_state_nullifier_received (ExpectedFull rc) h = Inr (Some (OutputConsumed h rc))"
| "output_state_nullifier_received (CommittedFull rc _) h = Inr (Some (OutputConsumed h rc))"
| "output_state_nullifier_received ExpectedPartial h =
     Inl (InvalidStateTransition ''Cannot nullify note without recipient'')"
| "output_state_nullifier_received (CommittedPartial _) h =
     Inl (InvalidStateTransition ''Cannot nullify note without recipient'')"

section \<open>\<open>OutputNoteRecord\<close>\<close>

record output_note_record =
  onr_assets :: note_assets
  onr_metadata :: note_metadata
  onr_recipient_digest :: digest
  onr_state :: output_note_state
  onr_expected_height :: block_number

definition output_note_record_new ::
  "digest \<Rightarrow> note_assets \<Rightarrow> note_metadata \<Rightarrow> output_note_state \<Rightarrow> block_number \<Rightarrow> output_note_record"
where
  "output_note_record_new rd as md st h =
     \<lparr>onr_assets = as, onr_metadata = md, onr_recipient_digest = rd, onr_state = st,
      onr_expected_height = h\<rparr>"

definition onr_id :: "protocol \<Rightarrow> output_note_record \<Rightarrow> note_id" where
  "onr_id P r = note_id_new P (onr_recipient_digest r) (assets_commitment P (onr_assets r))"

definition onr_inclusion_proof :: "output_note_record \<Rightarrow> note_inclusion_proof option" where
  "onr_inclusion_proof r = output_state_inclusion_proof (onr_state r)"

definition onr_recipient :: "output_note_record \<Rightarrow> note_recipient option" where
  "onr_recipient r = output_state_recipient (onr_state r)"

definition onr_nullifier :: "protocol \<Rightarrow> output_note_record \<Rightarrow> nullifier option" where
  "onr_nullifier P r =
     (case onr_recipient r of
        None \<Rightarrow> None
      | Some rc \<Rightarrow> Some (nullifier_new P (rc_script_root rc) (rc_storage_commitment rc)
                           (assets_commitment P (onr_assets r)) (rc_serial_num rc)))"

definition onr_is_consumed :: "output_note_record \<Rightarrow> bool" where
  "onr_is_consumed r = (case onr_state r of OutputConsumed _ _ \<Rightarrow> True | _ \<Rightarrow> False)"

definition onr_is_committed :: "output_note_record \<Rightarrow> bool" where
  "onr_is_committed r =
     (case onr_state r of CommittedFull _ _ \<Rightarrow> True | CommittedPartial _ \<Rightarrow> True | _ \<Rightarrow> False)"

fun onr_apply :: "output_note_record \<Rightarrow> output_note_state option \<Rightarrow> bool \<times> output_note_record" where
  "onr_apply r (Some st) = (True, r\<lparr>onr_state := st\<rparr>)"
| "onr_apply r None = (False, r)"

definition onr_inclusion_proof_received ::
  "output_note_record \<Rightarrow> note_inclusion_proof \<Rightarrow> note_record_error + bool \<times> output_note_record" where
  "onr_inclusion_proof_received r pr =
     and_then (output_state_proof_received (onr_state r) pr) (\<lambda>s. Inr (onr_apply r s))"

definition onr_nullifier_received ::
  "protocol \<Rightarrow> output_note_record \<Rightarrow> nullifier \<Rightarrow> block_number \<Rightarrow>
   note_record_error + bool \<times> output_note_record" where
  "onr_nullifier_received P r nf h =
     (if (case onr_nullifier P r of Some own \<Rightarrow> own \<noteq> nf | None \<Rightarrow> False)
      then Inl (StateTransitionError ''Nullifier does not match the expected value'')
      else and_then (output_state_nullifier_received (onr_state r) h) (\<lambda>s. Inr (onr_apply r s)))"

section \<open>Conversions and export\<close>

definition onr_from_full_note :: "protocol \<Rightarrow> full_note \<Rightarrow> block_number \<Rightarrow> output_note_record" where
  "onr_from_full_note P n h =
     \<lparr>onr_assets = nt_assets n, onr_metadata = nt_metadata n,
      onr_recipient_digest = recipient_digest P (nt_recipient n),
      onr_state = ExpectedFull (nt_recipient n), onr_expected_height = h\<rparr>"

definition onr_from_partial_note :: "partial_note \<Rightarrow> block_number \<Rightarrow> output_note_record" where
  "onr_from_partial_note n h =
     \<lparr>onr_assets = pn_assets n, onr_metadata = pn_metadata n,
      onr_recipient_digest = pn_recipient_digest n, onr_state = ExpectedPartial,
      onr_expected_height = h\<rparr>"

fun onr_try_from_output_note ::
  "protocol \<Rightarrow> raw_output_note \<Rightarrow> block_number \<Rightarrow> note_record_error + output_note_record" where
  "onr_try_from_output_note P (FullOutput n) h = Inr (onr_from_full_note P n h)"
| "onr_try_from_output_note P (PartialOutput n) h = Inr (onr_from_partial_note n h)"

definition onr_try_into_details :: "output_note_record \<Rightarrow> note_record_error + note_details" where
  "onr_try_into_details r =
     (case onr_recipient r of
        Some rc \<Rightarrow> Inr \<lparr>nd_assets = onr_assets r, nd_recipient = rc\<rparr>
      | None \<Rightarrow> Inl (ConversionError ''Output Note Record does not contain details''))"

definition onr_try_into_note :: "output_note_record \<Rightarrow> note_record_error + full_note" where
  "onr_try_into_note r =
     (case onr_recipient r of
        Some rc \<Rightarrow> Inr \<lparr>nt_assets = onr_assets r, nt_metadata = onr_metadata r, nt_recipient = rc\<rparr>
      | None \<Rightarrow> Inl (ConversionError ''Output Note Record does not contain details''))"

datatype note_export_type = ExportNoteId | ExportNoteDetails | ExportNoteWithProof

fun onr_into_note_file ::
  "protocol \<Rightarrow> output_note_record \<Rightarrow> note_export_type \<Rightarrow> note_record_error + note_file" where
  "onr_into_note_file P r ExportNoteId = Inr (FileNoteId (onr_id P r))"
| "onr_into_note_file P r ExportNoteDetails =
     and_then (onr_try_into_details r)
       (\<lambda>d. Inr (FileNoteDetails d (onr_expected_height r) (Some (md_tag (onr_metadata r)))))"
| "onr_into_note_file P r ExportNoteWithProof =
     and_then (ok_or (ConversionError ''Note record does not contain an inclusion proof'')
         (onr_inclusion_proof r))
       (\<lambda>pr. and_then (onr_try_into_note r) (\<lambda>n. Inr (FileNoteWithProof n pr)))"

section \<open>The lifecycle\<close>

datatype output_note_event =
    OutputProofReceived note_inclusion_proof
  | OutputNullifierReceived nullifier block_number

definition output_note_step ::
  "protocol \<Rightarrow> output_note_record \<Rightarrow> output_note_event \<Rightarrow> note_record_error + output_note_record" where
  "output_note_step P r ev =
     and_then
       (case ev of
          OutputProofReceived pr \<Rightarrow> onr_inclusion_proof_received r pr
        | OutputNullifierReceived nf h \<Rightarrow> onr_nullifier_received P r nf h)
       (\<lambda>(changed, r'). Inr r')"

definition sample_output :: output_note_record where
  "sample_output = onr_from_full_note sample_protocol (sample_note 5) 6"

lemmas onr_defs [step_defs] =
  output_note_step_def onr_inclusion_proof_received_def onr_nullifier_received_def

text \<open>What no step changes: everything that identifies the note, and a known recipient.\<close>

definition output_note_identity ::
  "output_note_record \<Rightarrow> note_assets \<times> note_metadata \<times> digest \<times> note_recipient option" where
  "output_note_identity r =
     (onr_assets r, onr_metadata r, onr_recipient_digest r, onr_recipient r)"

lemma output_note_step_identity:
  assumes "output_note_step P r ev = Inr r'"
  shows "output_note_identity r' = output_note_identity r"
  using assms
  by (cases ev; cases "onr_state r")
    (auto simp: output_note_identity_def onr_recipient_def onr_defs and_then_Inr_conv split: if_splits)

lemma output_identity_ids:
  "output_note_identity r' = output_note_identity r \<Longrightarrow>
     onr_id P r' = onr_id P r \<and> onr_nullifier P r' = onr_nullifier P r"
  by (auto simp: output_note_identity_def onr_id_def onr_nullifier_def split: option.splits)

lemma output_consumed_step:
  assumes "onr_is_consumed r" and "output_note_step P r ev = Inr r'"
  shows "onr_is_consumed r' \<and> r' = r"
  using assms
  by (cases ev; cases "onr_state r") (auto simp: onr_is_consumed_def onr_defs split: if_splits)

interpretation onote: lifecycle "output_note_step P" onr_is_consumed "\<lambda>r. r" for P
  by unfold_locales (use output_consumed_step in blast)

section \<open>Properties\<close>

text \<open>
  The life of an output note keeps its identity: along any sequence of proofs and
  nullifiers the note's assets, metadata, recipient digest and (if known) recipient stay
  the same, hence its identifier and nullifier; and once consumed the record does not
  change at all.
\<close>

lemma output_note_identity_preserved:
  assumes "try_fold (output_note_step P) r evs = Inr r'"
  shows "output_note_identity r' = output_note_identity r
    \<and> onr_id P r' = onr_id P r \<and> onr_nullifier P r' = onr_nullifier P r
    \<and> (onr_is_consumed r \<longrightarrow> r' = r)"
proof -
  have "output_note_identity r' = output_note_identity r"
    by (rule try_fold_invariant [OF assms, where I = "\<lambda>q. output_note_identity q = output_note_identity r"])
      (auto dest: output_note_step_identity)
  then show ?thesis
    using output_identity_ids onote.final_run [OF _ assms] by blast
qed

lemma output_note_identity_preserved_witness:
  "try_fold (output_note_step sample_protocol) sample_output
      [OutputProofReceived (sample_proof 5), OutputNullifierReceived (Nullifier (Digest 5)) 9]
    = Inr (sample_output\<lparr>onr_state := OutputConsumed 9 (sample_recipient 5)\<rparr>)
   \<and> output_note_identity (sample_output\<lparr>onr_state := OutputConsumed 9 (sample_recipient 5)\<rparr>)
    = output_note_identity sample_output"
proof -
  have run: "try_fold (output_note_step sample_protocol) sample_output
      [OutputProofReceived (sample_proof 5), OutputNullifierReceived (Nullifier (Digest 5)) 9]
    = Inr (sample_output\<lparr>onr_state := OutputConsumed 9 (sample_recipient 5)\<rparr>)"
    by (simp add: sample_output_def onr_from_full_note_def onr_defs onr_nullifier_def
        onr_recipient_def sample_defs)
  show ?thesis using run output_note_identity_preserved [OF run] by simp
qed

text \<open>
  A nullifier consumes an output note exactly when the client knows its recipient: with
  the matching nullifier an open note with a known recipient becomes consumed at the given
  height, a consumed note is left alone, a note without recipient and a foreign nullifier
  are refused.
\<close>

lemma output_nullifier_received_spec:
  "onr_nullifier_received P r nf h =
     (case onr_recipient r of
        None \<Rightarrow> Inl (InvalidStateTransition ''Cannot nullify note without recipient'')
      | Some rc \<Rightarrow>
          if onr_nullifier P r \<noteq> Some nf
          then Inl (StateTransitionError ''Nullifier does not match the expected value'')
          else if onr_is_consumed r then Inr (False, r)
          else Inr (True, r\<lparr>onr_state := OutputConsumed h rc\<rparr>))"
  by (cases "onr_state r")
    (auto simp: onr_nullifier_received_def onr_nullifier_def onr_recipient_def onr_is_consumed_def)

text \<open>
  Export to a note file: the identifier can always be exported, the details exactly when
  the recipient is known, and the note with its proof exactly when the note is committed
  with a known recipient; what is exported is the record's own data.
\<close>

lemma into_note_file_spec:
  "case onr_into_note_file P r ty of
     Inr (FileNoteId i) \<Rightarrow> ty = ExportNoteId \<and> i = onr_id P r
   | Inr (FileNoteDetails d h t) \<Rightarrow> ty = ExportNoteDetails \<and> onr_recipient r = Some (nd_recipient d)
       \<and> nd_assets d = onr_assets r \<and> h = onr_expected_height r \<and> t = Some (md_tag (onr_metadata r))
   | Inr (FileNoteWithProof n pr) \<Rightarrow> ty = ExportNoteWithProof
       \<and> onr_state r = CommittedFull (nt_recipient n) pr
       \<and> nt_assets n = onr_assets r \<and> nt_metadata n = onr_metadata r
   | Inl e \<Rightarrow> ty = ExportNoteDetails \<and> onr_recipient r = None
       \<or> ty = ExportNoteWithProof \<and> \<not> (onr_is_committed r \<and> onr_recipient r \<noteq> None)"
  by (cases ty; cases "onr_state r")
    (auto simp: onr_try_into_details_def onr_try_into_note_def onr_recipient_def
      onr_inclusion_proof_def onr_is_committed_def)

end
