(* ===== verification/Transaction_Record.thy ===== *)
theory Transaction_Record
  imports Protocol_Types
begin

text \<open>
  Transaction records (\<^verbatim>\<open>transaction/record.rs\<close>): the status machine of a transaction the
  client submitted, and the string form of the discard causes. The byte encodings are in
  \<open>Wire_Format\<close>.
\<close>

datatype discard_cause = Expired | InputConsumed | DiscardedInitialState | Stale

datatype transaction_status =
    TxPending
  | TxCommitted block_number u64
  | TxDiscarded discard_cause

record transaction_details =
  td_account_id :: account_id
  td_init_account_state :: digest
  td_final_account_state :: digest
  td_input_note_nullifiers :: "digest list"
  td_output_notes :: "raw_output_note list"
  td_block_num :: block_number
  td_submission_height :: block_number
  td_expiration_block_num :: block_number
  td_creation_timestamp :: u64

record transaction_record =
  tr_id :: transaction_id
  tr_details :: transaction_details
  tr_script :: "digest option"
  tr_status :: transaction_status

definition transaction_record_new ::
  "transaction_id \<Rightarrow> transaction_details \<Rightarrow> digest option \<Rightarrow> transaction_status \<Rightarrow> transaction_record"
where
  "transaction_record_new i d s st =
     \<lparr>tr_id = i, tr_details = d, tr_script = s, tr_status = st\<rparr>"

definition commit_transaction ::
  "transaction_record \<Rightarrow> block_number \<Rightarrow> u64 \<Rightarrow> bool \<times> transaction_record" where
  "commit_transaction t commit_height commit_timestamp =
     (case tr_status t of
        TxPending \<Rightarrow> (True, t\<lparr>tr_status := TxCommitted commit_height commit_timestamp\<rparr>)
      | TxDiscarded _ \<Rightarrow> (False, t)
      | TxCommitted _ _ \<Rightarrow> (False, t))"

definition discard_transaction ::
  "transaction_record \<Rightarrow> discard_cause \<Rightarrow> bool \<times> transaction_record" where
  "discard_transaction t cause =
     (case tr_status t of
        TxPending \<Rightarrow> (True, t\<lparr>tr_status := TxDiscarded cause\<rparr>)
      | TxDiscarded _ \<Rightarrow> (False, t)
      | TxCommitted _ _ \<Rightarrow> (False, t))"

fun discard_cause_to_string :: "discard_cause \<Rightarrow> string" where
  "discard_cause_to_string Expired = ''Expired''"
| "discard_cause_to_string InputConsumed = ''InputConsumed''"
| "discard_cause_to_string DiscardedInitialState = ''DiscardedInitialState''"
| "discard_cause_to_string Stale = ''Stale''"

definition discard_cause_from_string :: "string \<Rightarrow> string + discard_cause" where
  "discard_cause_from_string cause =
     (if cause = ''Expired'' then Inr Expired
      else if cause = ''InputConsumed'' then Inr InputConsumed
      else if cause = ''DiscardedInitialState'' then Inr DiscardedInitialState
      else if cause = ''Stale'' then Inr Stale
      else Inl (''Invalid discard cause: '' @ cause))"

datatype transaction_status_variant = PendingVariant | CommittedVariant | DiscardedVariant

fun status_variant :: "transaction_status \<Rightarrow> transaction_status_variant" where
  "status_variant TxPending = PendingVariant"
| "status_variant (TxCommitted _ _) = CommittedVariant"
| "status_variant (TxDiscarded _) = DiscardedVariant"

fun variant_as_u8 :: "transaction_status_variant \<Rightarrow> u8" where
  "variant_as_u8 PendingVariant = 0"
| "variant_as_u8 CommittedVariant = 1"
| "variant_as_u8 DiscardedVariant = 2"

abbreviation tx_pending :: "transaction_record \<Rightarrow> bool" where
  "tx_pending t \<equiv> tr_status t = TxPending"

abbreviation tx_init :: "transaction_record \<Rightarrow> digest" where
  "tx_init t \<equiv> td_init_account_state (tr_details t)"

abbreviation tx_final :: "transaction_record \<Rightarrow> digest" where
  "tx_final t \<equiv> td_final_account_state (tr_details t)"

section \<open>The status machine\<close>

datatype transaction_event =
    CommitTransaction block_number u64
  | DiscardTransaction discard_cause

fun transaction_step :: "transaction_record \<Rightarrow> transaction_event \<Rightarrow> unit + transaction_record" where
  "transaction_step t (CommitTransaction h ts) = Inr (snd (commit_transaction t h ts))"
| "transaction_step t (DiscardTransaction c) = Inr (snd (discard_transaction t c))"

definition sample_transaction :: transaction_record where
  "sample_transaction =
     \<lparr>tr_id = TransactionId (Digest 8),
      tr_details = \<lparr>td_account_id = AccountId 1, td_init_account_state = Digest 20,
        td_final_account_state = Digest 21, td_input_note_nullifiers = [Digest 5],
        td_output_notes = [], td_block_num = 6, td_submission_height = 6,
        td_expiration_block_num = 50, td_creation_timestamp = 44\<rparr>,
      tr_script = None, tr_status = TxPending\<rparr>"

lemmas transaction_defs [step_defs] = commit_transaction_def discard_transaction_def

interpretation tx: lifecycle transaction_step "\<lambda>t. \<not> tx_pending t" "\<lambda>t. t"
  by unfold_locales
    (rename_tac s ev t, case_tac ev, auto simp: transaction_defs split: transaction_status.splits)

lemma commit_transaction_changed [simp]: "fst (commit_transaction t h ts) = tx_pending t"
  by (simp add: commit_transaction_def split: transaction_status.splits)

lemma discard_transaction_changed [simp]: "fst (discard_transaction t c) = tx_pending t"
  by (simp add: discard_transaction_def split: transaction_status.splits)

lemma discard_cause_string_roundtrip:
  "discard_cause_from_string (discard_cause_to_string c) = Inr c"
  by (cases c) (simp_all add: discard_cause_from_string_def)

lemma discard_cause_from_string_Inr:
  "discard_cause_from_string s = Inr c \<Longrightarrow> s = discard_cause_to_string c"
  by (auto simp: discard_cause_from_string_def split: if_splits)

section \<open>Properties\<close>

text \<open>
  A transaction is settled once: \<open>commit_transaction\<close> and \<open>discard_transaction\<close> report a
  change exactly for a pending record, and a record that is committed or discarded stays
  exactly as it is through any later sequence of commits and discards.
\<close>

lemma transaction_settles_once:
  assumes "\<not> tx_pending t" and "try_fold transaction_step t evs = Inr t'"
  shows "t' = t \<and> \<not> fst (commit_transaction t' h ts) \<and> \<not> fst (discard_transaction t' c)"
  using tx.final_run [OF assms] assms(1) by simp

lemma transaction_settles_once_witness:
  "\<not> tx_pending (sample_transaction\<lparr>tr_status := TxDiscarded Stale\<rparr>)
   \<and> try_fold transaction_step (sample_transaction\<lparr>tr_status := TxDiscarded Stale\<rparr>)
       [CommitTransaction 9 1000, DiscardTransaction Expired]
     = Inr (sample_transaction\<lparr>tr_status := TxDiscarded Stale\<rparr>)
   \<and> \<not> fst (commit_transaction (sample_transaction\<lparr>tr_status := TxDiscarded Stale\<rparr>) 10 7)"
proof -
  have p: "\<not> tx_pending (sample_transaction\<lparr>tr_status := TxDiscarded Stale\<rparr>)" by simp
  have run: "try_fold transaction_step (sample_transaction\<lparr>tr_status := TxDiscarded Stale\<rparr>)
      [CommitTransaction 9 1000, DiscardTransaction Expired]
    = Inr (sample_transaction\<lparr>tr_status := TxDiscarded Stale\<rparr>)"
    by (simp add: transaction_defs)
  show ?thesis using p run transaction_settles_once [OF p run, of 10 7] by blast
qed

text \<open>
  Discard causes survive being stored as text: the parser accepts exactly the four
  printed names and returns the cause that was printed.
\<close>

lemma discard_cause_string_form:
  "discard_cause_from_string s = Inr c \<longleftrightarrow> s = discard_cause_to_string c"
  using discard_cause_string_roundtrip discard_cause_from_string_Inr by blast

end
