(* ===== verification/Rust_Text.thy ===== *)
theory Rust_Text
  imports Client_Prelude
begin

text \<open>
  The text operations of Rust's standard library that the client uses: decimal output and
  parsing of unsigned integers (\<open>to_string\<close>, \<open>parse\<close> with its errors), \<open>split\<close> on a character,
  \<open>trim_end_matches\<close>, \<open>find\<close> and \<open>rfind\<close>. A \<open>str\<close> is the list of its bytes. The theory shows that
  parsing reads back what was written, whatever zeros precede it, and when parsing succeeds.
\<close>

section \<open>Digits\<close>

definition digit_value :: "char \<Rightarrow> nat option" where
  "digit_value c = (let k = of_char c :: nat in if 48 \<le> k \<and> k \<le> 57 then Some (k - 48) else None)"

abbreviation is_digit :: "char \<Rightarrow> bool" where
  "is_digit c \<equiv> digit_value c \<noteq> None"

definition all_digits :: "string \<Rightarrow> bool" where
  "all_digits s \<longleftrightarrow> list_all is_digit s"

lemma all_digits_simps [simp]:
  "all_digits []" "all_digits (c # s) \<longleftrightarrow> is_digit c \<and> all_digits s"
  "all_digits (s @ t) \<longleftrightarrow> all_digits s \<and> all_digits t"
  by (simp_all add: all_digits_def)

lemma digit_value_digit_char [simp]: "d < 10 \<Longrightarrow> digit_value (digit_char d) = Some d"
  by (simp add: digit_value_def digit_char_def of_char_of take_bit_eq_mod Let_def)

lemma digit_value_less: "digit_value c = Some d \<Longrightarrow> d < 10"
  by (auto simp: digit_value_def Let_def split: if_splits)

text \<open>The number a list of digits denotes, most significant first.\<close>

definition digits_step :: "nat \<Rightarrow> char \<Rightarrow> nat" where
  "digits_step a c = a * 10 + the (digit_value c)"

definition digits_value :: "string \<Rightarrow> nat" where
  "digits_value s = foldl digits_step 0 s"

lemma foldl_digits_step: "foldl digits_step a s = a * 10 ^ length s + digits_value s"
proof (induction s arbitrary: a)
  case Nil
  then show ?case by (simp add: digits_value_def)
next
  case (Cons c s)
  have "digits_value (c # s) = foldl digits_step (digits_step 0 c) s"
    by (simp add: digits_value_def)
  moreover have "digits_step a c = a * 10 + digits_step 0 c" by (simp add: digits_step_def)
  ultimately show ?case using Cons [of "digits_step a c"] Cons [of "digits_step 0 c"]
    by (simp add: algebra_simps)
qed

lemma digits_value_Nil [simp]: "digits_value [] = 0"
  by (simp add: digits_value_def)

lemma digits_value_append: "digits_value (s @ t) = digits_value s * 10 ^ length t + digits_value t"
  unfolding digits_value_def foldl_append
  by (subst foldl_digits_step) (simp add: digits_value_def)

lemma digits_value_Cons: "digits_value (c # s) = digits_step 0 c * 10 ^ length s + digits_value s"
  using digits_value_append [of "[c]" s] by (simp add: digits_value_def)

lemma digits_value_single [simp]: "digits_value [c] = the (digit_value c)"
  by (simp add: digits_value_def digits_step_def)

lemma digits_value_zeros: "digits_value (replicate n CHR ''0'') = 0"
proof (induction n)
  case (Suc n)
  have "replicate (Suc n) CHR ''0'' = replicate n CHR ''0'' @ [CHR ''0'']"
    by (rule replicate_Suc [unfolded replicate_append_same [symmetric]])
  with Suc show ?case by (simp add: digits_value_append digit_value_def)
qed simp

lemma zeros_are_digits: "all_digits (replicate n CHR ''0'')"
  by (simp add: all_digits_def list_all_iff digit_value_def)

lemma decimal_digits: "all_digits (decimal n)"
proof (induction n rule: decimal.induct)
  case (1 n)
  then show ?case by (subst decimal.simps) (auto simp: digit_value_digit_char)
qed

lemma digits_value_decimal [simp]: "digits_value (decimal n) = n"
proof (induction n rule: decimal.induct)
  case (1 n)
  then show ?case by (subst decimal.simps) (auto simp: digits_value_append)
qed

lemma decimal_not_Nil [simp]: "decimal n \<noteq> []"
  by (subst decimal.simps) auto

section \<open>Parsing unsigned integers\<close>

datatype parse_int_error = EmptyInt | InvalidDigit | PosOverflow

fun parse_int_display :: "parse_int_error \<Rightarrow> string" where
  "parse_int_display EmptyInt = ''cannot parse integer from empty string''"
| "parse_int_display InvalidDigit = ''invalid digit found in string''"
| "parse_int_display PosOverflow = ''number too large to fit in target type''"

text \<open>
  The loop of \<open>from_str_radix\<close> for base ten: the digit is checked before the multiplication, and
  both the multiplication and the addition are checked against the largest value of the type.
\<close>

fun parse_digits :: "nat \<Rightarrow> nat \<Rightarrow> string \<Rightarrow> parse_int_error + nat" where
  "parse_digits hi acc [] = Inr acc"
| "parse_digits hi acc (c # cs) =
     (case digit_value c of
        None \<Rightarrow> Inl InvalidDigit
      | Some d \<Rightarrow>
          if hi < acc * 10 \<or> hi < acc * 10 + d then Inl PosOverflow
          else parse_digits hi (acc * 10 + d) cs)"

text \<open>A single sign is no number; otherwise a leading plus is skipped.\<close>

fun parse_unsigned :: "nat \<Rightarrow> string \<Rightarrow> parse_int_error + nat" where
  "parse_unsigned hi [] = Inl EmptyInt"
| "parse_unsigned hi (c # cs) =
     (if cs = [] \<and> (c = CHR ''+'' \<or> c = CHR ''-'') then Inl InvalidDigit
      else if c = CHR ''+'' then parse_digits hi 0 cs
      else parse_digits hi 0 (c # cs))"

lemma parse_digits_Inr:
  "parse_digits hi acc s = Inr n \<longleftrightarrow>
     all_digits s \<and> foldl digits_step acc s = n \<and> (s \<noteq> [] \<longrightarrow> n \<le> hi)"
proof (induction s arbitrary: acc)
  case Nil
  then show ?case by auto
next
  case (Cons c s)
  show ?case
  proof (cases "digit_value c")
    case None
    then show ?thesis by simp
  next
    case (Some d)
    have step: "digits_step acc c = acc * 10 + d" by (simp add: digits_step_def Some)
    have le: "acc * 10 + d \<le> foldl digits_step (acc * 10 + d) s"
      unfolding foldl_digits_step by (simp add: trans_le_add1)
    then show ?thesis using Cons [of "acc * 10 + d"] by (auto simp: Some step)
  qed
qed

text \<open>Parsing succeeds exactly on one optional plus and at least one digit, within the range.\<close>

definition unsigned_text :: "string \<Rightarrow> string \<Rightarrow> bool" where
  "unsigned_text s ds \<longleftrightarrow> ds \<noteq> [] \<and> all_digits ds \<and> (s = ds \<or> s = CHR ''+'' # ds)"

lemma plus_no_digit [simp]: "digit_value CHR ''+'' = None" "digit_value CHR ''-'' = None"
  "digit_value CHR ''.'' = None" "digit_value CHR '':'' = None" "digit_value CHR ''/'' = None"
  by (simp_all add: digit_value_def)

lemma parse_unsigned_Inr:
  "parse_unsigned hi s = Inr n \<longleftrightarrow> (\<exists>ds. unsigned_text s ds \<and> digits_value ds = n \<and> n \<le> hi)"
proof (cases s)
  case Nil
  then show ?thesis by (auto simp: unsigned_text_def)
next
  case (Cons c cs)
  show ?thesis
  proof (cases "c = CHR ''+''")
    case True
    then show ?thesis
      by (cases "cs = []") (auto simp: Cons unsigned_text_def parse_digits_Inr digits_value_def)
  next
    case False
    have "parse_unsigned hi s = parse_digits hi 0 (c # cs)"
    if "\<not> (cs = [] \<and> c = CHR ''-'')"
      using False that by (simp add: Cons)
    moreover have "parse_unsigned hi s = Inl InvalidDigit" if "cs = [] \<and> c = CHR ''-''"
      using that by (simp add: Cons)
    ultimately show ?thesis
      using False parse_digits_Inr [of hi 0 "c # cs" n] unfolding Cons
      by (cases "cs = [] \<and> c = CHR ''-''") (auto simp: unsigned_text_def digits_value_def simp del: parse_digits.simps)
  qed
qed

lemma parse_unsigned_digits:
  "ds \<noteq> [] \<Longrightarrow> all_digits ds \<Longrightarrow> digits_value ds \<le> hi \<Longrightarrow>
     parse_unsigned hi ds = Inr (digits_value ds)"
  by (auto simp: parse_unsigned_Inr unsigned_text_def)

lemma parse_unsigned_decimal: "n \<le> hi \<Longrightarrow> parse_unsigned hi (decimal n) = Inr n"
  using parse_unsigned_digits [OF decimal_not_Nil decimal_digits, of n hi] by simp

definition parse_u64 :: "string \<Rightarrow> parse_int_error + u64" where
  "parse_u64 s = and_then (parse_unsigned (2 ^ 64 - 1) s) (\<lambda>n. Inr (of_nat n))"

definition parse_u16 :: "string \<Rightarrow> parse_int_error + u16" where
  "parse_u16 s = and_then (parse_unsigned (2 ^ 16 - 1) s) (\<lambda>n. Inr (of_nat n))"

lemma parse_u64_Inr:
  "parse_u64 s = Inr w \<longleftrightarrow> (\<exists>ds. unsigned_text s ds \<and> digits_value ds = unat w)"
  using unsigned_less [of w, where ?'a = nat]
  by (auto simp: parse_u64_def and_then_Inr_conv parse_unsigned_Inr unsigned_of_nat take_bit_eq_mod intro!: exI [of _ "unat w"])

lemma parse_u16_decimal: "parse_u16 (decimal (unat w)) = Inr w"
  using unsigned_less [of w, where ?'a = nat] by (simp add: parse_u16_def parse_unsigned_decimal)

section \<open>Searching and splitting\<close>

text \<open>\<open>split(c)\<close>: the pieces between the occurrences, at least one.\<close>

fun split_on :: "char \<Rightarrow> string \<Rightarrow> string list" where
  "split_on c [] = [[]]"
| "split_on c (x # xs) =
     (if x = c then [] # split_on c xs
      else (case split_on c xs of p # ps \<Rightarrow> (x # p) # ps | [] \<Rightarrow> [[x]]))"

lemma split_on_not_Nil [simp]: "split_on c s \<noteq> []"
  by (induction s) (auto split: list.split)

lemma split_on_absent: "c \<notin> set s \<Longrightarrow> split_on c s = [s]"
  by (induction s) auto

lemma split_on_append: "c \<notin> set s \<Longrightarrow> split_on c (s @ c # t) = s # split_on c t"
  by (induction s) auto

lemma split_on_join:
  "split_on c s = ps \<Longrightarrow> s = concat (hd ps # map (\<lambda>p. c # p) (tl ps)) \<and> (\<forall>p \<in> set ps. c \<notin> set p)"
proof (induction s arbitrary: ps)
  case Nil
  then show ?case by auto
next
  case (Cons x s)
  obtain p qs where pq: "split_on c s = p # qs" by (cases "split_on c s") auto
  have ps: "ps = (if x = c then [] # p # qs else (x # p) # qs)"
    using Cons.prems by (auto simp: pq)
  have s: "s = p @ concat (map (\<lambda>p. c # p) qs)" and "\<forall>p \<in> set (p # qs). c \<notin> set p"
    using Cons.IH [OF pq] by auto
  then show ?case unfolding ps by (subst s) auto
qed

text \<open>\<open>trim_end_matches(c)\<close>.\<close>

definition trim_end :: "char \<Rightarrow> string \<Rightarrow> string" where
  "trim_end c s = rev (dropWhile (\<lambda>x. x = c) (rev s))"

lemma trim_end_pad:
  "trim_end c s @ replicate (length s - length (trim_end c s)) c = s"
proof -
  let ?t = "takeWhile (\<lambda>x. x = c) (rev s)"
  have t: "?t = replicate (length ?t) c"
    by (rule replicate_length_same [symmetric]) (auto dest: set_takeWhileD)
  have "rev ?t = replicate (length ?t) c" by (subst t) simp
  moreover have "s = trim_end c s @ rev ?t"
    unfolding trim_end_def rev_append [symmetric] by simp
  moreover from this have "length s - length (trim_end c s) = length ?t"
    by (metis add_diff_cancel_left' length_append length_rev)
  ultimately show ?thesis by metis
qed

lemma trim_end_split: obtains k where "s = trim_end c s @ replicate k c"
  using trim_end_pad [of c s] by metis

lemma trim_end_mem: "x \<in> set s \<Longrightarrow> x \<noteq> c \<Longrightarrow> x \<in> set (trim_end c s)"
  by (rule trim_end_split [of s c]) (metis Un_iff in_set_replicate set_append)

lemma trim_end_absent: "c \<notin> set s \<Longrightarrow> trim_end c s = s"
  by (cases s rule: rev_cases) (auto simp: trim_end_def)

lemma trim_end_length: "length (trim_end c s) \<le> length s"
  using trim_end_pad [of c s] by (metis length_append le_add1)

text \<open>\<open>find\<close> of a pattern and \<open>rfind\<close> of a character: byte indexes.\<close>

fun find_str :: "string \<Rightarrow> string \<Rightarrow> nat option" where
  "find_str pat [] = (if pat = [] then Some 0 else None)"
| "find_str pat (x # xs) =
     (if take (length pat) (x # xs) = pat then Some 0 else map_option Suc (find_str pat xs))"

fun rfind_char :: "char \<Rightarrow> string \<Rightarrow> nat option" where
  "rfind_char c [] = None"
| "rfind_char c (x # xs) =
     (case rfind_char c xs of
        Some i \<Rightarrow> Some (Suc i)
      | None \<Rightarrow> if x = c then Some 0 else None)"

lemma rfind_char_None: "rfind_char c s = None \<longleftrightarrow> c \<notin> set s"
  by (induction s) (auto split: option.splits)

lemma rfind_char_append: "c \<notin> set t \<Longrightarrow> rfind_char c (s @ c # t) = Some (length s)"
proof (induction s)
  case Nil
  then have "rfind_char c t = None" by (simp add: rfind_char_None)
  then show ?case by simp
qed simp

lemma find_str_first:
  "pat \<noteq> [] \<Longrightarrow> hd pat \<notin> set s \<Longrightarrow> find_str pat (s @ pat @ t) = Some (length s)"
proof (induction s)
  case Nil
  then show ?case by (cases pat) auto
next
  case (Cons x s)
  then have "take (length pat) (x # (s @ pat @ t)) \<noteq> pat" by (cases pat) auto
  then show ?case using Cons by simp
qed

lemma find_str_absent: "pat \<noteq> [] \<Longrightarrow> hd pat \<notin> set s \<Longrightarrow> find_str pat s = None"
proof (induction s)
  case (Cons x s)
  then have "take (length pat) (x # s) \<noteq> pat" by (cases pat) auto
  then show ?case using Cons by simp
qed simp

lemma find_str_Some: "find_str pat s = Some i \<Longrightarrow> take (length pat) (drop i s) = pat \<and> i \<le> length s"
  by (induction s arbitrary: i) (auto split: if_splits)

lemma rfind_char_Some:
  "rfind_char c s = Some i \<Longrightarrow> i < length s \<and> s ! i = c \<and> (\<forall>j. i < j \<and> j < length s \<longrightarrow> s ! j \<noteq> c)"
proof (induction s arbitrary: i)
  case (Cons x s)
  show ?case
  proof (cases "rfind_char c s")
    case None
    then have "c \<notin> set s" by (simp add: rfind_char_None)
    moreover have "x = c" "i = 0" using Cons.prems None by (auto split: if_splits)
    ultimately show ?thesis by (auto simp: nth_Cons in_set_conv_nth split: nat.splits)
  next
    case (Some k)
    then have i: "i = Suc k" using Cons.prems by simp
    from Cons.IH [OF Some] show ?thesis
      unfolding i by (auto simp: nth_Cons split: nat.splits)
  qed
qed simp

end
