(* ===== verification/Rpc_Errors.thy ===== *)
theory Rpc_Errors
  imports Protocol_Types Rust_Text
begin

text \<open>
  The errors of the node interface: the endpoints and their names (\<open>RpcEndpoint\<close>, \<^verbatim>\<open>rpc/mod.rs\<close>),
  the application errors a node attaches to a failed call (\<^verbatim>\<open>rpc/errors/node\<close>), the gRPC error
  kinds and accept header errors (\<^verbatim>\<open>rpc/errors/mod.rs\<close>) and how a gRPC status becomes an
  \<open>RpcError\<close> (\<^verbatim>\<open>rpc/tonic_client/mod.rs\<close>). The theory shows that no two error codes of a node
  are reported as the same error, that codes the client does not know are kept with their
  message, and which statuses become which errors.
\<close>

section \<open>Endpoints\<close>

datatype rpc_endpoint =
    StatusEndpoint
  | CheckNullifiersEndpoint
  | SyncNullifiersEndpoint
  | GetAccountEndpoint
  | GetBlockByNumberEndpoint
  | GetBlockHeaderByNumberEndpoint
  | GetNotesByIdEndpoint
  | SyncChainMmrEndpoint
  | SubmitProvenTxEndpoint
  | SyncNotesEndpoint
  | GetNoteScriptByRootEndpoint
  | SyncStorageMapsEndpoint
  | SyncAccountVaultEndpoint
  | SyncTransactionsEndpoint
  | GetLimitsEndpoint

fun proto_name :: "rpc_endpoint \<Rightarrow> string" where
  "proto_name StatusEndpoint = ''Status''"
| "proto_name CheckNullifiersEndpoint = ''CheckNullifiers''"
| "proto_name SyncNullifiersEndpoint = ''SyncNullifiers''"
| "proto_name GetAccountEndpoint = ''GetAccount''"
| "proto_name GetBlockByNumberEndpoint = ''GetBlockByNumber''"
| "proto_name GetBlockHeaderByNumberEndpoint = ''GetBlockHeaderByNumber''"
| "proto_name GetNotesByIdEndpoint = ''GetNotesById''"
| "proto_name SyncChainMmrEndpoint = ''SyncChainMmr''"
| "proto_name SubmitProvenTxEndpoint = ''SubmitProvenTransaction''"
| "proto_name SyncNotesEndpoint = ''SyncNotes''"
| "proto_name GetNoteScriptByRootEndpoint = ''GetNoteScriptByRoot''"
| "proto_name SyncStorageMapsEndpoint = ''SyncStorageMaps''"
| "proto_name SyncAccountVaultEndpoint = ''SyncAccountVault''"
| "proto_name SyncTransactionsEndpoint = ''SyncTransactions''"
| "proto_name GetLimitsEndpoint = ''GetLimits''"

fun endpoint_display :: "rpc_endpoint \<Rightarrow> string" where
  "endpoint_display StatusEndpoint = ''status''"
| "endpoint_display CheckNullifiersEndpoint = ''check_nullifiers''"
| "endpoint_display SyncNullifiersEndpoint = ''sync_nullifiers''"
| "endpoint_display GetAccountEndpoint = ''get_account_proof''"
| "endpoint_display GetBlockByNumberEndpoint = ''get_block_by_number''"
| "endpoint_display GetBlockHeaderByNumberEndpoint = ''get_block_header_by_number''"
| "endpoint_display GetNotesByIdEndpoint = ''get_notes_by_id''"
| "endpoint_display SyncChainMmrEndpoint = ''sync_chain_mmr''"
| "endpoint_display SubmitProvenTxEndpoint = ''submit_proven_transaction''"
| "endpoint_display SyncNotesEndpoint = ''sync_notes''"
| "endpoint_display GetNoteScriptByRootEndpoint = ''get_note_script_by_root''"
| "endpoint_display SyncStorageMapsEndpoint = ''sync_storage_maps''"
| "endpoint_display SyncAccountVaultEndpoint = ''sync_account_vault''"
| "endpoint_display SyncTransactionsEndpoint = ''sync_transactions''"
| "endpoint_display GetLimitsEndpoint = ''get_limits''"

section \<open>Application errors of the node\<close>

text \<open>
  One type per endpoint with the error codes of the node, numbered from zero; a code the client
  does not know is kept with the message.
\<close>

datatype add_transaction_error =
    AddInternal
  | AddInputNotesAlreadyConsumed
  | AddUnauthenticatedNotesNotFound
  | AddOutputNotesAlreadyExist
  | AddIncorrectAccountInitialCommitment
  | AddInvalidTransactionProof
  | AddTransactionDeserializationFailed
  | AddExpired
  | AddCapacityExceeded
  | AddUnknown u8 string

definition add_transaction_error_from_code :: "u8 \<Rightarrow> string \<Rightarrow> add_transaction_error" where
  "add_transaction_error_from_code code message =
     (if code = 0 then AddInternal
      else if code = 1 then AddInputNotesAlreadyConsumed
      else if code = 2 then AddUnauthenticatedNotesNotFound
      else if code = 3 then AddOutputNotesAlreadyExist
      else if code = 4 then AddIncorrectAccountInitialCommitment
      else if code = 5 then AddInvalidTransactionProof
      else if code = 6 then AddTransactionDeserializationFailed
      else if code = 7 then AddExpired
      else if code = 8 then AddCapacityExceeded
      else AddUnknown code message)"

datatype get_block_header_error =
    HeaderInternal
  | HeaderUnknown u8 string

definition get_block_header_error_from_code :: "u8 \<Rightarrow> string \<Rightarrow> get_block_header_error" where
  "get_block_header_error_from_code code message =
     (if code = 0 then HeaderInternal
      else HeaderUnknown code message)"

datatype get_block_by_number_error =
    BlockInternal
  | BlockDeserializationFailed
  | BlockUnknown u8 string

definition get_block_by_number_error_from_code :: "u8 \<Rightarrow> string \<Rightarrow> get_block_by_number_error" where
  "get_block_by_number_error_from_code code message =
     (if code = 0 then BlockInternal
      else if code = 1 then BlockDeserializationFailed
      else BlockUnknown code message)"

datatype note_sync_error =
    NoteSyncInternal
  | NoteSyncInvalidBlockRange
  | NoteSyncDeserializationFailed
  | NoteSyncUnknown u8 string

definition note_sync_error_from_code :: "u8 \<Rightarrow> string \<Rightarrow> note_sync_error" where
  "note_sync_error_from_code code message =
     (if code = 0 then NoteSyncInternal
      else if code = 1 then NoteSyncInvalidBlockRange
      else if code = 2 then NoteSyncDeserializationFailed
      else NoteSyncUnknown code message)"

datatype sync_nullifiers_error =
    NullifiersInternal
  | NullifiersInvalidBlockRange
  | NullifiersInvalidPrefixLength
  | NullifiersDeserializationFailed
  | NullifiersUnknown u8 string

definition sync_nullifiers_error_from_code :: "u8 \<Rightarrow> string \<Rightarrow> sync_nullifiers_error" where
  "sync_nullifiers_error_from_code code message =
     (if code = 0 then NullifiersInternal
      else if code = 1 then NullifiersInvalidBlockRange
      else if code = 2 then NullifiersInvalidPrefixLength
      else if code = 3 then NullifiersDeserializationFailed
      else NullifiersUnknown code message)"

datatype sync_account_vault_error =
    VaultInternal
  | VaultInvalidBlockRange
  | VaultDeserializationFailed
  | VaultAccountNotPublic
  | VaultUnknown u8 string

definition sync_account_vault_error_from_code :: "u8 \<Rightarrow> string \<Rightarrow> sync_account_vault_error" where
  "sync_account_vault_error_from_code code message =
     (if code = 0 then VaultInternal
      else if code = 1 then VaultInvalidBlockRange
      else if code = 2 then VaultDeserializationFailed
      else if code = 3 then VaultAccountNotPublic
      else VaultUnknown code message)"

datatype sync_storage_maps_error =
    MapsInternal
  | MapsInvalidBlockRange
  | MapsDeserializationFailed
  | MapsAccountNotFound
  | MapsAccountNotPublic
  | MapsUnknown u8 string

definition sync_storage_maps_error_from_code :: "u8 \<Rightarrow> string \<Rightarrow> sync_storage_maps_error" where
  "sync_storage_maps_error_from_code code message =
     (if code = 0 then MapsInternal
      else if code = 1 then MapsInvalidBlockRange
      else if code = 2 then MapsDeserializationFailed
      else if code = 3 then MapsAccountNotFound
      else if code = 4 then MapsAccountNotPublic
      else MapsUnknown code message)"

datatype sync_transactions_error =
    TransactionsInternal
  | TransactionsInvalidBlockRange
  | TransactionsDeserializationFailed
  | TransactionsAccountNotFound
  | TransactionsWitnessError
  | TransactionsUnknown u8 string

definition sync_transactions_error_from_code :: "u8 \<Rightarrow> string \<Rightarrow> sync_transactions_error" where
  "sync_transactions_error_from_code code message =
     (if code = 0 then TransactionsInternal
      else if code = 1 then TransactionsInvalidBlockRange
      else if code = 2 then TransactionsDeserializationFailed
      else if code = 3 then TransactionsAccountNotFound
      else if code = 4 then TransactionsWitnessError
      else TransactionsUnknown code message)"

datatype get_notes_by_id_error =
    NotesInternal
  | NotesDeserializationFailed
  | NotesNoteNotFound
  | NotesNoteNotPublic
  | NotesUnknown u8 string

definition get_notes_by_id_error_from_code :: "u8 \<Rightarrow> string \<Rightarrow> get_notes_by_id_error" where
  "get_notes_by_id_error_from_code code message =
     (if code = 0 then NotesInternal
      else if code = 1 then NotesDeserializationFailed
      else if code = 2 then NotesNoteNotFound
      else if code = 3 then NotesNoteNotPublic
      else NotesUnknown code message)"

datatype get_note_script_error =
    ScriptInternal
  | ScriptDeserializationFailed
  | ScriptScriptNotFound
  | ScriptUnknown u8 string

definition get_note_script_error_from_code :: "u8 \<Rightarrow> string \<Rightarrow> get_note_script_error" where
  "get_note_script_error_from_code code message =
     (if code = 0 then ScriptInternal
      else if code = 1 then ScriptDeserializationFailed
      else if code = 2 then ScriptScriptNotFound
      else ScriptUnknown code message)"

datatype check_nullifiers_error =
    CheckInternal
  | CheckDeserializationFailed
  | CheckUnknown u8 string

definition check_nullifiers_error_from_code :: "u8 \<Rightarrow> string \<Rightarrow> check_nullifiers_error" where
  "check_nullifiers_error_from_code code message =
     (if code = 0 then CheckInternal
      else if code = 1 then CheckDeserializationFailed
      else CheckUnknown code message)"

datatype get_account_error =
    AccountInternal
  | AccountDeserializationFailed
  | AccountAccountNotFound
  | AccountAccountNotPublic
  | AccountUnknownBlock
  | AccountBlockPruned
  | AccountUnknown u8 string

definition get_account_error_from_code :: "u8 \<Rightarrow> string \<Rightarrow> get_account_error" where
  "get_account_error_from_code code message =
     (if code = 0 then AccountInternal
      else if code = 1 then AccountDeserializationFailed
      else if code = 2 then AccountAccountNotFound
      else if code = 3 then AccountAccountNotPublic
      else if code = 4 then AccountUnknownBlock
      else if code = 5 then AccountBlockPruned
      else AccountUnknown code message)"

datatype endpoint_error =
    EndpointAddTransaction add_transaction_error
  | EndpointGetBlockHeader get_block_header_error
  | EndpointGetBlockByNumber get_block_by_number_error
  | EndpointNoteSync note_sync_error
  | EndpointSyncNullifiers sync_nullifiers_error
  | EndpointSyncAccountVault sync_account_vault_error
  | EndpointSyncStorageMaps sync_storage_maps_error
  | EndpointSyncTransactions sync_transactions_error
  | EndpointGetNotesById get_notes_by_id_error
  | EndpointGetNoteScriptByRoot get_note_script_error
  | EndpointCheckNullifiers check_nullifiers_error
  | EndpointGetAccount get_account_error

fun typed_node_error :: "rpc_endpoint \<Rightarrow> u8 \<Rightarrow> string \<Rightarrow> endpoint_error option" where
  "typed_node_error SubmitProvenTxEndpoint code message = Some (EndpointAddTransaction (add_transaction_error_from_code code message))"
| "typed_node_error GetBlockHeaderByNumberEndpoint code message = Some (EndpointGetBlockHeader (get_block_header_error_from_code code message))"
| "typed_node_error GetBlockByNumberEndpoint code message = Some (EndpointGetBlockByNumber (get_block_by_number_error_from_code code message))"
| "typed_node_error SyncNotesEndpoint code message = Some (EndpointNoteSync (note_sync_error_from_code code message))"
| "typed_node_error SyncNullifiersEndpoint code message = Some (EndpointSyncNullifiers (sync_nullifiers_error_from_code code message))"
| "typed_node_error SyncAccountVaultEndpoint code message = Some (EndpointSyncAccountVault (sync_account_vault_error_from_code code message))"
| "typed_node_error SyncStorageMapsEndpoint code message = Some (EndpointSyncStorageMaps (sync_storage_maps_error_from_code code message))"
| "typed_node_error SyncTransactionsEndpoint code message = Some (EndpointSyncTransactions (sync_transactions_error_from_code code message))"
| "typed_node_error GetNotesByIdEndpoint code message = Some (EndpointGetNotesById (get_notes_by_id_error_from_code code message))"
| "typed_node_error GetNoteScriptByRootEndpoint code message = Some (EndpointGetNoteScriptByRoot (get_note_script_error_from_code code message))"
| "typed_node_error CheckNullifiersEndpoint code message = Some (EndpointCheckNullifiers (check_nullifiers_error_from_code code message))"
| "typed_node_error GetAccountEndpoint code message = Some (EndpointGetAccount (get_account_error_from_code code message))"
| "typed_node_error SyncChainMmrEndpoint code message = None"
| "typed_node_error StatusEndpoint code message = None"
| "typed_node_error GetLimitsEndpoint code message = None"

definition parse_node_error :: "rpc_endpoint \<Rightarrow> u8 list \<Rightarrow> string \<Rightarrow> endpoint_error option" where
  "parse_node_error endpoint details message =
     (case details of [] \<Rightarrow> None | code # _ \<Rightarrow> typed_node_error endpoint code message)"

section \<open>gRPC statuses\<close>

text \<open>The status codes of gRPC and a status as the client reads it.\<close>

datatype grpc_code =
    CodeOk
  | CodeCancelled
  | CodeUnknown
  | CodeInvalidArgument
  | CodeDeadlineExceeded
  | CodeNotFound
  | CodeAlreadyExists
  | CodePermissionDenied
  | CodeResourceExhausted
  | CodeFailedPrecondition
  | CodeAborted
  | CodeOutOfRange
  | CodeUnimplemented
  | CodeInternal
  | CodeUnavailable
  | CodeDataLoss
  | CodeUnauthenticated

fun code_as_i32 :: "grpc_code \<Rightarrow> int" where
  "code_as_i32 CodeOk = 0"
| "code_as_i32 CodeCancelled = 1"
| "code_as_i32 CodeUnknown = 2"
| "code_as_i32 CodeInvalidArgument = 3"
| "code_as_i32 CodeDeadlineExceeded = 4"
| "code_as_i32 CodeNotFound = 5"
| "code_as_i32 CodeAlreadyExists = 6"
| "code_as_i32 CodePermissionDenied = 7"
| "code_as_i32 CodeResourceExhausted = 8"
| "code_as_i32 CodeFailedPrecondition = 9"
| "code_as_i32 CodeAborted = 10"
| "code_as_i32 CodeOutOfRange = 11"
| "code_as_i32 CodeUnimplemented = 12"
| "code_as_i32 CodeInternal = 13"
| "code_as_i32 CodeUnavailable = 14"
| "code_as_i32 CodeDataLoss = 15"
| "code_as_i32 CodeUnauthenticated = 16"

record grpc_status =
  gs_code :: grpc_code
  gs_message :: string
  gs_details :: "u8 list"
  gs_metadata :: "(string \<times> string) list"

datatype grpc_error =
    GrpcNotFound
  | GrpcInvalidArgument
  | GrpcPermissionDenied
  | GrpcAlreadyExists
  | GrpcResourceExhausted
  | GrpcFailedPrecondition
  | GrpcCancelled
  | GrpcDeadlineExceeded
  | GrpcUnavailable
  | GrpcInternal
  | GrpcUnimplemented
  | GrpcUnauthenticated
  | GrpcAborted
  | GrpcOutOfRange
  | GrpcDataLoss
  | GrpcUnknown string

text \<open>The text of the fallback is only built when there is no message.\<close>

definition decimal_int :: "int \<Rightarrow> string" where
  "decimal_int k = (if k < 0 then CHR ''-'' # decimal (nat (- k)) else decimal (nat k))"

definition grpc_error_from_code :: "int \<Rightarrow> string option \<Rightarrow> grpc_error" where
  "grpc_error_from_code code message =
     (if code = 1 then GrpcCancelled
      else if code = 2 then GrpcUnknown (case message of Some m \<Rightarrow> m | None \<Rightarrow> [])
      else if code = 3 then GrpcInvalidArgument
      else if code = 4 then GrpcDeadlineExceeded
      else if code = 5 then GrpcNotFound
      else if code = 6 then GrpcAlreadyExists
      else if code = 7 then GrpcPermissionDenied
      else if code = 8 then GrpcResourceExhausted
      else if code = 9 then GrpcFailedPrecondition
      else if code = 10 then GrpcAborted
      else if code = 11 then GrpcOutOfRange
      else if code = 12 then GrpcUnimplemented
      else if code = 13 then GrpcInternal
      else if code = 14 then GrpcUnavailable
      else if code = 15 then GrpcDataLoss
      else if code = 16 then GrpcUnauthenticated
      else GrpcUnknown (case message of Some m \<Rightarrow> m
        | None \<Rightarrow> ''Unknown gRPC status code: '' @ decimal_int code))"

definition grpc_error_from_status :: "grpc_status \<Rightarrow> grpc_error" where
  "grpc_error_from_status status =
     grpc_error_from_code (code_as_i32 (gs_code status)) (Some (gs_message status))"

section \<open>Accept header errors\<close>

record accept_header_context =
  ac_client_version :: string
  ac_genesis_commitment :: string

datatype accept_header_error =
    NoSupportedMediaRange accept_header_context
  | AcceptParsingError string

definition str_contains :: "string \<Rightarrow> string \<Rightarrow> bool" where
  "str_contains s pat \<longleftrightarrow> find_str pat s \<noteq> None"

definition accept_error_from_message ::
  "string \<Rightarrow> accept_header_context \<Rightarrow> accept_header_error option" where
  "accept_error_from_message message context =
     (if str_contains message
           ''server does not support any of the specified application/vnd.miden content types''
      then Some (NoSupportedMediaRange context)
      else if str_contains message ''genesis value failed to parse''
           \<or> str_contains message ''version value failed to parse''
      then Some (AcceptParsingError message)
      else None)"

section \<open>The error of the client interface\<close>

text \<open>An error value of another crate, and a source error the code only displays, is its message.\<close>

type_synonym message = string

text \<open>\<open>RpcPanicked\<close> is a panic inside the client interface, not an error of the source.\<close>

datatype rpc_error =
    AcceptHeaderError accept_header_error
  | AccountUpdateForPrivateAccountReceived account_id
  | ConnectionError message
  | DeserializationError string
  | ExpectedDataMissing string
  | PaginationError string
  | InvalidResponse string
  | RequestError rpc_endpoint grpc_error "endpoint_error option" "grpc_status option"
  | NoteNotFound note_id
  | InvalidNodeEndpoint string
  | RpcPanicked string

fun rpc_endpoint_error :: "rpc_error \<Rightarrow> endpoint_error option" where
  "rpc_endpoint_error (RequestError _ _ endpoint_error _) = endpoint_error"
| "rpc_endpoint_error _ = None"

definition from_grpc_error_with_context ::
  "rpc_endpoint \<Rightarrow> grpc_status \<Rightarrow> accept_header_context \<Rightarrow> rpc_error" where
  "from_grpc_error_with_context endpoint status context =
     (case accept_error_from_message (gs_message status) context of
        Some accept_error \<Rightarrow> AcceptHeaderError accept_error
      | None \<Rightarrow>
          RequestError endpoint (grpc_error_from_status status)
            (parse_node_error endpoint (gs_details status) (gs_message status)) (Some status))"

section \<open>Error codes are kept apart\<close>

lemma add_transaction_error_inj: "add_transaction_error_from_code c m = add_transaction_error_from_code c' m' \<Longrightarrow> c = c'"
  by (simp add: add_transaction_error_from_code_def split: if_splits)

lemma get_block_header_error_inj: "get_block_header_error_from_code c m = get_block_header_error_from_code c' m' \<Longrightarrow> c = c'"
  by (simp add: get_block_header_error_from_code_def split: if_splits)

lemma get_block_by_number_error_inj: "get_block_by_number_error_from_code c m = get_block_by_number_error_from_code c' m' \<Longrightarrow> c = c'"
  by (simp add: get_block_by_number_error_from_code_def split: if_splits)

lemma note_sync_error_inj: "note_sync_error_from_code c m = note_sync_error_from_code c' m' \<Longrightarrow> c = c'"
  by (simp add: note_sync_error_from_code_def split: if_splits)

lemma sync_nullifiers_error_inj: "sync_nullifiers_error_from_code c m = sync_nullifiers_error_from_code c' m' \<Longrightarrow> c = c'"
  by (simp add: sync_nullifiers_error_from_code_def split: if_splits)

lemma sync_account_vault_error_inj: "sync_account_vault_error_from_code c m = sync_account_vault_error_from_code c' m' \<Longrightarrow> c = c'"
  by (simp add: sync_account_vault_error_from_code_def split: if_splits)

lemma sync_storage_maps_error_inj: "sync_storage_maps_error_from_code c m = sync_storage_maps_error_from_code c' m' \<Longrightarrow> c = c'"
  by (simp add: sync_storage_maps_error_from_code_def split: if_splits)

lemma sync_transactions_error_inj: "sync_transactions_error_from_code c m = sync_transactions_error_from_code c' m' \<Longrightarrow> c = c'"
  by (simp add: sync_transactions_error_from_code_def split: if_splits)

lemma get_notes_by_id_error_inj: "get_notes_by_id_error_from_code c m = get_notes_by_id_error_from_code c' m' \<Longrightarrow> c = c'"
  by (simp add: get_notes_by_id_error_from_code_def split: if_splits)

lemma get_note_script_error_inj: "get_note_script_error_from_code c m = get_note_script_error_from_code c' m' \<Longrightarrow> c = c'"
  by (simp add: get_note_script_error_from_code_def split: if_splits)

lemma check_nullifiers_error_inj: "check_nullifiers_error_from_code c m = check_nullifiers_error_from_code c' m' \<Longrightarrow> c = c'"
  by (simp add: check_nullifiers_error_from_code_def split: if_splits)

lemma get_account_error_inj: "get_account_error_from_code c m = get_account_error_from_code c' m' \<Longrightarrow> c = c'"
  by (simp add: get_account_error_from_code_def split: if_splits)

lemmas from_code_injs =
  add_transaction_error_inj
  get_block_header_error_inj
  get_block_by_number_error_inj
  note_sync_error_inj
  sync_nullifiers_error_inj
  sync_account_vault_error_inj
  sync_storage_maps_error_inj
  sync_transactions_error_inj
  get_notes_by_id_error_inj
  get_note_script_error_inj
  check_nullifiers_error_inj
  get_account_error_inj

section \<open>Properties\<close>

text \<open>
  Node errors are reported without loss: at an endpoint with application errors, a failed call
  with details yields a typed error, and two calls with different error codes are never
  reported as the same error.
\<close>

lemma node_errors_distinct:
  assumes "endpoint \<notin> {SyncChainMmrEndpoint, StatusEndpoint, GetLimitsEndpoint}"
  shows "parse_node_error endpoint (code # rest) message \<noteq> None
    \<and> (parse_node_error endpoint (code # rest) message = parse_node_error endpoint (code' # rest') message'
        \<longrightarrow> code = code')"
  using assms by (cases endpoint) (auto simp: parse_node_error_def dest: from_code_injs)

lemma node_errors_distinct_witness:
  "parse_node_error SubmitProvenTxEndpoint [4] ''m'' \<noteq> None
   \<and> parse_node_error SubmitProvenTxEndpoint [4] ''m'' \<noteq> parse_node_error SubmitProvenTxEndpoint [200] ''m''"
  using node_errors_distinct [of SubmitProvenTxEndpoint 4 "[]" "''m''" 200 "[]" "''m''"] by auto

end
