(* ===== verification/Rpc_Domain.thy ===== *)
theory Rpc_Domain
  imports Input_Note_Record Output_Note_Record Transaction_Record Rpc_Errors
begin

text \<open>
  The answers of the node in domain types (\<^verbatim>\<open>rpc/domain/note.rs\<close>, \<^verbatim>\<open>nullifier.rs\<close>,
  \<^verbatim>\<open>transaction.rs\<close>) and the errors of the client that the sync components raise
  (\<^verbatim>\<open>errors.rs\<close>). A panic of the source is the error \<open>Panicked\<close> (in the store
  \<open>StorePanicked\<close>): it ends
  the operation, and no state is returned.
\<close>

section \<open>Errors\<close>

datatype store_error =
    StoreAssetError message
  | StoreAssetVaultError message
  | StoreAccountCodeDataNotFound digest
  | StoreAccountDataNotFound account_id
  | StoreAccountError message
  | StoreAddressError message
  | StoreAccountIdError message
  | StoreAccountCommitmentMismatch account_id
  | StoreAccountStorageRootNotFound digest
  | StoreAccountStorageIndexNotFound nat
  | StoreBlockHeaderNotFound block_number
  | StorePartialBlockchainNodeNotFound u64
  | StoreDataDeserializationError deserialization_error
  | DatabaseError string
  | StoreHexParseError message
  | InvalidInt message
  | StoreNoteRecordError note_record_error
  | MerkleStoreError message
  | MmrError message
  | NoteInclusionProofError message
  | NoteTagAlreadyTracked u64
  | NoteScriptNotFound string
  | ParsingError string
  | QueryError string
  | StoreSmtProofError message
  | StoreStorageMapError message
  | StoreTransactionScriptError message
  | StoreVaultDataNotFound digest
  | WordError message
  | StorePanicked string

datatype note_screener_error =
    ScreenerAccountDataNotFound account_id
  | ScreenerStoreError store_error
  | ScreenerNoteCheckerError message
  | ScreenerTransactionRequestError message

datatype transaction_request_error =
    RequestAccountInterfaceError message
  | RequestAccountError message
  | DuplicateInputNote note_id
  | ForeignAccountDataMissing
  | InvalidForeignAccountId account_id
  | InputNoteNotAuthenticated note_id
  | InputNoteAlreadyConsumed note_id
  | InvalidSenderAccount account_id
  | InvalidTransactionScript message
  | RequestMerkleError message
  | NoInputNotesNorAccountChange
  | RequestNoteNotFound string
  | NoteCreationError message
  | P2IDNoteWithoutAsset
  | CodeBuilderError message
  | ScriptTemplateError string
  | StorageSlotNotFound u8 account_id
  | RequestInputError message
  | RequestStorageMapError message
  | RequestAssetVaultError message
  | UnsupportedAuthSchemeId u8
  | RequestPanicked string

text \<open>The asset errors the client itself raises; the others come from the protocol crates.\<close>

datatype asset_error =
    FungibleAssetAmountNotSufficient u64 u64
  | NonFungibleFaucetIdTypeMismatch account_id
  | OtherAssetError message

datatype client_error =
    AddressAlreadyTracked string
  | AccountAlreadyTracked account_id
  | NoteTagDerivedAddressAlreadyTracked string note_tag
  | AccountError message
  | AccountLocked account_id
  | AccountCommitmentMismatch digest
  | AccountIsPrivate account_id
  | AccountNotFoundOnChain account_id
  | AccountNonceTooLow
  | AssetError asset_error
  | AccountDataNotFound account_id
  | PartialBlockchainError message
  | DataDeserializationError message
  | NoteNotFoundOnChain note_id
  | HexParseError message
  | InvalidPartialMmrForest
  | AddNewAccountWithoutSeed
  | MerkleError message
  | MissingOutputRecipients "digest list"
  | ClientNoteError message
  | NoteCheckerError message
  | NoteImportError string
  | NoteRecordConversionError note_record_error
  | NoteTransportError message
  | NoConsumableNoteForAccount account_id
  | RpcError rpc_error
  | RecencyConditionError string
  | NoteScreenerError note_screener_error
  | StoreError store_error
  | TransactionExecutorError message
  | TransactionInputError message
  | TransactionProvingError message
  | TransactionRequestError transaction_request_error
  | AccountInterfaceError message
  | TransactionScriptError message
  | ClientInitializationError string
  | NoteTagsLimitExceeded u32
  | AccountsLimitExceeded u32
  | AccountRecordNotFull account_id
  | AccountRecordNotPartial account_id
  | NtxScriptRegistrationFailed digest rpc_error
  | Panicked string

section \<open>Committed notes\<close>

datatype committed_note_metadata =
    FullMetadata note_metadata
  | HeaderMetadata account_id note_type note_tag u8

fun cnm_metadata :: "committed_note_metadata \<Rightarrow> note_metadata option" where
  "cnm_metadata (FullMetadata m) = Some m"
| "cnm_metadata (HeaderMetadata _ _ _ _) = None"

record committed_note =
  cn_note_id :: note_id
  cn_committed_metadata :: committed_note_metadata
  cn_inclusion_proof :: note_inclusion_proof

definition cn_note_type :: "committed_note \<Rightarrow> note_type" where
  "cn_note_type cn =
     (case cn_committed_metadata cn of FullMetadata m \<Rightarrow> md_note_type m | HeaderMetadata _ t _ _ \<Rightarrow> t)"

definition cn_tag :: "committed_note \<Rightarrow> note_tag" where
  "cn_tag cn =
     (case cn_committed_metadata cn of FullMetadata m \<Rightarrow> md_tag m | HeaderMetadata _ _ t _ \<Rightarrow> t)"

definition cn_sender :: "committed_note \<Rightarrow> account_id" where
  "cn_sender cn =
     (case cn_committed_metadata cn of FullMetadata m \<Rightarrow> md_sender m | HeaderMetadata s _ _ _ \<Rightarrow> s)"

definition cn_metadata :: "committed_note \<Rightarrow> note_metadata option" where
  "cn_metadata cn = cnm_metadata (cn_committed_metadata cn)"

definition cn_set_metadata :: "note_metadata \<Rightarrow> committed_note \<Rightarrow> committed_note" where
  "cn_set_metadata m cn = cn\<lparr>cn_committed_metadata := FullMetadata m\<rparr>"

text \<open>One block of a \<open>SyncNotes\<close> answer.\<close>

record note_sync_block =
  nsb_block_header :: block_header
  nsb_mmr_path :: "digest list"
  nsb_notes :: "(note_id, committed_note) btree_map"

record sync_notes_result =
  snr_blocks :: "note_sync_block list"
  snr_public_notes :: "(note_id, full_note) btree_map"

section \<open>Nullifiers and transactions\<close>

record nullifier_update =
  nu_nullifier :: nullifier
  nu_block_num :: block_number

record rpc_transaction_header =
  th_id :: transaction_id
  th_account_id :: account_id
  th_initial_state_commitment :: digest
  th_final_state_commitment :: digest
  th_input_notes :: "nullifier list"

record rpc_transaction_record =
  rt_block_num :: block_number
  rt_transaction_header :: rpc_transaction_header

record transaction_inclusion =
  ti_transaction_id :: transaction_id
  ti_block_num :: block_number
  ti_account_id :: account_id
  ti_initial_state_commitment :: digest

end
