(* ===== verification/Note_Update_Tracker.thy ===== *)
theory Note_Update_Tracker
  imports Rpc_Domain "HOL-Library.Multiset"
begin

text \<open>
  The note half of a sync or transaction update (\<^verbatim>\<open>note/note_update_tracker.rs\<close>): the tracked
  input and output notes with the kind of store operation each needs, the indexes from
  nullifiers to notes, and the order in which nullifiers were created. The theory shows that
  the indexes stay consistent with the notes, that no changed note is left out of the
  updates for the store, and that positions follow the order of first occurrence.
\<close>

section \<open>Note updates\<close>

datatype note_update_type = UpdateNone | UpdateInsert | UpdateUpdate

record input_note_update =
  inu_note :: input_note_record
  inu_update_type :: note_update_type

record output_note_update =
  onu_note :: output_note_record
  onu_update_type :: note_update_type

fun touch :: "note_update_type \<Rightarrow> note_update_type" where
  "touch UpdateNone = UpdateUpdate"
| "touch UpdateUpdate = UpdateUpdate"
| "touch UpdateInsert = UpdateInsert"

text \<open>
  \<open>inner_mut\<close> gives out the record for mutation and marks the update: what the caller then
  writes through the reference is the argument.
\<close>

definition inu_inner_mut :: "input_note_update \<Rightarrow> input_note_record \<Rightarrow> input_note_update" where
  "inu_inner_mut u r = u\<lparr>inu_note := r, inu_update_type := touch (inu_update_type u)\<rparr>"

definition onu_inner_mut :: "output_note_update \<Rightarrow> output_note_record \<Rightarrow> output_note_update" where
  "onu_inner_mut u r = u\<lparr>onu_note := r, onu_update_type := touch (onu_update_type u)\<rparr>"

definition inu_consumed_tx_order :: "input_note_update \<Rightarrow> u32 option" where
  "inu_consumed_tx_order u = consumed_tx_order (inr_state (inu_note u))"

section \<open>The tracker\<close>

record note_update_tracker =
  nut_input_notes :: "(note_id, input_note_update) btree_map"
  nut_output_notes :: "(note_id, output_note_update) btree_map"
  nut_input_by_nullifier :: "(nullifier, note_id) btree_map"
  nut_output_by_nullifier :: "(nullifier, note_id) btree_map"
  nut_nullifier_order :: "(nullifier, u32) btree_map"

definition note_tracker_default :: note_update_tracker where
  "note_tracker_default =
     \<lparr>nut_input_notes = [], nut_output_notes = [], nut_input_by_nullifier = [],
      nut_output_by_nullifier = [], nut_nullifier_order = []\<rparr>"

definition insert_input_note ::
  "protocol \<Rightarrow> note_update_type \<Rightarrow> input_note_record \<Rightarrow> note_update_tracker \<Rightarrow> note_update_tracker"
where
  "insert_input_note P ty r N =
     N\<lparr>nut_input_by_nullifier := bt_insert (inr_nullifier P r) (inr_id P r) (nut_input_by_nullifier N),
       nut_input_notes :=
         bt_insert (inr_id P r) \<lparr>inu_note = r, inu_update_type = ty\<rparr> (nut_input_notes N)\<rparr>"

definition insert_output_note ::
  "protocol \<Rightarrow> note_update_type \<Rightarrow> output_note_record \<Rightarrow> note_update_tracker \<Rightarrow> note_update_tracker"
where
  "insert_output_note P ty r N =
     N\<lparr>nut_output_by_nullifier :=
         (case onr_nullifier P r of
            Some nf \<Rightarrow> bt_insert nf (onr_id P r) (nut_output_by_nullifier N)
          | None \<Rightarrow> nut_output_by_nullifier N),
       nut_output_notes :=
         bt_insert (onr_id P r) \<lparr>onu_note = r, onu_update_type = ty\<rparr> (nut_output_notes N)\<rparr>"

definition note_tracker_new ::
  "protocol \<Rightarrow> input_note_record list \<Rightarrow> output_note_record list \<Rightarrow> note_update_tracker" where
  "note_tracker_new P input_notes output_notes =
     fold (insert_output_note P UpdateNone) output_notes
       (fold (insert_input_note P UpdateNone) input_notes note_tracker_default)"

definition for_transaction_updates ::
  "protocol \<Rightarrow> input_note_record list \<Rightarrow> input_note_record list \<Rightarrow> output_note_record list \<Rightarrow>
   note_update_tracker" where
  "for_transaction_updates P new_input_notes updated_input_notes new_output_notes =
     fold (insert_output_note P UpdateInsert) new_output_notes
       (fold (insert_input_note P UpdateUpdate) updated_input_notes
         (fold (insert_input_note P UpdateInsert) new_input_notes note_tracker_default))"

definition updated_input_notes :: "note_update_tracker \<Rightarrow> input_note_update list" where
  "updated_input_notes N =
     filter (\<lambda>u. inu_update_type u \<in> {UpdateInsert, UpdateUpdate}) (bt_values (nut_input_notes N))"

definition updated_output_notes :: "note_update_tracker \<Rightarrow> output_note_update list" where
  "updated_output_notes N =
     filter (\<lambda>u. onu_update_type u \<in> {UpdateInsert, UpdateUpdate}) (bt_values (nut_output_notes N))"

definition note_tracker_is_empty :: "note_update_tracker \<Rightarrow> bool" where
  "note_tracker_is_empty N \<longleftrightarrow> nut_input_notes N = [] \<and> nut_output_notes N = []"

definition unspent_nullifiers :: "protocol \<Rightarrow> note_update_tracker \<Rightarrow> nullifier list" where
  "unspent_nullifiers P N =
     map (\<lambda>u. inr_nullifier P (inu_note u))
       (filter (\<lambda>u. \<not> inr_is_consumed (inu_note u)) (bt_values (nut_input_notes N)))
     @ List.map_filter (\<lambda>u. onr_nullifier P (onu_note u))
         (filter (\<lambda>u. \<not> onr_is_consumed (onu_note u)) (bt_values (nut_output_notes N)))"

definition extend_nullifier :: "note_update_tracker \<Rightarrow> nullifier \<Rightarrow> client_error + note_update_tracker" where
  "extend_nullifier N nf =
     (let len = length (nut_nullifier_order N)
      in if len < 2 ^ 32
         then Inr (N\<lparr>nut_nullifier_order := bt_or_insert nf (of_nat len) (nut_nullifier_order N)\<rparr>)
         else Inl (Panicked ''nullifier count exceeds u32''))"

definition extend_nullifiers ::
  "note_update_tracker \<Rightarrow> nullifier list \<Rightarrow> client_error + note_update_tracker" where
  "extend_nullifiers N nullifiers = try_fold extend_nullifier N nullifiers"

definition apply_new_public_note ::
  "protocol \<Rightarrow> note_update_tracker \<Rightarrow> input_note_record \<Rightarrow> block_header \<Rightarrow>
   client_error + note_update_tracker" where
  "apply_new_public_note P N public_note_data hdr =
     and_then (map_err NoteRecordConversionError (inr_block_header_received P public_note_data hdr))
       (\<lambda>(_, r). Inr (insert_input_note P UpdateInsert r N))"

text \<open>
  The two halves of \<open>apply_committed_note_state_transitions\<close>: on the input note with the
  committed note's id, if there is one, and then on the output note.
\<close>

definition commit_input_note ::
  "protocol \<Rightarrow> note_update_tracker \<Rightarrow> committed_note \<Rightarrow> block_header \<Rightarrow>
   client_error + bool \<times> note_update_tracker" where
  "commit_input_note P N cn hdr =
     (case bt_get (nut_input_notes N) (cn_note_id cn) of
        None \<Rightarrow> Inr (False, N)
      | Some u \<Rightarrow>
          and_then (ok_or (RpcError (ExpectedDataMissing
               (''full metadata for committed note '' @ note_id_display P (cn_note_id cn))))
             (cn_metadata cn)) (\<lambda>md.
          and_then (map_err NoteRecordConversionError
             (inr_inclusion_proof_received (inu_note u) (cn_inclusion_proof cn) md)) (\<lambda>(_, r1).
          and_then (map_err NoteRecordConversionError
             (inr_block_header_received P r1 hdr)) (\<lambda>(_, r2).
          Inr (True, N\<lparr>nut_input_notes :=
             bt_modify (cn_note_id cn) (\<lambda>u. inu_inner_mut u r2) (nut_input_notes N)\<rparr>)))))"

definition commit_output_note ::
  "note_update_tracker \<Rightarrow> committed_note \<Rightarrow> client_error + note_update_tracker" where
  "commit_output_note N cn =
     (case bt_get (nut_output_notes N) (cn_note_id cn) of
        None \<Rightarrow> Inr N
      | Some u \<Rightarrow>
          and_then (map_err NoteRecordConversionError
             (onr_inclusion_proof_received (onu_note u) (cn_inclusion_proof cn))) (\<lambda>(_, r).
          Inr (N\<lparr>nut_output_notes :=
             bt_modify (cn_note_id cn) (\<lambda>u. onu_inner_mut u r) (nut_output_notes N)\<rparr>)))"

definition apply_committed_note_state_transitions ::
  "protocol \<Rightarrow> note_update_tracker \<Rightarrow> committed_note \<Rightarrow> block_header \<Rightarrow>
   client_error + bool \<times> note_update_tracker" where
  "apply_committed_note_state_transitions P N cn hdr =
     and_then (commit_input_note P N cn hdr) (\<lambda>(is_tracked_as_input_note, N').
     and_then (commit_output_note N' cn) (\<lambda>N''. Inr (is_tracked_as_input_note, N'')))"

definition get_nullifier_order :: "note_update_tracker \<Rightarrow> nullifier \<Rightarrow> u32 option" where
  "get_nullifier_order N nf = bt_get (nut_nullifier_order N) nf"

definition input_note_by_nullifier ::
  "note_update_tracker \<Rightarrow> nullifier \<Rightarrow> (note_id \<times> input_note_update) option" where
  "input_note_by_nullifier N nf =
     (case bt_get (nut_input_by_nullifier N) nf of
        None \<Rightarrow> None
      | Some i \<Rightarrow> map_option (Pair i) (bt_get (nut_input_notes N) i))"

definition output_note_by_nullifier ::
  "note_update_tracker \<Rightarrow> nullifier \<Rightarrow> (note_id \<times> output_note_update) option" where
  "output_note_by_nullifier N nf =
     (case bt_get (nut_output_by_nullifier N) nf of
        None \<Rightarrow> None
      | Some i \<Rightarrow> map_option (Pair i) (bt_get (nut_output_notes N) i))"

text \<open>The record of a nullified input note: consumed by a committed local transaction or externally.\<close>

definition nullified_record ::
  "protocol \<Rightarrow> input_note_record \<Rightarrow> nullifier_update \<Rightarrow> transaction_record list \<Rightarrow>
   note_record_error + input_note_record" where
  "nullified_record P r upd committed_transactions =
     (case find (\<lambda>t. inr_consumer_transaction_id r = Some (tr_id t)) committed_transactions of
        Some consumer_tx \<Rightarrow>
          (case tr_status consumer_tx of
             TxCommitted block_number _ \<Rightarrow>
               and_then (inr_transaction_committed r (tr_id consumer_tx) block_number)
                 (\<lambda>(_, r'). Inr r')
           | _ \<Rightarrow> Inr r)
      | None \<Rightarrow>
          and_then (inr_consumed_externally P r (nu_nullifier upd) (nu_block_num upd))
            (\<lambda>(_, r'). Inr r'))"

definition nullify_input_note ::
  "protocol \<Rightarrow> note_update_tracker \<Rightarrow> nullifier_update \<Rightarrow> transaction_record list \<Rightarrow>
   client_error + note_update_tracker" where
  "nullify_input_note P N upd committed_transactions =
     (case input_note_by_nullifier N (nu_nullifier upd) of
        None \<Rightarrow> Inr N
      | Some (i, u) \<Rightarrow>
          and_then (map_err NoteRecordConversionError
             (nullified_record P (inu_note u) upd committed_transactions)) (\<lambda>r.
          Inr (N\<lparr>nut_input_notes :=
             bt_modify i
               (\<lambda>u. inu_inner_mut u
                  (inr_set_consumed_tx_order (get_nullifier_order N (nu_nullifier upd)) r))
               (nut_input_notes N)\<rparr>)))"

definition nullify_output_note ::
  "protocol \<Rightarrow> note_update_tracker \<Rightarrow> nullifier_update \<Rightarrow> client_error + note_update_tracker" where
  "nullify_output_note P N upd =
     (case output_note_by_nullifier N (nu_nullifier upd) of
        None \<Rightarrow> Inr N
      | Some (i, u) \<Rightarrow>
          and_then (map_err NoteRecordConversionError
             (onr_nullifier_received P (onu_note u) (nu_nullifier upd) (nu_block_num upd))) (\<lambda>(_, r).
          Inr (N\<lparr>nut_output_notes :=
             bt_modify i (\<lambda>u. onu_inner_mut u r) (nut_output_notes N)\<rparr>)))"

definition apply_nullifiers_state_transitions ::
  "protocol \<Rightarrow> note_update_tracker \<Rightarrow> nullifier_update \<Rightarrow> transaction_record list \<Rightarrow>
   client_error + note_update_tracker" where
  "apply_nullifiers_state_transitions P N upd committed_transactions =
     and_then (nullify_input_note P N upd committed_transactions) (\<lambda>N'.
       nullify_output_note P N' upd)"

section \<open>The tracker invariant\<close>

text \<open>
  What the protocol promises of identifiers: the nullifier and the id of a note are both
  commitments to its recipient and assets, so they bind each other.
\<close>

definition nullifier_binds_id :: "protocol \<Rightarrow> bool" where
  "nullifier_binds_id P \<longleftrightarrow>
     (\<forall>d e. details_nullifier P d = details_nullifier P e \<longleftrightarrow> details_id P d = details_id P e)"

text \<open>The index and the input notes name each other.\<close>

definition input_index_inv ::
  "protocol \<Rightarrow> (note_id, input_note_update) btree_map \<Rightarrow> (nullifier, note_id) btree_map \<Rightarrow> bool" where
  "input_index_inv P notes index \<longleftrightarrow>
     (\<forall>i u. bt_get notes i = Some u \<longrightarrow>
        inr_id P (inu_note u) = i \<and> bt_get index (inr_nullifier P (inu_note u)) = Some i)
     \<and> (\<forall>nf i. bt_get index nf = Some i \<longrightarrow>
          (\<exists>u. bt_get notes i = Some u \<and> inr_nullifier P (inu_note u) = nf))"

definition output_index_inv ::
  "protocol \<Rightarrow> (note_id, output_note_update) btree_map \<Rightarrow> (nullifier, note_id) btree_map \<Rightarrow> bool" where
  "output_index_inv P notes index \<longleftrightarrow>
     (\<forall>i u. bt_get notes i = Some u \<longrightarrow>
        onr_id P (onu_note u) = i
        \<and> (\<forall>nf. onr_nullifier P (onu_note u) = Some nf \<longrightarrow> bt_get index nf \<noteq> None))
     \<and> (\<forall>nf i. bt_get index nf = Some i \<longrightarrow> bt_get notes i \<noteq> None)"

text \<open>Positions are the numbers below the number of nullifiers, each used once.\<close>

definition order_inv :: "(nullifier, u32) btree_map \<Rightarrow> bool" where
  "order_inv ord \<longleftrightarrow>
     length ord \<le> 2 ^ 32 \<and> distinct (bt_values ord) \<and> unat ` set (bt_values ord) = {..<length ord}"

definition tracker_inv :: "protocol \<Rightarrow> note_update_tracker \<Rightarrow> bool" where
  "tracker_inv P N \<longleftrightarrow>
     bt_wf (nut_input_notes N) \<and> bt_wf (nut_output_notes N) \<and> bt_wf (nut_input_by_nullifier N)
     \<and> bt_wf (nut_output_by_nullifier N) \<and> bt_wf (nut_nullifier_order N)
     \<and> input_index_inv P (nut_input_notes N) (nut_input_by_nullifier N)
     \<and> output_index_inv P (nut_output_notes N) (nut_output_by_nullifier N)
     \<and> order_inv (nut_nullifier_order N)"

datatype note_tracker_event =
    NewPublicNote input_note_record block_header
  | NoteCommitted committed_note block_header
  | NoteNullified nullifier_update "transaction_record list"
  | NullifiersOrdered "nullifier list"

fun note_tracker_step ::
  "protocol \<Rightarrow> note_update_tracker \<Rightarrow> note_tracker_event \<Rightarrow> client_error + note_update_tracker" where
  "note_tracker_step P N (NewPublicNote r hdr) = apply_new_public_note P N r hdr"
| "note_tracker_step P N (NoteCommitted cn hdr) =
     and_then (apply_committed_note_state_transitions P N cn hdr) (\<lambda>(_, N'). Inr N')"
| "note_tracker_step P N (NoteNullified upd txs) = apply_nullifiers_state_transitions P N upd txs"
| "note_tracker_step P N (NullifiersOrdered nfs) = extend_nullifiers N nfs"

text \<open>Identity of the records is kept by every transition, so by every mutation of the maps.\<close>

lemma inr_apply_ids:
  "inr_apply r s = (c, r') \<Longrightarrow> inr_details r' = inr_details r"
  by (cases s) auto

lemma transition_details:
  "inr_inclusion_proof_received r pr md = Inr (c, r') \<Longrightarrow> inr_details r' = inr_details r"
  "inr_block_header_received P r hdr = Inr (c, r') \<Longrightarrow> inr_details r' = inr_details r"
  "inr_consumed_externally P r nf h = Inr (c, r') \<Longrightarrow> inr_details r' = inr_details r"
  "inr_transaction_committed r tx h = Inr (c, r') \<Longrightarrow> inr_details r' = inr_details r"
  by (auto simp: record_defs and_then_Inr_conv dest: inr_apply_ids split: if_splits)

lemma nullified_record_details:
  "nullified_record P r upd txs = Inr r' \<Longrightarrow> inr_details r' = inr_details r"
  by (auto simp: nullified_record_def and_then_Inr_conv
      split: option.splits transaction_status.splits dest: transition_details)

lemma onr_transition_identity:
  "onr_inclusion_proof_received r pr = Inr (c, r') \<Longrightarrow> output_note_identity r' = output_note_identity r"
  "onr_nullifier_received P r nf h = Inr (c, r') \<Longrightarrow> output_note_identity r' = output_note_identity r"
  using output_note_step_identity [of P r "OutputProofReceived pr" r']
    output_note_step_identity [of P r "OutputNullifierReceived nf h" r']
  by (auto simp: output_note_step_def)

lemma input_index_insert:
  assumes "nullifier_binds_id P" and "input_index_inv P notes index"
    and "inr_id P (inu_note u) = i" and "inr_nullifier P (inu_note u) = nf"
  shows "input_index_inv P (bt_insert i u notes) (bt_insert nf i index)"
  using assms unfolding input_index_inv_def nullifier_binds_id_def inr_id_def inr_nullifier_def
  by (auto; metis)

lemma input_index_modify:
  assumes "input_index_inv P notes index"
    and "\<And>u. bt_get notes i = Some u \<Longrightarrow> inr_details (inu_note (f u)) = inr_details (inu_note u)"
  shows "input_index_inv P (bt_modify i f notes) index"
  using assms unfolding input_index_inv_def inr_id_def inr_nullifier_def
  by (auto split: if_splits; metis)

lemma output_index_insert:
  assumes "output_index_inv P notes index" and "onr_id P (onu_note u) = i"
  shows "output_index_inv P (bt_insert i u notes)
    (case onr_nullifier P (onu_note u) of Some nf \<Rightarrow> bt_insert nf i index | None \<Rightarrow> index)"
  using assms unfolding output_index_inv_def
  by (auto split: if_splits option.splits; metis option.distinct(1))

lemma output_index_modify:
  assumes "output_index_inv P notes index"
    and "\<And>u. bt_get notes i = Some u \<Longrightarrow>
      output_note_identity (onu_note (f u)) = output_note_identity (onu_note u)"
  shows "output_index_inv P (bt_modify i f notes) index"
proof -
  have ids: "onr_id P (onu_note (f u)) = onr_id P (onu_note u)"
      "onr_nullifier P (onu_note (f u)) = onr_nullifier P (onu_note u)"
    if "bt_get notes i = Some u" for u
    using output_identity_ids [OF assms(2) [OF that], of P] by auto
  show ?thesis using assms(1) ids by (auto simp: output_index_inv_def)
qed

lemma length_bt_insert: "bt_get m k = None \<Longrightarrow> length (bt_insert k v m) = Suc (length m)"
  by (induction m) (auto split: if_splits)

lemma set_values_bt_insert:
  "bt_get m k = None \<Longrightarrow> mset (bt_values (bt_insert k v m)) = add_mset v (mset (bt_values m))"
  by (induction m) (auto split: if_splits)

lemma order_inv_extend:
  assumes "order_inv ord" and "length ord < 2 ^ 32"
  shows "order_inv (bt_or_insert nf (of_nat (length ord)) ord)"
proof (cases "bt_get ord nf")
  case None
  let ?v = "of_nat (length ord) :: u32"
  have v: "unat ?v = length ord"
    using assms(2) by (simp add: unat_of_nat take_bit_nat_eq_self)
  have "?v \<notin> set (bt_values ord)"
  proof
    assume "?v \<in> set (bt_values ord)"
    then have "unat ?v \<in> unat ` set (bt_values ord)" by (rule imageI)
    then show False using assms(1) v by (simp add: order_inv_def)
  qed
  moreover have ms: "mset (bt_values (bt_insert nf ?v ord)) = add_mset ?v (mset (bt_values ord))"
    by (rule set_values_bt_insert [OF None])
  moreover have "set (bt_values (bt_insert nf ?v ord)) = insert ?v (set (bt_values ord))"
    using arg_cong [OF ms, of set_mset] by simp
  moreover have "distinct (bt_values (bt_insert nf ?v ord)) = distinct (?v # bt_values ord)"
    using ms by (intro mset_eq_imp_distinct_iff) simp
  ultimately show ?thesis
    using assms None v by (auto simp: order_inv_def bt_or_insert_def length_bt_insert)
next
  case (Some p)
  then show ?thesis using assms by (simp add: bt_or_insert_def)
qed

lemmas tracker_op_defs =
  commit_input_note_def commit_output_note_def nullify_input_note_def nullify_output_note_def
  input_note_by_nullifier_def output_note_by_nullifier_def extend_nullifier_def Let_def

lemma tracker_inv_default: "tracker_inv P note_tracker_default"
  by (simp add: tracker_inv_def note_tracker_default_def input_index_inv_def output_index_inv_def
      order_inv_def)

lemma tracker_inv_insert_input:
  "nullifier_binds_id P \<Longrightarrow> tracker_inv P N \<Longrightarrow> tracker_inv P (insert_input_note P ty r N)"
  by (auto simp: tracker_inv_def insert_input_note_def intro: input_index_insert)

lemma tracker_inv_insert_output: "tracker_inv P N \<Longrightarrow> tracker_inv P (insert_output_note P ty r N)"
  using output_index_insert [of P "nut_output_notes N" "nut_output_by_nullifier N"
      "\<lparr>onu_note = r, onu_update_type = ty\<rparr>" "onr_id P r"]
  by (auto simp: tracker_inv_def insert_output_note_def split: option.splits)

lemma tracker_inv_fold_input:
  "nullifier_binds_id P \<Longrightarrow> tracker_inv P N \<Longrightarrow> tracker_inv P (fold (insert_input_note P ty) rs N)"
  by (induction rs arbitrary: N) (simp_all add: tracker_inv_insert_input)

lemma tracker_inv_fold_output:
  "tracker_inv P N \<Longrightarrow> tracker_inv P (fold (insert_output_note P ty) rs N)"
  by (induction rs arbitrary: N) (simp_all add: tracker_inv_insert_output)

lemma tracker_inv_new:
  "nullifier_binds_id P \<Longrightarrow> tracker_inv P (note_tracker_new P ins outs)"
  unfolding note_tracker_new_def
  by (simp add: tracker_inv_fold_input tracker_inv_fold_output tracker_inv_default)

lemma tracker_inv_for_transaction_updates:
  "nullifier_binds_id P \<Longrightarrow> tracker_inv P (for_transaction_updates P ins upds outs)"
  unfolding for_transaction_updates_def
  by (simp add: tracker_inv_fold_input tracker_inv_fold_output tracker_inv_default)

lemma tracker_inv_modify_input:
  assumes "tracker_inv P N"
    and "\<And>u. bt_get (nut_input_notes N) i = Some u \<Longrightarrow>
      inr_details (inu_note (f u)) = inr_details (inu_note u)"
  shows "tracker_inv P (N\<lparr>nut_input_notes := bt_modify i f (nut_input_notes N)\<rparr>)"
  using assms by (auto simp: tracker_inv_def intro: input_index_modify)

lemma tracker_inv_modify_output:
  assumes "tracker_inv P N"
    and "\<And>u. bt_get (nut_output_notes N) i = Some u \<Longrightarrow>
      output_note_identity (onu_note (f u)) = output_note_identity (onu_note u)"
  shows "tracker_inv P (N\<lparr>nut_output_notes := bt_modify i f (nut_output_notes N)\<rparr>)"
  using assms by (auto simp: tracker_inv_def intro: output_index_modify)

lemma tracker_inv_commit_input:
  assumes "tracker_inv P N" and "commit_input_note P N cn hdr = Inr (b, N')"
  shows "tracker_inv P N'"
  using assms
  by (auto simp: tracker_op_defs and_then_Inr_conv inu_inner_mut_def split: option.splits
      intro!: tracker_inv_modify_input dest!: transition_details)

lemma tracker_inv_commit_output:
  assumes "tracker_inv P N" and "commit_output_note N cn = Inr N'"
  shows "tracker_inv P N'"
  using assms
  by (auto simp: tracker_op_defs and_then_Inr_conv onu_inner_mut_def split: option.splits
      intro!: tracker_inv_modify_output dest!: onr_transition_identity)

lemma tracker_inv_nullify_input:
  assumes "tracker_inv P N" and "nullify_input_note P N upd txs = Inr N'"
  shows "tracker_inv P N'"
  using assms
  by (auto simp: tracker_op_defs and_then_Inr_conv inu_inner_mut_def inr_set_consumed_tx_order_def
      split: option.splits intro!: tracker_inv_modify_input dest!: nullified_record_details)

lemma tracker_inv_nullify_output:
  assumes "tracker_inv P N" and "nullify_output_note P N upd = Inr N'"
  shows "tracker_inv P N'"
  using assms
  by (auto simp: tracker_op_defs and_then_Inr_conv onu_inner_mut_def
      split: option.splits intro!: tracker_inv_modify_output dest!: onr_transition_identity)

lemma tracker_inv_extend:
  assumes "extend_nullifiers N nfs = Inr N'" and "tracker_inv P N"
  shows "tracker_inv P N'"
  using assms unfolding extend_nullifiers_def
  by (rule try_fold_invariant)
    (auto simp: tracker_op_defs tracker_inv_def split: if_splits intro!: order_inv_extend)

lemma tracker_inv_step:
  assumes "nullifier_binds_id P" and "tracker_inv P N" and "note_tracker_step P N ev = Inr N'"
  shows "tracker_inv P N'"
proof (cases ev)
  case (NewPublicNote r hdr)
  with assms show ?thesis
    by (auto simp: apply_new_public_note_def and_then_Inr_conv intro: tracker_inv_insert_input)
next
  case (NoteCommitted cn hdr)
  with assms show ?thesis
    by (auto simp: apply_committed_note_state_transitions_def and_then_Inr_conv
        dest: tracker_inv_commit_input tracker_inv_commit_output)
next
  case (NoteNullified upd txs)
  with assms show ?thesis
    by (auto simp: apply_nullifiers_state_transitions_def and_then_Inr_conv
        dest: tracker_inv_nullify_input tracker_inv_nullify_output)
next
  case (NullifiersOrdered nfs)
  with assms show ?thesis by (auto dest: tracker_inv_extend)
qed

section \<open>Update types\<close>

text \<open>A step leaves an unmarked note alone, keeps inserts as inserts and drops no note.\<close>

lemma touch_simps [simp]: "touch t \<noteq> UpdateNone" "touch t = UpdateInsert \<longleftrightarrow> t = UpdateInsert"
  by (cases t; simp)+

lemmas unmarked_defs =
  tracker_op_defs inu_inner_mut_def onu_inner_mut_def and_then_Inr_conv

definition keeps_notes :: "note_update_tracker \<Rightarrow> note_update_tracker \<Rightarrow> bool" where
  "keeps_notes N N' \<longleftrightarrow>
     (\<forall>i u. bt_get (nut_input_notes N') i = Some u \<and> inu_update_type u = UpdateNone \<longrightarrow>
        bt_get (nut_input_notes N) i = Some u)
     \<and> (\<forall>i u. bt_get (nut_output_notes N') i = Some u \<and> onu_update_type u = UpdateNone \<longrightarrow>
          bt_get (nut_output_notes N) i = Some u)
     \<and> (\<forall>i u. bt_get (nut_input_notes N) i = Some u \<longrightarrow>
          (\<exists>u'. bt_get (nut_input_notes N') i = Some u'
             \<and> (inu_update_type u = UpdateInsert \<longrightarrow> inu_update_type u' = UpdateInsert)))
     \<and> (\<forall>i u. bt_get (nut_output_notes N) i = Some u \<longrightarrow>
          (\<exists>u'. bt_get (nut_output_notes N') i = Some u'
             \<and> (onu_update_type u = UpdateInsert \<longrightarrow> onu_update_type u' = UpdateInsert)))"

lemma keeps_notes_refl [simp]: "keeps_notes N N"
  by (simp add: keeps_notes_def)

lemma keeps_notes_trans: "keeps_notes A B \<Longrightarrow> keeps_notes B C \<Longrightarrow> keeps_notes A C"
  unfolding keeps_notes_def by (intro conjI; metis)

lemma keeps_notes_modify_input:
  "keeps_notes N (N\<lparr>nut_input_notes := bt_modify i (\<lambda>u. inu_inner_mut u (g u)) (nut_input_notes N)\<rparr>)"
  by (auto simp: keeps_notes_def inu_inner_mut_def)

lemma keeps_notes_modify_output:
  "keeps_notes N (N\<lparr>nut_output_notes := bt_modify i (\<lambda>u. onu_inner_mut u (g u)) (nut_output_notes N)\<rparr>)"
  by (auto simp: keeps_notes_def onu_inner_mut_def)

lemma keeps_notes_halves:
  "commit_input_note P N cn hdr = Inr (b, N') \<Longrightarrow> keeps_notes N N'"
  "commit_output_note N cn = Inr N' \<Longrightarrow> keeps_notes N N'"
  "nullify_input_note P N upd txs = Inr N' \<Longrightarrow> keeps_notes N N'"
  "nullify_output_note P N upd = Inr N' \<Longrightarrow> keeps_notes N N'"
  by (auto simp: tracker_op_defs and_then_Inr_conv split: option.splits
      intro: keeps_notes_modify_input keeps_notes_modify_output)

lemma keeps_notes_insert: "keeps_notes N (insert_input_note P UpdateInsert r N)"
  by (auto simp: keeps_notes_def insert_input_note_def)

lemma keeps_notes_extend:
  assumes "extend_nullifiers N nfs = Inr N'"
  shows "keeps_notes N N'"
  using assms unfolding extend_nullifiers_def
  by (rule try_fold_invariant)
    (auto simp: extend_nullifier_def Let_def keeps_notes_def split: if_splits)

lemma keeps_notes_step: "note_tracker_step P N ev = Inr N' \<Longrightarrow> keeps_notes N N'"
  by (cases ev)
    (auto simp: apply_new_public_note_def apply_committed_note_state_transitions_def
      apply_nullifiers_state_transitions_def and_then_Inr_conv
      intro: keeps_notes_insert keeps_notes_extend keeps_notes_trans dest!: keeps_notes_halves)

lemma keeps_notes_run: "try_fold (note_tracker_step P) N evs = Inr N' \<Longrightarrow> keeps_notes N N'"
  by (rule try_fold_invariant) (auto intro: keeps_notes_trans keeps_notes_step)

section \<open>What an update keeps of the note it updates\<close>

text \<open>The parts of a record no transition changes: the details and the creation time.\<close>

definition inr_origin :: "input_note_record \<Rightarrow> note_details \<times> u64 option" where
  "inr_origin r = (inr_details r, inr_created_at r)"

lemma inr_apply_origin: "inr_apply r s = (c, r') \<Longrightarrow> inr_origin r' = inr_origin r"
  by (cases s) (auto simp: inr_origin_def)

lemma transition_origin:
  "inr_inclusion_proof_received r pr md = Inr (c, r') \<Longrightarrow> inr_origin r' = inr_origin r"
  "inr_block_header_received P r hdr = Inr (c, r') \<Longrightarrow> inr_origin r' = inr_origin r"
  "inr_consumed_externally P r nf h = Inr (c, r') \<Longrightarrow> inr_origin r' = inr_origin r"
  "inr_transaction_committed r tx h = Inr (c, r') \<Longrightarrow> inr_origin r' = inr_origin r"
  by (auto simp: record_defs and_then_Inr_conv dest: inr_apply_origin split: if_splits)

lemma nullified_record_origin: "nullified_record P r upd txs = Inr r' \<Longrightarrow> inr_origin r' = inr_origin r"
  by (auto simp: nullified_record_def and_then_Inr_conv
      split: option.splits transaction_status.splits dest: transition_origin)

definition onr_origin :: "output_note_record \<Rightarrow> (note_assets \<times> note_metadata \<times> digest \<times> note_recipient option) \<times> block_number" where
  "onr_origin r = (output_note_identity r, onr_expected_height r)"

lemma onr_transition_origin:
  "onr_inclusion_proof_received r pr = Inr (c, r') \<Longrightarrow> onr_origin r' = onr_origin r"
  "onr_nullifier_received P r nf h = Inr (c, r') \<Longrightarrow> onr_origin r' = onr_origin r"
proof -
  have keep: "onr_apply r s = (c, r') \<Longrightarrow> onr_expected_height r' = onr_expected_height r" for s
    by (cases s) auto
  show "onr_inclusion_proof_received r pr = Inr (c, r') \<Longrightarrow> onr_origin r' = onr_origin r"
    using onr_transition_identity(1) [of r pr c r'] keep
    by (auto simp: onr_origin_def onr_inclusion_proof_received_def and_then_Inr_conv)
  show "onr_nullifier_received P r nf h = Inr (c, r') \<Longrightarrow> onr_origin r' = onr_origin r"
    using onr_transition_identity(2) [of P r nf h c r'] keep
    by (auto simp: onr_origin_def onr_nullifier_received_def and_then_Inr_conv split: if_splits)
qed

text \<open>Every note of the later tracker that is not an insert comes from the same note of the earlier one.\<close>

definition descends :: "note_update_tracker \<Rightarrow> note_update_tracker \<Rightarrow> bool" where
  "descends N N' \<longleftrightarrow>
     (\<forall>i u. bt_get (nut_input_notes N') i = Some u \<and> inu_update_type u \<noteq> UpdateInsert \<longrightarrow>
        (\<exists>u0. bt_get (nut_input_notes N) i = Some u0 \<and> inu_update_type u0 \<noteq> UpdateInsert
           \<and> inr_origin (inu_note u) = inr_origin (inu_note u0)))
     \<and> (\<forall>i u. bt_get (nut_output_notes N') i = Some u \<and> onu_update_type u \<noteq> UpdateInsert \<longrightarrow>
          (\<exists>u0. bt_get (nut_output_notes N) i = Some u0 \<and> onu_update_type u0 \<noteq> UpdateInsert
             \<and> onr_origin (onu_note u) = onr_origin (onu_note u0)))"

lemma descends_refl [simp]: "descends N N"
  by (auto simp: descends_def)

lemma descends_trans: "descends A B \<Longrightarrow> descends B C \<Longrightarrow> descends A C"
  unfolding descends_def by (intro conjI allI impI; metis)

lemma descends_modify_input:
  assumes "\<And>u. bt_get (nut_input_notes N) i = Some u \<Longrightarrow> inr_origin (g u) = inr_origin (inu_note u)"
  shows "descends N (N\<lparr>nut_input_notes := bt_modify i (\<lambda>u. inu_inner_mut u (g u)) (nut_input_notes N)\<rparr>)"
  using assms by (auto simp: descends_def inu_inner_mut_def)

lemma descends_modify_output:
  assumes "\<And>u. bt_get (nut_output_notes N) i = Some u \<Longrightarrow> onr_origin (g u) = onr_origin (onu_note u)"
  shows "descends N (N\<lparr>nut_output_notes := bt_modify i (\<lambda>u. onu_inner_mut u (g u)) (nut_output_notes N)\<rparr>)"
  using assms by (auto simp: descends_def onu_inner_mut_def)

lemma descends_halves:
  "commit_input_note P N cn hdr = Inr (b, N') \<Longrightarrow> descends N N'"
  "commit_output_note N cn = Inr N' \<Longrightarrow> descends N N'"
  "nullify_input_note P N upd txs = Inr N' \<Longrightarrow> descends N N'"
  "nullify_output_note P N upd = Inr N' \<Longrightarrow> descends N N'"
  by (auto simp: tracker_op_defs and_then_Inr_conv inr_set_consumed_tx_order_def split: option.splits
      intro!: descends_modify_input descends_modify_output
      dest!: transition_origin nullified_record_origin onr_transition_origin) (simp_all add: inr_origin_def)

lemma descends_insert: "descends N (insert_input_note P UpdateInsert r N)"
  by (auto simp: descends_def insert_input_note_def)

lemma descends_extend:
  assumes "extend_nullifiers N nfs = Inr N'"
  shows "descends N N'"
  using assms unfolding extend_nullifiers_def
  by (rule try_fold_invariant)
    (auto simp: extend_nullifier_def Let_def descends_def split: if_splits)

lemma descends_step: "note_tracker_step P N ev = Inr N' \<Longrightarrow> descends N N'"
  by (cases ev)
    (auto simp: apply_new_public_note_def apply_committed_note_state_transitions_def
      apply_nullifiers_state_transitions_def and_then_Inr_conv
      intro: descends_insert descends_extend descends_trans dest!: descends_halves)

lemma descends_run: "try_fold (note_tracker_step P) N evs = Inr N' \<Longrightarrow> descends N N'"
  by (rule try_fold_invariant) (auto intro: descends_trans descends_step)

text \<open>The notes a new tracker holds.\<close>

lemma fold_insert_inputs:
  "bt_get (nut_input_notes (fold (insert_input_note P ty) rs N)) i = Some u \<Longrightarrow>
   bt_get (nut_input_notes N) i = Some u \<or> (inu_update_type u = ty \<and> inu_note u \<in> set rs \<and> inr_id P (inu_note u) = i)"
proof (induction rs arbitrary: N)
  case (Cons r rs)
  then show ?case
    using Cons.IH [of "insert_input_note P ty r N"] by (auto simp: insert_input_note_def split: if_splits)
qed simp

lemma fold_insert_outputs:
  "bt_get (nut_output_notes (fold (insert_output_note P ty) rs N)) i = Some u \<Longrightarrow>
   bt_get (nut_output_notes N) i = Some u \<or> (onu_update_type u = ty \<and> onu_note u \<in> set rs \<and> onr_id P (onu_note u) = i)"
proof (induction rs arbitrary: N)
  case (Cons r rs)
  then show ?case
    using Cons.IH [of "insert_output_note P ty r N"] by (auto simp: insert_output_note_def split: if_splits option.splits)
qed simp

lemma fold_insert_keep:
  "nut_output_notes (fold (insert_input_note P ty) rs N) = nut_output_notes N"
  "nut_input_notes (fold (insert_output_note P ty) qs N) = nut_input_notes N"
proof -
  show "nut_output_notes (fold (insert_input_note P ty) rs N) = nut_output_notes N"
    by (induction rs arbitrary: N) (simp_all add: insert_input_note_def)
  show "nut_input_notes (fold (insert_output_note P ty) qs N) = nut_input_notes N"
    by (induction qs arbitrary: N) (simp_all add: insert_output_note_def split: option.split)
qed

lemma note_tracker_new_input:
  assumes "bt_get (nut_input_notes (note_tracker_new P ins outs)) i = Some u"
  shows "inu_update_type u = UpdateNone" "inu_note u \<in> set ins" "inr_id P (inu_note u) = i"
  using assms fold_insert_inputs [of P UpdateNone ins note_tracker_default i u]
  by (auto simp: note_tracker_new_def fold_insert_keep note_tracker_default_def)

lemma note_tracker_new_output:
  assumes "bt_get (nut_output_notes (note_tracker_new P ins outs)) i = Some u"
  shows "onu_update_type u = UpdateNone" "onu_note u \<in> set outs" "onr_id P (onu_note u) = i"
  using assms fold_insert_outputs [of P UpdateNone outs "fold (insert_input_note P UpdateNone) ins note_tracker_default" i u]
  by (auto simp: note_tracker_new_def fold_insert_keep note_tracker_default_def)

section \<open>Nullifier positions\<close>

definition first_occurrences :: "'a list \<Rightarrow> 'a list" where
  "first_occurrences xs = rev (remdups (rev xs))"

lemma first_occurrences_snoc:
  "first_occurrences (xs @ [x]) =
     (if x \<in> set xs then first_occurrences xs else first_occurrences xs @ [x])"
  by (simp add: first_occurrences_def)

lemma set_first_occurrences [simp]: "set (first_occurrences xs) = set xs"
  by (simp add: first_occurrences_def)

lemma length_first_occurrences: "length (first_occurrences xs) \<le> length xs"
  by (simp add: first_occurrences_def length_remdups_leq [of "rev xs", simplified])

definition positions_ok :: "nullifier list \<Rightarrow> (nullifier, u32) btree_map \<Rightarrow> bool" where
  "positions_ok nfs ord \<longleftrightarrow>
     length ord = length (first_occurrences nfs)
     \<and> (\<forall>k < length (first_occurrences nfs). bt_get ord (first_occurrences nfs ! k) = Some (of_nat k))
     \<and> (\<forall>nf. bt_get ord nf \<noteq> None \<longleftrightarrow> nf \<in> set nfs)"

lemma positions_ok_extend:
  assumes "positions_ok nfs ord"
  shows "positions_ok (nfs @ [nf]) (bt_or_insert nf (of_nat (length ord)) ord)"
proof (cases "nf \<in> set nfs")
  case True
  with assms obtain p where "bt_get ord nf = Some p" by (auto simp: positions_ok_def)
  then have same: "bt_or_insert nf (of_nat (length ord)) ord = ord" by (simp add: bt_or_insert_def)
  have "first_occurrences (nfs @ [nf]) = first_occurrences nfs" "set (nfs @ [nf]) = set nfs"
    using True by (auto simp: first_occurrences_snoc)
  with assms show ?thesis unfolding same positions_ok_def by simp
next
  case False
  with assms have new: "bt_get ord nf = None" by (auto simp: positions_ok_def)
  have "first_occurrences nfs ! k \<noteq> nf" if "k < length (first_occurrences nfs)" for k
    using nth_mem [OF that] False by auto
  with False assms new show ?thesis
    by (auto simp: positions_ok_def first_occurrences_snoc bt_or_insert_def length_bt_insert nth_append
        less_Suc_eq)
qed

lemma extend_nullifiers_positions:
  assumes "length nfs \<le> 2 ^ 32" and "nut_nullifier_order N = []"
  shows "\<exists>ord. extend_nullifiers N nfs = Inr (N\<lparr>nut_nullifier_order := ord\<rparr>) \<and> positions_ok nfs ord"
  using assms(1)
proof (induction nfs rule: rev_induct)
  case Nil
  then show ?case
    using assms(2) by (intro exI [of _ "[]"])
      (simp add: extend_nullifiers_def positions_ok_def first_occurrences_def)
next
  case (snoc nf nfs)
  then obtain ord where ord: "extend_nullifiers N nfs = Inr (N\<lparr>nut_nullifier_order := ord\<rparr>)"
    "positions_ok nfs ord" by auto
  moreover have "length ord < 2 ^ 32"
    using ord(2) snoc.prems length_first_occurrences [of nfs] by (simp add: positions_ok_def)
  ultimately have "extend_nullifiers N (nfs @ [nf]) =
      Inr (N\<lparr>nut_nullifier_order := bt_or_insert nf (of_nat (length ord)) ord\<rparr>)"
    by (simp add: extend_nullifiers_def try_fold_append extend_nullifier_def Let_def)
  with positions_ok_extend [OF ord(2)] show ?case by blast
qed

section \<open>Nullified notes\<close>

text \<open>The height a nullified note is consumed at: that of its committed consumer, if it has one.\<close>

definition consumption_height ::
  "input_note_record \<Rightarrow> nullifier_update \<Rightarrow> transaction_record list \<Rightarrow> block_number" where
  "consumption_height r upd txs =
     (case find (\<lambda>t. inr_consumer_transaction_id r = Some (tr_id t)) txs of
        Some t \<Rightarrow> (case tr_status t of TxCommitted h _ \<Rightarrow> h | _ \<Rightarrow> nu_block_num upd)
      | None \<Rightarrow> nu_block_num upd)"

lemma find_SomeD: "find P xs = Some x \<Longrightarrow> x \<in> set xs \<and> P x"
  by (auto simp: find_Some_iff)

lemma transaction_committed_consumes:
  "inr_transaction_committed r tx h = Inr (b, r') \<Longrightarrow>
     inr_is_consumed r' \<and> \<not> inr_is_consumed r \<and> consumed_block_height (inr_state r') = Some h"
  by (cases "inr_state r")
    (auto simp: inr_transaction_committed_def handler_defs record_accessor_defs split: if_splits)

lemma consumed_externally_consumes:
  "inr_consumed_externally P r nf h = Inr (b, r') \<Longrightarrow>
     inr_is_consumed r'
     \<and> consumed_block_height (inr_state r') =
         (if inr_is_consumed r then consumed_block_height (inr_state r) else Some h)"
  by (cases "inr_state r")
    (auto simp: inr_consumed_externally_def handler_defs record_accessor_defs split: if_splits)

lemma nullified_record_consumed:
  assumes "nullified_record P r upd txs = Inr r'"
    and "\<forall>t \<in> set txs. \<exists>h ts. tr_status t = TxCommitted h ts"
  shows "inr_is_consumed r'
    \<and> consumed_block_height (inr_state r') =
        (if inr_is_consumed r then consumed_block_height (inr_state r)
         else Some (consumption_height r upd txs))"
proof (cases "find (\<lambda>t. inr_consumer_transaction_id r = Some (tr_id t)) txs")
  case None
  then show ?thesis
    using assms(1)
    by (auto simp: nullified_record_def consumption_height_def and_then_Inr_conv
        dest!: consumed_externally_consumes)
next
  case (Some t)
  then obtain h ts where "tr_status t = TxCommitted h ts"
    using assms(2) find_SomeD by metis
  with Some show ?thesis
    using assms(1)
    by (auto simp: nullified_record_def consumption_height_def and_then_Inr_conv
        dest!: transaction_committed_consumes)
qed

lemma set_consumed_tx_order_consumed:
  assumes "inr_is_consumed r"
  shows "inr_is_consumed (inr_set_consumed_tx_order order r)"
    "consumed_tx_order (inr_state (inr_set_consumed_tx_order order r)) = order"
    "consumed_block_height (inr_state (inr_set_consumed_tx_order order r)) =
       consumed_block_height (inr_state r)"
  using assms by (cases "inr_state r"; simp add: inr_set_consumed_tx_order_def inr_is_consumed_def)+

lemma nullify_output_keeps_inputs:
  "nullify_output_note P N upd = Inr N' \<Longrightarrow> nut_input_notes N' = nut_input_notes N"
  by (auto simp: tracker_op_defs and_then_Inr_conv split: option.splits)

text \<open>Sample values: a tracker with one note being processed, and its nullifier on chain.\<close>

definition sample_note_tracker :: note_update_tracker where
  "sample_note_tracker = note_tracker_new sample_protocol [sample_processing] [sample_output]"

definition sample_nullifier_update :: nullifier_update where
  "sample_nullifier_update = \<lparr>nu_nullifier = Nullifier (Digest 5), nu_block_num = 13\<rparr>"

definition sample_committed_tx :: transaction_record where
  "sample_committed_tx = sample_transaction\<lparr>tr_status := TxCommitted 12 1000\<rparr>"

definition sample_note_events :: "note_tracker_event list" where
  "sample_note_events =
     [NullifiersOrdered [Nullifier (Digest 6), Nullifier (Digest 5), Nullifier (Digest 6)],
      NoteNullified sample_nullifier_update [sample_committed_tx]]"

lemma sample_protocol_binds: "nullifier_binds_id sample_protocol"
  by (simp add: nullifier_binds_id_def sample_protocol_def)

lemma sample_note_tracker_eq:
  "sample_note_tracker =
     \<lparr>nut_input_notes = [(NoteId (Digest 5), \<lparr>inu_note = sample_processing, inu_update_type = UpdateNone\<rparr>)],
      nut_output_notes = [(NoteId (Digest 5), \<lparr>onu_note = sample_output, onu_update_type = UpdateNone\<rparr>)],
      nut_input_by_nullifier = [(Nullifier (Digest 5), NoteId (Digest 5))],
      nut_output_by_nullifier = [(Nullifier (Digest 5), NoteId (Digest 5))],
      nut_nullifier_order = []\<rparr>"
  by (simp add: sample_note_tracker_def note_tracker_new_def insert_input_note_def insert_output_note_def
      note_tracker_default_def sample_output_def onr_from_full_note_def onr_id_def onr_nullifier_def
      onr_recipient_def inr_id_def inr_nullifier_def sample_record_defs)

text \<open>The tracker after the sample events.\<close>

definition sample_note_tracker' :: note_update_tracker where
  "sample_note_tracker' = sample_note_tracker
     \<lparr>nut_input_notes := [(NoteId (Digest 5),
        \<lparr>inu_note = sample_processing\<lparr>inr_state := ConsumedAuthenticatedLocal
             \<lparr>ca_metadata = sample_metadata, ca_inclusion_proof = sample_proof 5,
              ca_block_note_root = Digest 100, ca_nullifier_block_height = 12,
              ca_submission_data = sample_submission, ca_consumed_tx_order = Some 1\<rparr>\<rparr>,
         inu_update_type = UpdateUpdate\<rparr>)],
      nut_output_notes := [(NoteId (Digest 5),
        \<lparr>onu_note = sample_output\<lparr>onr_state := OutputConsumed 13 (sample_recipient 5)\<rparr>,
         onu_update_type = UpdateUpdate\<rparr>)],
      nut_nullifier_order := [(Nullifier (Digest 5), 1), (Nullifier (Digest 6), 0)]\<rparr>"

lemma sample_order_run:
  "extend_nullifiers sample_note_tracker [Nullifier (Digest 6), Nullifier (Digest 5), Nullifier (Digest 6)]
     = Inr (sample_note_tracker
         \<lparr>nut_nullifier_order := [(Nullifier (Digest 5), 1), (Nullifier (Digest 6), 0)]\<rparr>)"
  by (simp add: extend_nullifiers_def extend_nullifier_def bt_or_insert_def sample_note_tracker_eq
      id_order_defs Let_def)

lemma sample_nullify_run:
  "apply_nullifiers_state_transitions sample_protocol
     (sample_note_tracker\<lparr>nut_nullifier_order := [(Nullifier (Digest 5), 1), (Nullifier (Digest 6), 0)]\<rparr>)
     sample_nullifier_update [sample_committed_tx]
     = Inr sample_note_tracker'"
  by (simp add: apply_nullifiers_state_transitions_def tracker_op_defs nullified_record_def
      sample_note_tracker_eq sample_note_tracker'_def sample_nullifier_update_def sample_committed_tx_def
      sample_transaction_def inr_consumer_transaction_id_def inr_transaction_committed_def handler_defs
      sample_record_defs get_nullifier_order_def inr_set_consumed_tx_order_def bt_modify_def
      inu_inner_mut_def onu_inner_mut_def onr_nullifier_received_def sample_output_def
      onr_from_full_note_def onr_nullifier_def onr_recipient_def)

lemma sample_note_run:
  "try_fold (note_tracker_step sample_protocol) sample_note_tracker sample_note_events
     = Inr sample_note_tracker'"
  by (simp add: sample_note_events_def sample_order_run sample_nullify_run)

section \<open>Properties\<close>

text \<open>
  C9. The tracker stays consistent: starting from the store's notes, after any sequence of new
  public notes, committed notes, nullifiers and nullifier orders that succeeds, all maps are
  in key order, every input note is filed under its own id and found by its own nullifier,
  every entry of the nullifier index leads to a note with that nullifier, output notes are
  filed under their ids, and the nullifier positions are exactly \<open>0, 1, \<dots>\<close> without repetition.
\<close>

theorem note_tracker_consistent:
  assumes "nullifier_binds_id P"
    and "try_fold (note_tracker_step P) (note_tracker_new P ins outs) evs = Inr N"
  shows "tracker_inv P N"
  by (rule try_fold_invariant [OF assms(2)])
    (auto intro: tracker_inv_new tracker_inv_step assms(1))

theorem note_tracker_consistent_witness:
  "nullifier_binds_id sample_protocol \<and> tracker_inv sample_protocol sample_note_tracker'"
  using sample_protocol_binds
    note_tracker_consistent [OF sample_protocol_binds
      sample_note_run [unfolded sample_note_tracker_def]]
  by blast

text \<open>
  C10. No update is lost: whatever a sync does to the tracker, a note that is not among the
  updates for the store is exactly the note the tracker was created with, no tracked note
  disappears, and a note to be inserted is never demoted to an update. The same holds for
  output notes.
\<close>

theorem no_note_update_lost:
  assumes "try_fold (note_tracker_step P) N evs = Inr N'"
  shows "(\<forall>i u. bt_get (nut_input_notes N') i = Some u \<and> u \<notin> set (updated_input_notes N') \<longrightarrow>
        bt_get (nut_input_notes N) i = Some u)
     \<and> (\<forall>i u. bt_get (nut_output_notes N') i = Some u \<and> u \<notin> set (updated_output_notes N') \<longrightarrow>
          bt_get (nut_output_notes N) i = Some u)
     \<and> (\<forall>i u. bt_get (nut_input_notes N) i = Some u \<longrightarrow>
          (\<exists>u'. bt_get (nut_input_notes N') i = Some u'
             \<and> (inu_update_type u = UpdateInsert \<longrightarrow> inu_update_type u' = UpdateInsert)))
     \<and> (\<forall>i u. bt_get (nut_output_notes N) i = Some u \<longrightarrow>
          (\<exists>u'. bt_get (nut_output_notes N') i = Some u'
             \<and> (onu_update_type u = UpdateInsert \<longrightarrow> onu_update_type u' = UpdateInsert)))"
proof -
  have ins: "inu_update_type u = UpdateNone"
    if "bt_get (nut_input_notes N') i = Some u" "u \<notin> set (updated_input_notes N')" for i u
    using that map_of_SomeD [OF that(1)]
    by (cases "inu_update_type u") (force simp: updated_input_notes_def)+
  have outs: "onu_update_type u = UpdateNone"
    if "bt_get (nut_output_notes N') i = Some u" "u \<notin> set (updated_output_notes N')" for i u
    using that map_of_SomeD [OF that(1)]
    by (cases "onu_update_type u") (force simp: updated_output_notes_def)+
  note keeps = keeps_notes_run [OF assms, unfolded keeps_notes_def]
  show ?thesis
  proof (rule conjI, goal_cases)
    case 1
    then show ?case using conjunct1 [OF keeps] ins by blast
  next
    case 2
    show ?case
    proof (rule conjI, goal_cases)
      case 1
      then show ?case using conjunct1 [OF conjunct2 [OF keeps]] outs by blast
    next
      case 2
      show ?case by (rule conjunct2 [OF conjunct2 [OF keeps]])
    qed
  qed
qed

theorem no_note_update_lost_witness:
  "try_fold (note_tracker_step sample_protocol) sample_note_tracker sample_note_events
     = Inr sample_note_tracker'
   \<and> bt_get (nut_input_notes sample_note_tracker) (NoteId (Digest 5)) \<noteq> None
   \<and> bt_get (nut_input_notes sample_note_tracker') (NoteId (Digest 5)) \<noteq> None"
proof -
  have get: "bt_get (nut_input_notes sample_note_tracker) (NoteId (Digest 5)) =
      Some \<lparr>inu_note = sample_processing, inu_update_type = UpdateNone\<rparr>"
    by (simp add: sample_note_tracker_eq)
  then have "bt_get (nut_input_notes sample_note_tracker') (NoteId (Digest 5)) \<noteq> None"
    using no_note_update_lost [OF sample_note_run, THEN conjunct2, THEN conjunct2, THEN conjunct1] by blast
  then show ?thesis using get sample_note_run by simp
qed

text \<open>
  Nullifier positions are the order of first occurrence: for at most \<open>2 ^ 32\<close> nullifiers
  (at more, the source panics) \<open>extend_nullifiers\<close> succeeds on a tracker with no positions yet,
  the \<open>k\<close>-th distinct nullifier gets position \<open>k\<close>, and no other nullifier has a position.
\<close>

lemma nullifier_positions:
  assumes "length nfs \<le> 2 ^ 32" and "nut_nullifier_order N = []"
  shows "\<exists>N'. extend_nullifiers N nfs = Inr N'
    \<and> (\<forall>k < length (first_occurrences nfs).
         get_nullifier_order N' (first_occurrences nfs ! k) = Some (of_nat k))
    \<and> (\<forall>nf. get_nullifier_order N' nf \<noteq> None \<longleftrightarrow> nf \<in> set nfs)"
  using extend_nullifiers_positions [OF assms]
  by (auto simp: positions_ok_def get_nullifier_order_def)

lemma nullifier_positions_witness:
  "\<exists>N'. extend_nullifiers sample_note_tracker
      [Nullifier (Digest 6), Nullifier (Digest 5), Nullifier (Digest 6)] = Inr N'
    \<and> get_nullifier_order N' (Nullifier (Digest 5)) = Some 1"
proof -
  let ?nfs = "[Nullifier (Digest 6), Nullifier (Digest 5), Nullifier (Digest 6)]"
  have first: "first_occurrences ?nfs = [Nullifier (Digest 6), Nullifier (Digest 5)]"
    by (simp add: first_occurrences_def)
  have order: "nut_nullifier_order sample_note_tracker = []" by (simp add: sample_note_tracker_eq)
  have len: "length ?nfs \<le> 2 ^ 32" by simp
  obtain N' where N': "extend_nullifiers sample_note_tracker ?nfs = Inr N'"
    and pos: "\<forall>k < length (first_occurrences ?nfs).
      get_nullifier_order N' (first_occurrences ?nfs ! k) = Some (of_nat k)"
    using nullifier_positions [OF len order] by blast
  have "get_nullifier_order N' (first_occurrences ?nfs ! 1) = Some (of_nat 1)"
    using pos [rule_format, of 1] by (simp add: first)
  with N' show ?thesis by (simp add: first)
qed

text \<open>
  C17. A nullifier found on chain consumes its note: in a consistent tracker, with the committed
  local transactions, the input note with that nullifier becomes consumed (at the height of
  its own local transaction if that one was committed, at the nullifier's height otherwise, a
  note consumed before keeping its height), gets the nullifier's position, and no other
  input note changes.
\<close>

theorem nullified_note_is_consumed:
  assumes "tracker_inv P N" and "bt_get (nut_input_notes N) i = Some u"
    and "nu_nullifier upd = inr_nullifier P (inu_note u)"
    and "apply_nullifiers_state_transitions P N upd txs = Inr N'"
    and "\<forall>t \<in> set txs. \<exists>h ts. tr_status t = TxCommitted h ts"
  shows "\<exists>r'. bt_get (nut_input_notes N') i = Some (inu_inner_mut u r')
    \<and> inr_is_consumed r'
    \<and> consumed_tx_order (inr_state r') = get_nullifier_order N (nu_nullifier upd)
    \<and> consumed_block_height (inr_state r') =
        (if inr_is_consumed (inu_note u) then consumed_block_height (inr_state (inu_note u))
         else Some (consumption_height (inu_note u) upd txs))
    \<and> (\<forall>j. j \<noteq> i \<longrightarrow> bt_get (nut_input_notes N') j = bt_get (nut_input_notes N) j)"
proof -
  have found: "input_note_by_nullifier N (nu_nullifier upd) = Some (i, u)"
    using assms(1-3) by (auto simp: input_note_by_nullifier_def tracker_inv_def input_index_inv_def)
  obtain N1 where N1: "nullify_input_note P N upd txs = Inr N1" "nullify_output_note P N1 upd = Inr N'"
    using assms(4) by (auto simp: apply_nullifiers_state_transitions_def and_then_Inr_conv)
  then obtain r where r: "nullified_record P (inu_note u) upd txs = Inr r"
    and inputs: "nut_input_notes N1 = bt_modify i (\<lambda>u. inu_inner_mut u
        (inr_set_consumed_tx_order (get_nullifier_order N (nu_nullifier upd)) r)) (nut_input_notes N)"
    using found by (auto simp: nullify_input_note_def and_then_Inr_conv)
  note consumed = nullified_record_consumed [OF r assms(5)]
  show ?thesis
    using consumed set_consumed_tx_order_consumed [OF conjunct1 [OF consumed]] assms(2)
      nullify_output_keeps_inputs [OF N1(2)] inputs
    by (intro exI [of _ "inr_set_consumed_tx_order (get_nullifier_order N (nu_nullifier upd)) r"]) simp
qed

theorem nullified_note_is_consumed_witness:
  "\<exists>r'. bt_get (nut_input_notes sample_note_tracker') (NoteId (Digest 5)) =
      Some \<lparr>inu_note = r', inu_update_type = UpdateUpdate\<rparr>
    \<and> inr_is_consumed r' \<and> consumed_block_height (inr_state r') = Some 12"
proof -
  let ?N = "sample_note_tracker\<lparr>nut_nullifier_order := [(Nullifier (Digest 5), 1), (Nullifier (Digest 6), 0)]\<rparr>"
  let ?u = "\<lparr>inu_note = sample_processing, inu_update_type = UpdateNone\<rparr>"
  have inv: "tracker_inv sample_protocol ?N"
    by (rule tracker_inv_extend [OF sample_order_run])
      (simp add: sample_note_tracker_def tracker_inv_new sample_protocol_binds)
  have get: "bt_get (nut_input_notes ?N) (NoteId (Digest 5)) = Some ?u"
    by (simp add: sample_note_tracker_eq)
  have nf: "nu_nullifier sample_nullifier_update = inr_nullifier sample_protocol (inu_note ?u)"
    by (simp add: sample_nullifier_update_def inr_nullifier_def sample_record_defs)
  have txs: "\<forall>t \<in> set [sample_committed_tx]. \<exists>h ts. tr_status t = TxCommitted h ts"
    by (simp add: sample_committed_tx_def)
  show ?thesis
    using nullified_note_is_consumed [OF inv get nf sample_nullify_run txs]
    by (auto simp: consumption_height_def inr_is_consumed_def inr_consumer_transaction_id_def handler_defs
        inu_inner_mut_def sample_record_defs sample_committed_tx_def sample_transaction_def)
qed

end
