(* ===== verification/Transaction_Tracker.thy ===== *)
theory Transaction_Tracker
  imports Rpc_Domain
begin

text \<open>
  The transaction half of a sync update (\<open>TransactionUpdateTracker\<close> of
  \<^verbatim>\<open>sync/state_sync_update.rs\<close>): which tracked transactions a sync commits and which it
  discards. Discarding is recursive: the final account state of a discarded transaction is
  invalid, so every pending transaction that starts from it is discarded too. The theory
  shows that the recursion ends and computes exactly the transitive dependents.
\<close>

type_synonym tx_tracker = "(transaction_id, transaction_record) btree_map"

definition tx_tracker_new :: "transaction_record list \<Rightarrow> tx_tracker" where
  "tx_tracker_new txs = bt_from_iter (map (\<lambda>t. (tr_id t, t)) txs)"

definition committed_transactions :: "tx_tracker \<Rightarrow> transaction_record list" where
  "committed_transactions T =
     filter (\<lambda>t. case tr_status t of TxCommitted _ _ \<Rightarrow> True | _ \<Rightarrow> False) (bt_values T)"

definition discarded_transactions :: "tx_tracker \<Rightarrow> transaction_record list" where
  "discarded_transactions T =
     filter (\<lambda>t. case tr_status t of TxDiscarded _ \<Rightarrow> True | _ \<Rightarrow> False) (bt_values T)"

definition updated_transaction_ids :: "tx_tracker \<Rightarrow> transaction_id list" where
  "updated_transaction_ids T = map tr_id (committed_transactions T @ discarded_transactions T)"

definition apply_transaction_inclusion ::
  "tx_tracker \<Rightarrow> transaction_inclusion \<Rightarrow> u64 \<Rightarrow> tx_tracker" where
  "apply_transaction_inclusion T inc timestamp =
     (let commit = (\<lambda>t. snd (commit_transaction t (ti_block_num inc) timestamp))
      in case bt_get T (ti_transaction_id inc) of
           Some _ \<Rightarrow> bt_modify (ti_transaction_id inc) commit T
         | None \<Rightarrow>
             (case find (\<lambda>(k, t). td_account_id (tr_details t) = ti_account_id inc
                           \<and> tx_init t = ti_initial_state_commitment inc) T of
                Some (k, _) \<Rightarrow> bt_modify k commit T
              | None \<Rightarrow> T))"

text \<open>
  The first loop of \<open>discard_transaction_with_predicate\<close>: over the pending transactions in key
  order, discarding those that match and collecting their final account states.
\<close>

fun discard_pass ::
  "(transaction_record \<Rightarrow> bool) \<Rightarrow> discard_cause \<Rightarrow> tx_tracker \<Rightarrow> digest list \<times> tx_tracker" where
  "discard_pass predicate cause [] = ([], [])"
| "discard_pass predicate cause ((k, t) # T) =
     (let (invalid, T') = discard_pass predicate cause T
      in if tx_pending t \<and> predicate t \<and> fst (discard_transaction t cause)
         then (tx_final t # invalid, (k, snd (discard_transaction t cause)) # T')
         else (invalid, (k, t) # T'))"

text \<open>
  The second loop, over the new invalid states. \<open>apply_invalid_initial_account_state\<close> of one
  state is again a pass and this loop over the states that pass returned, and is written out
  in the recursion.
\<close>

definition starts_from :: "digest \<Rightarrow> transaction_record \<Rightarrow> bool" where
  "starts_from s t \<longleftrightarrow> tx_init t = s"

function (domintros) apply_invalid_states :: "digest list \<Rightarrow> tx_tracker \<Rightarrow> tx_tracker" where
  "apply_invalid_states [] T = T"
| "apply_invalid_states (s # states) T =
     apply_invalid_states states
       (apply_invalid_states (fst (discard_pass (starts_from s) DiscardedInitialState T))
          (snd (discard_pass (starts_from s) DiscardedInitialState T)))"
  by pat_completeness auto

definition pending_count :: "tx_tracker \<Rightarrow> nat" where
  "pending_count T = length (filter tx_pending (bt_values T))"

definition mark_tx ::
  "discard_cause \<Rightarrow> (transaction_record \<Rightarrow> bool) \<Rightarrow> transaction_record \<Rightarrow> transaction_record" where
  "mark_tx c Q t = (if tx_pending t \<and> Q t then t\<lparr>tr_status := TxDiscarded c\<rparr> else t)"

abbreviation map_values :: "('v \<Rightarrow> 'w) \<Rightarrow> ('k, 'v) btree_map \<Rightarrow> ('k, 'w) btree_map" where
  "map_values f m \<equiv> map (\<lambda>(k, v). (k, f v)) m"

lemma discard_pass_eq:
  "discard_pass p c T =
     (map tx_final (filter (\<lambda>t. tx_pending t \<and> p t) (bt_values T)), map_values (mark_tx c p) T)"
  by (induction T) (auto simp: mark_tx_def discard_transaction_def split: transaction_status.splits)

lemma pending_mark_tx: "tx_pending (mark_tx c Q t) \<longleftrightarrow> tx_pending t \<and> \<not> Q t"
  by (auto simp: mark_tx_def)

lemma mark_tx_False: "\<not> (tx_pending t \<and> Q t) \<Longrightarrow> mark_tx c Q t = t"
  by (auto simp: mark_tx_def)

lemma pending_count_pass:
  "pending_count (snd (discard_pass p c T)) + length (fst (discard_pass p c T)) = pending_count T"
  by (induction T) (auto simp: pending_count_def discard_pass_eq pending_mark_tx mark_tx_False)

lemma apply_invalid_states_pending:
  "apply_invalid_states_dom (states, T) \<Longrightarrow>
     pending_count (apply_invalid_states states T) \<le> pending_count T"
proof (induction states T rule: apply_invalid_states.pinduct)
  case (1 T)
  then show ?case by (simp add: apply_invalid_states.psimps)
next
  case (2 s states T)
  then show ?case
    using pending_count_pass [of "starts_from s" DiscardedInitialState T]
    by (simp add: apply_invalid_states.psimps)
qed

termination apply_invalid_states
proof (relation "measures [\<lambda>(states, T). pending_count T, \<lambda>(states, T). length states]", goal_cases)
  case 1
  then show ?case by simp
next
  case (2 s states T)
  then show ?case
    using pending_count_pass [of "starts_from s" DiscardedInitialState T]
    by (cases "fst (discard_pass (starts_from s) DiscardedInitialState T)") auto
next
  case (3 s states T)
  then show ?case
    using pending_count_pass [of "starts_from s" DiscardedInitialState T]
      apply_invalid_states_pending [OF 3]
    by simp linarith
qed

definition discard_transaction_with_predicate ::
  "(transaction_record \<Rightarrow> bool) \<Rightarrow> discard_cause \<Rightarrow> tx_tracker \<Rightarrow> tx_tracker" where
  "discard_transaction_with_predicate predicate cause T =
     (let (new_invalid_account_states, T') = discard_pass predicate cause T
      in apply_invalid_states new_invalid_account_states T')"

definition apply_invalid_initial_account_state :: "digest \<Rightarrow> tx_tracker \<Rightarrow> tx_tracker" where
  "apply_invalid_initial_account_state invalid_state T =
     discard_transaction_with_predicate (starts_from invalid_state) DiscardedInitialState T"

lemma apply_invalid_states_loop:
  "apply_invalid_states states T =
     fold (\<lambda>s T. apply_invalid_initial_account_state s T) states T"
  by (induction states arbitrary: T)
    (simp_all add: apply_invalid_initial_account_state_def discard_transaction_with_predicate_def
      case_prod_beta)

definition apply_sync_height_update ::
  "tx_tracker \<Rightarrow> block_number \<Rightarrow> u32 option \<Rightarrow> tx_tracker" where
  "apply_sync_height_update T new_sync_height tx_discard_delta =
     (let T1 = (case tx_discard_delta of
                  Some delta \<Rightarrow>
                    discard_transaction_with_predicate
                      (\<lambda>t. td_submission_height (tr_details t) < saturating_sub new_sync_height delta)
                      Stale T
                | None \<Rightarrow> T)
      in discard_transaction_with_predicate
           (\<lambda>t. td_expiration_block_num (tr_details t) \<le> new_sync_height) Expired T1)"

definition apply_input_note_nullified :: "tx_tracker \<Rightarrow> nullifier \<Rightarrow> tx_tracker" where
  "apply_input_note_nullified T nf =
     discard_transaction_with_predicate
       (\<lambda>t. nullifier_word nf \<in> set (td_input_note_nullifiers (tr_details t))) InputConsumed T"

section \<open>The transitive dependents\<close>

text \<open>
  Among the pending transactions \<open>S\<close>, those a discard must reach: the ones that match the
  predicate and those that start from the final state of one already reached.
\<close>

inductive doomed ::
  "(transaction_record \<Rightarrow> bool) \<Rightarrow> transaction_record set \<Rightarrow> transaction_record \<Rightarrow> bool" for p S where
  match: "t \<in> S \<Longrightarrow> p t \<Longrightarrow> doomed p S t"
| depends: "doomed p S u \<Longrightarrow> t \<in> S \<Longrightarrow> tx_init t = tx_final u \<Longrightarrow> doomed p S t"

inductive_cases doomedE: "doomed p S t"

definition pending_set :: "tx_tracker \<Rightarrow> transaction_record set" where
  "pending_set T = {t \<in> set (bt_values T). tx_pending t}"

lemma doomed_in: "doomed p S t \<Longrightarrow> t \<in> S"
  by (induction rule: doomed.induct) auto

lemma doomed_mono: "doomed p S t \<Longrightarrow> S \<subseteq> S' \<Longrightarrow> (\<And>u. p u \<Longrightarrow> q u) \<Longrightarrow> doomed q S' t"
  by (induction rule: doomed.induct) (auto intro: doomed.intros)

text \<open>One pass, then the loop over the states it returned.\<close>

lemma doomed_split:
  fixes p S
  defines "S1 \<equiv> {t \<in> S. \<not> p t}"
    and "q \<equiv> \<lambda>t. \<exists>u \<in> S. p u \<and> tx_init t = tx_final u"
  assumes t: "t \<in> S"
  shows "doomed p S t \<longleftrightarrow> p t \<or> doomed q S1 t"
proof
  assume "doomed p S t"
  then show "p t \<or> doomed q S1 t"
  proof (induction rule: doomed.induct)
    case (depends u t)
    then have "p u \<and> q t \<or> doomed q S1 u"
      using doomed_in [of p S u] by (auto simp: q_def)
    with depends(2,3) show ?case by (auto simp: S1_def intro: doomed.intros)
  qed simp
next
  assume "p t \<or> doomed q S1 t"
  moreover have "doomed p S u" if "doomed q S1 u" for u
    using that by (induction rule: doomed.induct) (auto simp: S1_def q_def intro: doomed.intros)
  ultimately show "doomed p S t" using t by (auto intro: doomed.intros)
qed

text \<open>First the dependents of one predicate, then those of another among the rest.\<close>

lemma doomed_union:
  fixes p q S
  defines "S1 \<equiv> {t \<in> S. \<not> doomed p S t}"
  assumes t: "t \<in> S"
  shows "doomed (\<lambda>t. p t \<or> q t) S t \<longleftrightarrow> doomed p S t \<or> doomed q S1 t"
proof
  assume "doomed (\<lambda>t. p t \<or> q t) S t"
  then show "doomed p S t \<or> doomed q S1 t"
    by (induction rule: doomed.induct) (auto simp: S1_def intro: doomed.intros)
next
  assume "doomed p S t \<or> doomed q S1 t"
  then show "doomed (\<lambda>t. p t \<or> q t) S t"
    by (auto simp: S1_def intro: doomed_mono)
qed

section \<open>The recursion computes the dependents\<close>

lemma find_filter_hd: "filter P xs = [x] \<Longrightarrow> find P xs = Some x"
  by (induction xs) (auto split: if_splits)

lemma mark_tx_mark_tx: "mark_tx c Q (mark_tx c P t) = mark_tx c (\<lambda>t. P t \<or> Q t) t"
  by (auto simp: mark_tx_def)

lemma map_values_map_values: "map_values f (map_values g T) = map_values (\<lambda>v. f (g v)) T"
  by (induction T) auto

lemma map_values_cong:
  "(\<And>t. t \<in> set (bt_values T) \<Longrightarrow> f t = g t) \<Longrightarrow> map_values f T = map_values g T"
  by (auto simp: case_prod_beta)

lemma mark_tx_cong:
  "(t \<in> pending_set T \<Longrightarrow> P t \<longleftrightarrow> Q t) \<Longrightarrow> t \<in> set (bt_values T) \<Longrightarrow> mark_tx c P t = mark_tx c Q t"
  by (auto simp: mark_tx_def pending_set_def)

lemma pending_set_Cons:
  "pending_set ((k, t) # T) = (if tx_pending t then insert t (pending_set T) else pending_set T)"
  by (auto simp: pending_set_def)

lemma pending_set_mark: "pending_set (map_values (mark_tx c Q) T) = {t \<in> pending_set T. \<not> Q t}"
proof (induction T)
  case Nil
  then show ?case by (simp add: pending_set_def)
next
  case (Cons kt T)
  obtain k t where kt: "kt = (k, t)" by (cases kt)
  show ?case
  proof (cases "tx_pending t \<and> Q t")
    case True
    then have "mark_tx c Q t = t\<lparr>tr_status := TxDiscarded c\<rparr>" by (simp add: mark_tx_def)
    with True Cons.IH show ?thesis by (auto simp: kt pending_set_Cons)
  next
    case False
    then have "mark_tx c Q t = t" by (rule mark_tx_False)
    with False Cons.IH show ?thesis by (auto simp: kt pending_set_Cons)
  qed
qed

abbreviation starts_in :: "digest set \<Rightarrow> transaction_record \<Rightarrow> bool" where
  "starts_in A \<equiv> \<lambda>t. tx_init t \<in> A"

text \<open>
  One pass with cause \<open>DiscardedInitialState\<close> and the loop over its states discard exactly
  what is doomed by the predicate.
\<close>

lemma pass_then_loop:
  assumes loop: "apply_invalid_states (fst (discard_pass p c T)) (snd (discard_pass p c T)) =
      map_values (mark_tx DiscardedInitialState
        (doomed (starts_in (set (fst (discard_pass p c T)))) (pending_set (snd (discard_pass p c T)))))
        (snd (discard_pass p c T))"
  shows "apply_invalid_states (fst (discard_pass p c T)) (snd (discard_pass p c T)) =
    map_values (\<lambda>t. mark_tx DiscardedInitialState (doomed p (pending_set T)) (mark_tx c p t)) T"
proof -
  let ?S = "pending_set T"
  have finals: "starts_in (set (fst (discard_pass p c T))) =
      (\<lambda>t. \<exists>u \<in> ?S. p u \<and> tx_init t = tx_final u)"
    by (auto simp: discard_pass_eq pending_set_def fun_eq_iff image_iff)
  have rest: "pending_set (snd (discard_pass p c T)) = {t \<in> ?S. \<not> p t}"
    by (simp add: discard_pass_eq pending_set_mark)
  show ?thesis
    unfolding loop finals rest
    unfolding discard_pass_eq snd_conv map_values_map_values
  proof (rule map_values_cong)
    fix t assume t: "t \<in> set (bt_values T)"
    show "mark_tx DiscardedInitialState
        (doomed (\<lambda>t. \<exists>u \<in> ?S. p u \<and> tx_init t = tx_final u) {t \<in> ?S. \<not> p t}) (mark_tx c p t) =
      mark_tx DiscardedInitialState (doomed p ?S) (mark_tx c p t)"
    proof (cases "tx_pending t \<and> \<not> p t")
      case True
      then have "t \<in> ?S" using t by (simp add: pending_set_def)
      with True show ?thesis by (simp add: mark_tx_def doomed_split)
    next
      case False
      then show ?thesis by (auto simp: mark_tx_def)
    qed
  qed
qed

lemma apply_invalid_states_eq:
  "apply_invalid_states states T =
     map_values (mark_tx DiscardedInitialState (doomed (starts_in (set states)) (pending_set T))) T"
proof (induction states T rule: apply_invalid_states.induct)
  case (1 T)
  have "\<not> doomed (starts_in {}) S t" for S t
    by (auto elim: doomed.induct)
  then show ?case by (simp add: mark_tx_def)
next
  case (2 s states T)
  let ?S = "pending_set T" and ?D = DiscardedInitialState and ?p = "starts_from s"
  let ?U = "apply_invalid_states (fst (discard_pass ?p ?D T)) (snd (discard_pass ?p ?D T))"
  have "?U = map_values (\<lambda>t. mark_tx ?D (doomed ?p ?S) (mark_tx ?D ?p t)) T"
    by (rule pass_then_loop [OF "2.IH"(1)])
  also have "\<dots> = map_values (mark_tx ?D (doomed ?p ?S)) T"
    unfolding mark_tx_mark_tx
    by (rule map_values_cong, rule mark_tx_cong) (auto intro: doomed.intros)
  finally have U: "?U = map_values (mark_tx ?D (doomed ?p ?S)) T" .
  have SU: "pending_set ?U = {t \<in> ?S. \<not> doomed ?p ?S t}"
    by (simp add: U pending_set_mark)
  have "apply_invalid_states (s # states) T =
      map_values (mark_tx ?D (doomed (starts_in (set states)) (pending_set ?U))) ?U"
    using "2.IH"(2) by simp
  also have "\<dots> = map_values (mark_tx ?D
      (\<lambda>t. doomed ?p ?S t \<or> doomed (starts_in (set states)) {t \<in> ?S. \<not> doomed ?p ?S t} t)) T"
    unfolding SU unfolding U map_values_map_values mark_tx_mark_tx ..
  also have "\<dots> = map_values (mark_tx ?D (doomed (starts_in (set (s # states))) ?S)) T"
  proof (rule map_values_cong, rule mark_tx_cong)
    fix t assume "t \<in> ?S"
    then show "doomed ?p ?S t \<or> doomed (starts_in (set states)) {t \<in> ?S. \<not> doomed ?p ?S t} t
        \<longleftrightarrow> doomed (starts_in (set (s # states))) ?S t"
      using doomed_union [of t ?S ?p "starts_in (set states)"] by (simp add: starts_from_def)
  qed
  finally show ?case .
qed

text \<open>What \<open>discard_transaction_with_predicate\<close> does to a record.\<close>

definition discard_spec ::
  "(transaction_record \<Rightarrow> bool) \<Rightarrow> discard_cause \<Rightarrow> transaction_record set \<Rightarrow>
   transaction_record \<Rightarrow> transaction_record" where
  "discard_spec p c S t =
     (if \<not> tx_pending t then t
      else if p t then t\<lparr>tr_status := TxDiscarded c\<rparr>
      else if doomed p S t then t\<lparr>tr_status := TxDiscarded DiscardedInitialState\<rparr>
      else t)"

lemma discard_eq_spec:
  "discard_transaction_with_predicate p c T = map_values (discard_spec p c (pending_set T)) T"
proof -
  have "discard_transaction_with_predicate p c T =
      apply_invalid_states (fst (discard_pass p c T)) (snd (discard_pass p c T))"
    by (cases "discard_pass p c T") (simp add: discard_transaction_with_predicate_def)
  also have "\<dots> =
      map_values (\<lambda>t. mark_tx DiscardedInitialState (doomed p (pending_set T)) (mark_tx c p t)) T"
    by (rule pass_then_loop [OF apply_invalid_states_eq])
  also have "\<dots> = map_values (discard_spec p c (pending_set T)) T"
    by (rule map_values_cong) (auto simp: mark_tx_def discard_spec_def)
  finally show ?thesis .
qed

lemma pending_set_discard:
  "pending_set (discard_transaction_with_predicate p c T) =
     {t \<in> pending_set T. \<not> doomed p (pending_set T) t}"
proof -
  let ?S = "pending_set T"
  have eq: "map_values (discard_spec p c ?S) T =
      map_values (mark_tx DiscardedInitialState (\<lambda>t. doomed p ?S t \<and> \<not> p t)) (map_values (mark_tx c p) T)"
    unfolding map_values_map_values
    by (rule map_values_cong) (auto simp: mark_tx_def discard_spec_def)
  have "pending_set (discard_transaction_with_predicate p c T) =
      {t \<in> {t \<in> ?S. \<not> p t}. \<not> (doomed p ?S t \<and> \<not> p t)}"
    unfolding discard_eq_spec eq pending_set_mark ..
  then show ?thesis by (auto intro: doomed.intros)
qed

lemma discard_keys [simp]: "bt_keys (discard_transaction_with_predicate p c T) = bt_keys T"
  by (simp add: discard_eq_spec comp_def case_prod_beta)

section \<open>Sequences of updates\<close>

datatype tracker_event =
    IncludedInBlock transaction_inclusion u64
  | SyncHeightUpdate block_number "u32 option"
  | InputNoteNullified nullifier
  | InvalidInitialState digest

fun tracker_step :: "tracker_event \<Rightarrow> tx_tracker \<Rightarrow> tx_tracker" where
  "tracker_step (IncludedInBlock inc ts) T = apply_transaction_inclusion T inc ts"
| "tracker_step (SyncHeightUpdate h delta) T = apply_sync_height_update T h delta"
| "tracker_step (InputNoteNullified nf) T = apply_input_note_nullified T nf"
| "tracker_step (InvalidInitialState s) T = apply_invalid_initial_account_state s T"

lemma bt_get_map_values: "bt_get (map_values f m) k = map_option f (bt_get m k)"
  by (induction m) auto

lemma discard_lookup:
  "bt_get (discard_transaction_with_predicate p c T) k =
     map_option (discard_spec p c (pending_set T)) (bt_get T k)"
  by (simp only: discard_eq_spec bt_get_map_values)

lemma discard_spec_settled [simp]: "\<not> tx_pending t \<Longrightarrow> discard_spec p c S t = t"
  by (simp add: discard_spec_def)

lemma commit_settled [simp]: "\<not> tx_pending t \<Longrightarrow> snd (commit_transaction t h ts) = t"
  by (auto simp: commit_transaction_def split: transaction_status.splits)

lemma commit_pending:
  "tx_pending t \<Longrightarrow> snd (commit_transaction t h ts) = t\<lparr>tr_status := TxCommitted h ts\<rparr>"
  by (simp add: commit_transaction_def)

lemma tracker_step_settled:
  "bt_get T k = Some t \<Longrightarrow> \<not> tx_pending t \<Longrightarrow> bt_get (tracker_step ev T) k = Some t"
  by (cases ev)
    (auto simp: apply_transaction_inclusion_def Let_def apply_sync_height_update_def discard_lookup
      apply_input_note_nullified_def apply_invalid_initial_account_state_def
      split: option.splits prod.splits)

lemma apply_sync_height_update_pending:
  "pending_set (apply_sync_height_update T h delta) =
     {t \<in> pending_set T.
        \<not> doomed (\<lambda>t. (\<exists>d. delta = Some d \<and> td_submission_height (tr_details t) < saturating_sub h d)
             \<or> td_expiration_block_num (tr_details t) \<le> h) (pending_set T) t}"
proof (cases delta)
  case None
  then show ?thesis by (simp add: apply_sync_height_update_def pending_set_discard)
next
  case (Some d)
  let ?stale = "\<lambda>t. td_submission_height (tr_details t) < saturating_sub h d"
  let ?expired = "\<lambda>t. td_expiration_block_num (tr_details t) \<le> h"
  have "doomed (\<lambda>t. ?stale t \<or> ?expired t) (pending_set T) t \<longleftrightarrow>
      doomed ?stale (pending_set T) t
      \<or> doomed ?expired {t \<in> pending_set T. \<not> doomed ?stale (pending_set T) t} t"
    if "t \<in> pending_set T" for t
    using that by (rule doomed_union)
  then show ?thesis
    by (auto simp: Some apply_sync_height_update_def pending_set_discard)
qed

text \<open>A chain of two pending transactions of one account, the second built on the first.\<close>

definition sample_followup :: transaction_record where
  "sample_followup = sample_transaction
     \<lparr>tr_id := TransactionId (Digest 9),
      tr_details := (tr_details sample_transaction)
        \<lparr>td_init_account_state := Digest 21, td_final_account_state := Digest 22,
         td_input_note_nullifiers := []\<rparr>\<rparr>"

definition sample_tracker :: tx_tracker where
  "sample_tracker = tx_tracker_new [sample_followup, sample_transaction]"

definition sample_inclusion :: transaction_inclusion where
  "sample_inclusion = \<lparr>ti_transaction_id = TransactionId (Digest 77), ti_block_num = 12,
     ti_account_id = AccountId 1, ti_initial_state_commitment = Digest 20\<rparr>"

lemma sample_tracker_eq:
  "sample_tracker =
     [(TransactionId (Digest 8), sample_transaction), (TransactionId (Digest 9), sample_followup)]"
  by (simp add: sample_tracker_def tx_tracker_new_def bt_from_iter_def sample_followup_def
      sample_transaction_def id_order_defs)

section \<open>Properties\<close>

text \<open>
  C3. Discarding cascades exactly: \<open>discard_transaction_with_predicate\<close> (which ends for every
  tracker) discards with the given cause the pending transactions that match, discards with
  \<open>DiscardedInitialState\<close> the pending transactions reachable from those through a chain of
  final state = initial state, and leaves every other record, settled ones included, as it
  was.
\<close>

theorem discard_cascade:
  "discard_transaction_with_predicate p c T = map_values (discard_spec p c (pending_set T)) T"
  by (rule discard_eq_spec)

text \<open>
  After a sync height update the transactions still pending are exactly those pending
  before that neither expired at the new height, nor were submitted more than the discard
  delta ago, nor depend on one that did. No transaction enters or leaves the tracker.
\<close>

lemma sync_height_update_pending:
  "pending_set (apply_sync_height_update T h delta) =
     {t \<in> pending_set T.
        \<not> doomed (\<lambda>t. (\<exists>d. delta = Some d \<and> td_submission_height (tr_details t) < saturating_sub h d)
             \<or> td_expiration_block_num (tr_details t) \<le> h) (pending_set T) t}
   \<and> bt_keys (apply_sync_height_update T h delta) = bt_keys T"
  using apply_sync_height_update_pending
  by (simp add: apply_sync_height_update_def split: option.split)

text \<open>
  A transaction that has been committed or discarded keeps its record through any further
  sequence of inclusions, sync height updates, nullified notes and invalid account states.
\<close>

lemma settled_transaction_survives:
  assumes "bt_get T k = Some t" and "\<not> tx_pending t"
  shows "bt_get (fold tracker_step evs T) k = Some t"
  using assms(1) by (induction evs arbitrary: T) (auto intro: tracker_step_settled [OF _ assms(2)])

lemma settled_transaction_survives_witness:
  "bt_get (apply_transaction_inclusion sample_tracker sample_inclusion 1000) (TransactionId (Digest 8))
     = Some (sample_transaction\<lparr>tr_status := TxCommitted 12 1000\<rparr>)
   \<and> bt_get (fold tracker_step [InputNoteNullified (Nullifier (Digest 5)), SyncHeightUpdate 99 (Some 2)]
       (apply_transaction_inclusion sample_tracker sample_inclusion 1000)) (TransactionId (Digest 8))
     = Some (sample_transaction\<lparr>tr_status := TxCommitted 12 1000\<rparr>)"
proof -
  have get: "bt_get (apply_transaction_inclusion sample_tracker sample_inclusion 1000)
      (TransactionId (Digest 8)) = Some (sample_transaction\<lparr>tr_status := TxCommitted 12 1000\<rparr>)"
    by (simp add: apply_transaction_inclusion_def sample_tracker_eq sample_inclusion_def
        sample_transaction_def sample_followup_def commit_transaction_def)
  have settled: "\<not> tx_pending (sample_transaction\<lparr>tr_status := TxCommitted 12 1000\<rparr>)" by simp
  show ?thesis using get settled_transaction_survives [OF get settled] by blast
qed

text \<open>
  A transaction included in a block is committed there: the pending record with its id or,
  when the node changed the id while authenticating its notes, the one pending record of the
  same account that starts from the same state. Every other record is unchanged.
\<close>

lemma transaction_inclusion_commits:
  assumes "bt_wf T" and "bt_get T k = Some t" and "tx_pending t"
    and "ti_transaction_id inc = k \<or>
      (bt_get T (ti_transaction_id inc) = None
       \<and> filter (\<lambda>(k, t). td_account_id (tr_details t) = ti_account_id inc
            \<and> tx_init t = ti_initial_state_commitment inc) T = [(k, t)])"
  shows "bt_get (apply_transaction_inclusion T inc ts) k' =
    (if k' = k then Some (t\<lparr>tr_status := TxCommitted (ti_block_num inc) ts\<rparr>) else bt_get T k')"
  using assms(4)
proof
  assume "ti_transaction_id inc = k"
  then show ?thesis using assms by (simp add: apply_transaction_inclusion_def commit_pending)
next
  let ?match = "\<lambda>(k, t). td_account_id (tr_details t) = ti_account_id inc
            \<and> tx_init t = ti_initial_state_commitment inc"
  assume fallback: "bt_get T (ti_transaction_id inc) = None \<and> filter ?match T = [(k, t)]"
  then have "find ?match T = Some (k, t)" by (simp add: find_filter_hd)
  then show ?thesis
    using fallback assms(2,3) by (simp add: apply_transaction_inclusion_def commit_pending)
qed

lemma transaction_inclusion_commits_witness:
  "bt_get (apply_transaction_inclusion sample_tracker sample_inclusion 1000) (TransactionId (Digest 8))
     = Some (sample_transaction\<lparr>tr_status := TxCommitted 12 1000\<rparr>)"
proof -
  have wf: "bt_wf sample_tracker" by (simp add: sample_tracker_def tx_tracker_new_def)
  have get: "bt_get sample_tracker (TransactionId (Digest 8)) = Some sample_transaction"
    by (simp add: sample_tracker_eq)
  have pending: "tx_pending sample_transaction" by (simp add: sample_transaction_def)
  have match: "ti_transaction_id sample_inclusion = TransactionId (Digest 8) \<or>
      (bt_get sample_tracker (ti_transaction_id sample_inclusion) = None
       \<and> filter (\<lambda>(k, t). td_account_id (tr_details t) = ti_account_id sample_inclusion
            \<and> tx_init t = ti_initial_state_commitment sample_inclusion) sample_tracker
         = [(TransactionId (Digest 8), sample_transaction)])"
    by (simp add: sample_tracker_eq sample_inclusion_def sample_transaction_def sample_followup_def)
  show ?thesis
    using transaction_inclusion_commits [OF wf get pending match, of 1000 "TransactionId (Digest 8)"]
    by (simp add: sample_inclusion_def)
qed

end
