(* ===== verification/Sync_Update.thy ===== *)
theory Sync_Update
  imports Note_Update_Tracker Transaction_Tracker
begin

text \<open>
  What one sync hands to the store (\<^verbatim>\<open>sync/state_sync_update.rs\<close>): block headers with their
  relevance flag, authentication nodes, note, transaction and account updates; and the
  summary the user gets (\<open>SyncSummary\<close> of \<^verbatim>\<open>sync/mod.rs\<close>).
\<close>

section \<open>\<open>BlockUpdates\<close>\<close>

type_synonym mmr_peaks = "digest list"
type_synonym auth_nodes = "(nat \<times> digest) list"

record block_updates =
  bu_block_headers :: "(block_number, block_header \<times> bool \<times> mmr_peaks) btree_map"
  bu_new_authentication_nodes :: auth_nodes

definition block_updates_default :: block_updates where
  "block_updates_default = \<lparr>bu_block_headers = [], bu_new_authentication_nodes = []\<rparr>"

definition block_updates_insert ::
  "block_header \<Rightarrow> bool \<Rightarrow> mmr_peaks \<Rightarrow> auth_nodes \<Rightarrow> block_updates \<Rightarrow> block_updates" where
  "block_updates_insert hdr has_client_notes peaks nodes B =
     \<lparr>bu_block_headers =
        bt_upsert (bh_block_num hdr) (\<lambda>(h, existing, p). (h, existing \<or> has_client_notes, p))
          (hdr, has_client_notes, peaks) (bu_block_headers B),
      bu_new_authentication_nodes = bu_new_authentication_nodes B @ nodes\<rparr>"

definition block_updates_headers :: "block_updates \<Rightarrow> (block_header \<times> bool \<times> mmr_peaks) list" where
  "block_updates_headers B = bt_values (bu_block_headers B)"

definition extend_authentication_nodes :: "auth_nodes \<Rightarrow> block_updates \<Rightarrow> block_updates" where
  "extend_authentication_nodes nodes B =
     B\<lparr>bu_new_authentication_nodes := bu_new_authentication_nodes B @ nodes\<rparr>"

section \<open>\<open>AccountUpdates\<close>\<close>

record account_header =
  ah_id :: account_id
  ah_commitment :: digest

record public_account =
  pub_id :: account_id
  pub_commitment :: digest

record account_updates =
  au_updated_public_accounts :: "public_account list"
  au_mismatched_private_accounts :: "(account_id \<times> digest) list"

definition account_updates_default :: account_updates where
  "account_updates_default = \<lparr>au_updated_public_accounts = [], au_mismatched_private_accounts = []\<rparr>"

definition account_updates_extend :: "account_updates \<Rightarrow> account_updates \<Rightarrow> account_updates" where
  "account_updates_extend A other =
     \<lparr>au_updated_public_accounts = au_updated_public_accounts A @ au_updated_public_accounts other,
      au_mismatched_private_accounts =
        au_mismatched_private_accounts A @ au_mismatched_private_accounts other\<rparr>"

section \<open>\<open>StateSyncUpdate\<close> and \<open>SyncSummary\<close>\<close>

record state_sync_update =
  ssu_block_num :: block_number
  ssu_block_updates :: block_updates
  ssu_note_updates :: note_update_tracker
  ssu_transaction_updates :: tx_tracker
  ssu_account_updates :: account_updates

record sync_summary =
  sum_block_num :: block_number
  sum_new_public_notes :: "note_id list"
  sum_committed_notes :: "note_id list"
  sum_consumed_notes :: "note_id list"
  sum_updated_accounts :: "account_id list"
  sum_locked_accounts :: "account_id list"
  sum_committed_transactions :: "transaction_id list"

definition sync_summary_new_empty :: "block_number \<Rightarrow> sync_summary" where
  "sync_summary_new_empty n =
     \<lparr>sum_block_num = n, sum_new_public_notes = [], sum_committed_notes = [], sum_consumed_notes = [],
      sum_updated_accounts = [], sum_locked_accounts = [], sum_committed_transactions = []\<rparr>"

definition sync_summary_is_empty :: "sync_summary \<Rightarrow> bool" where
  "sync_summary_is_empty s \<longleftrightarrow>
     sum_new_public_notes s = [] \<and> sum_committed_notes s = [] \<and> sum_consumed_notes s = []
     \<and> sum_updated_accounts s = [] \<and> sum_locked_accounts s = [] \<and> sum_committed_transactions s = []"

definition combine_with :: "sync_summary \<Rightarrow> sync_summary \<Rightarrow> sync_summary" where
  "combine_with s other =
     \<lparr>sum_block_num = max (sum_block_num s) (sum_block_num other),
      sum_new_public_notes = sum_new_public_notes s @ sum_new_public_notes other,
      sum_committed_notes = sum_committed_notes s @ sum_committed_notes other,
      sum_consumed_notes = sum_consumed_notes s @ sum_consumed_notes other,
      sum_updated_accounts = sum_updated_accounts s @ sum_updated_accounts other,
      sum_locked_accounts = sum_locked_accounts s @ sum_locked_accounts other,
      sum_committed_transactions = sum_committed_transactions s @ sum_committed_transactions other\<rparr>"

text \<open>A \<open>BTreeSet\<close> of ids, collected back into a vector.\<close>

definition as_sorted_set :: "'a::linorder list \<Rightarrow> 'a list" where
  "as_sorted_set xs = sorted_list_of_set (set xs)"

definition sync_summary_from :: "protocol \<Rightarrow> state_sync_update \<Rightarrow> sync_summary" where
  "sync_summary_from P value =
     (let notes = ssu_note_updates value;
          new_public_note_ids =
            map (\<lambda>u. inr_id P (inu_note u))
              (filter (\<lambda>u. inu_update_type u = UpdateInsert) (updated_input_notes notes));
          committed_note_ids =
            map (\<lambda>u. inr_id P (inu_note u))
              (filter (\<lambda>u. inu_update_type u = UpdateUpdate \<and> inr_is_committed (inu_note u))
                (updated_input_notes notes))
            @ map (\<lambda>u. onr_id P (onu_note u))
                (filter (\<lambda>u. onu_update_type u = UpdateUpdate \<and> onr_is_committed (onu_note u))
                  (updated_output_notes notes));
          consumed_note_ids =
            map (\<lambda>u. inr_id P (inu_note u))
              (filter (\<lambda>u. inr_is_consumed (inu_note u)) (updated_input_notes notes))
      in \<lparr>sum_block_num = ssu_block_num value,
          sum_new_public_notes = new_public_note_ids,
          sum_committed_notes = as_sorted_set committed_note_ids,
          sum_consumed_notes = as_sorted_set consumed_note_ids,
          sum_updated_accounts =
            map pub_id (au_updated_public_accounts (ssu_account_updates value)),
          sum_locked_accounts =
            map fst (au_mismatched_private_accounts (ssu_account_updates value)),
          sum_committed_transactions =
            map tr_id (committed_transactions (ssu_transaction_updates value))\<rparr>)"

section \<open>Sequences of block insertions\<close>

type_synonym block_insertion = "block_header \<times> bool \<times> mmr_peaks \<times> auth_nodes"

definition insert_blocks :: "block_insertion list \<Rightarrow> block_updates \<Rightarrow> block_updates" where
  "insert_blocks = fold (\<lambda>(hdr, notes, peaks, nodes). block_updates_insert hdr notes peaks nodes)"

definition insertions_of :: "block_number \<Rightarrow> block_insertion list \<Rightarrow> block_insertion list" where
  "insertions_of n xs = filter (\<lambda>(hdr, _). bh_block_num hdr = n) xs"

definition merged_header ::
  "block_insertion list \<Rightarrow> (block_header \<times> bool \<times> mmr_peaks) option" where
  "merged_header xs =
     (case xs of
        [] \<Rightarrow> None
      | (hdr, _, peaks, _) # _ \<Rightarrow> Some (hdr, \<exists>(_, notes, _) \<in> set xs. notes, peaks))"

lemma insert_blocks_snoc:
  "insert_blocks (xs @ [(hdr, notes, peaks, nodes)]) B =
     block_updates_insert hdr notes peaks nodes (insert_blocks xs B)"
  by (simp add: insert_blocks_def)

lemma insertions_of_snoc:
  "insertions_of n (xs @ [(hdr, notes, peaks, nodes)]) =
     insertions_of n xs @ (if bh_block_num hdr = n then [(hdr, notes, peaks, nodes)] else [])"
  by (simp add: insertions_of_def)

lemma merged_header_snoc:
  "merged_header (xs @ [(hdr, notes, peaks, nodes)]) =
     (case merged_header xs of
        None \<Rightarrow> Some (hdr, notes, peaks)
      | Some (h, existing, p) \<Rightarrow> Some (h, existing \<or> notes, p))"
  by (cases xs) (auto simp: merged_header_def)

lemma insert_blocks_lookup:
  "bt_get (bu_block_headers (insert_blocks xs block_updates_default)) n =
     merged_header (insertions_of n xs)"
proof (induction xs rule: rev_induct)
  case Nil
  then show ?case
    by (simp add: insert_blocks_def block_updates_default_def insertions_of_def merged_header_def)
next
  case (snoc x xs)
  obtain hdr flag peaks nodes where x: "x = (hdr, flag, peaks, nodes)" by (cases x)
  then show ?case
    using snoc
    by (auto simp: insert_blocks_snoc insertions_of_snoc merged_header_snoc block_updates_insert_def
        bt_get_upsert split: option.splits)
qed

lemma insert_blocks_nodes:
  "bu_new_authentication_nodes (insert_blocks xs B) =
     bu_new_authentication_nodes B @ concat (map (\<lambda>(_, _, _, nodes). nodes) xs)"
  by (induction xs arbitrary: B) (auto simp: insert_blocks_def block_updates_insert_def)

section \<open>Properties\<close>

text \<open>
  Block headers merge: whatever sequence of insertions a sync makes, each block number is
  stored once with the header and peaks of its first insertion, flagged as relevant exactly
  when some insertion of that block was, and the authentication nodes are those of all
  insertions in order.
\<close>

lemma block_updates_merge:
  "bt_get (bu_block_headers (insert_blocks xs block_updates_default)) n =
     merged_header (insertions_of n xs)
   \<and> bu_new_authentication_nodes (insert_blocks xs block_updates_default) =
     concat (map (\<lambda>(_, _, _, nodes). nodes) xs)"
proof -
  have "bu_new_authentication_nodes block_updates_default = []" by (simp add: block_updates_default_def)
  then show ?thesis by (simp add: insert_blocks_lookup insert_blocks_nodes)
qed

text \<open>
  Summaries combine like the syncs they describe: combining is associative, an empty
  summary of block 0 changes nothing, and a combined summary is empty exactly when
  both parts are.
\<close>

lemma sync_summary_combine:
  "combine_with (combine_with a b) c = combine_with a (combine_with b c)
   \<and> combine_with a (sync_summary_new_empty 0) = a
   \<and> sync_summary_is_empty (combine_with a b) =
       (sync_summary_is_empty a \<and> sync_summary_is_empty b)"
  by (auto simp: combine_with_def sync_summary_new_empty_def sync_summary_is_empty_def max.assoc)

end
