(* ===== verification/Sync_Ordering.thy ===== *)
theory Sync_Ordering
  imports Rpc_Domain "HOL-Library.Product_Lexorder" "HOL-Library.Multiset"
begin

text \<open>
  The two free functions at the end of \<^verbatim>\<open>sync/state_sync.rs\<close> that read the node's transaction
  records: the latest commitment of every account, and the nullifiers in execution order. A
  block lists the transactions of an account in no particular order; the execution order is
  rebuilt from the chain of account states. The theory shows that the chain that is rebuilt
  is the execution order whenever there is one.
\<close>

section \<open>Account commitments\<close>

abbreviation rt_account :: "rpc_transaction_record \<Rightarrow> account_id" where
  "rt_account r \<equiv> th_account_id (rt_transaction_header r)"

abbreviation rt_init :: "rpc_transaction_record \<Rightarrow> digest" where
  "rt_init r \<equiv> th_initial_state_commitment (rt_transaction_header r)"

abbreviation rt_final :: "rpc_transaction_record \<Rightarrow> digest" where
  "rt_final r \<equiv> th_final_state_commitment (rt_transaction_header r)"

abbreviation rt_nullifiers :: "rpc_transaction_record \<Rightarrow> nullifier list" where
  "rt_nullifiers r \<equiv> th_input_notes (rt_transaction_header r)"

definition latest_step ::
  "rpc_transaction_record \<Rightarrow> (account_id, rpc_transaction_record) btree_map \<Rightarrow>
   (account_id, rpc_transaction_record) btree_map" where
  "latest_step r =
     bt_upsert (rt_account r) (\<lambda>existing. if rt_block_num r > rt_block_num existing then r else existing) r"

definition derive_account_commitment_updates ::
  "rpc_transaction_record list \<Rightarrow> (account_id \<times> digest) list" where
  "derive_account_commitment_updates transaction_records =
     map (\<lambda>(account_id, r). (account_id, rt_final r)) (fold latest_step transaction_records [])"

section \<open>Ordered nullifiers\<close>

type_synonym tx_group = "(account_id \<times> block_number, rpc_transaction_record list) btree_map"

definition group_step :: "rpc_transaction_record \<Rightarrow> tx_group \<Rightarrow> tx_group" where
  "group_step r = bt_upsert (rt_account r, rt_block_num r) (\<lambda>txs. txs @ [r]) [r]"

text \<open>The \<open>while let\<close> loop: the current transaction and the map of those not visited yet.\<close>

function walk_chain ::
  "rpc_transaction_record option \<Rightarrow> (digest, rpc_transaction_record) btree_map \<Rightarrow> nullifier list" where
  "walk_chain None init_to_tx = []"
| "walk_chain (Some tx) init_to_tx =
     rt_nullifiers tx @ walk_chain (bt_get init_to_tx (rt_final tx)) (bt_remove (rt_final tx) init_to_tx)"
  by pat_completeness auto

lemma length_bt_remove_le: "length (bt_remove k m) \<le> length m"
  by (simp add: bt_remove_def)

lemma length_bt_remove_less: "bt_get m k = Some v \<Longrightarrow> length (bt_remove k m) < length m"
  using length_bt_remove_le [of k m]
  by (auto simp: bt_remove_def dest!: map_of_SomeD intro!: length_filter_less)

termination walk_chain
proof (relation "measure (\<lambda>(current, m). (case current of None \<Rightarrow> 0 | Some _ \<Rightarrow> 1) + length m)", goal_cases)
  case 1
  then show ?case by simp
next
  case (2 tx m)
  show ?case
    using length_bt_remove_le [of "rt_final tx" m] length_bt_remove_less [of m "rt_final tx"]
    by (auto split: option.split simp: less_Suc_eq_le)
qed

definition order_group :: "rpc_transaction_record list \<Rightarrow> nullifier list" where
  "order_group txs =
     (let init_to_tx = bt_from_iter (map (\<lambda>tx. (rt_init tx, tx)) txs);
          final_states = set (map rt_final txs)
      in case find (\<lambda>tx. rt_init tx \<notin> final_states) txs of
           None \<Rightarrow> []
         | Some start_tx \<Rightarrow>
             walk_chain (bt_get init_to_tx (rt_init start_tx)) (bt_remove (rt_init start_tx) init_to_tx))"

definition compute_ordered_nullifiers :: "rpc_transaction_record list \<Rightarrow> nullifier list" where
  "compute_ordered_nullifiers transaction_records =
     concat (map order_group (bt_values (fold group_step transaction_records [])))"

section \<open>Execution chains\<close>

text \<open>
  Transactions in execution order: each starts from the state the previous one ended in, and
  no state is visited twice.
\<close>

definition state_chain :: "rpc_transaction_record list \<Rightarrow> bool" where
  "state_chain c \<longleftrightarrow>
     successively (\<lambda>a b. rt_final a = rt_init b) c
     \<and> (c \<noteq> [] \<longrightarrow> distinct (rt_init (hd c) # map rt_final c))"

lemma state_chain_inits:
  "successively (\<lambda>a b. rt_final a = rt_init b) (t # c) \<Longrightarrow>
     map rt_init c = butlast (map rt_final (t # c))"
  by (induction c arbitrary: t) auto

lemma state_chain_tail:
  "state_chain (t # u # c) \<Longrightarrow> rt_final t = rt_init u \<and> state_chain (u # c)"
  by (auto simp: state_chain_def)

lemma state_chain_inits_distinct:
  assumes "state_chain (t # c)"
  shows "distinct (map rt_init (t # c))" and "rt_init t \<notin> rt_final ` set (t # c)"
    and "rt_init ` set c \<subseteq> rt_final ` set (t # c)"
proof -
  have d: "distinct (rt_init t # map rt_final (t # c))"
    and inits: "map rt_init c = butlast (map rt_final (t # c))"
    using assms state_chain_inits [of t c] by (auto simp: state_chain_def)
  show "rt_init t \<notin> rt_final ` set (t # c)" using d by auto
  have sub: "set (map rt_init c) \<subseteq> set (map rt_final (t # c))"
    unfolding inits by (auto dest: in_set_butlastD)
  then show "rt_init ` set c \<subseteq> rt_final ` set (t # c)" by simp
  show "distinct (map rt_init (t # c))"
    using d sub inits by (auto simp: distinct_butlast simp del: butlast.simps)
qed

lemma walk_chain_eq:
  assumes "state_chain (t # c)"
    and "\<And>s. bt_get m s = map_of (map (\<lambda>t. (rt_init t, t)) c) s"
  shows "walk_chain (Some t) m = concat (map rt_nullifiers (t # c))"
  using assms
proof (induction c arbitrary: t m)
  case Nil
  then show ?case by simp
next
  case (Cons u c)
  have chain: "state_chain (u # c)" and link: "rt_final t = rt_init u"
    using state_chain_tail [OF Cons.prems(1)] by auto
  have "map_of (map (\<lambda>t. (rt_init t, t)) c) (rt_init u) = None"
    using state_chain_inits_distinct(1) [OF chain] by (auto simp: map_of_eq_None_iff)
  then have "bt_get (bt_remove (rt_init u) m) s = map_of (map (\<lambda>t. (rt_init t, t)) c) s" for s
    using Cons.prems(2) [of s] by auto
  then have "walk_chain (Some u) (bt_remove (rt_init u) m) = concat (map rt_nullifiers (u # c))"
    by (rule Cons.IH [OF chain])
  then show ?case using Cons.prems(2) [of "rt_init u"] by (simp add: link)
qed

text \<open>A group that is, in some order, a chain is walked in the chain's order.\<close>

lemma map_of_inj_key:
  "distinct (map f xs) \<Longrightarrow> map_of (map (\<lambda>t. (f t, t)) xs) s = Some t \<longleftrightarrow> t \<in> set xs \<and> f t = s"
  by (subst map_of_eq_Some_iff) (auto simp: comp_def)

lemma map_of_inj_key_cong:
  assumes "distinct (map f xs)" and "mset xs = mset ys"
  shows "map_of (map (\<lambda>t. (f t, t)) xs) s = map_of (map (\<lambda>t. (f t, t)) ys) s"
    (is "?X = ?Y")
proof -
  have "mset (map f xs) = mset (map f ys)" using assms(2) by simp
  then have dist: "distinct (map f ys)" using assms(1) by (rule mset_eq_imp_distinct_iff [THEN iffD1])
  have sets: "set xs = set ys" using assms(2) by (rule mset_eq_setD)
  have iff: "?X = Some t \<longleftrightarrow> ?Y = Some t" for t
    unfolding map_of_inj_key [OF assms(1)] map_of_inj_key [OF dist] sets ..
  show ?thesis
  proof (cases ?X)
    case None
    with iff show ?thesis by (cases ?Y) auto
  next
    case (Some t)
    with iff [of t] show ?thesis by simp
  qed
qed

lemma order_group_chain:
  assumes "mset txs = mset c" and "state_chain c"
  shows "order_group txs = concat (map rt_nullifiers c)"
proof (cases c)
  case Nil
  then show ?thesis using assms by (simp add: order_group_def)
next
  case (Cons t c')
  note chain = state_chain_inits_distinct [OF assms(2) [unfolded Cons]]
  have sets: "set txs = set c" using assms(1) by (rule mset_eq_setD)
  let ?key = "\<lambda>t. (rt_init t, t)"
  let ?start = "\<lambda>tx. rt_init tx \<notin> set (map rt_final txs)"
  have inits: "rt_init u \<in> rt_final ` set c \<longleftrightarrow> u \<noteq> t" if "u \<in> set c" for u
    using that chain(2,3) by (auto simp: Cons)
  have start: "find ?start txs = Some t"
  proof (cases "find ?start txs")
    case None
    then show ?thesis using inits [of t] sets by (auto simp: find_None_iff Cons)
  next
    case (Some u)
    then have "u \<in> set txs" "?start u" by (auto simp: find_Some_iff)
    then show ?thesis using Some inits [of u] sets by auto
  qed
  have "mset (map rt_init txs) = mset (map rt_init c)" using assms(1) by simp
  then have dist: "distinct (map rt_init txs)"
    using chain(1) mset_eq_imp_distinct_iff [of "map rt_init txs" "map rt_init c"] by (simp add: Cons)
  have lookup: "bt_get (bt_from_iter (map ?key txs)) s = map_of (map ?key c) s" for s
  proof -
    have "bt_get (bt_from_iter (map ?key txs)) s = map_of (map ?key (rev txs)) s"
      by (simp add: bt_get_from_iter rev_map)
    also have "\<dots> = map_of (map ?key c) s"
      by (rule map_of_inj_key_cong) (use dist assms(1) in \<open>simp_all add: rev_map [symmetric]\<close>)
    finally show ?thesis .
  qed
  have none: "map_of (map ?key c') (rt_init t) = None"
    using chain(1) by (auto simp: map_of_eq_None_iff)
  have "walk_chain (Some t) (bt_remove (rt_init t) (bt_from_iter (map ?key txs))) =
      concat (map rt_nullifiers (t # c'))"
    by (rule walk_chain_eq [OF assms(2) [unfolded Cons]]) (auto simp: lookup Cons none)
  then show ?thesis using start by (simp add: order_group_def Let_def lookup Cons)
qed

section \<open>Grouping\<close>

definition rt_key :: "rpc_transaction_record \<Rightarrow> account_id \<times> block_number" where
  "rt_key r = (rt_account r, rt_block_num r)"

lemma group_step_get:
  "bt_get (group_step r m) k =
     (if k = rt_key r then Some (case bt_get m k of None \<Rightarrow> [r] | Some txs \<Rightarrow> txs @ [r])
      else bt_get m k)"
  by (simp add: group_step_def bt_get_upsert rt_key_def)

definition group_of ::
  "rpc_transaction_record list \<Rightarrow> account_id \<times> block_number \<Rightarrow> rpc_transaction_record list" where
  "group_of rs k = filter (\<lambda>r. rt_key r = k) rs"

lemma group_of_simps [simp]:
  "group_of [] k = []"
  "group_of (rs @ [r]) k = group_of rs k @ (if k = rt_key r then [r] else [])"
  by (auto simp: group_of_def)

lemma group_of_empty: "group_of rs k = [] \<longleftrightarrow> k \<notin> rt_key ` set rs"
  by (auto simp: group_of_def filter_empty_conv)

lemma group_lookup:
  "bt_get (fold group_step rs []) k = (if k \<in> rt_key ` set rs then Some (group_of rs k) else None)"
proof (induction rs rule: rev_induct)
  case Nil
  then show ?case by simp
next
  case (snoc r rs)
  then show ?case using group_of_empty [of rs k] by (auto simp: group_step_get)
qed

lemma group_wf: "bt_wf (fold group_step rs [])"
  unfolding group_step_def by (rule bt_wf_fold_upsert) simp

lemma group_values:
  "bt_values (fold group_step rs []) = map (group_of rs) (sorted_list_of_set (rt_key ` set rs))"
proof -
  let ?m = "fold group_step rs []"
  have dom: "{k. bt_get ?m k \<noteq> None} = rt_key ` set rs"
    by (auto simp: group_lookup)
  have "bt_values ?m = map (\<lambda>k. the (bt_get ?m k)) (sorted_list_of_set (rt_key ` set rs))"
    unfolding bt_values_lookup [OF group_wf] bt_keys_sorted_list [OF group_wf] dom ..
  also have "\<dots> = map (group_of rs) (sorted_list_of_set (rt_key ` set rs))"
    by (rule map_cong [OF refl]) (simp add: group_lookup)
  finally show ?thesis .
qed

section \<open>The latest record of an account\<close>

definition latest_record :: "rpc_transaction_record list \<Rightarrow> account_id \<Rightarrow> rpc_transaction_record \<Rightarrow> bool" where
  "latest_record rs a r \<longleftrightarrow>
     (\<exists>pre post. rs = pre @ r # post \<and> rt_account r = a
        \<and> (\<forall>q \<in> set pre. rt_account q = a \<longrightarrow> rt_block_num q < rt_block_num r)
        \<and> (\<forall>q \<in> set post. rt_account q = a \<longrightarrow> rt_block_num q \<le> rt_block_num r))"

lemma latest_recordI:
  "rt_account r = a \<Longrightarrow> \<forall>q \<in> set pre. rt_account q = a \<longrightarrow> rt_block_num q < rt_block_num r \<Longrightarrow>
     \<forall>q \<in> set post. rt_account q = a \<longrightarrow> rt_block_num q \<le> rt_block_num r \<Longrightarrow>
     latest_record (pre @ r # post) a r"
  unfolding latest_record_def by (intro exI conjI) (rule refl, assumption+)

lemma latest_record_snoc:
  assumes "latest_record rs a r"
  shows "latest_record (rs @ [q]) a
    (if rt_account q = a \<and> rt_block_num q > rt_block_num r then q else r)"
proof -
  obtain pre post where rs: "rs = pre @ r # post" and a: "rt_account r = a"
    and pre: "\<forall>q \<in> set pre. rt_account q = a \<longrightarrow> rt_block_num q < rt_block_num r"
    and post: "\<forall>q \<in> set post. rt_account q = a \<longrightarrow> rt_block_num q \<le> rt_block_num r"
    using assms unfolding latest_record_def by blast
  show ?thesis
  proof (cases "rt_account q = a \<and> rt_block_num q > rt_block_num r")
    case True
    have "latest_record (rs @ q # []) a q"
      by (rule latest_recordI) (use True pre post in \<open>auto simp: rs\<close>)
    with True show ?thesis by simp
  next
    case False
    have "latest_record (pre @ r # (post @ [q])) a r"
      by (rule latest_recordI) (use False a pre post in auto)
    with False show ?thesis by (auto simp: rs)
  qed
qed

lemma latest_step_get:
  "bt_get (latest_step r m) k =
     (if k = rt_account r
      then Some (case bt_get m k of None \<Rightarrow> r
                 | Some existing \<Rightarrow> if rt_block_num r > rt_block_num existing then r else existing)
      else bt_get m k)"
  by (simp add: latest_step_def bt_get_upsert)

lemma latest_lookup:
  "case bt_get (fold latest_step rs []) a of
     None \<Rightarrow> a \<notin> rt_account ` set rs
   | Some r \<Rightarrow> latest_record rs a r"
proof (induction rs rule: rev_induct)
  case Nil
  then show ?case by simp
next
  case (snoc q rs)
  show ?case
  proof (cases "bt_get (fold latest_step rs []) a")
    case None
    then have "\<forall>r \<in> set rs. rt_account r \<noteq> a" using snoc by auto
    then have "latest_record (rs @ q # []) a q" if "rt_account q = a"
      using that by (intro latest_recordI) auto
    with None show ?thesis
      using snoc by (auto simp: latest_step_get)
  next
    case (Some r)
    then show ?thesis
      using snoc latest_record_snoc [of rs a r q]
      by (auto simp: latest_step_get split: if_splits)
  qed
qed

lemma latest_wf: "bt_wf (fold latest_step rs [])"
  unfolding latest_step_def by (rule bt_wf_fold_upsert) simp

lemma latest_record_unique_aux:
  assumes "pre @ r # post = pre' @ r' # post'" and "length pre \<le> length pre'"
    and "rt_account r = a" "rt_account r' = a"
    and "\<forall>q \<in> set pre'. rt_account q = a \<longrightarrow> rt_block_num q < rt_block_num r'"
    and "\<forall>q \<in> set post. rt_account q = a \<longrightarrow> rt_block_num q \<le> rt_block_num r"
  shows "r = r'"
proof -
  from assms(1,2) obtain us where us: "pre' = pre @ us" "us @ r' # post' = r # post"
    by (auto simp: append_eq_append_conv2)
  show ?thesis
  proof (cases us)
    case Nil
    with us show ?thesis by simp
  next
    case (Cons u us')
    with us have "r \<in> set pre'" "r' \<in> set post" by auto
    with assms(3-6) have "rt_block_num r < rt_block_num r'" "rt_block_num r' \<le> rt_block_num r" by auto
    then show ?thesis by simp
  qed
qed

lemma latest_record_unique:
  assumes "latest_record rs a r" and "latest_record rs a r'"
  shows "r = r'"
proof -
  obtain pre post where 1: "rs = pre @ r # post" "rt_account r = a"
    "\<forall>q \<in> set pre. rt_account q = a \<longrightarrow> rt_block_num q < rt_block_num r"
    "\<forall>q \<in> set post. rt_account q = a \<longrightarrow> rt_block_num q \<le> rt_block_num r"
    using assms(1) unfolding latest_record_def by blast
  obtain pre' post' where 2: "rs = pre' @ r' # post'" "rt_account r' = a"
    "\<forall>q \<in> set pre'. rt_account q = a \<longrightarrow> rt_block_num q < rt_block_num r'"
    "\<forall>q \<in> set post'. rt_account q = a \<longrightarrow> rt_block_num q \<le> rt_block_num r'"
    using assms(2) unfolding latest_record_def by blast
  show ?thesis
  proof (cases "length pre \<le> length pre'")
    case True
    then show ?thesis using latest_record_unique_aux [of pre r post pre' r' post' a] 1 2 by simp
  next
    case False
    then show ?thesis using latest_record_unique_aux [of pre' r' post' pre r post a] 1 2 by simp
  qed
qed

lemma latest_lookup_iff: "bt_get (fold latest_step rs []) a = Some r \<longleftrightarrow> latest_record rs a r"
proof
  assume "latest_record rs a r"
  moreover from this have "a \<in> rt_account ` set rs" by (auto simp: latest_record_def)
  ultimately show "bt_get (fold latest_step rs []) a = Some r"
    using latest_lookup [of a rs] latest_record_unique by (auto split: option.splits)
qed (use latest_lookup [of a rs] in \<open>simp\<close>)

lemma latest_keys:
  "bt_keys (fold latest_step rs []) = sorted_list_of_set (rt_account ` set rs)"
proof -
  have dom: "bt_get (fold latest_step rs []) a \<noteq> None \<longleftrightarrow> a \<in> rt_account ` set rs" for a
  proof (cases "bt_get (fold latest_step rs []) a")
    case None
    then show ?thesis using latest_lookup [of a rs] by simp
  next
    case (Some r)
    then have "latest_record rs a r" using latest_lookup [of a rs] by simp
    then show ?thesis unfolding Some by (auto simp: latest_record_def)
  qed
  show ?thesis unfolding bt_keys_sorted_list [OF latest_wf] dom by simp
qed

text \<open>Three transactions of one account in block 12, as the node may list them.\<close>

definition sample_rpc_tx :: "nat \<Rightarrow> nat \<Rightarrow> nat \<Rightarrow> rpc_transaction_record" where
  "sample_rpc_tx i f n =
     \<lparr>rt_block_num = 12, rt_transaction_header =
        \<lparr>th_id = TransactionId (Digest n), th_account_id = AccountId 1,
         th_initial_state_commitment = Digest i, th_final_state_commitment = Digest f,
         th_input_notes = [Nullifier (Digest n)]\<rparr>\<rparr>"

definition sample_rpc_txs :: "rpc_transaction_record list" where
  "sample_rpc_txs = [sample_rpc_tx 22 23 7, sample_rpc_tx 20 21 5, sample_rpc_tx 21 22 6]"

definition sample_rpc_chain :: "rpc_transaction_record list" where
  "sample_rpc_chain = [sample_rpc_tx 20 21 5, sample_rpc_tx 21 22 6, sample_rpc_tx 22 23 7]"

section \<open>Properties\<close>

text \<open>
  C5. Nullifiers come in execution order: whenever the transactions of every account in every
  block can be arranged in a chain of account states, \<open>compute_ordered_nullifiers\<close> returns, for
  the accounts in order and for each account block by block, the nullifiers along that chain,
  whatever the order of the records in the node's answer.
\<close>

theorem ordered_nullifiers_execution_order:
  assumes "\<forall>k \<in> rt_key ` set rs. mset (group_of rs k) = mset (chain k) \<and> state_chain (chain k)"
  shows "compute_ordered_nullifiers rs =
    concat (map (\<lambda>k. concat (map rt_nullifiers (chain k))) (sorted_list_of_set (rt_key ` set rs)))"
proof -
  have "map order_group (map (group_of rs) (sorted_list_of_set (rt_key ` set rs))) =
      map (\<lambda>k. concat (map rt_nullifiers (chain k))) (sorted_list_of_set (rt_key ` set rs))"
    using assms by (auto intro: order_group_chain)
  then show ?thesis by (simp only: compute_ordered_nullifiers_def group_values)
qed

theorem ordered_nullifiers_execution_order_witness:
  "compute_ordered_nullifiers sample_rpc_txs =
     [Nullifier (Digest 5), Nullifier (Digest 6), Nullifier (Digest 7)]"
proof -
  have keys: "rt_key ` set sample_rpc_txs = {(AccountId 1, 12)}"
    by (simp add: sample_rpc_txs_def sample_rpc_tx_def rt_key_def)
  have chain: "\<forall>k \<in> rt_key ` set sample_rpc_txs.
      mset (group_of sample_rpc_txs k) = mset sample_rpc_chain \<and> state_chain sample_rpc_chain"
    by (simp add: keys)
      (simp add: group_of_def sample_rpc_txs_def sample_rpc_chain_def sample_rpc_tx_def rt_key_def
        state_chain_def)
  show ?thesis
    using ordered_nullifiers_execution_order [OF chain]
    by (simp add: keys) (simp add: sample_rpc_chain_def sample_rpc_tx_def)
qed

text \<open>
  Account commitments: the updates list every account of the records exactly once and in
  order, each with the final state of the first record in its highest block.
\<close>

lemma account_commitment_updates_latest:
  "map fst (derive_account_commitment_updates rs) = sorted_list_of_set (rt_account ` set rs)
   \<and> ((a, s) \<in> set (derive_account_commitment_updates rs) \<longleftrightarrow>
        (\<exists>r. latest_record rs a r \<and> rt_final r = s))"
proof
  show "map fst (derive_account_commitment_updates rs) = sorted_list_of_set (rt_account ` set rs)"
    by (simp add: derive_account_commitment_updates_def latest_keys [symmetric] case_prod_beta comp_def)
  have "(a, s) \<in> set (derive_account_commitment_updates rs) \<longleftrightarrow>
      (\<exists>r. (a, r) \<in> set (fold latest_step rs []) \<and> rt_final r = s)"
    by (force simp: derive_account_commitment_updates_def)
  then show "(a, s) \<in> set (derive_account_commitment_updates rs) \<longleftrightarrow>
      (\<exists>r. latest_record rs a r \<and> rt_final r = s)"
    by (simp add: bt_get_iff_mem [OF latest_wf, symmetric] latest_lookup_iff)
qed



end
