(* ===== verification/State_Sync.thy ===== *)
theory State_Sync
  imports Sync_Update Sync_Ordering
begin

text \<open>
  The state sync component (\<^verbatim>\<open>sync/state_sync.rs\<close>) and the default note callback
  (\<open>NoteScreener\<close>, \<^verbatim>\<open>note/note_screener.rs\<close>). The node, the partial MMR of the protocol crates
  and the note consumption checker are arguments; the callback is an interface with its
  contract as a locale, interpreted on the screener.
\<close>

section \<open>The collaborators\<close>

record mmr_delta =
  delta_forest :: nat
  delta_data :: "digest list"

text \<open>The operations of the protocol's \<open>PartialMmr\<close> that the sync uses.\<close>

record 'm mmr_ops =
  mmr_num_leaves :: "'m \<Rightarrow> nat"
  mmr_apply :: "'m \<Rightarrow> mmr_delta \<Rightarrow> string + auth_nodes \<times> 'm"
  mmr_peaks_of :: "'m \<Rightarrow> mmr_peaks"
  mmr_add :: "'m \<Rightarrow> digest \<Rightarrow> bool \<Rightarrow> auth_nodes \<times> 'm"
  mmr_is_tracked :: "'m \<Rightarrow> nat \<Rightarrow> bool"
  mmr_track :: "'m \<Rightarrow> nat \<Rightarrow> digest \<Rightarrow> digest list \<Rightarrow> string + 'm"
  mmr_nodes :: "'m \<Rightarrow> auth_nodes"

text \<open>The methods of \<open>NodeRpcClient\<close> that the sync calls.\<close>

record node_api =
  get_chain_tip_header :: "rpc_error + block_header"
  sync_chain_mmr :: "block_number \<Rightarrow> block_number \<Rightarrow> rpc_error + mmr_delta"
  sync_notes_with_details ::
    "block_number \<Rightarrow> block_number \<Rightarrow> note_tag list \<Rightarrow> rpc_error + sync_notes_result"
  sync_transactions ::
    "block_number \<Rightarrow> block_number \<Rightarrow> account_id list \<Rightarrow> rpc_error + rpc_transaction_record list"
  sync_nullifiers ::
    "u16 list \<Rightarrow> block_number \<Rightarrow> block_number \<Rightarrow> rpc_error + nullifier_update list"
  fetch_public_accounts :: "account_header list \<Rightarrow> rpc_error + public_account list"

datatype note_update_action =
    CommitNote committed_note
  | InsertNote input_note_record
  | DiscardNote

type_synonym note_callback =
  "committed_note \<Rightarrow> input_note_record option \<Rightarrow> client_error + note_update_action"

record state_sync =
  ss_rpc_api :: node_api
  ss_note_screener :: note_callback
  ss_tx_discard_delta :: "u32 option"
  ss_sync_nullifiers :: bool

definition state_sync_new :: "node_api \<Rightarrow> note_callback \<Rightarrow> u32 option \<Rightarrow> state_sync" where
  "state_sync_new api cb delta =
     \<lparr>ss_rpc_api = api, ss_note_screener = cb, ss_tx_discard_delta = delta, ss_sync_nullifiers = True\<rparr>"

definition disable_nullifier_sync :: "state_sync \<Rightarrow> state_sync" where
  "disable_nullifier_sync S = S\<lparr>ss_sync_nullifiers := False\<rparr>"

definition enable_nullifier_sync :: "state_sync \<Rightarrow> state_sync" where
  "enable_nullifier_sync S = S\<lparr>ss_sync_nullifiers := True\<rparr>"

record state_sync_input =
  si_accounts :: "account_header list"
  si_note_tags :: "note_tag list"
  si_input_notes :: "input_note_record list"
  si_output_notes :: "output_note_record list"
  si_uncommitted_transactions :: "transaction_record list"

record raw_state_sync_data =
  rd_chain_tip :: block_number
  rd_mmr_delta :: mmr_delta
  rd_chain_tip_header :: block_header
  rd_note_blocks :: "note_sync_block list"
  rd_public_notes :: "(note_id, full_note) btree_map"
  rd_account_commitment_updates :: "(account_id \<times> digest) list"
  rd_transactions :: "transaction_inclusion list"
  rd_nullifiers :: "nullifier list"

section \<open>Fetching\<close>

definition fetch_transaction_data ::
  "state_sync \<Rightarrow> block_number \<Rightarrow> block_number \<Rightarrow> account_id list \<Rightarrow>
   client_error + (account_id \<times> digest) list \<times> transaction_inclusion list \<times> nullifier list" where
  "fetch_transaction_data S block_from block_to account_ids =
     (if account_ids = [] then Inr ([], [], [])
      else and_then (map_err RpcError
             (sync_transactions (ss_rpc_api S) block_from block_to account_ids)) (\<lambda>records.
           Inr (derive_account_commitment_updates records,
                map (\<lambda>r. \<lparr>ti_transaction_id = th_id (rt_transaction_header r),
                          ti_block_num = rt_block_num r,
                          ti_account_id = rt_account r,
                          ti_initial_state_commitment = rt_init r\<rparr>) records,
                compute_ordered_nullifiers records)))"

definition fetch_sync_data ::
  "state_sync \<Rightarrow> block_number \<Rightarrow> account_id list \<Rightarrow> note_tag list \<Rightarrow>
   client_error + raw_state_sync_data" where
  "fetch_sync_data S current_block_num account_ids note_tags =
     and_then (map_err RpcError (get_chain_tip_header (ss_rpc_api S))) (\<lambda>chain_tip_header.
     let chain_tip = bh_block_num chain_tip_header
     in if chain_tip = current_block_num
        then Inr \<lparr>rd_chain_tip = chain_tip,
                  rd_mmr_delta = \<lparr>delta_forest = unat current_block_num, delta_data = []\<rparr>,
                  rd_chain_tip_header = chain_tip_header, rd_note_blocks = [], rd_public_notes = [],
                  rd_account_commitment_updates = [], rd_transactions = [], rd_nullifiers = []\<rparr>
        else
          and_then (map_err RpcError
            (sync_chain_mmr (ss_rpc_api S) current_block_num chain_tip)) (\<lambda>mmr_delta.
          and_then (map_err RpcError
            (sync_notes_with_details (ss_rpc_api S) current_block_num chain_tip note_tags)) (\<lambda>notes.
          and_then (fetch_transaction_data S current_block_num chain_tip account_ids)
            (\<lambda>(account_commitment_updates, transactions, nullifiers).
          Inr \<lparr>rd_chain_tip = chain_tip, rd_mmr_delta = mmr_delta,
               rd_chain_tip_header = chain_tip_header, rd_note_blocks = snr_blocks notes,
               rd_public_notes = snr_public_notes notes,
               rd_account_commitment_updates = account_commitment_updates,
               rd_transactions = transactions, rd_nullifiers = nullifiers\<rparr>))))"

section \<open>Applying the answers\<close>

definition transaction_state_sync ::
  "state_sync \<Rightarrow> tx_tracker \<Rightarrow> block_header \<Rightarrow> transaction_inclusion list \<Rightarrow> tx_tracker" where
  "transaction_state_sync S T new_block_header transaction_inclusions =
     apply_sync_height_update
       (fold (\<lambda>inc T. apply_transaction_inclusion T inc (ucast (bh_timestamp new_block_header)))
         transaction_inclusions T)
       (bh_block_num new_block_header) (ss_tx_discard_delta S)"

definition note_state_sync_step ::
  "protocol \<Rightarrow> state_sync \<Rightarrow> block_header \<Rightarrow> (note_id, input_note_record) btree_map \<Rightarrow>
   bool \<times> note_update_tracker \<Rightarrow> committed_note \<Rightarrow> client_error + bool \<times> note_update_tracker" where
  "note_state_sync_step P S hdr public_notes = (\<lambda>(found_relevant_note, N) committed_note.
     let public_note = (if cn_note_type committed_note \<noteq> PrivateNote
                        then bt_get public_notes (cn_note_id committed_note) else None)
     in and_then (ss_note_screener S committed_note public_note) (\<lambda>action.
        case action of
          CommitNote committed_note \<Rightarrow>
            and_then (apply_committed_note_state_transitions P N committed_note hdr)
              (\<lambda>(tracked, N'). Inr (found_relevant_note \<or> tracked, N'))
        | InsertNote public_note \<Rightarrow>
            and_then (apply_new_public_note P N public_note hdr) (\<lambda>N'. Inr (True, N'))
        | DiscardNote \<Rightarrow> Inr (found_relevant_note, N)))"

definition note_state_sync ::
  "protocol \<Rightarrow> state_sync \<Rightarrow> note_update_tracker \<Rightarrow> (note_id, committed_note) btree_map \<Rightarrow>
   block_header \<Rightarrow> (note_id, input_note_record) btree_map \<Rightarrow>
   client_error + bool \<times> note_update_tracker" where
  "note_state_sync P S N note_inclusions hdr public_notes =
     try_fold (note_state_sync_step P S hdr public_notes) (False, N) (bt_values note_inclusions)"

definition get_updated_public_accounts ::
  "state_sync \<Rightarrow> (account_id \<times> digest) list \<Rightarrow> account_header list \<Rightarrow>
   client_error + public_account list" where
  "get_updated_public_accounts S account_updates current_public_accounts =
     map_err RpcError (fetch_public_accounts (ss_rpc_api S)
       (List.map_filter
         (\<lambda>(i, commitment). find (\<lambda>acc. i = ah_id acc \<and> commitment \<noteq> ah_commitment acc)
            current_public_accounts)
         account_updates))"

definition account_state_sync ::
  "protocol \<Rightarrow> state_sync \<Rightarrow> account_updates \<Rightarrow> account_header list \<Rightarrow>
   (account_id \<times> digest) list \<Rightarrow> client_error + account_updates" where
  "account_state_sync P S A accounts account_commitment_updates =
     (let public_accounts = filter (\<lambda>a. \<not> id_is_private P (ah_id a)) accounts;
          private_accounts = filter (\<lambda>a. id_is_private P (ah_id a)) accounts
      in and_then (get_updated_public_accounts S account_commitment_updates public_accounts)
           (\<lambda>updated_public_accounts.
         Inr (account_updates_extend A
           \<lparr>au_updated_public_accounts = updated_public_accounts,
            au_mismatched_private_accounts =
              filter (\<lambda>(i, d). \<exists>a \<in> set private_accounts. ah_id a = i \<and> ah_commitment a \<noteq> d)
                account_commitment_updates\<rparr>)))"

definition nullifier_sync_step ::
  "protocol \<Rightarrow> state_sync_update \<Rightarrow> nullifier_update \<Rightarrow> client_error + state_sync_update" where
  "nullifier_sync_step P U upd =
     and_then (apply_nullifiers_state_transitions P (ssu_note_updates U) upd
         (committed_transactions (ssu_transaction_updates U))) (\<lambda>N.
     Inr (U\<lparr>ssu_note_updates := N,
           ssu_transaction_updates :=
             apply_input_note_nullified (ssu_transaction_updates U) (nu_nullifier upd)\<rparr>))"

definition nullifiers_state_sync ::
  "protocol \<Rightarrow> state_sync \<Rightarrow> state_sync_update \<Rightarrow> block_number \<Rightarrow> client_error + state_sync_update" where
  "nullifiers_state_sync P S U current_block_num =
     (let nullifiers_tags = map (nullifier_prefix P) (unspent_nullifiers P (ssu_note_updates U))
      in and_then (map_err RpcError
             (sync_nullifiers (ss_rpc_api S) nullifiers_tags current_block_num (ssu_block_num U)))
           (\<lambda>new_nullifiers.
              try_fold (nullifier_sync_step P) U
                (filter (\<lambda>upd. nu_block_num upd \<le> ssu_block_num U) new_nullifiers)))"

text \<open>Tracking a relevant block in the partial MMR: the authentication nodes it adds.\<close>

definition track_block ::
  "protocol \<Rightarrow> 'm mmr_ops \<Rightarrow> 'm \<Rightarrow> note_sync_block \<Rightarrow> client_error + auth_nodes \<times> 'm" where
  "track_block P M mmr block =
     (let block_pos = unat (bh_block_num (nsb_block_header block))
      in if mmr_is_tracked M mmr block_pos then Inr ([], mmr)
         else and_then (map_err (\<lambda>e. StoreError (MmrError e))
                (mmr_track M mmr block_pos (header_commitment P (nsb_block_header block))
                  (nsb_mmr_path block))) (\<lambda>mmr'.
              Inr (filter (\<lambda>(k, _). k \<notin> fst ` set (mmr_nodes M mmr)) (mmr_nodes M mmr'), mmr')))"

definition note_block_step ::
  "protocol \<Rightarrow> 'm mmr_ops \<Rightarrow> state_sync \<Rightarrow> (note_id, input_note_record) btree_map \<Rightarrow>
   state_sync_update \<times> 'm \<Rightarrow> note_sync_block \<Rightarrow> client_error + state_sync_update \<times> 'm" where
  "note_block_step P M S public_note_records = (\<lambda>(U, mmr) block.
     and_then (note_state_sync P S (ssu_note_updates U) (nsb_notes block) (nsb_block_header block)
         public_note_records) (\<lambda>(found_relevant_note, N).
     let U' = U\<lparr>ssu_note_updates := N\<rparr>
     in if found_relevant_note
        then and_then (track_block P M mmr block) (\<lambda>(track_auth_nodes, mmr').
             Inr (U'\<lparr>ssu_block_updates :=
                    block_updates_insert (nsb_block_header block) True (mmr_peaks_of M mmr')
                      track_auth_nodes (ssu_block_updates U')\<rparr>, mmr'))
        else Inr (U', mmr)))"

definition apply_sync_result ::
  "protocol \<Rightarrow> 'm mmr_ops \<Rightarrow> state_sync \<Rightarrow> raw_state_sync_data \<Rightarrow>
   (note_id, input_note_record) btree_map \<Rightarrow> state_sync_update \<Rightarrow> 'm \<Rightarrow>
   client_error + state_sync_update \<times> 'm" where
  "apply_sync_result P M S data public_note_records U current_partial_mmr =
     and_then (map_err (\<lambda>e. StoreError (MmrError e))
         (mmr_apply M current_partial_mmr (rd_mmr_delta data))) (\<lambda>(nodes, mmr1).
     let new_peaks = mmr_peaks_of M mmr1;
         (tip_nodes, mmr2) = mmr_add M mmr1 (header_commitment P (rd_chain_tip_header data)) False;
         U1 = U\<lparr>ssu_block_updates :=
                 block_updates_insert (rd_chain_tip_header data) False new_peaks (nodes @ tip_nodes)
                   (ssu_block_updates U)\<rparr>
     in and_then (try_fold (note_block_step P M S public_note_records) (U1, mmr2) (rd_note_blocks data))
          (\<lambda>(U2, mmr3).
        and_then (extend_nullifiers (ssu_note_updates U2) (rd_nullifiers data)) (\<lambda>N.
        Inr (U2\<lparr>ssu_note_updates := N,
               ssu_transaction_updates :=
                 transaction_state_sync S (ssu_transaction_updates U2) (rd_chain_tip_header data)
                   (rd_transactions data)\<rparr>, mmr3))))"

text \<open>Records of the public notes that came with the note blocks.\<close>

definition public_note_record ::
  "note_sync_block list \<Rightarrow> note_id \<times> full_note \<Rightarrow> input_note_record option" where
  "public_note_record blocks = (\<lambda>(note_id, n).
     case List.map_filter (\<lambda>b. bt_get (nsb_notes b) note_id) blocks of
       [] \<Rightarrow> None
     | committed # _ \<Rightarrow>
         Some (input_note_record_new (note_into_details n) None
           (Unverified \<lparr>uv_metadata = nt_metadata n, uv_inclusion_proof = cn_inclusion_proof committed\<rparr>)))"

definition build_public_note_records ::
  "protocol \<Rightarrow> raw_state_sync_data \<Rightarrow> (note_id, input_note_record) btree_map" where
  "build_public_note_records P data =
     bt_from_iter (map (\<lambda>r. (inr_id P r, r))
       (List.map_filter (public_note_record (rd_note_blocks data)) (rd_public_notes data)))"

definition initial_update ::
  "protocol \<Rightarrow> block_number \<Rightarrow> state_sync_input \<Rightarrow> state_sync_update" where
  "initial_update P block_num input =
     \<lparr>ssu_block_num = block_num, ssu_block_updates = block_updates_default,
      ssu_note_updates = note_tracker_new P (si_input_notes input) (si_output_notes input),
      ssu_transaction_updates = tx_tracker_new (si_uncommitted_transactions input),
      ssu_account_updates = account_updates_default\<rparr>"

definition sync_state ::
  "protocol \<Rightarrow> 'm mmr_ops \<Rightarrow> state_sync \<Rightarrow> 'm \<Rightarrow> state_sync_input \<Rightarrow>
   client_error + state_sync_update \<times> 'm" where
  "sync_state P M S current_partial_mmr input =
     (let leaves = mmr_num_leaves M current_partial_mmr - 1
      in if leaves \<ge> 2 ^ 32 then Inl InvalidPartialMmrForest
         else
           let block_num = of_nat leaves;
               U0 = initial_update P block_num input
           in and_then (fetch_sync_data S block_num (map ah_id (si_accounts input)) (si_note_tags input))
                (\<lambda>data.
              if rd_chain_tip data = block_num then Inr (U0, current_partial_mmr)
              else
                let U1 = U0\<lparr>ssu_block_num := rd_chain_tip data\<rparr>
                in and_then (account_state_sync P S (ssu_account_updates U1) (si_accounts input)
                     (rd_account_commitment_updates data)) (\<lambda>A.
                   and_then (apply_sync_result P M S data (build_public_note_records P data)
                     (U1\<lparr>ssu_account_updates := A\<rparr>) current_partial_mmr) (\<lambda>(U2, mmr).
                   if ss_sync_nullifiers S
                   then and_then (nullifiers_state_sync P S U2 block_num) (\<lambda>U3. Inr (U3, mmr))
                   else Inr (U2, mmr)))))"

section \<open>A sync is a run of the two trackers\<close>

lemma try_fold_map_run:
  assumes "try_fold g s xs = Inr s'"
    and "\<And>s x t. x \<in> set xs \<Longrightarrow> g s x = Inr t \<Longrightarrow> \<exists>evs. try_fold step (proj s) evs = Inr (proj t)"
  shows "\<exists>evs. try_fold step (proj s) evs = Inr (proj s')"
  using assms
proof (induction xs arbitrary: s)
  case Nil
  then show ?case by (intro exI [of _ "[]"]) simp
next
  case (Cons x xs)
  then obtain t where t: "g s x = Inr t" "try_fold g t xs = Inr s'"
    by (auto simp: and_then_Inr_conv)
  obtain evs where "try_fold step (proj s) evs = Inr (proj t)" using Cons.prems(2) [OF _ t(1)] by auto
  moreover have "\<exists>evs. try_fold step (proj t) evs = Inr (proj s')"
    by (rule Cons.IH [OF t(2)]) (rule Cons.prems(2), auto)
  then obtain evs' where "try_fold step (proj t) evs' = Inr (proj s')" ..
  ultimately have "try_fold step (proj s) (evs @ evs') = Inr (proj s')"
    by (simp add: try_fold_append)
  then show ?case ..
qed

abbreviation note_run :: "protocol \<Rightarrow> note_update_tracker \<Rightarrow> note_update_tracker \<Rightarrow> bool" where
  "note_run P N N' \<equiv> \<exists>evs. try_fold (note_tracker_step P) N evs = Inr N'"

lemma note_run_refl: "note_run P N N"
  by (rule exI [of _ "[]"]) simp

lemma note_run_step: "note_tracker_step P N ev = Inr N' \<Longrightarrow> note_run P N N'"
  by (rule exI [of _ "[ev]"]) simp

lemma note_run_trans: "note_run P A B \<Longrightarrow> note_run P B C \<Longrightarrow> note_run P A C"
proof -
  assume "note_run P A B" "note_run P B C"
  then obtain evs evs' where "try_fold (note_tracker_step P) A evs = Inr B"
    "try_fold (note_tracker_step P) B evs' = Inr C" by blast
  then have "try_fold (note_tracker_step P) A (evs @ evs') = Inr C" by (simp add: try_fold_append)
  then show "note_run P A C" ..
qed

definition offered_public_note ::
  "(note_id, input_note_record) btree_map \<Rightarrow> committed_note \<Rightarrow> input_note_record option" where
  "offered_public_note pubs cn =
     (if cn_note_type cn \<noteq> PrivateNote then bt_get pubs (cn_note_id cn) else None)"

lemma note_state_sync_step_cases:
  assumes "note_state_sync_step P S hdr pubs (b, N) cn = Inr (b', N')"
  obtains (commit) cn' tracked where
      "ss_note_screener S cn (offered_public_note pubs cn) = Inr (CommitNote cn')"
      "apply_committed_note_state_transitions P N cn' hdr = Inr (tracked, N')" "b' \<longleftrightarrow> b \<or> tracked"
  | (new) r where
      "ss_note_screener S cn (offered_public_note pubs cn) = Inr (InsertNote r)"
      "apply_new_public_note P N r hdr = Inr N'" "b'"
  | (discard) "ss_note_screener S cn (offered_public_note pubs cn) = Inr DiscardNote"
      "N' = N" "b' = b"
proof -
  obtain action where act: "ss_note_screener S cn (offered_public_note pubs cn) = Inr action"
    using assms
    by (cases "ss_note_screener S cn (offered_public_note pubs cn)")
      (simp_all add: note_state_sync_step_def Let_def offered_public_note_def)
  then show thesis
    using assms that
    by (cases action)
      (auto simp: note_state_sync_step_def Let_def offered_public_note_def [symmetric] and_then_Inr_conv)
qed

lemma note_state_sync_step_run:
  assumes "note_state_sync_step P S hdr pubs (b, N) cn = Inr (b', N')"
  shows "note_run P N N'"
  using assms
proof (cases rule: note_state_sync_step_cases)
  case (commit cn' tracked)
  then show ?thesis by (intro note_run_step [of P N "NoteCommitted cn' hdr"]) simp
next
  case (new r)
  then show ?thesis by (intro note_run_step [of P N "NewPublicNote r hdr"]) simp
next
  case discard
  then show ?thesis by (simp only: note_run_refl)
qed

lemma note_state_sync_run:
  assumes "note_state_sync P S N incl hdr pubs = Inr (b, N')"
  shows "note_run P N N'"
  using try_fold_map_run [OF assms [unfolded note_state_sync_def],
      where proj = snd and step = "note_tracker_step P"] note_state_sync_step_run
  by fastforce

lemma note_block_step_run:
  assumes "note_block_step P M S pubs (U, mmr) block = Inr (U', mmr')"
  shows "note_run P (ssu_note_updates U) (ssu_note_updates U')"
  using assms
  by (auto simp: note_block_step_def Let_def and_then_Inr_conv split: if_splits dest!: note_state_sync_run)

lemma note_block_step_others:
  assumes "note_block_step P M S pubs (U, mmr) block = Inr (U', mmr')"
  shows "ssu_transaction_updates U' = ssu_transaction_updates U \<and> ssu_block_num U' = ssu_block_num U
    \<and> ssu_account_updates U' = ssu_account_updates U"
  using assms by (auto simp: note_block_step_def Let_def and_then_Inr_conv split: if_splits)

lemma note_blocks_run:
  assumes "try_fold (note_block_step P M S pubs) (U, mmr) blocks = Inr (U', mmr')"
  shows "note_run P (ssu_note_updates U) (ssu_note_updates U')"
  using try_fold_map_run [OF assms, where proj = "\<lambda>(U, mmr). ssu_note_updates U"
      and step = "note_tracker_step P"] note_block_step_run
  by fastforce

lemma note_blocks_others:
  assumes "try_fold (note_block_step P M S pubs) (U, mmr) blocks = Inr (U', mmr')"
  shows "ssu_transaction_updates U' = ssu_transaction_updates U \<and> ssu_block_num U' = ssu_block_num U
    \<and> ssu_account_updates U' = ssu_account_updates U"
  using try_fold_invariant [OF assms, where I = "\<lambda>(V, m).
      ssu_transaction_updates V = ssu_transaction_updates U \<and> ssu_block_num V = ssu_block_num U
      \<and> ssu_account_updates V = ssu_account_updates U"] note_block_step_others
  by fastforce

lemma apply_sync_result_cases:
  assumes "apply_sync_result P M S data pubs U mmr = Inr (U', mmr')"
  obtains nodes peaks mmr2 U2 N where
    "try_fold (note_block_step P M S pubs)
       (U\<lparr>ssu_block_updates :=
          block_updates_insert (rd_chain_tip_header data) False peaks nodes (ssu_block_updates U)\<rparr>, mmr2)
       (rd_note_blocks data) = Inr (U2, mmr')"
    "extend_nullifiers (ssu_note_updates U2) (rd_nullifiers data) = Inr N"
    "U' = U2\<lparr>ssu_note_updates := N,
       ssu_transaction_updates :=
         transaction_state_sync S (ssu_transaction_updates U2) (rd_chain_tip_header data)
           (rd_transactions data)\<rparr>"
proof -
  obtain nodes mmr1 where apply_eq: "mmr_apply M mmr (rd_mmr_delta data) = Inr (nodes, mmr1)"
    using assms by (auto simp: apply_sync_result_def and_then_Inr_conv)
  obtain tip_nodes mmr2 where
    "mmr_add M mmr1 (header_commitment P (rd_chain_tip_header data)) False = (tip_nodes, mmr2)"
    by fastforce
  with apply_eq show thesis
    using assms by (auto simp: apply_sync_result_def and_then_Inr_conv intro!: that)
qed

lemma apply_sync_result_effects:
  assumes "apply_sync_result P M S data pubs U mmr = Inr (U', mmr')"
  shows "note_run P (ssu_note_updates U) (ssu_note_updates U')"
    and "ssu_transaction_updates U' =
      transaction_state_sync S (ssu_transaction_updates U) (rd_chain_tip_header data) (rd_transactions data)"
    and "ssu_block_num U' = ssu_block_num U" and "ssu_account_updates U' = ssu_account_updates U"
proof -
  obtain nodes peaks mmr2 U2 N where 1:
    "try_fold (note_block_step P M S pubs)
       (U\<lparr>ssu_block_updates :=
          block_updates_insert (rd_chain_tip_header data) False peaks nodes (ssu_block_updates U)\<rparr>, mmr2)
       (rd_note_blocks data) = Inr (U2, mmr')"
    "extend_nullifiers (ssu_note_updates U2) (rd_nullifiers data) = Inr N"
    "U' = U2\<lparr>ssu_note_updates := N,
       ssu_transaction_updates :=
         transaction_state_sync S (ssu_transaction_updates U2) (rd_chain_tip_header data)
           (rd_transactions data)\<rparr>"
    by (rule apply_sync_result_cases [OF assms])
  have "note_run P (ssu_note_updates U) (ssu_note_updates U2)"
    using note_blocks_run [OF 1(1)] by simp
  moreover have "note_run P (ssu_note_updates U2) N"
    using note_run_step [of P "ssu_note_updates U2" "NullifiersOrdered (rd_nullifiers data)" N] 1(2) by simp
  ultimately have "note_run P (ssu_note_updates U) N" by (rule note_run_trans)
  then show "note_run P (ssu_note_updates U) (ssu_note_updates U')" by (simp add: 1(3))
  show "ssu_transaction_updates U' =
      transaction_state_sync S (ssu_transaction_updates U) (rd_chain_tip_header data) (rd_transactions data)"
    and "ssu_block_num U' = ssu_block_num U" and "ssu_account_updates U' = ssu_account_updates U"
    using note_blocks_others [OF 1(1)] by (simp_all add: 1(3))
qed

lemma nullifier_sync_step_effects:
  assumes "nullifier_sync_step P U upd = Inr U'"
  shows "note_run P (ssu_note_updates U) (ssu_note_updates U')"
    and "ssu_transaction_updates U' =
      apply_input_note_nullified (ssu_transaction_updates U) (nu_nullifier upd)"
    and "ssu_block_num U' = ssu_block_num U" and "ssu_block_updates U' = ssu_block_updates U"
    and "ssu_account_updates U' = ssu_account_updates U"
proof -
  obtain N where N: "apply_nullifiers_state_transitions P (ssu_note_updates U) upd
      (committed_transactions (ssu_transaction_updates U)) = Inr N"
    and U': "U' = U\<lparr>ssu_note_updates := N, ssu_transaction_updates :=
      apply_input_note_nullified (ssu_transaction_updates U) (nu_nullifier upd)\<rparr>"
    using assms by (auto simp: nullifier_sync_step_def and_then_Inr_conv)
  show "note_run P (ssu_note_updates U) (ssu_note_updates U')"
    using note_run_step [of P "ssu_note_updates U"
        "NoteNullified upd (committed_transactions (ssu_transaction_updates U))" N] N
    by (simp add: U')
qed (use assms in \<open>auto simp: nullifier_sync_step_def and_then_Inr_conv\<close>)

abbreviation tx_run :: "tx_tracker \<Rightarrow> tx_tracker \<Rightarrow> bool" where
  "tx_run T T' \<equiv> \<exists>evs. T' = fold tracker_step evs T"

lemma tx_run_trans: "tx_run A B \<Longrightarrow> tx_run B C \<Longrightarrow> tx_run A C"
  by (metis fold_append comp_apply)

lemma nullifiers_fold_effects:
  assumes "try_fold (nullifier_sync_step P) U upds = Inr U'"
  shows "note_run P (ssu_note_updates U) (ssu_note_updates U')"
    and "ssu_transaction_updates U' =
      fold tracker_step (map (\<lambda>upd. InputNoteNullified (nu_nullifier upd)) upds) (ssu_transaction_updates U)"
    and "ssu_block_num U' = ssu_block_num U" and "ssu_block_updates U' = ssu_block_updates U"
  using assms
proof (induction upds arbitrary: U)
  case Nil
  {
    case 1
    then show ?case by (simp add: note_run_refl)
  next
    case 2
    then show ?case by simp
  next
    case 3
    then show ?case by simp
  next
    case 4
    then show ?case by simp
  }
next
  case (Cons upd upds)
  {
    case 1
    then obtain V where V: "nullifier_sync_step P U upd = Inr V"
      "try_fold (nullifier_sync_step P) V upds = Inr U'" by (auto simp: and_then_Inr_conv)
    show ?case by (rule note_run_trans [OF nullifier_sync_step_effects(1) [OF V(1)] Cons.IH(1) [OF V(2)]])
  next
    case 2
    then show ?case using Cons.IH(2) by (auto simp: and_then_Inr_conv nullifier_sync_step_effects)
  next
    case 3
    then show ?case using Cons.IH(3) by (auto simp: and_then_Inr_conv nullifier_sync_step_effects)
  next
    case 4
    then show ?case using Cons.IH(4) by (auto simp: and_then_Inr_conv nullifier_sync_step_effects)
  }
qed

section \<open>The two outcomes of a sync\<close>

definition local_height :: "'m mmr_ops \<Rightarrow> 'm \<Rightarrow> block_number" where
  "local_height M mmr = of_nat (mmr_num_leaves M mmr - 1)"

lemma fetch_sync_data_tip:
  assumes "fetch_sync_data S h accs tags = Inr data"
  shows "get_chain_tip_header (ss_rpc_api S) = Inr (rd_chain_tip_header data)
    \<and> rd_chain_tip data = bh_block_num (rd_chain_tip_header data)"
  using assms by (auto simp: fetch_sync_data_def Let_def and_then_Inr_conv split: if_splits)

lemma sync_state_cases:
  assumes "sync_state P M S mmr input = Inr (U, mmr')"
  obtains (at_tip) hdr where
      "get_chain_tip_header (ss_rpc_api S) = Inr hdr" "bh_block_num hdr = local_height M mmr"
      "U = initial_update P (local_height M mmr) input" "mmr' = mmr"
  | (progress) data A U2 where
      "get_chain_tip_header (ss_rpc_api S) = Inr (rd_chain_tip_header data)"
      "rd_chain_tip data = bh_block_num (rd_chain_tip_header data)"
      "rd_chain_tip data \<noteq> local_height M mmr"
      "apply_sync_result P M S data (build_public_note_records P data)
         ((initial_update P (local_height M mmr) input)
            \<lparr>ssu_block_num := rd_chain_tip data, ssu_account_updates := A\<rparr>) mmr = Inr (U2, mmr')"
      "if ss_sync_nullifiers S then nullifiers_state_sync P S U2 (local_height M mmr) = Inr U else U = U2"
proof -
  let ?h = "local_height M mmr"
  obtain data where data: "fetch_sync_data S ?h (map ah_id (si_accounts input)) (si_note_tags input) = Inr data"
    using assms by (auto simp: sync_state_def Let_def and_then_Inr_conv local_height_def split: if_splits)
  note tip = fetch_sync_data_tip [OF data]
  show thesis
  proof (cases "rd_chain_tip data = ?h")
    case True
    then show thesis
      using assms data tip
      by (intro at_tip [of "rd_chain_tip_header data"])
        (auto simp: sync_state_def Let_def local_height_def split: if_splits)
  next
    case False
    then show thesis
      using assms data tip
      by (auto simp: sync_state_def Let_def and_then_Inr_conv local_height_def split: if_splits
          intro!: progress [of data])
  qed
qed

lemma nullifiers_state_sync_effects:
  assumes "nullifiers_state_sync P S U h = Inr U'"
  shows "note_run P (ssu_note_updates U) (ssu_note_updates U')"
    and "\<exists>nfs. ssu_transaction_updates U' =
      fold tracker_step (map InputNoteNullified nfs) (ssu_transaction_updates U)"
    and "ssu_block_num U' = ssu_block_num U" and "ssu_block_updates U' = ssu_block_updates U"
proof -
  obtain upds where "try_fold (nullifier_sync_step P) U upds = Inr U'"
    using assms by (auto simp: nullifiers_state_sync_def Let_def and_then_Inr_conv)
  note effects = nullifiers_fold_effects [OF this]
  show "\<exists>nfs. ssu_transaction_updates U' =
      fold tracker_step (map InputNoteNullified nfs) (ssu_transaction_updates U)"
    by (rule exI [of _ "map nu_nullifier upds"]) (simp add: effects(2) comp_def)
  show "note_run P (ssu_note_updates U) (ssu_note_updates U')" by (rule effects(1))
  show "ssu_block_num U' = ssu_block_num U" "ssu_block_updates U' = ssu_block_updates U"
    by (rule effects)+
qed

lemma transaction_state_sync_run: "tx_run T (transaction_state_sync S T hdr incs)"
proof -
  let ?evs = "map (\<lambda>inc. IncludedInBlock inc (ucast (bh_timestamp hdr))) incs"
  have "fold (\<lambda>inc T. apply_transaction_inclusion T inc (ucast (bh_timestamp hdr))) incs T =
      fold tracker_step ?evs T" by (induction incs arbitrary: T) auto
  then have "transaction_state_sync S T hdr incs =
      fold tracker_step (?evs @ [SyncHeightUpdate (bh_block_num hdr) (ss_tx_discard_delta S)]) T"
    by (simp add: transaction_state_sync_def)
  then show ?thesis ..
qed

text \<open>In the case of progress, what happened to notes and transactions.\<close>

lemma sync_progress_effects:
  assumes "apply_sync_result P M S data pubs U mmr = Inr (U2, mmr')"
    and "if ss_sync_nullifiers S then nullifiers_state_sync P S U2 h = Inr U' else U' = U2"
  shows "note_run P (ssu_note_updates U) (ssu_note_updates U')"
    and "\<exists>nfs. ssu_transaction_updates U' = fold tracker_step (map InputNoteNullified nfs)
      (transaction_state_sync S (ssu_transaction_updates U) (rd_chain_tip_header data) (rd_transactions data))"
    and "ssu_block_num U' = ssu_block_num U" and "ssu_block_updates U' = ssu_block_updates U2"
proof -
  note apply_effects = apply_sync_result_effects [OF assms(1)]
  show "note_run P (ssu_note_updates U) (ssu_note_updates U')"
    using assms(2) apply_effects(1) note_run_trans [OF apply_effects(1) nullifiers_state_sync_effects(1)]
    by (auto split: if_splits)
  show "\<exists>nfs. ssu_transaction_updates U' = fold tracker_step (map InputNoteNullified nfs)
      (transaction_state_sync S (ssu_transaction_updates U) (rd_chain_tip_header data) (rd_transactions data))"
  proof (cases "ss_sync_nullifiers S")
    case True
    then show ?thesis
      using assms(2) nullifiers_state_sync_effects(2) by (simp add: apply_effects(2) [symmetric])
  next
    case False
    then show ?thesis
      using assms(2) apply_effects(2) by (intro exI [of _ "[]"]) simp
  qed
  show "ssu_block_num U' = ssu_block_num U" "ssu_block_updates U' = ssu_block_updates U2"
    using assms(2) apply_effects(3) nullifiers_state_sync_effects(3,4) by (auto split: if_splits)
qed

lemma sync_state_note_run:
  assumes "sync_state P M S mmr input = Inr (U, mmr')"
  shows "note_run P (note_tracker_new P (si_input_notes input) (si_output_notes input)) (ssu_note_updates U)"
  using assms
proof (cases rule: sync_state_cases)
  case at_tip
  then show ?thesis by (simp add: initial_update_def note_run_refl)
next
  case (progress data A U2)
  then show ?thesis using sync_progress_effects(1) [OF progress(4,5)] by (simp add: initial_update_def)
qed

lemma sync_state_tx_run:
  assumes "sync_state P M S mmr input = Inr (U, mmr')"
  shows "tx_run (tx_tracker_new (si_uncommitted_transactions input)) (ssu_transaction_updates U)"
  using assms
proof (cases rule: sync_state_cases)
  case at_tip
  then show ?thesis by (intro exI [of _ "[]"]) (simp add: initial_update_def)
next
  case (progress data A U2)
  have "tx_run (transaction_state_sync S (tx_tracker_new (si_uncommitted_transactions input))
      (rd_chain_tip_header data) (rd_transactions data)) (ssu_transaction_updates U)"
    using sync_progress_effects(2) [OF progress(4,5)] by (auto simp: initial_update_def)
  then show ?thesis by (rule tx_run_trans [OF transaction_state_sync_run])
qed

section \<open>Stored blocks and pending transactions\<close>

lemma insert_blocks_append: "insert_blocks (xs @ ys) B = insert_blocks ys (insert_blocks xs B)"
  by (simp add: insert_blocks_def)

lemma note_block_step_blocks:
  assumes "note_block_step P M S pubs (U, mmr) block = Inr (U', mmr')"
  shows "\<exists>xs. ssu_block_updates U' = insert_blocks xs (ssu_block_updates U)
    \<and> (\<forall>x \<in> set xs. \<exists>peaks nodes. x = (nsb_block_header block, True, peaks, nodes))"
proof (cases "ssu_block_updates U' = ssu_block_updates U")
  case True
  then show ?thesis by (intro exI [of _ "[]"]) (simp add: insert_blocks_def)
next
  case False
  then obtain peaks nodes where
    "ssu_block_updates U' =
       block_updates_insert (nsb_block_header block) True peaks nodes (ssu_block_updates U)"
    using assms by (auto simp: note_block_step_def Let_def and_then_Inr_conv split: if_splits)
  then show ?thesis
    by (intro exI [of _ "[(nsb_block_header block, True, peaks, nodes)]"]) (simp add: insert_blocks_def)
qed

lemma note_blocks_blocks:
  assumes "try_fold (note_block_step P M S pubs) (U, mmr) blocks = Inr (U', mmr')"
  shows "\<exists>xs. ssu_block_updates U' = insert_blocks xs (ssu_block_updates U)
    \<and> (\<forall>x \<in> set xs. \<exists>block \<in> set blocks. \<exists>peaks nodes. x = (nsb_block_header block, True, peaks, nodes))"
  using assms
proof (induction blocks arbitrary: U mmr)
  case Nil
  then show ?case by (intro exI [of _ "[]"]) (simp add: insert_blocks_def)
next
  case (Cons block blocks)
  then obtain V m where step: "note_block_step P M S pubs (U, mmr) block = Inr (V, m)"
    and rest: "try_fold (note_block_step P M S pubs) (V, m) blocks = Inr (U', mmr')"
    by (auto simp: and_then_Inr_conv)
  obtain xs where xs: "ssu_block_updates V = insert_blocks xs (ssu_block_updates U)"
    "\<forall>x \<in> set xs. \<exists>peaks nodes. x = (nsb_block_header block, True, peaks, nodes)"
    using note_block_step_blocks [OF step] by blast
  obtain ys where ys: "ssu_block_updates U' = insert_blocks ys (ssu_block_updates V)"
    "\<forall>x \<in> set ys. \<exists>block \<in> set blocks. \<exists>peaks nodes. x = (nsb_block_header block, True, peaks, nodes)"
    using Cons.IH [OF rest] by blast
  show ?case
    by (rule exI [of _ "xs @ ys"]) (use xs ys in \<open>auto simp: insert_blocks_append\<close>)
qed

text \<open>Headers in the update after progress: the tip, and the note blocks found relevant.\<close>

lemma merged_header_Cons_first:
  "merged_header ((hdr, flag, peaks, nodes) # xs) =
     Some (hdr, flag \<or> (\<exists>(_, notes, _) \<in> set xs. notes), peaks)"
  by (auto simp: merged_header_def)

lemma tip_and_note_headers:
  assumes "B = insert_blocks ((hdr, False, peaks, nodes) # xs) block_updates_default"
    and "\<forall>x \<in> set xs. \<exists>block \<in> set blocks. \<exists>peaks nodes. x = (nsb_block_header block, True, peaks, nodes)"
  shows "\<exists>flag. bt_get (bu_block_headers B) (bh_block_num hdr) = Some (hdr, flag, peaks)"
    and "bt_get (bu_block_headers B) n = Some (h, flag, p) \<Longrightarrow> n \<noteq> bh_block_num hdr \<Longrightarrow>
      flag \<and> bh_block_num h = n \<and> h \<in> nsb_block_header ` set blocks"
proof -
  show "\<exists>flag. bt_get (bu_block_headers B) (bh_block_num hdr) = Some (hdr, flag, peaks)"
    by (simp add: assms(1) insert_blocks_lookup insertions_of_def merged_header_Cons_first)
next
  assume get: "bt_get (bu_block_headers B) n = Some (h, flag, p)" and n: "n \<noteq> bh_block_num hdr"
  then have merged: "merged_header (insertions_of n xs) = Some (h, flag, p)"
    by (simp add: assms(1) insert_blocks_lookup insertions_of_def)
  then obtain f q m rest where first: "insertions_of n xs = (h, f, q, m) # rest"
    by (auto simp: merged_header_def split: list.splits)
  then have "(h, f, q, m) \<in> set (insertions_of n xs)" by simp
  then have mem: "(h, f, q, m) \<in> set xs" "bh_block_num h = n" by (auto simp: insertions_of_def)
  then obtain block where block: "block \<in> set blocks" "h = nsb_block_header block" "f"
    using assms(2) by fastforce
  have "flag = (f \<or> (\<exists>(_, notes, _) \<in> set rest. notes))"
    using merged unfolding first merged_header_Cons_first by simp
  with block mem(2) show "flag \<and> bh_block_num h = n \<and> h \<in> nsb_block_header ` set blocks" by auto
qed

lemma sync_progress_blocks:
  assumes "apply_sync_result P M S data pubs U mmr = Inr (U2, mmr')"
    and "ssu_block_updates U = block_updates_default"
  shows "\<exists>peaks nodes xs.
    ssu_block_updates U2 =
      insert_blocks ((rd_chain_tip_header data, False, peaks, nodes) # xs) block_updates_default
    \<and> (\<forall>x \<in> set xs. \<exists>block \<in> set (rd_note_blocks data). \<exists>peaks nodes.
         x = (nsb_block_header block, True, peaks, nodes))"
  using assms(1)
proof (cases rule: apply_sync_result_cases)
  case (1 nodes peaks mmr2 V N)
  then obtain xs where
    "ssu_block_updates V = insert_blocks xs
       (block_updates_insert (rd_chain_tip_header data) False peaks nodes block_updates_default)"
    "\<forall>x \<in> set xs. \<exists>block \<in> set (rd_note_blocks data). \<exists>peaks nodes.
       x = (nsb_block_header block, True, peaks, nodes)"
    using note_blocks_blocks [OF 1(1)] assms(2) by auto
  then show ?thesis
    by (intro exI [of _ peaks] exI [of _ nodes] exI [of _ xs]) (simp add: 1(3) insert_blocks_def)
qed

lemma pending_set_nullified_subset:
  "pending_set (fold tracker_step (map InputNoteNullified nfs) T) \<subseteq> pending_set T"
proof (induction nfs arbitrary: T)
  case (Cons nf nfs)
  have "pending_set (apply_input_note_nullified T nf) \<subseteq> pending_set T"
    by (auto simp: apply_input_note_nullified_def pending_set_discard)
  with Cons.IH [of "apply_input_note_nullified T nf"] show ?case by simp
qed simp

lemma transaction_state_sync_pending:
  assumes "t \<in> pending_set (transaction_state_sync S T hdr incs)"
  shows "bh_block_num hdr < td_expiration_block_num (tr_details t)
    \<and> (\<forall>d. ss_tx_discard_delta S = Some d \<longrightarrow>
         saturating_sub (bh_block_num hdr) d \<le> td_submission_height (tr_details t))"
  using assms
  by (auto simp: transaction_state_sync_def apply_sync_height_update_pending not_le [symmetric]
      intro: doomed.match)

section \<open>The note callback\<close>

text \<open>
  What the sync relies on in its callback: it may ask to commit only the note it was shown,
  and to insert only the record it was offered.
\<close>

locale note_callback_contract =
  fixes callback :: note_callback
  assumes commit_same: "callback cn offered = Inr (CommitNote cn') \<Longrightarrow> cn' = cn"
    and insert_offered: "callback cn offered = Inr (InsertNote r) \<Longrightarrow> offered = Some r"
begin

lemma step_scope:
  assumes "ss_note_screener S = callback"
    and "\<And>i r. bt_get pubs i = Some r \<Longrightarrow> inr_id P r = i"
    and "note_state_sync_step P S hdr pubs (b, N) cn = Inr (b', N')"
  shows "i \<noteq> cn_note_id cn \<Longrightarrow> bt_get (nut_input_notes N') i = bt_get (nut_input_notes N) i
      \<and> bt_get (nut_output_notes N') i = bt_get (nut_output_notes N) i"
    and "b' \<Longrightarrow> \<not> b \<Longrightarrow> bt_get (nut_input_notes N') (cn_note_id cn) \<noteq> None"
proof -
  have "(i \<noteq> cn_note_id cn \<longrightarrow> bt_get (nut_input_notes N') i = bt_get (nut_input_notes N) i
      \<and> bt_get (nut_output_notes N') i = bt_get (nut_output_notes N) i)
    \<and> (b' \<and> \<not> b \<longrightarrow> bt_get (nut_input_notes N') (cn_note_id cn) \<noteq> None)"
    using assms(3)
  proof (cases rule: note_state_sync_step_cases)
    case (commit cn' tracked)
    then have "cn' = cn" using assms(1) commit_same by simp
    with commit show ?thesis
      by (auto simp: apply_committed_note_state_transitions_def commit_input_note_def
          commit_output_note_def and_then_Inr_conv split: option.splits)
  next
    case (new r)
    then have "offered_public_note pubs cn = Some r" using assms(1) insert_offered by simp
    then have "inr_id P r = cn_note_id cn"
      using assms(2) by (auto simp: offered_public_note_def split: if_splits)
    with new show ?thesis
      by (auto simp: apply_new_public_note_def insert_input_note_def and_then_Inr_conv inr_id_def
          dest!: transition_details)
  next
    case discard
    then show ?thesis by simp
  qed
  then show "i \<noteq> cn_note_id cn \<Longrightarrow> bt_get (nut_input_notes N') i = bt_get (nut_input_notes N) i
      \<and> bt_get (nut_output_notes N') i = bt_get (nut_output_notes N) i"
    and "b' \<Longrightarrow> \<not> b \<Longrightarrow> bt_get (nut_input_notes N') (cn_note_id cn) \<noteq> None" by auto
qed

lemma block_scope:
  assumes "ss_note_screener S = callback"
    and "\<And>i r. bt_get pubs i = Some r \<Longrightarrow> inr_id P r = i"
    and "note_state_sync P S N incl hdr pubs = Inr (b', N')"
    and "i \<notin> cn_note_id ` set (bt_values incl)"
  shows "bt_get (nut_input_notes N') i = bt_get (nut_input_notes N) i
    \<and> bt_get (nut_output_notes N') i = bt_get (nut_output_notes N) i"
proof -
  have "(\<lambda>(b, N'). bt_get (nut_input_notes N') i = bt_get (nut_input_notes N) i
      \<and> bt_get (nut_output_notes N') i = bt_get (nut_output_notes N) i) (b', N')"
    using assms(3) unfolding note_state_sync_def
  proof (rule try_fold_invariant)
    fix s cn t
    assume cn: "cn \<in> set (bt_values incl)" and step: "note_state_sync_step P S hdr pubs s cn = Inr t"
      and I: "case s of (b, N') \<Rightarrow> bt_get (nut_input_notes N') i = bt_get (nut_input_notes N) i
        \<and> bt_get (nut_output_notes N') i = bt_get (nut_output_notes N) i"
    obtain b M b2 M2 where st: "s = (b, M)" "t = (b2, M2)" by (cases s, cases t)
    have "i \<noteq> cn_note_id cn" using cn assms(4) by auto
    with step_scope(1) [OF assms(1,2) step [unfolded st]] I
    show "case t of (b, N') \<Rightarrow> bt_get (nut_input_notes N') i = bt_get (nut_input_notes N) i
        \<and> bt_get (nut_output_notes N') i = bt_get (nut_output_notes N) i"
      by (simp add: st)
  qed simp
  then show ?thesis by simp
qed

end

lemma public_note_records_keyed:
  "bt_get (build_public_note_records P data) i = Some r \<Longrightarrow> inr_id P r = i"
  unfolding build_public_note_records_def bt_get_from_iter by (auto dest!: map_of_SomeD)

section \<open>A sample sync\<close>

text \<open>
  A partial MMR that only counts its leaves, a node at block 7 whose only note block holds the
  note with serial number 5, a callback that commits every note, and a client at block 4 that
  expects the note and has a transaction pending.
\<close>

definition sample_mmr_ops :: "nat mmr_ops" where
  "sample_mmr_ops =
     \<lparr>mmr_num_leaves = (\<lambda>m. m), mmr_apply = (\<lambda>m d. Inr ([], delta_forest d)), mmr_peaks_of = (\<lambda>m. []),
      mmr_add = (\<lambda>m d b. ([], Suc m)), mmr_is_tracked = (\<lambda>m k. False),
      mmr_track = (\<lambda>m k d path. Inr m), mmr_nodes = (\<lambda>m. [])\<rparr>"

definition sample_committed_note :: committed_note where
  "sample_committed_note =
     \<lparr>cn_note_id = NoteId (Digest 5), cn_committed_metadata = FullMetadata sample_metadata,
      cn_inclusion_proof = sample_proof 5\<rparr>"

definition sample_node :: node_api where
  "sample_node =
     \<lparr>get_chain_tip_header = Inr sample_header,
      sync_chain_mmr = (\<lambda>a b. Inr \<lparr>delta_forest = unat b, delta_data = []\<rparr>),
      sync_notes_with_details = (\<lambda>a b tags. Inr
        \<lparr>snr_blocks = [\<lparr>nsb_block_header = sample_header, nsb_mmr_path = [],
                        nsb_notes = [(NoteId (Digest 5), sample_committed_note)]\<rparr>],
         snr_public_notes = []\<rparr>),
      sync_transactions = (\<lambda>a b ids. Inr []),
      sync_nullifiers = (\<lambda>tags a b. Inr []),
      fetch_public_accounts = (\<lambda>accs. Inr [])\<rparr>"

definition sample_sync :: state_sync where
  "sample_sync = state_sync_new sample_node (\<lambda>cn offered. Inr (CommitNote cn)) (Some 20)"

definition sample_input :: state_sync_input where
  "sample_input =
     \<lparr>si_accounts = [], si_note_tags = [9], si_input_notes = [inr_from_note (sample_note 5)],
      si_output_notes = [], si_uncommitted_transactions = [sample_transaction]\<rparr>"

definition sample_update :: state_sync_update where
  "sample_update =
     \<lparr>ssu_block_num = 7,
      ssu_block_updates =
        \<lparr>bu_block_headers = [(7, sample_header, True, [])], bu_new_authentication_nodes = []\<rparr>,
      ssu_note_updates =
        \<lparr>nut_input_notes =
           [(NoteId (Digest 5), \<lparr>inu_note = sample_committed, inu_update_type = UpdateUpdate\<rparr>)],
         nut_output_notes = [], nut_input_by_nullifier = [(Nullifier (Digest 5), NoteId (Digest 5))],
         nut_output_by_nullifier = [], nut_nullifier_order = []\<rparr>,
      ssu_transaction_updates = [(TransactionId (Digest 8), sample_transaction)],
      ssu_account_updates = account_updates_default\<rparr>"

lemma sample_initial:
  "initial_update sample_protocol 4 sample_input =
     \<lparr>ssu_block_num = 4, ssu_block_updates = block_updates_default,
      ssu_note_updates =
        \<lparr>nut_input_notes = [(NoteId (Digest 5),
           \<lparr>inu_note = inr_from_note (sample_note 5), inu_update_type = UpdateNone\<rparr>)],
         nut_output_notes = [], nut_input_by_nullifier = [(Nullifier (Digest 5), NoteId (Digest 5))],
         nut_output_by_nullifier = [], nut_nullifier_order = []\<rparr>,
      ssu_transaction_updates = [(TransactionId (Digest 8), sample_transaction)],
      ssu_account_updates = account_updates_default\<rparr>"
  by (simp add: initial_update_def sample_input_def note_tracker_new_def insert_input_note_def
      note_tracker_default_def inr_id_def inr_nullifier_def inr_from_note_def sample_defs
      tx_tracker_new_def bt_from_iter_def sample_transaction_def)

lemma sample_commit:
  "apply_committed_note_state_transitions sample_protocol
     \<lparr>nut_input_notes = [(NoteId (Digest 5),
           \<lparr>inu_note = inr_from_note (sample_note 5), inu_update_type = UpdateNone\<rparr>)],
      nut_output_notes = [], nut_input_by_nullifier = [(Nullifier (Digest 5), NoteId (Digest 5))],
      nut_output_by_nullifier = [], nut_nullifier_order = []\<rparr> sample_committed_note sample_header =
   Inr (True, ssu_note_updates sample_update)"
  by (simp add: apply_committed_note_state_transitions_def commit_input_note_def commit_output_note_def
      sample_committed_note_def cn_metadata_def inr_inclusion_proof_received_def
      inr_block_header_received_def inr_from_note_def handler_defs proof_verifies_def inr_id_def
      bt_modify_def inu_inner_mut_def sample_update_def sample_committed_def sample_defs)

lemma sample_discard_none:
  "discard_transaction_with_predicate p c [(k, t)] = [(k, t)]" if "\<not> p t"
  using that by (simp add: discard_transaction_with_predicate_def)

definition sample_data :: raw_state_sync_data where
  "sample_data =
     \<lparr>rd_chain_tip = 7, rd_mmr_delta = \<lparr>delta_forest = 7, delta_data = []\<rparr>,
      rd_chain_tip_header = sample_header,
      rd_note_blocks = [\<lparr>nsb_block_header = sample_header, nsb_mmr_path = [],
                         nsb_notes = [(NoteId (Digest 5), sample_committed_note)]\<rparr>],
      rd_public_notes = [], rd_account_commitment_updates = [], rd_transactions = [],
      rd_nullifiers = []\<rparr>"

lemma sample_tip: "bh_block_num sample_header = 7"
  by (simp add: sample_header_def)

lemma sample_fetch: "fetch_sync_data sample_sync 4 [] [9] = Inr sample_data"
  by (simp add: fetch_sync_data_def sample_sync_def state_sync_new_def sample_node_def sample_tip
      fetch_transaction_data_def sample_data_def)

lemma sample_screened:
  "note_state_sync sample_protocol sample_sync
      (ssu_note_updates (initial_update sample_protocol 4 sample_input))
      [(NoteId (Digest 5), sample_committed_note)] sample_header [] =
    Inr (True, ssu_note_updates sample_update)"
  by (simp add: note_state_sync_def note_state_sync_step_def sample_initial sample_commit
      sample_sync_def state_sync_new_def)

lemma sample_txs:
  "transaction_state_sync sample_sync [(TransactionId (Digest 8), sample_transaction)] sample_header [] =
     [(TransactionId (Digest 8), sample_transaction)]"
  by (simp add: transaction_state_sync_def apply_sync_height_update_def sample_sync_def state_sync_new_def
      sample_discard_none sample_transaction_def saturating_sub_def sample_tip)

lemma sample_apply:
  "apply_sync_result sample_protocol sample_mmr_ops sample_sync sample_data []
     ((initial_update sample_protocol 4 sample_input)\<lparr>ssu_block_num := 7\<rparr>) 5 = Inr (sample_update, 8)"
proof -
  have "ssu_transaction_updates (initial_update sample_protocol 4 sample_input) =
      [(TransactionId (Digest 8), sample_transaction)]"
    "ssu_account_updates (initial_update sample_protocol 4 sample_input) = account_updates_default"
    "ssu_block_updates (initial_update sample_protocol 4 sample_input) = block_updates_default"
    by (simp_all add: sample_initial)
  then show ?thesis
    using sample_screened
    by (simp add: apply_sync_result_def sample_data_def sample_mmr_ops_def note_block_step_def track_block_def
        sample_txs extend_nullifiers_def block_updates_insert_def block_updates_default_def bt_upsert_def
        bt_modify_def sample_tip)
      (simp add: sample_update_def)
qed

lemma sample_sync_run:
  "sync_state sample_protocol sample_mmr_ops sample_sync 5 sample_input = Inr (sample_update, 8)"
proof -
  have input: "si_accounts sample_input = []" "si_note_tags sample_input = [9]"
    by (simp_all add: sample_input_def)
  have data: "rd_chain_tip sample_data = 7" "rd_account_commitment_updates sample_data = []"
    "build_public_note_records sample_protocol sample_data = []"
    by (simp_all add: sample_data_def build_public_note_records_def bt_from_iter_def List.map_filter_def)
  have acc: "account_state_sync sample_protocol sample_sync account_updates_default [] [] =
      Inr account_updates_default"
    by (simp add: account_state_sync_def get_updated_public_accounts_def sample_sync_def state_sync_new_def
        sample_node_def List.map_filter_def account_updates_extend_def account_updates_default_def)
  have null: "nullifiers_state_sync sample_protocol sample_sync sample_update 4 = Inr sample_update"
    by (simp add: nullifiers_state_sync_def sample_sync_def state_sync_new_def sample_node_def)
  have u: "ssu_account_updates (initial_update sample_protocol 4 sample_input) = account_updates_default"
    "(initial_update sample_protocol 4 sample_input)
       \<lparr>ssu_block_num := 7, ssu_account_updates := account_updates_default\<rparr> =
     (initial_update sample_protocol 4 sample_input)\<lparr>ssu_block_num := 7\<rparr>"
    by (simp_all add: sample_initial)
  have leaves: "mmr_num_leaves sample_mmr_ops 5 = 5" and nf: "ss_sync_nullifiers sample_sync"
    by (simp_all add: sample_mmr_ops_def sample_sync_def state_sync_new_def)
  show ?thesis
    by (simp add: sync_state_def leaves nf input data sample_fetch u acc sample_apply null)
qed

lemma sample_progress:
  "get_chain_tip_header (ss_rpc_api sample_sync) = Inr sample_header"
  "bh_block_num sample_header \<noteq> local_height sample_mmr_ops 5"
  by (simp_all add: sample_sync_def state_sync_new_def sample_node_def sample_tip local_height_def
      sample_mmr_ops_def)

definition unmarked :: "note_update_tracker \<Rightarrow> bool" where
  "unmarked N \<longleftrightarrow>
      (\<forall>u \<in> set (bt_values (nut_input_notes N)). inu_update_type u = UpdateNone)
      \<and> (\<forall>u \<in> set (bt_values (nut_output_notes N)). onu_update_type u = UpdateNone)"

lemma unmarked_fold_input: "unmarked N \<Longrightarrow> unmarked (fold (insert_input_note P UpdateNone) rs N)"
proof (induction rs arbitrary: N)
  case (Cons r rs)
  have "unmarked (insert_input_note P UpdateNone r N)"
    using Cons.prems
      bt_insert_values [of "nut_input_notes N" "\<lambda>u. inu_update_type u = UpdateNone"
        "\<lparr>inu_note = r, inu_update_type = UpdateNone\<rparr>" "inr_id P r"]
    by (simp add: unmarked_def insert_input_note_def)
  with Cons.IH show ?case by simp
qed simp

lemma unmarked_fold_output: "unmarked N \<Longrightarrow> unmarked (fold (insert_output_note P UpdateNone) rs N)"
proof (induction rs arbitrary: N)
  case (Cons r rs)
  have "unmarked (insert_output_note P UpdateNone r N)"
    using Cons.prems
      bt_insert_values [of "nut_output_notes N" "\<lambda>u. onu_update_type u = UpdateNone"
        "\<lparr>onu_note = r, onu_update_type = UpdateNone\<rparr>" "onr_id P r"]
    by (simp add: unmarked_def insert_output_note_def)
  with Cons.IH show ?case by simp
qed simp

lemma note_tracker_new_unmarked: "unmarked (note_tracker_new P ins outs)"
  unfolding note_tracker_new_def
  by (intro unmarked_fold_output unmarked_fold_input) (simp add: unmarked_def note_tracker_default_def)

lemma unmarked_no_updates:
  "unmarked N \<Longrightarrow> updated_input_notes N = [] \<and> updated_output_notes N = []"
  by (auto simp: unmarked_def updated_input_notes_def updated_output_notes_def)

lemma fetch_at_tip:
  assumes "get_chain_tip_header (ss_rpc_api S) = Inr hdr"
  shows "\<exists>data. fetch_sync_data S (bh_block_num hdr) accs tags = Inr data \<and> rd_chain_tip data = bh_block_num hdr"
  using assms by (simp add: fetch_sync_data_def Let_def)

lemma pending_tracker_no_commits:
  assumes "\<forall>t \<in> set txs. tx_pending t"
  shows "committed_transactions (tx_tracker_new txs) = []"
proof -
  have "\<forall>p \<in> set (fold (\<lambda>(k, v). bt_insert k v) (map (\<lambda>t. (tr_id t, t)) txs) m). tx_pending (snd p)"
    if "\<forall>p \<in> set m. tx_pending (snd p)" for m
    using assms that
  proof (induction txs arbitrary: m)
    case (Cons t txs)
    have "\<forall>p \<in> set (bt_insert (tr_id t) t m). tx_pending (snd p)"
      using Cons.prems by (intro bt_insert_values) auto
    with Cons show ?case by simp
  qed simp
  from this [of "[]"] show ?thesis
    by (auto simp: committed_transactions_def tx_tracker_new_def bt_from_iter_def filter_empty_conv)
qed

section \<open>Properties\<close>



text \<open>
  The updates a sync hands to the store are consistent: every note is filed under its id and
  found by its nullifier, and nullifier positions are unique.
\<close>

lemma sync_state_consistent:
  assumes "nullifier_binds_id P" and "sync_state P M S mmr input = Inr (U, mmr')"
  shows "tracker_inv P (ssu_note_updates U)"
proof -
  obtain evs where "try_fold (note_tracker_step P)
      (note_tracker_new P (si_input_notes input) (si_output_notes input)) evs = Inr (ssu_note_updates U)"
    using sync_state_note_run [OF assms(2)] by blast
  then show ?thesis
    by (rule try_fold_invariant) (auto intro: tracker_inv_new tracker_inv_step assms(1))
qed

lemma sync_state_consistent_witness:
  "nullifier_binds_id sample_protocol \<and> tracker_inv sample_protocol (ssu_note_updates sample_update)"
  using sync_state_consistent [OF sample_protocol_binds sample_sync_run] sample_protocol_binds by blast

text \<open>
  C12. After a sync that moved to a new chain tip, no transaction is left pending that has
  expired at the tip or, with a discard delta, was submitted before the tip minus the delta.
\<close>

theorem sync_leaves_no_stale_transaction:
  assumes "sync_state P M S mmr input = Inr (U, mmr')"
    and "get_chain_tip_header (ss_rpc_api S) = Inr hdr" and "bh_block_num hdr \<noteq> local_height M mmr"
    and "t \<in> pending_set (ssu_transaction_updates U)"
  shows "bh_block_num hdr < td_expiration_block_num (tr_details t)
    \<and> (\<forall>d. ss_tx_discard_delta S = Some d \<longrightarrow>
         saturating_sub (bh_block_num hdr) d \<le> td_submission_height (tr_details t))"
  using assms(1)
proof (cases rule: sync_state_cases)
  case (at_tip hdr')
  then show ?thesis using assms(2,3) by simp
next
  case (progress data A U2)
  obtain nfs T where "ssu_transaction_updates U = fold tracker_step (map InputNoteNullified nfs)
      (transaction_state_sync S T (rd_chain_tip_header data) (rd_transactions data))"
    using sync_progress_effects(2) [OF progress(4,5)] by blast
  then have "t \<in> pending_set (transaction_state_sync S T (rd_chain_tip_header data) (rd_transactions data))"
    using assms(4) pending_set_nullified_subset by auto
  then show ?thesis
    using transaction_state_sync_pending assms(2) progress(1) by simp
qed

theorem sync_leaves_no_stale_transaction_witness:
  "sample_transaction \<in> pending_set (ssu_transaction_updates sample_update)
   \<and> bh_block_num sample_header < td_expiration_block_num (tr_details sample_transaction)"
proof -
  have "sample_transaction \<in> pending_set (ssu_transaction_updates sample_update)"
    by (simp add: sample_update_def pending_set_def sample_transaction_def)
  with sync_leaves_no_stale_transaction [OF sample_sync_run sample_progress this] show ?thesis by blast
qed



text \<open>
  A sync at the chain tip succeeds without asking the node for anything else, leaves the
  partial MMR alone and has nothing to report: no new, committed or consumed note, no
  account change and no committed transaction.
\<close>

lemma sync_at_tip_reports_nothing:
  assumes "get_chain_tip_header (ss_rpc_api S) = Inr hdr" and "bh_block_num hdr = local_height M mmr"
    and "mmr_num_leaves M mmr - 1 < 2 ^ 32" and "\<forall>t \<in> set (si_uncommitted_transactions input). tx_pending t"
  shows "\<exists>U. sync_state P M S mmr input = Inr (U, mmr) \<and> ssu_block_num U = bh_block_num hdr
    \<and> sync_summary_is_empty (sync_summary_from P U)"
proof -
  let ?U = "initial_update P (local_height M mmr) input"
  obtain data where data: "fetch_sync_data S (local_height M mmr) (map ah_id (si_accounts input))
      (si_note_tags input) = Inr data" "rd_chain_tip data = local_height M mmr"
    using fetch_at_tip [OF assms(1), unfolded assms(2)] by blast
  have "sync_state P M S mmr input = Inr (?U, mmr)"
    using assms(3) data by (simp add: sync_state_def local_height_def Let_def)
  moreover have "sync_summary_is_empty (sync_summary_from P ?U)"
    using unmarked_no_updates [OF note_tracker_new_unmarked] pending_tracker_no_commits [OF assms(4)]
    by (simp add: sync_summary_is_empty_def sync_summary_from_def initial_update_def as_sorted_set_def
        account_updates_default_def)
  moreover have "ssu_block_num ?U = bh_block_num hdr" by (simp add: initial_update_def assms(2))
  ultimately show ?thesis by blast
qed

lemma sync_at_tip_reports_nothing_witness:
  "\<exists>U. sync_state sample_protocol sample_mmr_ops sample_sync 8 sample_input = Inr (U, 8)
    \<and> ssu_block_num U = 7 \<and> sync_summary_is_empty (sync_summary_from sample_protocol U)"
proof -
  have h: "bh_block_num sample_header = local_height sample_mmr_ops 8"
    "mmr_num_leaves sample_mmr_ops 8 - 1 < 2 ^ 32"
    by (simp_all add: sample_tip local_height_def sample_mmr_ops_def)
  have p: "\<forall>t \<in> set (si_uncommitted_transactions sample_input). tx_pending t"
    by (simp add: sample_input_def sample_transaction_def)
  show ?thesis
    using sync_at_tip_reports_nothing [OF sample_progress(1) h p, of sample_protocol] unfolding sample_tip .
qed

end
