(* ===== verification/Note_Screener.thy ===== *)
theory Note_Screener
  imports State_Sync
begin

text \<open>
  The default note callback (\<^verbatim>\<open>note/note_screener.rs\<close>): whether a note that came with a sync
  is relevant. The store queries it makes and the consumption checker of the transaction
  crate are its arguments. The theory interprets the sync's callback contract on the
  screener and says exactly when a note is committed, inserted or ignored.
\<close>

datatype note_consumption_status =
    NeverConsumable string
  | UnconsumableConditions
  | ConsumableAfter block_number
  | Consumable
  | ConsumableWithAuthorization

fun is_relevant :: "note_consumption_status \<Rightarrow> bool" where
  "is_relevant (NeverConsumable _) = False"
| "is_relevant UnconsumableConditions = False"
| "is_relevant _ = True"

record screener_store =
  get_account_ids :: "store_error + account_id list"
  get_sync_height :: "store_error + block_number"
  get_account_code :: "account_id \<Rightarrow> store_error + digest option"
  get_input_notes_unique :: "note_id \<Rightarrow> store_error + input_note_record list"
  get_output_notes_unique :: "note_id \<Rightarrow> store_error + output_note_record list"
  get_unique_note_tags :: "store_error + note_tag list"

type_synonym consumption_checker =
  "account_id \<Rightarrow> block_number \<Rightarrow> full_note \<Rightarrow> string + note_consumption_status"

record note_screener =
  ns_store :: screener_store
  ns_checker :: consumption_checker

definition screener_account_code ::
  "note_screener \<Rightarrow> account_id \<Rightarrow> note_screener_error + digest" where
  "screener_account_code Z account_id =
     and_then (map_err ScreenerStoreError (get_account_code (ns_store Z) account_id))
       (ok_or (ScreenerAccountDataNotFound account_id))"

type_synonym note_relevances = "(note_id, (account_id \<times> note_consumption_status) list) btree_map"

definition screen_note ::
  "protocol \<Rightarrow> note_screener \<Rightarrow> block_number \<Rightarrow> account_id \<Rightarrow> note_relevances \<Rightarrow> full_note \<Rightarrow>
   note_screener_error + note_relevances" where
  "screen_note P Z block_ref account_id relevant_notes n =
     and_then (map_err ScreenerNoteCheckerError (ns_checker Z account_id block_ref n)) (\<lambda>status.
     Inr (if is_relevant status
          then bt_upsert (note_get_id P n) (\<lambda>xs. xs @ [(account_id, status)]) [(account_id, status)]
                 relevant_notes
          else relevant_notes))"

definition screen_account ::
  "protocol \<Rightarrow> note_screener \<Rightarrow> block_number \<Rightarrow> full_note list \<Rightarrow> note_relevances \<Rightarrow> account_id \<Rightarrow>
   note_screener_error + note_relevances" where
  "screen_account P Z block_ref ns relevant_notes account_id =
     and_then (screener_account_code Z account_id) (\<lambda>code.
       try_fold (screen_note P Z block_ref account_id) relevant_notes ns)"

definition can_consume_batch ::
  "protocol \<Rightarrow> note_screener \<Rightarrow> full_note list \<Rightarrow> note_screener_error + note_relevances" where
  "can_consume_batch P Z ns =
     and_then (map_err ScreenerStoreError (get_account_ids (ns_store Z))) (\<lambda>account_ids.
     if ns = [] \<or> account_ids = [] then Inr []
     else and_then (map_err ScreenerStoreError (get_sync_height (ns_store Z))) (\<lambda>block_ref.
          try_fold (screen_account P Z block_ref ns) [] account_ids))"

definition can_consume ::
  "protocol \<Rightarrow> note_screener \<Rightarrow> full_note \<Rightarrow>
   note_screener_error + (account_id \<times> note_consumption_status) list" where
  "can_consume P Z n =
     and_then (can_consume_batch P Z [n]) (\<lambda>m.
       Inr (case bt_get m (note_get_id P n) of None \<Rightarrow> [] | Some xs \<Rightarrow> xs))"

definition screener_tag_tracked ::
  "note_screener \<Rightarrow> input_note_record \<Rightarrow> client_error + bool" where
  "screener_tag_tracked Z r =
     (case inr_metadata r of
        None \<Rightarrow> Inr False
      | Some md \<Rightarrow> and_then (map_err StoreError (get_unique_note_tags (ns_store Z)))
          (\<lambda>tags. Inr (md_tag md \<in> set tags)))"

definition on_note_received :: "protocol \<Rightarrow> note_screener \<Rightarrow> note_callback" where
  "on_note_received P Z committed_note public_note =
     and_then (map_err StoreError (get_input_notes_unique (ns_store Z) (cn_note_id committed_note)))
       (\<lambda>input_notes.
     and_then (map_err StoreError (get_output_notes_unique (ns_store Z) (cn_note_id committed_note)))
       (\<lambda>output_notes.
     if input_notes \<noteq> [] \<or> output_notes \<noteq> [] then Inr (CommitNote committed_note)
     else
       case public_note of
         Some r \<Rightarrow>
           and_then (screener_tag_tracked Z r) (\<lambda>tracked.
           if tracked then Inr (InsertNote r)
           else and_then (map_err NoteRecordConversionError (inr_try_into_note r)) (\<lambda>n.
                and_then (map_err NoteScreenerError (can_consume P Z n)) (\<lambda>new_note_relevance.
                Inr (if new_note_relevance \<noteq> [] then InsertNote r else DiscardNote))))
       | None \<Rightarrow> Inr DiscardNote))"

section \<open>The screener keeps the callback contract\<close>

interpretation screener: note_callback_contract "on_note_received P Z" for P Z
  by unfold_locales
    (auto simp: on_note_received_def and_then_Inr_conv split: if_splits option.splits)

section \<open>What the screening finds\<close>

lemma screen_note_single:
  "screen_note P Z h a m n = Inr m' \<Longrightarrow> \<exists>status. ns_checker Z a h n = Inr status
     \<and> bt_get m' (note_get_id P n) =
         (if is_relevant status
          then Some ((case bt_get m (note_get_id P n) of None \<Rightarrow> [] | Some xs \<Rightarrow> xs) @ [(a, status)])
          else bt_get m (note_get_id P n))"
  by (auto simp: screen_note_def and_then_Inr_conv bt_get_upsert split: option.splits)

text \<open>The relevant accounts of a note, in the order of the accounts.\<close>

definition relevant_accounts ::
  "note_screener \<Rightarrow> block_number \<Rightarrow> full_note \<Rightarrow> account_id list \<Rightarrow> (account_id \<times> note_consumption_status) list"
where
  "relevant_accounts Z h n accs =
     List.map_filter (\<lambda>a. case ns_checker Z a h n of
         Inr status \<Rightarrow> if is_relevant status then Some (a, status) else None
       | Inl _ \<Rightarrow> None) accs"

lemma relevant_accounts_simps [simp]:
  "relevant_accounts Z h n [] = []"
  "relevant_accounts Z h n (a # accs) =
     (case ns_checker Z a h n of
        Inr status \<Rightarrow> if is_relevant status then [(a, status)] else []
      | Inl _ \<Rightarrow> []) @ relevant_accounts Z h n accs"
  by (auto simp: relevant_accounts_def List.map_filter_def split: sum.splits)

abbreviation relevances_of :: "note_relevances \<Rightarrow> note_id \<Rightarrow> (account_id \<times> note_consumption_status) list" where
  "relevances_of m i \<equiv> (case bt_get m i of None \<Rightarrow> [] | Some xs \<Rightarrow> xs)"

lemma screen_accounts_single:
  assumes "try_fold (screen_account P Z h [n]) m accs = Inr m'"
  shows "relevances_of m' (note_get_id P n) =
    relevances_of m (note_get_id P n) @ relevant_accounts Z h n accs"
  using assms
proof (induction accs arbitrary: m)
  case Nil
  then show ?case by simp
next
  case (Cons a accs)
  then obtain m1 where step: "screen_account P Z h [n] m a = Inr m1"
    and rest: "try_fold (screen_account P Z h [n]) m1 accs = Inr m'"
    by (auto simp: and_then_Inr_conv)
  from step have "screen_note P Z h a m n = Inr m1"
    by (auto simp: screen_account_def and_then_Inr_conv)
  from screen_note_single [OF this] Cons.IH [OF rest] show ?case by auto
qed

lemma can_consume_eq:
  assumes "can_consume P Z n = Inr xs" and "get_account_ids (ns_store Z) = Inr accs"
    and "get_sync_height (ns_store Z) = Inr h"
  shows "xs = relevant_accounts Z h n accs"
  using assms
  by (auto simp: can_consume_def can_consume_batch_def and_then_Inr_conv split: if_splits
      dest!: screen_accounts_single)

text \<open>A store that tracks tag 9 and account 1 and knows no note.\<close>

definition sample_screener :: note_screener where
  "sample_screener =
     \<lparr>ns_store = \<lparr>get_account_ids = Inr [AccountId 1, AccountId 2], get_sync_height = Inr 4,
        get_account_code = (\<lambda>a. Inr (Some (Digest 0))), get_input_notes_unique = (\<lambda>i. Inr []),
        get_output_notes_unique = (\<lambda>i. Inr []), get_unique_note_tags = Inr [3]\<rparr>,
      ns_checker = (\<lambda>a h n. Inr (if a = AccountId 2 then Consumable else UnconsumableConditions))\<rparr>"

definition sample_offered :: input_note_record where
  "sample_offered = input_note_record_new (note_into_details (sample_note 5)) None
     (Unverified \<lparr>uv_metadata = sample_metadata, uv_inclusion_proof = sample_proof 5\<rparr>)"

lemma sample_screener_inserts:
  "on_note_received sample_protocol sample_screener sample_committed_note (Some sample_offered) =
     Inr (InsertNote sample_offered)"
  by (simp add: on_note_received_def sample_screener_def screener_tag_tracked_def inr_metadata_def
      sample_offered_def input_note_record_new_def handler_defs inr_try_into_note_def can_consume_def
      can_consume_batch_def screen_account_def screener_account_code_def screen_note_def bt_upsert_def
      sample_metadata_def)

section \<open>Properties\<close>



text \<open>
  With the screener as callback, a block changes only the notes it lists: the input and
  output notes of every other id are the same before and after the block is applied.
\<close>

lemma screened_block_scope:
  assumes "ss_note_screener S = on_note_received P' Z"
    and "note_state_sync P S N incl hdr (build_public_note_records P data) = Inr (found, N')"
    and "i \<notin> cn_note_id ` set (bt_values incl)"
  shows "bt_get (nut_input_notes N') i = bt_get (nut_input_notes N) i
    \<and> bt_get (nut_output_notes N') i = bt_get (nut_output_notes N) i"
  using screener.block_scope [OF assms(1) public_note_records_keyed assms(2,3)] .

lemma screened_block_scope_witness:
  "bt_get (nut_input_notes sample_note_tracker) (NoteId (Digest 5)) \<noteq> None
   \<and> note_state_sync sample_protocol
       (state_sync_new sample_node (on_note_received sample_protocol sample_screener) None)
       sample_note_tracker [(NoteId (Digest 6), sample_committed_note\<lparr>cn_note_id := NoteId (Digest 6)\<rparr>)]
       sample_header (build_public_note_records sample_protocol sample_data)
     = Inr (False, sample_note_tracker)"
proof -
  let ?S = "state_sync_new sample_node (on_note_received sample_protocol sample_screener) None"
  let ?incl = "[(NoteId (Digest 6), sample_committed_note\<lparr>cn_note_id := NoteId (Digest 6)\<rparr>)]"
  let ?pubs = "build_public_note_records sample_protocol sample_data"
  have cb: "ss_note_screener ?S = on_note_received sample_protocol sample_screener"
    by (simp add: state_sync_new_def)
  have run: "note_state_sync sample_protocol ?S sample_note_tracker ?incl sample_header ?pubs =
      Inr (False, sample_note_tracker)"
    by (simp add: note_state_sync_def note_state_sync_step_def state_sync_new_def on_note_received_def
        sample_screener_def build_public_note_records_def sample_data_def bt_from_iter_def
        List.map_filter_def)
  have "NoteId (Digest 5) \<notin> cn_note_id ` set (bt_values ?incl)" by simp
  from screened_block_scope [OF cb run this] run show ?thesis by (simp add: sample_note_tracker_eq)
qed

end
