(* ===== verification/Smt_Forest.thy ===== *)
theory Smt_Forest
  imports Rpc_Domain
begin

text \<open>
  The reference-counted forest of account trees (\<open>AccountSmtForest\<close>, \<^verbatim>\<open>store/smt_forest.rs\<close>): the
  current roots of every account, the stacks of old roots kept for rollback, and the counts
  that decide when a tree may be dropped. The forest of trees itself belongs to the crypto
  crate and is an argument. The theory shows that the counts are exact, that no tree is
  dropped while an account or a rollback stack still refers to it, and that discarding undoes
  staging.
\<close>

section \<open>The forest of the crypto crate\<close>

record 'f smt_ops =
  smt_pop_smts :: "'f \<Rightarrow> digest list \<Rightarrow> 'f"
  smt_batch_insert :: "'f \<Rightarrow> digest \<Rightarrow> (digest \<times> digest) list \<Rightarrow> message + digest \<times> 'f"
  smt_with_entries :: "(digest \<times> digest) list \<Rightarrow> message + (digest \<times> digest) list"
  smt_empty_root :: digest
  smt_empty_word :: digest
  smt_key_hash :: "digest \<Rightarrow> digest"
  smt_live :: "'f \<Rightarrow> digest set"

text \<open>
  \<open>smt_live\<close> names the roots a forest can open; dropping some roots keeps all the others.
\<close>

definition pop_keeps_others :: "'f smt_ops \<Rightarrow> bool" where
  "pop_keeps_others S \<longleftrightarrow> (\<forall>f roots. smt_live S f - set roots \<subseteq> smt_live S (smt_pop_smts S f roots))"

text \<open>Vaults and storage as the key and value words of their trees.\<close>

record asset_vault =
  av_root :: digest
  av_assets :: "(digest \<times> digest) list"

record storage_map =
  sm_root :: digest
  sm_entries :: "(digest \<times> digest) list"

datatype storage_slot = ValueSlot digest | MapSlot storage_map

section \<open>Reference counts\<close>

type_synonym refcounts = "(digest, nat) btree_map"

definition increment_refcounts :: "digest list \<Rightarrow> refcounts \<Rightarrow> refcounts" where
  "increment_refcounts roots rc = fold (\<lambda>r. bt_upsert r Suc 1) roots rc"

text \<open>A count of zero is never stored, so the subtraction does not wrap.\<close>

fun decrement_refcounts :: "digest list \<Rightarrow> refcounts \<Rightarrow> digest list \<times> refcounts" where
  "decrement_refcounts [] rc = ([], rc)"
| "decrement_refcounts (r # roots) rc =
     (case bt_get rc r of
        None \<Rightarrow> decrement_refcounts roots rc
      | Some n \<Rightarrow>
          if n - 1 = 0
          then let (to_pop, rc') = decrement_refcounts roots (bt_remove r rc) in (r # to_pop, rc')
          else decrement_refcounts roots (bt_modify r (\<lambda>n. n - 1) rc))"

section \<open>The account forest\<close>

record 'f account_smt_forest =
  sf_forest :: 'f
  sf_account_roots :: "(account_id, digest list) btree_map"
  sf_pending_old_roots :: "(account_id, digest list list) btree_map"
  sf_root_refcounts :: refcounts

definition smt_forest_new :: "'f \<Rightarrow> 'f account_smt_forest" where
  "smt_forest_new f =
     \<lparr>sf_forest = f, sf_account_roots = [], sf_pending_old_roots = [], sf_root_refcounts = []\<rparr>"

definition get_roots :: "'f account_smt_forest \<Rightarrow> account_id \<Rightarrow> digest list option" where
  "get_roots F a = bt_get (sf_account_roots F) a"

definition safe_pop_smts :: "'f smt_ops \<Rightarrow> digest list \<Rightarrow> 'f account_smt_forest \<Rightarrow> 'f account_smt_forest" where
  "safe_pop_smts S roots F = F\<lparr>sf_forest := smt_pop_smts S (sf_forest F) roots\<rparr>"

text \<open>Decrement the counts of some roots and drop those that reached zero.\<close>

definition release_roots ::
  "'f smt_ops \<Rightarrow> digest list \<Rightarrow> 'f account_smt_forest \<Rightarrow> 'f account_smt_forest" where
  "release_roots S roots F =
     (let (to_pop, rc) = decrement_refcounts roots (sf_root_refcounts F)
      in safe_pop_smts S to_pop (F\<lparr>sf_root_refcounts := rc\<rparr>))"

definition stage_roots ::
  "account_id \<Rightarrow> digest list \<Rightarrow> 'f account_smt_forest \<Rightarrow> 'f account_smt_forest" where
  "stage_roots a new_roots F =
     (let F1 = F\<lparr>sf_root_refcounts := increment_refcounts new_roots (sf_root_refcounts F),
                sf_account_roots := bt_insert a new_roots (sf_account_roots F)\<rparr>
      in case bt_get (sf_account_roots F) a of
           Some old_roots \<Rightarrow>
             F1\<lparr>sf_pending_old_roots :=
                  bt_upsert a (\<lambda>st. st @ [old_roots]) [old_roots] (sf_pending_old_roots F)\<rparr>
         | None \<Rightarrow> F1)"

definition commit_roots :: "'f smt_ops \<Rightarrow> account_id \<Rightarrow> 'f account_smt_forest \<Rightarrow> 'f account_smt_forest" where
  "commit_roots S a F =
     (case bt_get (sf_pending_old_roots F) a of
        None \<Rightarrow> F
      | Some old_roots_stack \<Rightarrow>
          fold (release_roots S) old_roots_stack
            (F\<lparr>sf_pending_old_roots := bt_remove a (sf_pending_old_roots F)\<rparr>))"

definition discard_roots :: "'f smt_ops \<Rightarrow> account_id \<Rightarrow> 'f account_smt_forest \<Rightarrow> 'f account_smt_forest" where
  "discard_roots S a F =
     (let old_roots = (case bt_get (sf_pending_old_roots F) a of
                         None \<Rightarrow> None
                       | Some st \<Rightarrow> if st = [] then None else Some (last st));
          new_roots = bt_get (sf_account_roots F) a;
          F1 = F\<lparr>sf_pending_old_roots := bt_modify a butlast (sf_pending_old_roots F),
                sf_account_roots :=
                  (case old_roots of
                     Some old_roots \<Rightarrow> bt_insert a old_roots (sf_account_roots F)
                   | None \<Rightarrow> bt_remove a (sf_account_roots F))\<rparr>;
          F2 = (case new_roots of Some new_roots \<Rightarrow> release_roots S new_roots F1 | None \<Rightarrow> F1)
      in if bt_get (sf_pending_old_roots F2) a = Some []
         then F2\<lparr>sf_pending_old_roots := bt_remove a (sf_pending_old_roots F2)\<rparr> else F2)"

definition replace_roots ::
  "'f smt_ops \<Rightarrow> account_id \<Rightarrow> digest list \<Rightarrow> 'f account_smt_forest \<Rightarrow>
   client_error + 'f account_smt_forest" where
  "replace_roots S a new_roots F =
     (if bt_get (sf_pending_old_roots F) a \<noteq> None
      then Inl (Panicked ''cannot replace roots while staged changes are pending for account'')
      else
        let F1 = F\<lparr>sf_root_refcounts := increment_refcounts new_roots (sf_root_refcounts F),
                  sf_account_roots := bt_insert a new_roots (sf_account_roots F)\<rparr>
        in Inr (case bt_get (sf_account_roots F) a of
                  Some old_roots \<Rightarrow> release_roots S old_roots F1
                | None \<Rightarrow> F1))"

section \<open>Tree updates\<close>

text \<open>Every mutator batch-inserts entries into a tree of the forest, and does nothing without entries.\<close>

definition insert_entries ::
  "'f smt_ops \<Rightarrow> digest \<Rightarrow> (digest \<times> digest) list \<Rightarrow> 'f account_smt_forest \<Rightarrow>
   store_error + digest \<times> 'f account_smt_forest" where
  "insert_entries S root entries F =
     (if entries = [] then Inr (root, F)
      else and_then (map_err MerkleStoreError (smt_batch_insert S (sf_forest F) root entries))
             (\<lambda>(new_root, f). Inr (new_root, F\<lparr>sf_forest := f\<rparr>)))"

definition update_asset_nodes ::
  "'f smt_ops \<Rightarrow> digest \<Rightarrow> (digest \<times> digest) list \<Rightarrow> digest list \<Rightarrow> 'f account_smt_forest \<Rightarrow>
   store_error + digest \<times> 'f account_smt_forest" where
  "update_asset_nodes S root new_assets removed_vault_keys F =
     insert_entries S root (new_assets @ map (\<lambda>k. (k, smt_empty_word S)) removed_vault_keys) F"

definition update_storage_map_nodes ::
  "'f smt_ops \<Rightarrow> digest \<Rightarrow> (digest \<times> digest) list \<Rightarrow> 'f account_smt_forest \<Rightarrow>
   store_error + digest \<times> 'f account_smt_forest" where
  "update_storage_map_nodes S root entries F =
     insert_entries S root (map (\<lambda>(k, v). (smt_key_hash S k, v)) entries) F"

definition insert_asset_nodes ::
  "'f smt_ops \<Rightarrow> asset_vault \<Rightarrow> 'f account_smt_forest \<Rightarrow> store_error + 'f account_smt_forest" where
  "insert_asset_nodes S vault F =
     and_then (map_err MerkleStoreError (smt_with_entries S (av_assets vault))) (\<lambda>entries.
     and_then (insert_entries S (smt_empty_root S) entries F) (\<lambda>(_, F'). Inr F'))"

definition insert_storage_map_nodes_for_map ::
  "'f smt_ops \<Rightarrow> 'f account_smt_forest \<Rightarrow> storage_map \<Rightarrow> store_error + 'f account_smt_forest" where
  "insert_storage_map_nodes_for_map S F m =
     and_then (insert_entries S (smt_empty_root S) (map (\<lambda>(k, v). (smt_key_hash S k, v)) (sm_entries m)) F)
       (\<lambda>(_, F'). Inr F')"

definition storage_maps :: "storage_slot list \<Rightarrow> storage_map list" where
  "storage_maps slots =
     List.map_filter (\<lambda>slot. case slot of MapSlot m \<Rightarrow> Some m | ValueSlot _ \<Rightarrow> None) slots"

definition insert_storage_map_nodes ::
  "'f smt_ops \<Rightarrow> storage_slot list \<Rightarrow> 'f account_smt_forest \<Rightarrow> store_error + 'f account_smt_forest" where
  "insert_storage_map_nodes S storage F =
     try_fold (insert_storage_map_nodes_for_map S) F (storage_maps storage)"

definition insert_account_state ::
  "'f smt_ops \<Rightarrow> asset_vault \<Rightarrow> storage_slot list \<Rightarrow> 'f account_smt_forest \<Rightarrow>
   store_error + 'f account_smt_forest" where
  "insert_account_state S vault storage F =
     and_then (insert_storage_map_nodes S storage F) (insert_asset_nodes S vault)"

definition collect_account_roots :: "asset_vault \<Rightarrow> storage_slot list \<Rightarrow> digest list" where
  "collect_account_roots vault storage = av_root vault # map sm_root (storage_maps storage)"

definition insert_and_stage_account_state ::
  "'f smt_ops \<Rightarrow> account_id \<Rightarrow> asset_vault \<Rightarrow> storage_slot list \<Rightarrow> 'f account_smt_forest \<Rightarrow>
   store_error + 'f account_smt_forest" where
  "insert_and_stage_account_state S a vault storage F =
     and_then (insert_account_state S vault storage F) (\<lambda>F'.
       Inr (stage_roots a (collect_account_roots vault storage) F'))"

definition insert_and_register_account_state ::
  "'f smt_ops \<Rightarrow> account_id \<Rightarrow> asset_vault \<Rightarrow> storage_slot list \<Rightarrow> 'f account_smt_forest \<Rightarrow>
   client_error + 'f account_smt_forest" where
  "insert_and_register_account_state S a vault storage F =
     and_then (map_err StoreError (insert_account_state S vault storage F)) (\<lambda>F'.
       replace_roots S a (collect_account_roots vault storage) F')"

section \<open>Counting references\<close>

definition cnt :: "refcounts \<Rightarrow> digest \<Rightarrow> nat" where
  "cnt rc r = (case bt_get rc r of None \<Rightarrow> 0 | Some n \<Rightarrow> n)"

definition total :: "('v \<Rightarrow> nat) \<Rightarrow> ('k, 'v) btree_map \<Rightarrow> nat" where
  "total g m = sum_list (map g (bt_values m))"

text \<open>How often accounts and rollback stacks refer to a root.\<close>

definition refs :: "'f account_smt_forest \<Rightarrow> digest \<Rightarrow> nat" where
  "refs F r =
     total (\<lambda>roots. count_list roots r) (sf_account_roots F)
     + total (\<lambda>st. count_list (concat st) r) (sf_pending_old_roots F)"

definition refcounts_ok :: "refcounts \<Rightarrow> bool" where
  "refcounts_ok rc \<longleftrightarrow> bt_wf rc \<and> (\<forall>r. bt_get rc r \<noteq> Some 0)"

lemma total_simps [simp]: "total g [] = 0" "total g ((k, v) # m) = g v + total g m"
  by (simp_all add: total_def)

lemma total_insert:
  assumes "bt_wf m"
  shows "total g (bt_insert k v m) + (case bt_get m k of None \<Rightarrow> 0 | Some w \<Rightarrow> g w) = total g m + g v"
  using assms
proof (induction m)
  case (Cons p m)
  obtain k' v' where p: "p = (k', v')" by (cases p)
  show ?case
  proof (cases "k < k'")
    case True
    then have "k \<notin> fst ` set (p # m)" using Cons.prems by (auto simp: p bt_wf_Cons)
    then have "bt_get (p # m) k = None" by (simp add: map_of_eq_None_iff p)
    with True show ?thesis by (simp add: p)
  next
    case False
    then show ?thesis using Cons by (auto simp: p bt_wf_Cons split: option.splits)
  qed
qed simp

lemma bt_remove_absent: "bt_get m k = None \<Longrightarrow> bt_remove k m = m"
  by (induction m) (auto simp: bt_remove_def split: if_splits)

lemma bt_modify_absent: "bt_get m k = None \<Longrightarrow> bt_modify k f m = m"
  by (induction m) (auto simp: bt_modify_def split: if_splits)

lemma total_remove:
  assumes "bt_wf m"
  shows "total g (bt_remove k m) + (case bt_get m k of None \<Rightarrow> 0 | Some w \<Rightarrow> g w) = total g m"
  using assms
proof (induction m)
  case (Cons p m)
  obtain k' v' where p: "p = (k', v')" by (cases p)
  have wf: "bt_wf m" and fresh: "bt_get m k' = None"
    using Cons.prems by (auto simp: p bt_wf_Cons map_of_eq_None_iff)
  show ?case
  proof (cases "k = k'")
    case True
    then show ?thesis using bt_remove_absent [OF fresh] by (simp add: p bt_remove_def)
  next
    case False
    then show ?thesis using Cons.IH [OF wf] by (simp add: p bt_remove_def)
  qed
qed (simp add: bt_remove_def)

lemma total_modify:
  assumes "bt_wf m" and "bt_get m k = Some w"
  shows "total g (bt_modify k f m) + g w = total g m + g (f w)"
  using assms
proof (induction m)
  case (Cons p m)
  obtain k' v' where p: "p = (k', v')" by (cases p)
  have wf: "bt_wf m" and fresh: "bt_get m k' = None"
    using Cons.prems by (auto simp: p bt_wf_Cons map_of_eq_None_iff)
  show ?case
  proof (cases "k = k'")
    case True
    then show ?thesis using Cons.prems bt_modify_absent [OF fresh] by (auto simp: p bt_modify_def)
  next
    case False
    then show ?thesis using Cons.IH [OF wf] Cons.prems by (auto simp: p bt_modify_def)
  qed
qed simp

lemma count_list_concat_append [simp]:
  "count_list (concat (xs @ ys)) r = count_list (concat xs) r + count_list (concat ys) r"
  by simp

section \<open>Exact counts\<close>

lemma increment_refcounts_cnt:
  "cnt (increment_refcounts roots rc) r = cnt rc r + count_list roots r"
  by (induction roots arbitrary: rc)
    (auto simp: increment_refcounts_def cnt_def bt_get_upsert split: option.splits)

lemma increment_refcounts_ok: "refcounts_ok rc \<Longrightarrow> refcounts_ok (increment_refcounts roots rc)"
  by (induction roots arbitrary: rc)
    (auto simp: increment_refcounts_def refcounts_ok_def bt_get_upsert split: option.splits)

lemma decrement_step:
  assumes "refcounts_ok rc" and "bt_get rc r = Some n"
  defines "rc' \<equiv> if n - 1 = 0 then bt_remove r rc else bt_modify r (\<lambda>n. n - 1) rc"
  shows "refcounts_ok rc'" and "cnt rc' q = cnt rc q - (if q = r then 1 else 0)"
  using assms by (auto simp: refcounts_ok_def cnt_def split: option.splits)

lemma decrement_refcounts_Cons:
  "bt_get rc r = Some n \<Longrightarrow>
   decrement_refcounts (r # roots) rc =
     (let rc1 = (if n - 1 = 0 then bt_remove r rc else bt_modify r (\<lambda>n. n - 1) rc)
      in ((if n - 1 = 0 then [r] else []) @ fst (decrement_refcounts roots rc1),
          snd (decrement_refcounts roots rc1)))"
  by (simp add: Let_def case_prod_beta)

lemma decrement_refcounts_spec:
  assumes "refcounts_ok rc" and "\<And>q. count_list roots q \<le> cnt rc q"
  shows "refcounts_ok (snd (decrement_refcounts roots rc))
    \<and> (\<forall>q. cnt (snd (decrement_refcounts roots rc)) q = cnt rc q - count_list roots q)
    \<and> (\<forall>q \<in> set (fst (decrement_refcounts roots rc)). cnt rc q = count_list roots q)"
  using assms
proof (induction roots arbitrary: rc)
  case (Cons r roots)
  have "cnt rc r \<noteq> 0" using Cons.prems(2) [of r] by auto
  then obtain n where n: "bt_get rc r = Some n" "n \<noteq> 0" by (auto simp: cnt_def split: option.splits)
  define rc1 where "rc1 = (if n - 1 = 0 then bt_remove r rc else bt_modify r (\<lambda>n. n - 1) rc)"
  note step = decrement_step [OF Cons.prems(1) n(1), folded rc1_def]
  have bound: "count_list roots q \<le> cnt rc1 q" for q
    using Cons.prems(2) [of q] step(2) [of q] by (auto split: if_splits)
  note IH = Cons.IH [OF step(1) bound]
  have eq: "decrement_refcounts (r # roots) rc =
      ((if n - 1 = 0 then [r] else []) @ fst (decrement_refcounts roots rc1),
       snd (decrement_refcounts roots rc1))"
    using decrement_refcounts_Cons [OF n(1)] by (simp add: rc1_def Let_def)
  have popped: "cnt rc q = count_list (r # roots) q"
    if "q \<in> set (fst (decrement_refcounts roots rc1))" for q
    using IH that step(2) [of q] Cons.prems(2) [of q] by (auto split: if_splits)
  have first: "cnt rc r = count_list (r # roots) r" if "n - 1 = 0"
    using that n Cons.prems(2) [of r] by (simp add: cnt_def)
  show ?case
    unfolding eq using IH step(2) popped first by (auto split: if_splits)
qed simp

text \<open>
  The state of a forest between two steps of an operation: the counts are the references plus
  the roots that still have to be released.
\<close>

definition owes :: "digest list \<Rightarrow> 'f account_smt_forest \<Rightarrow> bool" where
  "owes X F \<longleftrightarrow> refcounts_ok (sf_root_refcounts F)
     \<and> (\<forall>r. cnt (sf_root_refcounts F) r = refs F r + count_list X r)"

definition stacks_ok :: "'f account_smt_forest \<Rightarrow> bool" where
  "stacks_ok F \<longleftrightarrow> bt_wf (sf_account_roots F) \<and> bt_wf (sf_pending_old_roots F)
     \<and> (\<forall>a st. bt_get (sf_pending_old_roots F) a = Some st \<longrightarrow>
          st \<noteq> [] \<and> bt_get (sf_account_roots F) a \<noteq> None)"

definition forest_inv :: "'f account_smt_forest \<Rightarrow> bool" where
  "forest_inv F \<longleftrightarrow> stacks_ok F \<and> owes [] F"

definition referenced_live :: "'f smt_ops \<Rightarrow> 'f account_smt_forest \<Rightarrow> bool" where
  "referenced_live S F \<longleftrightarrow> (\<forall>r. refs F r > 0 \<longrightarrow> r \<in> smt_live S (sf_forest F))"

lemma release_roots_maps [simp]:
  "sf_account_roots (release_roots S roots F) = sf_account_roots F"
  "sf_pending_old_roots (release_roots S roots F) = sf_pending_old_roots F"
  "refs (release_roots S roots F) r = refs F r"
  "stacks_ok (release_roots S roots F) = stacks_ok F"
  by (simp_all add: release_roots_def safe_pop_smts_def refs_def stacks_ok_def case_prod_beta)

lemma release_roots_owes:
  assumes "owes (roots @ X) F"
  shows "owes X (release_roots S roots F)"
proof -
  have "count_list roots r \<le> cnt (sf_root_refcounts F) r" for r
    using assms by (simp add: owes_def)
  note spec = decrement_refcounts_spec [OF _ this]
  have "sf_root_refcounts (release_roots S roots F) =
      snd (decrement_refcounts roots (sf_root_refcounts F))"
    by (simp add: release_roots_def safe_pop_smts_def case_prod_beta)
  with spec assms show ?thesis by (auto simp: owes_def)
qed

lemma release_roots_live:
  assumes "pop_keeps_others S" and "owes (roots @ X) F" and "referenced_live S F"
  shows "referenced_live S (release_roots S roots F)"
proof -
  have bound: "count_list roots r \<le> cnt (sf_root_refcounts F) r" for r
    using assms(2) by (simp add: owes_def)
  have popped: "refs F r = 0" if "r \<in> set (fst (decrement_refcounts roots (sf_root_refcounts F)))" for r
    using decrement_refcounts_spec [OF _ bound] assms(2) that by (auto simp: owes_def)
  have "sf_forest (release_roots S roots F) =
      smt_pop_smts S (sf_forest F) (fst (decrement_refcounts roots (sf_root_refcounts F)))"
    by (simp add: release_roots_def safe_pop_smts_def case_prod_beta)
  then show ?thesis
    using assms(1,3) popped unfolding referenced_live_def pop_keeps_others_def by force
qed

lemma release_stack:
  assumes "owes (concat stack) F"
  shows "owes [] (fold (release_roots S) stack F)"
  using assms
  by (induction stack arbitrary: F) (auto intro: release_roots_owes)

lemma release_stack_live:
  assumes "pop_keeps_others S" and "owes (concat stack) F" and "referenced_live S F"
  shows "referenced_live S (fold (release_roots S) stack F)"
  using assms(2,3)
  by (induction stack arbitrary: F) (auto intro: release_roots_owes release_roots_live [OF assms(1)])

lemma release_stack_maps [simp]:
  "sf_account_roots (fold (release_roots S) stack F) = sf_account_roots F"
  "sf_pending_old_roots (fold (release_roots S) stack F) = sf_pending_old_roots F"
  "stacks_ok (fold (release_roots S) stack F) = stacks_ok F"
  by (induction stack arbitrary: F) auto

section \<open>Every operation keeps the invariant\<close>

text \<open>Each operation first moves references around, and then releases what it owes.\<close>

definition old_roots_of :: "account_id \<Rightarrow> 'f account_smt_forest \<Rightarrow> digest list" where
  "old_roots_of a F = (case bt_get (sf_account_roots F) a of None \<Rightarrow> [] | Some old \<Rightarrow> old)"

lemma refs_insert_roots:
  assumes "stacks_ok F"
  shows "refs (F\<lparr>sf_account_roots := bt_insert a new (sf_account_roots F)\<rparr>) r + count_list (old_roots_of a F) r =
    refs F r + count_list new r"
  using total_insert [of "sf_account_roots F" "\<lambda>roots. count_list roots r" a new] assms
  by (auto simp: refs_def old_roots_of_def stacks_ok_def split: option.splits)

lemma refs_other_fields [simp]:
  "refs (F\<lparr>sf_root_refcounts := rc\<rparr>) r = refs F r"
  "refs (F\<lparr>sf_forest := f\<rparr>) r = refs F r"
  by (simp_all add: refs_def)

text \<open>Setting the roots of an account, with the counts raised: the old roots are owed.\<close>

abbreviation set_roots ::
  "account_id \<Rightarrow> digest list \<Rightarrow> 'f account_smt_forest \<Rightarrow> 'f account_smt_forest" where
  "set_roots a new F \<equiv>
     F\<lparr>sf_root_refcounts := increment_refcounts new (sf_root_refcounts F),
       sf_account_roots := bt_insert a new (sf_account_roots F)\<rparr>"

lemma refs_set_roots:
  "refs (set_roots a new F) r = refs (F\<lparr>sf_account_roots := bt_insert a new (sf_account_roots F)\<rparr>) r"
  by (simp add: refs_def)

lemma set_roots_owes:
  assumes "forest_inv F"
  shows "owes (old_roots_of a F) (set_roots a new F)"
proof -
  have "refs (set_roots a new F) r + count_list (old_roots_of a F) r = refs F r + count_list new r" for r
    unfolding refs_set_roots using assms by (intro refs_insert_roots) (simp add: forest_inv_def)
  then show ?thesis
    using assms by (simp add: forest_inv_def owes_def increment_refcounts_ok increment_refcounts_cnt)
qed

lemma set_roots_stacks: "stacks_ok F \<Longrightarrow> stacks_ok (set_roots a new F)"
  by (auto simp: stacks_ok_def)

lemma refs_push_pending:
  assumes "stacks_ok F"
  shows "refs (F\<lparr>sf_pending_old_roots := bt_upsert a (\<lambda>st. st @ [old]) [old] (sf_pending_old_roots F)\<rparr>) r =
    refs F r + count_list old r"
proof -
  let ?g = "\<lambda>st. count_list (concat st) r"
  have wf: "bt_wf (sf_pending_old_roots F)" using assms by (simp add: stacks_ok_def)
  have "total ?g (bt_upsert a (\<lambda>st. st @ [old]) [old] (sf_pending_old_roots F)) =
      total ?g (sf_pending_old_roots F) + count_list old r"
  proof (cases "bt_get (sf_pending_old_roots F) a")
    case None
    then show ?thesis using total_insert [OF wf, of ?g a "[old]"] by (simp add: bt_upsert_def)
  next
    case (Some st)
    then show ?thesis using total_modify [OF wf Some, of ?g "\<lambda>st. st @ [old]"] by (simp add: bt_upsert_def)
  qed
  then show ?thesis by (simp add: refs_def)
qed

lemma stage_roots_cases:
  "stage_roots a new F =
     (case bt_get (sf_account_roots F) a of
        Some old \<Rightarrow> (set_roots a new F)\<lparr>sf_pending_old_roots :=
          bt_upsert a (\<lambda>st. st @ [old]) [old] (sf_pending_old_roots (set_roots a new F))\<rparr>
      | None \<Rightarrow> set_roots a new F)"
  by (simp add: stage_roots_def Let_def split: option.split)

lemma stage_roots_inv:
  assumes "forest_inv F"
  shows "forest_inv (stage_roots a new F)"
proof (cases "bt_get (sf_account_roots F) a")
  case None
  then show ?thesis
    using set_roots_owes [OF assms, of a new] set_roots_stacks [of F a new] assms
    by (simp add: stage_roots_cases forest_inv_def old_roots_of_def)
next
  case (Some old)
  let ?F1 = "set_roots a new F"
  let ?F2 = "?F1\<lparr>sf_pending_old_roots := bt_upsert a (\<lambda>st. st @ [old]) [old] (sf_pending_old_roots ?F1)\<rparr>"
  have st: "stacks_ok ?F1" using assms by (intro set_roots_stacks) (simp add: forest_inv_def)
  have "refs ?F2 r = refs ?F1 r + count_list old r" for r
    by (rule refs_push_pending [OF st])
  moreover have "old_roots_of a F = old" by (simp add: old_roots_of_def Some)
  ultimately have "owes [] ?F2"
    using set_roots_owes [OF assms, of a new] by (simp add: owes_def)
  moreover have "stacks_ok ?F2"
    using assms by (auto simp: forest_inv_def stacks_ok_def bt_get_upsert split: option.splits)
  ultimately show ?thesis by (simp add: stage_roots_cases Some forest_inv_def)
qed

lemma replace_roots_inv:
  assumes "forest_inv F" and "replace_roots S a new F = Inr F'"
  shows "forest_inv F'"
proof -
  have "owes (old_roots_of a F @ []) (set_roots a new F)" using set_roots_owes [OF assms(1)] by simp
  then have "owes [] (release_roots S (old_roots_of a F) (set_roots a new F))"
    by (rule release_roots_owes)
  moreover have "owes [] (set_roots a new F)" if "bt_get (sf_account_roots F) a = None"
    using set_roots_owes [OF assms(1), of a new] that by (simp add: old_roots_of_def)
  ultimately show ?thesis
    using assms set_roots_stacks [of F a new]
    by (auto simp: replace_roots_def Let_def forest_inv_def old_roots_of_def split: if_splits option.splits)
qed

lemma commit_roots_owes:
  assumes "forest_inv F" and "bt_get (sf_pending_old_roots F) a = Some stack"
  shows "owes (concat stack) (F\<lparr>sf_pending_old_roots := bt_remove a (sf_pending_old_roots F)\<rparr>)"
    and "stacks_ok (F\<lparr>sf_pending_old_roots := bt_remove a (sf_pending_old_roots F)\<rparr>)"
proof -
  have wf: "bt_wf (sf_pending_old_roots F)" using assms(1) by (simp add: forest_inv_def stacks_ok_def)
  have "refs F r = refs (F\<lparr>sf_pending_old_roots := bt_remove a (sf_pending_old_roots F)\<rparr>) r
      + count_list (concat stack) r" for r
    using total_remove [OF wf, of "\<lambda>st. count_list (concat st) r" a] assms(2) by (simp add: refs_def)
  then show "owes (concat stack) (F\<lparr>sf_pending_old_roots := bt_remove a (sf_pending_old_roots F)\<rparr>)"
    using assms(1) by (simp add: forest_inv_def owes_def)
  show "stacks_ok (F\<lparr>sf_pending_old_roots := bt_remove a (sf_pending_old_roots F)\<rparr>)"
    using assms(1) by (auto simp: forest_inv_def stacks_ok_def)
qed

lemma commit_roots_inv:
  assumes "forest_inv F"
  shows "forest_inv (commit_roots S a F)"
proof (cases "bt_get (sf_pending_old_roots F) a")
  case None
  then show ?thesis using assms by (simp add: commit_roots_def)
next
  case (Some stack)
  show ?thesis
    using release_stack [OF commit_roots_owes(1) [OF assms Some]] commit_roots_owes(2) [OF assms Some]
    by (simp add: commit_roots_def Some forest_inv_def)
qed

text \<open>What discarding leaves before it releases the discarded roots.\<close>

definition popped_stack :: "account_id \<Rightarrow> (account_id, digest list list) btree_map \<Rightarrow>
  (account_id, digest list list) btree_map" where
  "popped_stack a m =
     (if bt_get (bt_modify a butlast m) a = Some [] then bt_remove a (bt_modify a butlast m)
      else bt_modify a butlast m)"

definition restored_roots ::
  "account_id \<Rightarrow> 'f account_smt_forest \<Rightarrow> (account_id, digest list) btree_map" where
  "restored_roots a F =
     (case bt_get (sf_pending_old_roots F) a of
        Some st \<Rightarrow> bt_insert a (last st) (sf_account_roots F)
      | None \<Rightarrow> bt_remove a (sf_account_roots F))"

abbreviation undone :: "account_id \<Rightarrow> 'f account_smt_forest \<Rightarrow> 'f account_smt_forest" where
  "undone a F \<equiv> F\<lparr>sf_pending_old_roots := popped_stack a (sf_pending_old_roots F),
     sf_account_roots := restored_roots a F\<rparr>"

lemma release_roots_pending_comm:
  "(release_roots S roots F)\<lparr>sf_pending_old_roots := p\<rparr> =
     release_roots S roots (F\<lparr>sf_pending_old_roots := p\<rparr>)"
  by (simp add: release_roots_def safe_pop_smts_def case_prod_beta)

lemma roots_pending_comm:
  "F\<lparr>sf_account_roots := x, sf_pending_old_roots := y\<rparr> = F\<lparr>sf_pending_old_roots := y, sf_account_roots := x\<rparr>"
  by (cases F) simp

lemma discard_roots_eq:
  assumes "stacks_ok F"
  shows "discard_roots S a F =
    (case bt_get (sf_account_roots F) a of
       Some new \<Rightarrow> release_roots S new (undone a F)
     | None \<Rightarrow> undone a F)"
proof -
  have "\<not> (\<exists>st. bt_get (sf_pending_old_roots F) a = Some st \<and> st = [])"
    using assms by (auto simp: stacks_ok_def)
  then show ?thesis
    by (cases "bt_get (sf_pending_old_roots F) a"; cases "bt_get (sf_account_roots F) a")
      (simp_all add: discard_roots_def Let_def popped_stack_def restored_roots_def
        release_roots_pending_comm roots_pending_comm)
qed

lemma total_popped_stack:
  assumes "bt_wf m" and "bt_get m a = Some st" and "st \<noteq> []"
  shows "total (\<lambda>st. count_list (concat st) r) (popped_stack a m) + count_list (last st) r =
    total (\<lambda>st. count_list (concat st) r) m"
proof -
  let ?g = "\<lambda>st. count_list (concat st) r"
  have g: "?g st = ?g (butlast st) + count_list (last st) r"
    using count_list_concat_append [of "butlast st" "[last st]" r] assms(3) by simp
  have modify: "total ?g (bt_modify a butlast m) + ?g st = total ?g m + ?g (butlast st)"
    by (rule total_modify [OF assms(1,2)])
  have "total ?g (bt_remove a (bt_modify a butlast m)) = total ?g (bt_modify a butlast m)"
    if "butlast st = []"
    using total_remove [of "bt_modify a butlast m" ?g a] assms(1,2) that by simp
  with g modify assms(2) show ?thesis by (auto simp: popped_stack_def)
qed

lemma discard_roots_owes:
  assumes "forest_inv F"
  shows "owes (old_roots_of a F) (undone a F)" and "stacks_ok (undone a F)"
proof -
  have st: "stacks_ok F" and wf: "bt_wf (sf_account_roots F)" "bt_wf (sf_pending_old_roots F)"
    using assms by (simp_all add: forest_inv_def stacks_ok_def)
  have "refs (undone a F) r + count_list (old_roots_of a F) r = refs F r" for r
  proof (cases "bt_get (sf_pending_old_roots F) a")
    case None
    then show ?thesis
      using total_remove [OF wf(1), of "\<lambda>roots. count_list roots r" a]
      by (auto simp: refs_def restored_roots_def popped_stack_def bt_modify_absent old_roots_of_def
          split: option.splits)
  next
    case (Some stack)
    then have "stack \<noteq> []" using st by (auto simp: stacks_ok_def)
    then show ?thesis
      using total_popped_stack [OF wf(2) Some, of r] Some
        total_insert [OF wf(1), of "\<lambda>roots. count_list roots r" a "last stack"]
      by (auto simp: refs_def restored_roots_def old_roots_of_def split: option.splits)
  qed
  then show "owes (old_roots_of a F) (undone a F)"
    using assms by (simp add: forest_inv_def owes_def)
  show "stacks_ok (undone a F)"
    using st by (auto simp: stacks_ok_def restored_roots_def popped_stack_def split: if_splits option.splits)
qed

lemma discard_roots_inv:
  assumes "forest_inv F"
  shows "forest_inv (discard_roots S a F)"
proof -
  have st: "stacks_ok F" using assms by (simp add: forest_inv_def)
  have "owes (old_roots_of a F @ []) (undone a F)" using discard_roots_owes(1) [OF assms] by simp
  then have "owes [] (release_roots S (old_roots_of a F) (undone a F))" by (rule release_roots_owes)
  then show ?thesis
    using discard_roots_owes [OF assms, of a]
    by (auto simp: discard_roots_eq [OF st] forest_inv_def old_roots_of_def split: option.splits)
qed

section \<open>Reachable forests and live roots\<close>

text \<open>Inserting into a tree keeps every root and adds the new one.\<close>

definition insert_keeps_live :: "'f smt_ops \<Rightarrow> bool" where
  "insert_keeps_live S \<longleftrightarrow> (\<forall>f root es r f'. smt_batch_insert S f root es = Inr (r, f') \<longrightarrow>
     insert r (smt_live S f) \<subseteq> smt_live S f')"

text \<open>The forests an account store can reach when it stages and registers only roots it holds.\<close>

inductive forest_reachable :: "'f smt_ops \<Rightarrow> 'f account_smt_forest \<Rightarrow> bool" for S where
  new: "forest_reachable S (smt_forest_new f)"
| insert: "forest_reachable S F \<Longrightarrow> insert_entries S root es F = Inr (r, F') \<Longrightarrow> forest_reachable S F'"
| stage: "forest_reachable S F \<Longrightarrow> set roots \<subseteq> smt_live S (sf_forest F) \<Longrightarrow>
    forest_reachable S (stage_roots a roots F)"
| commit: "forest_reachable S F \<Longrightarrow> forest_reachable S (commit_roots S a F)"
| discard: "forest_reachable S F \<Longrightarrow> forest_reachable S (discard_roots S a F)"
| replace: "forest_reachable S F \<Longrightarrow> set roots \<subseteq> smt_live S (sf_forest F) \<Longrightarrow>
    replace_roots S a roots F = Inr F' \<Longrightarrow> forest_reachable S F'"

inductive_cases forest_reachableE: "forest_reachable S F"

lemma forest_inv_new: "forest_inv (smt_forest_new f)"
  by (simp add: forest_inv_def stacks_ok_def owes_def refcounts_ok_def smt_forest_new_def refs_def cnt_def)

lemma insert_entries_roots:
  "insert_entries S root es F = Inr (r, F') \<Longrightarrow> \<exists>f. F' = F\<lparr>sf_forest := f\<rparr>
     \<and> (insert_keeps_live S \<longrightarrow> smt_live S (sf_forest F) \<subseteq> smt_live S f)"
  by (cases F)
    (fastforce simp: insert_entries_def and_then_Inr_conv insert_keeps_live_def split: if_splits)

lemma forest_inv_forest [simp]: "forest_inv (F\<lparr>sf_forest := f\<rparr>) = forest_inv F"
  by (simp add: forest_inv_def stacks_ok_def owes_def)

lemma forest_inv_reachable: "forest_reachable S F \<Longrightarrow> forest_inv F"
  by (induction rule: forest_reachable.induct)
    (auto dest: insert_entries_roots intro: forest_inv_new stage_roots_inv commit_roots_inv
      discard_roots_inv replace_roots_inv)

lemma referenced_live_mono:
  "referenced_live S F \<Longrightarrow> sf_forest F' = sf_forest F \<Longrightarrow> (\<And>r. refs F' r > 0 \<Longrightarrow> refs F r > 0) \<Longrightarrow>
     referenced_live S F'"
  by (auto simp: referenced_live_def)

lemma set_roots_live:
  assumes "forest_inv F" and "referenced_live S F" and "set new \<subseteq> smt_live S (sf_forest F)"
  shows "referenced_live S (set_roots a new F)"
proof -
  have eq: "refs (set_roots a new F) r + count_list (old_roots_of a F) r = refs F r + count_list new r" for r
    unfolding refs_set_roots using assms(1) by (intro refs_insert_roots) (simp add: forest_inv_def)
  have "r \<in> smt_live S (sf_forest F)" if "refs (set_roots a new F) r > 0" for r
  proof -
    have "refs F r > 0 \<or> count_list new r > 0" using eq [of r] that by linarith
    then show ?thesis
      using assms(2,3) count_notin [of r new] by (cases "r \<in> set new") (auto simp: referenced_live_def)
  qed
  then show ?thesis by (simp add: referenced_live_def)
qed

lemma stage_roots_live:
  assumes "forest_inv F" and "referenced_live S F" and "set new \<subseteq> smt_live S (sf_forest F)"
  shows "referenced_live S (stage_roots a new F)"
proof -
  have exact: "cnt (sf_root_refcounts G) r = refs G r" if "forest_inv G" for G :: "'a account_smt_forest" and r
    using that by (simp add: forest_inv_def owes_def)
  have forest: "sf_forest (stage_roots a new F) = sf_forest F"
    "sf_root_refcounts (stage_roots a new F) = increment_refcounts new (sf_root_refcounts F)"
    by (simp_all add: stage_roots_cases split: option.split)
  have "refs (stage_roots a new F) r = refs F r + count_list new r" for r
    using exact [OF stage_roots_inv [OF assms(1), of a new], of r] exact [OF assms(1), of r]
    by (simp add: forest(2) increment_refcounts_cnt)
  then have "refs F r > 0 \<or> r \<in> set new" if "refs (stage_roots a new F) r > 0" for r
    using that count_notin [of r new] by (cases "r \<in> set new") auto
  then show ?thesis using assms(2,3) forest(1) by (auto simp: referenced_live_def)
qed

lemma owed_refs_le: "owes X F \<Longrightarrow> owes [] G \<Longrightarrow> sf_root_refcounts F = sf_root_refcounts G \<Longrightarrow> refs F r \<le> refs G r"
  by (simp add: owes_def) (metis le_add1)

lemma commit_roots_live:
  assumes "pop_keeps_others S" and "forest_inv F" and "referenced_live S F"
  shows "referenced_live S (commit_roots S a F)"
proof (cases "bt_get (sf_pending_old_roots F) a")
  case None
  then show ?thesis using assms by (simp add: commit_roots_def)
next
  case (Some stack)
  let ?G = "F\<lparr>sf_pending_old_roots := bt_remove a (sf_pending_old_roots F)\<rparr>"
  note owes = commit_roots_owes(1) [OF assms(2) Some]
  have le: "refs ?G r \<le> refs F r" for r
    by (rule owed_refs_le [OF owes]) (use assms(2) in \<open>simp_all add: forest_inv_def\<close>)
  have "referenced_live S ?G"
    by (rule referenced_live_mono [OF assms(3)]) (use le in \<open>auto intro: less_le_trans\<close>)
  then show ?thesis
    using release_stack_live [OF assms(1) owes] by (simp add: commit_roots_def Some)
qed

lemma discard_roots_live:
  assumes "pop_keeps_others S" and "forest_inv F" and "referenced_live S F"
  shows "referenced_live S (discard_roots S a F)"
proof -
  have st: "stacks_ok F" using assms(2) by (simp add: forest_inv_def)
  note owes = discard_roots_owes(1) [OF assms(2), of a]
  have le: "refs (undone a F) r \<le> refs F r" for r
    by (rule owed_refs_le [OF owes]) (use assms(2) in \<open>simp_all add: forest_inv_def\<close>)
  have live: "referenced_live S (undone a F)"
    by (rule referenced_live_mono [OF assms(3)]) (use le in \<open>auto intro: less_le_trans\<close>)
  have "owes (old_roots_of a F @ []) (undone a F)" using owes by simp
  from release_roots_live [OF assms(1) this live] live show ?thesis
    by (auto simp: discard_roots_eq [OF st] old_roots_of_def split: option.splits)
qed

lemma replace_roots_live:
  assumes "pop_keeps_others S" and "forest_inv F" and "referenced_live S F"
    and "set new \<subseteq> smt_live S (sf_forest F)" and "replace_roots S a new F = Inr F'"
  shows "referenced_live S F'"
proof -
  note live = set_roots_live [OF assms(2-4), of a]
  have "owes (old_roots_of a F @ []) (set_roots a new F)" using set_roots_owes [OF assms(2)] by simp
  from release_roots_live [OF assms(1) this live] live assms(5) show ?thesis
    by (auto simp: replace_roots_def Let_def old_roots_of_def split: if_splits option.splits)
qed

lemma referenced_live_reachable:
  assumes "pop_keeps_others S" and "insert_keeps_live S" and "forest_reachable S F"
  shows "referenced_live S F"
  using assms(3)
proof (induction rule: forest_reachable.induct)
  case (new f)
  then show ?case by (simp add: referenced_live_def smt_forest_new_def refs_def)
next
  case (insert F root es r F')
  then obtain f where "F' = F\<lparr>sf_forest := f\<rparr>" "smt_live S (sf_forest F) \<subseteq> smt_live S f"
    using insert_entries_roots assms(2) by blast
  with insert.IH show ?case by (auto simp: referenced_live_def)
next
  case (stage F roots a)
  then show ?case by (blast intro: stage_roots_live forest_inv_reachable)
next
  case (commit F a)
  then show ?case by (blast intro: commit_roots_live assms(1) forest_inv_reachable)
next
  case (discard F a)
  then show ?case by (blast intro: discard_roots_live assms(1) forest_inv_reachable)
next
  case (replace F roots a F')
  then show ?case by (blast intro: replace_roots_live assms(1) forest_inv_reachable)
qed

section \<open>Rollback\<close>

lemma exact_lookup:
  assumes "forest_inv F"
  shows "bt_get (sf_root_refcounts F) r = (if refs F r = 0 then None else Some (refs F r))"
proof -
  have "cnt (sf_root_refcounts F) r = refs F r" "bt_get (sf_root_refcounts F) r \<noteq> Some 0"
    using assms by (simp_all add: forest_inv_def owes_def refcounts_ok_def)
  then show ?thesis by (auto simp: cnt_def split: option.splits)
qed

lemma same_maps_same_refcounts:
  assumes "forest_inv F" and "forest_inv G"
    and "sf_account_roots F = sf_account_roots G" and "sf_pending_old_roots F = sf_pending_old_roots G"
  shows "sf_root_refcounts F = sf_root_refcounts G"
proof (rule bt.iter_unique)
  show "bt_wf (sf_root_refcounts F)" "bt_wf (sf_root_refcounts G)"
    using assms(1,2) by (simp_all add: forest_inv_def owes_def refcounts_ok_def)
  have "refs F r = refs G r" for r using assms(3,4) by (simp add: refs_def)
  then show "bt_get (sf_root_refcounts F) = bt_get (sf_root_refcounts G)"
    using exact_lookup [OF assms(1)] exact_lookup [OF assms(2)] by (intro ext) simp
qed

lemma stage_discard_lookups:
  assumes "stacks_ok F" and "stacks_ok (stage_roots a new F)"
  shows "bt_get (sf_account_roots (discard_roots S a (stage_roots a new F))) b = bt_get (sf_account_roots F) b"
    and "bt_get (sf_pending_old_roots (discard_roots S a (stage_roots a new F))) b =
      bt_get (sf_pending_old_roots F) b"
proof -
  have fields: "sf_account_roots (discard_roots S a G) = restored_roots a G"
    "sf_pending_old_roots (discard_roots S a G) = popped_stack a (sf_pending_old_roots G)"
    if "stacks_ok G" for G
    using that by (simp_all add: discard_roots_eq split: option.split)
  have none: "bt_get (sf_pending_old_roots F) a = None" if "bt_get (sf_account_roots F) a = None"
    using assms(1) that unfolding stacks_ok_def by (metis option.exhaust)
  show "bt_get (sf_account_roots (discard_roots S a (stage_roots a new F))) b = bt_get (sf_account_roots F) b"
    using assms(1) unfolding fields [OF assms(2)]
    by (auto simp: restored_roots_def stage_roots_cases bt_get_upsert stacks_ok_def none
        split: option.splits)
  show "bt_get (sf_pending_old_roots (discard_roots S a (stage_roots a new F))) b =
      bt_get (sf_pending_old_roots F) b"
    using assms(1) unfolding fields [OF assms(2)]
    by (auto simp: popped_stack_def stage_roots_cases bt_get_upsert stacks_ok_def none
        split: option.splits)
qed

lemma stage_discard_maps:
  assumes "forest_inv F"
  shows "sf_account_roots (discard_roots S a (stage_roots a new F)) = sf_account_roots F"
    and "sf_pending_old_roots (discard_roots S a (stage_roots a new F)) = sf_pending_old_roots F"
proof -
  let ?G = "discard_roots S a (stage_roots a new F)"
  have inv: "forest_inv (stage_roots a new F)" "forest_inv ?G"
    using assms by (simp_all add: stage_roots_inv discard_roots_inv)
  note lookups = stage_discard_lookups [of F a new S]
  have st: "stacks_ok F" "stacks_ok (stage_roots a new F)" "stacks_ok ?G"
    using assms inv by (simp_all add: forest_inv_def)
  show "sf_account_roots ?G = sf_account_roots F"
    by (rule bt.iter_unique) (use st lookups in \<open>auto simp: stacks_ok_def\<close>)
  show "sf_pending_old_roots ?G = sf_pending_old_roots F"
    by (rule bt.iter_unique) (use st lookups in \<open>auto simp: stacks_ok_def\<close>)
qed

text \<open>A forest that is the set of its roots, and an account with one staged change.\<close>

definition sample_smt_ops :: "digest set smt_ops" where
  "sample_smt_ops =
     \<lparr>smt_pop_smts = (\<lambda>f roots. f - set roots),
      smt_batch_insert = (\<lambda>f root es. Inr (Digest (digest_raw root + length es),
        insert (Digest (digest_raw root + length es)) f)),
      smt_with_entries = Inr, smt_empty_root = Digest 0, smt_empty_word = Digest 0,
      smt_key_hash = (\<lambda>k. k), smt_live = (\<lambda>f. f)\<rparr>"

definition sample_forest :: "digest set account_smt_forest" where
  "sample_forest = smt_forest_new {Digest 1, Digest 2}"

lemma sample_smt_ops_ok: "pop_keeps_others sample_smt_ops \<and> insert_keeps_live sample_smt_ops"
  by (auto simp: sample_smt_ops_def pop_keeps_others_def insert_keeps_live_def)

lemma sample_forest_reachable:
  "forest_reachable sample_smt_ops
     (stage_roots (AccountId 1) [Digest 2] (stage_roots (AccountId 1) [Digest 1] sample_forest))"
proof -
  have "forest_reachable sample_smt_ops sample_forest"
    unfolding sample_forest_def by (rule forest_reachable.new)
  then show ?thesis
    by (intro forest_reachable.stage)
      (simp_all add: sample_forest_def sample_smt_ops_def smt_forest_new_def stage_roots_def)
qed

section \<open>Properties\<close>

text \<open>
  C14. Reference counts are exact: in every forest reached by inserting, staging, committing,
  discarding and replacing, the count stored for a root is the number of times the current
  roots of the accounts and the stacks of old roots refer to it, and a root nobody refers to
  has no count.
\<close>

theorem refcounts_exact:
  assumes "forest_reachable S F"
  shows "bt_get (sf_root_refcounts F) r = (if refs F r = 0 then None else Some (refs F r))"
  using assms by (intro exact_lookup forest_inv_reachable)

theorem refcounts_exact_witness:
  "bt_get (sf_root_refcounts
      (stage_roots (AccountId 1) [Digest 2] (stage_roots (AccountId 1) [Digest 1] sample_forest)))
     (Digest 1) = Some 1"
  using refcounts_exact [OF sample_forest_reachable, of "Digest 1"]
  by (simp add: refs_def stage_roots_def sample_forest_def smt_forest_new_def bt_upsert_def)

text \<open>
  C15. No tree is dropped while it is needed: in every reachable forest, each root an account
  currently has, and each root kept for a rollback, can still be opened.
\<close>

theorem referenced_roots_live:
  assumes "pop_keeps_others S" and "insert_keeps_live S" and "forest_reachable S F"
    and "refs F r > 0"
  shows "r \<in> smt_live S (sf_forest F)"
  using referenced_live_reachable [OF assms(1-3)] assms(4) by (simp add: referenced_live_def)

theorem referenced_roots_live_witness:
  "Digest 1 \<in> smt_live sample_smt_ops (sf_forest
     (stage_roots (AccountId 1) [Digest 2] (stage_roots (AccountId 1) [Digest 1] sample_forest)))"
  by (rule referenced_roots_live [OF conjunct1 [OF sample_smt_ops_ok] conjunct2 [OF sample_smt_ops_ok]
        sample_forest_reachable])
    (simp add: refs_def stage_roots_def sample_forest_def smt_forest_new_def bt_upsert_def)

text \<open>
  Discarding undoes staging: after staging new roots for an account and discarding them, the
  roots of every account, the rollback stacks and all reference counts are what they were.
\<close>

lemma discard_undoes_stage:
  assumes "forest_reachable S F"
  shows "sf_account_roots (discard_roots S a (stage_roots a new F)) = sf_account_roots F
    \<and> sf_pending_old_roots (discard_roots S a (stage_roots a new F)) = sf_pending_old_roots F
    \<and> sf_root_refcounts (discard_roots S a (stage_roots a new F)) = sf_root_refcounts F"
proof -
  have inv: "forest_inv F" using assms by (rule forest_inv_reachable)
  have inv': "forest_inv (discard_roots S a (stage_roots a new F))"
    using inv by (simp add: stage_roots_inv discard_roots_inv)
  note maps = stage_discard_maps [OF inv, of S a new]
  show ?thesis using maps same_maps_same_refcounts [OF inv' inv maps] by blast
qed

lemma discard_undoes_stage_witness:
  "sf_account_roots (discard_roots sample_smt_ops (AccountId 1)
     (stage_roots (AccountId 1) [Digest 1] (stage_roots (AccountId 1) [Digest 2]
       (stage_roots (AccountId 1) [Digest 1] sample_forest)))) = [(AccountId 1, [Digest 2])]"
proof -
  have roots: "sf_account_roots
      (stage_roots (AccountId 1) [Digest 2] (stage_roots (AccountId 1) [Digest 1] sample_forest)) =
    [(AccountId 1, [Digest 2])]"
    by (simp add: stage_roots_def sample_forest_def smt_forest_new_def)
  show ?thesis
    by (rule trans [OF conjunct1 [OF discard_undoes_stage [OF sample_forest_reachable]] roots])
qed

end
