(* ===== verification/Wire_Format.thy ===== *)
theory Wire_Format
  imports Rpc_Domain
begin

text \<open>
  The byte encodings of what the client keeps in its store: input note records with their nine
  states, output note states, and transaction details and statuses (the \<open>Serializable\<close> and
  \<open>Deserializable\<close> implementations beside those types). A writer is the bytes it appends, a
  reader takes bytes and returns the value and the rest. The encodings of the protocol
  crates' own types are arguments; what the client relies on is that each of them reads back
  what it wrote and leaves the rest.
\<close>

section \<open>Bytes\<close>

type_synonym bytes = "u8 list"

type_synonym 'a reader = "bytes \<Rightarrow> deserialization_error + 'a \<times> bytes"
type_synonym 'a codec = "('a \<Rightarrow> bytes) \<times> 'a reader"

fun read_u8 :: "u8 reader" where
  "read_u8 [] = Inl UnexpectedEOF"
| "read_u8 (b # bs) = Inr (b, bs)"

definition codec_ok :: "'a codec \<Rightarrow> bool" where
  "codec_ok c \<longleftrightarrow> (\<forall>x rest. snd c (fst c x @ rest) = Inr (x, rest))"

record codecs =
  c_metadata :: "note_metadata codec"
  c_metadata_option :: "note_metadata option codec"
  c_inclusion_proof :: "note_inclusion_proof codec"
  c_word :: "digest codec"
  c_word_list :: "digest list codec"
  c_block_number :: "block_number codec"
  c_tag_option :: "note_tag option codec"
  c_u64 :: "u64 codec"
  c_u64_option :: "u64 option codec"
  c_u32_option :: "u32 option codec"
  c_account_id :: "account_id codec"
  c_transaction_id :: "transaction_id codec"
  c_recipient :: "note_recipient codec"
  c_details :: "note_details codec"
  c_output_notes :: "raw_output_note list codec"

definition codecs_ok :: "codecs \<Rightarrow> bool" where
  "codecs_ok C \<longleftrightarrow>
     codec_ok (c_metadata C) \<and> codec_ok (c_metadata_option C) \<and> codec_ok (c_inclusion_proof C)
     \<and> codec_ok (c_word C) \<and> codec_ok (c_word_list C) \<and> codec_ok (c_block_number C)
     \<and> codec_ok (c_tag_option C) \<and> codec_ok (c_u64 C) \<and> codec_ok (c_u64_option C)
     \<and> codec_ok (c_u32_option C) \<and> codec_ok (c_account_id C) \<and> codec_ok (c_transaction_id C)
     \<and> codec_ok (c_recipient C) \<and> codec_ok (c_details C) \<and> codec_ok (c_output_notes C)"

section \<open>Input note states\<close>

definition submission_data_write :: "codecs \<Rightarrow> note_submission_data \<Rightarrow> bytes" where
  "submission_data_write C s =
     fst (c_u64_option C) (submitted_at s)
     @ fst (c_account_id C) (consumer_account s)
     @ fst (c_transaction_id C) (consumer_transaction s)"

definition submission_data_read :: "codecs \<Rightarrow> note_submission_data reader" where
  "submission_data_read C bs =
     and_then (snd (c_u64_option C) bs) (\<lambda>(a, bs).
     and_then (snd (c_account_id C) bs) (\<lambda>(b, bs).
     and_then (snd (c_transaction_id C) bs) (\<lambda>(c, bs).
     Inr (\<lparr>submitted_at = a, consumer_account = b, consumer_transaction = c\<rparr>, bs))))"

definition expected_write :: "codecs \<Rightarrow> expected_note_state \<Rightarrow> bytes" where
  "expected_write C s =
     fst (c_metadata_option C) (ex_metadata s)
     @ fst (c_block_number C) (ex_after_block_num s)
     @ fst (c_tag_option C) (ex_tag s)"

definition expected_read :: "codecs \<Rightarrow> expected_note_state reader" where
  "expected_read C bs =
     and_then (snd (c_metadata_option C) bs) (\<lambda>(a, bs).
     and_then (snd (c_block_number C) bs) (\<lambda>(b, bs).
     and_then (snd (c_tag_option C) bs) (\<lambda>(c, bs).
     Inr (\<lparr>ex_metadata = a, ex_after_block_num = b, ex_tag = c\<rparr>, bs))))"

definition unverified_write :: "codecs \<Rightarrow> unverified_note_state \<Rightarrow> bytes" where
  "unverified_write C s =
     fst (c_metadata C) (uv_metadata s)
     @ fst (c_inclusion_proof C) (uv_inclusion_proof s)"

definition unverified_read :: "codecs \<Rightarrow> unverified_note_state reader" where
  "unverified_read C bs =
     and_then (snd (c_metadata C) bs) (\<lambda>(a, bs).
     and_then (snd (c_inclusion_proof C) bs) (\<lambda>(b, bs).
     Inr (\<lparr>uv_metadata = a, uv_inclusion_proof = b\<rparr>, bs)))"

definition committed_write :: "codecs \<Rightarrow> committed_note_state \<Rightarrow> bytes" where
  "committed_write C s =
     fst (c_metadata C) (cm_metadata s)
     @ fst (c_inclusion_proof C) (cm_inclusion_proof s)
     @ fst (c_word C) (cm_block_note_root s)"

definition committed_read :: "codecs \<Rightarrow> committed_note_state reader" where
  "committed_read C bs =
     and_then (snd (c_metadata C) bs) (\<lambda>(a, bs).
     and_then (snd (c_inclusion_proof C) bs) (\<lambda>(b, bs).
     and_then (snd (c_word C) bs) (\<lambda>(c, bs).
     Inr (\<lparr>cm_metadata = a, cm_inclusion_proof = b, cm_block_note_root = c\<rparr>, bs))))"

definition invalid_write :: "codecs \<Rightarrow> invalid_note_state \<Rightarrow> bytes" where
  "invalid_write C s =
     fst (c_metadata C) (iv_metadata s)
     @ fst (c_inclusion_proof C) (iv_invalid_inclusion_proof s)
     @ fst (c_word C) (iv_block_note_root s)"

definition invalid_read :: "codecs \<Rightarrow> invalid_note_state reader" where
  "invalid_read C bs =
     and_then (snd (c_metadata C) bs) (\<lambda>(a, bs).
     and_then (snd (c_inclusion_proof C) bs) (\<lambda>(b, bs).
     and_then (snd (c_word C) bs) (\<lambda>(c, bs).
     Inr (\<lparr>iv_metadata = a, iv_invalid_inclusion_proof = b, iv_block_note_root = c\<rparr>, bs))))"

definition processing_authenticated_write :: "codecs \<Rightarrow> processing_authenticated_note_state \<Rightarrow> bytes" where
  "processing_authenticated_write C s =
     fst (c_metadata C) (pa_metadata s)
     @ fst (c_inclusion_proof C) (pa_inclusion_proof s)
     @ fst (c_word C) (pa_block_note_root s)
     @ submission_data_write C (pa_submission_data s)"

definition processing_authenticated_read :: "codecs \<Rightarrow> processing_authenticated_note_state reader" where
  "processing_authenticated_read C bs =
     and_then (snd (c_metadata C) bs) (\<lambda>(a, bs).
     and_then (snd (c_inclusion_proof C) bs) (\<lambda>(b, bs).
     and_then (snd (c_word C) bs) (\<lambda>(c, bs).
     and_then (submission_data_read C bs) (\<lambda>(d, bs).
     Inr (\<lparr>pa_metadata = a, pa_inclusion_proof = b, pa_block_note_root = c, pa_submission_data = d\<rparr>, bs)))))"

definition processing_unauthenticated_write :: "codecs \<Rightarrow> processing_unauthenticated_note_state \<Rightarrow> bytes" where
  "processing_unauthenticated_write C s =
     fst (c_metadata C) (pu_metadata s)
     @ fst (c_block_number C) (pu_after_block_num s)
     @ submission_data_write C (pu_submission_data s)"

definition processing_unauthenticated_read :: "codecs \<Rightarrow> processing_unauthenticated_note_state reader" where
  "processing_unauthenticated_read C bs =
     and_then (snd (c_metadata C) bs) (\<lambda>(a, bs).
     and_then (snd (c_block_number C) bs) (\<lambda>(b, bs).
     and_then (submission_data_read C bs) (\<lambda>(c, bs).
     Inr (\<lparr>pu_metadata = a, pu_after_block_num = b, pu_submission_data = c\<rparr>, bs))))"

definition consumed_authenticated_local_write :: "codecs \<Rightarrow> consumed_authenticated_local_note_state \<Rightarrow> bytes" where
  "consumed_authenticated_local_write C s =
     fst (c_metadata C) (ca_metadata s)
     @ fst (c_inclusion_proof C) (ca_inclusion_proof s)
     @ fst (c_word C) (ca_block_note_root s)
     @ fst (c_block_number C) (ca_nullifier_block_height s)
     @ submission_data_write C (ca_submission_data s)
     @ fst (c_u32_option C) (ca_consumed_tx_order s)"

definition consumed_authenticated_local_read :: "codecs \<Rightarrow> consumed_authenticated_local_note_state reader" where
  "consumed_authenticated_local_read C bs =
     and_then (snd (c_metadata C) bs) (\<lambda>(a, bs).
     and_then (snd (c_inclusion_proof C) bs) (\<lambda>(b, bs).
     and_then (snd (c_word C) bs) (\<lambda>(c, bs).
     and_then (snd (c_block_number C) bs) (\<lambda>(d, bs).
     and_then (submission_data_read C bs) (\<lambda>(e, bs).
     and_then (snd (c_u32_option C) bs) (\<lambda>(f, bs).
     Inr (\<lparr>ca_metadata = a, ca_inclusion_proof = b, ca_block_note_root = c, ca_nullifier_block_height = d, ca_submission_data = e, ca_consumed_tx_order = f\<rparr>, bs)))))))"

definition consumed_unauthenticated_local_write :: "codecs \<Rightarrow> consumed_unauthenticated_local_note_state \<Rightarrow> bytes" where
  "consumed_unauthenticated_local_write C s =
     fst (c_metadata C) (cu_metadata s)
     @ fst (c_block_number C) (cu_nullifier_block_height s)
     @ submission_data_write C (cu_submission_data s)
     @ fst (c_u32_option C) (cu_consumed_tx_order s)"

definition consumed_unauthenticated_local_read :: "codecs \<Rightarrow> consumed_unauthenticated_local_note_state reader" where
  "consumed_unauthenticated_local_read C bs =
     and_then (snd (c_metadata C) bs) (\<lambda>(a, bs).
     and_then (snd (c_block_number C) bs) (\<lambda>(b, bs).
     and_then (submission_data_read C bs) (\<lambda>(c, bs).
     and_then (snd (c_u32_option C) bs) (\<lambda>(d, bs).
     Inr (\<lparr>cu_metadata = a, cu_nullifier_block_height = b, cu_submission_data = c, cu_consumed_tx_order = d\<rparr>, bs)))))"

definition consumed_external_write :: "codecs \<Rightarrow> consumed_external_note_state \<Rightarrow> bytes" where
  "consumed_external_write C s =
     fst (c_block_number C) (ce_nullifier_block_height s)
     @ fst (c_u32_option C) (ce_consumed_tx_order s)"

definition consumed_external_read :: "codecs \<Rightarrow> consumed_external_note_state reader" where
  "consumed_external_read C bs =
     and_then (snd (c_block_number C) bs) (\<lambda>(a, bs).
     and_then (snd (c_u32_option C) bs) (\<lambda>(b, bs).
     Inr (\<lparr>ce_nullifier_block_height = a, ce_consumed_tx_order = b\<rparr>, bs)))"

fun input_note_state_body :: "codecs \<Rightarrow> input_note_state \<Rightarrow> bytes" where
  "input_note_state_body C (Expected s) = expected_write C s"
| "input_note_state_body C (Unverified s) = unverified_write C s"
| "input_note_state_body C (Committed s) = committed_write C s"
| "input_note_state_body C (Invalid s) = invalid_write C s"
| "input_note_state_body C (ProcessingAuthenticated s) = processing_authenticated_write C s"
| "input_note_state_body C (ProcessingUnauthenticated s) = processing_unauthenticated_write C s"
| "input_note_state_body C (ConsumedAuthenticatedLocal s) = consumed_authenticated_local_write C s"
| "input_note_state_body C (ConsumedUnauthenticatedLocal s) = consumed_unauthenticated_local_write C s"
| "input_note_state_body C (ConsumedExternal s) = consumed_external_write C s"

definition input_note_state_write :: "codecs \<Rightarrow> input_note_state \<Rightarrow> bytes" where
  "input_note_state_write C s = discriminant s # input_note_state_body C s"

definition input_note_state_read :: "codecs \<Rightarrow> input_note_state reader" where
  "input_note_state_read C bs =
     and_then (read_u8 bs) (\<lambda>(d, bs).
     if d = 0 then and_then (expected_read C bs) (\<lambda>(s, bs). Inr (Expected s, bs))
     else if d = 1 then and_then (unverified_read C bs) (\<lambda>(s, bs). Inr (Unverified s, bs))
     else if d = 2 then and_then (committed_read C bs) (\<lambda>(s, bs). Inr (Committed s, bs))
     else if d = 3 then and_then (invalid_read C bs) (\<lambda>(s, bs). Inr (Invalid s, bs))
     else if d = 4 then and_then (processing_authenticated_read C bs) (\<lambda>(s, bs). Inr (ProcessingAuthenticated s, bs))
     else if d = 5 then and_then (processing_unauthenticated_read C bs) (\<lambda>(s, bs). Inr (ProcessingUnauthenticated s, bs))
     else if d = 6 then and_then (consumed_authenticated_local_read C bs) (\<lambda>(s, bs). Inr (ConsumedAuthenticatedLocal s, bs))
     else if d = 7 then and_then (consumed_unauthenticated_local_read C bs) (\<lambda>(s, bs). Inr (ConsumedUnauthenticatedLocal s, bs))
     else if d = 8 then and_then (consumed_external_read C bs) (\<lambda>(s, bs). Inr (ConsumedExternal s, bs))
     else Inl (InvalidValue (''Invalid NoteState discriminant: '' @ decimal (unat d))))"

definition input_note_record_write :: "codecs \<Rightarrow> input_note_record \<Rightarrow> bytes" where
  "input_note_record_write C r =
     fst (c_details C) (inr_details r) @ fst (c_u64_option C) (inr_created_at r)
     @ input_note_state_write C (inr_state r)"

definition input_note_record_read :: "codecs \<Rightarrow> input_note_record reader" where
  "input_note_record_read C bs =
     and_then (snd (c_details C) bs) (\<lambda>(d, bs).
     and_then (snd (c_u64_option C) bs) (\<lambda>(c, bs).
     and_then (input_note_state_read C bs) (\<lambda>(s, bs).
     Inr (\<lparr>inr_details = d, inr_created_at = c, inr_state = s\<rparr>, bs))))"

section \<open>Output note states\<close>

fun output_note_state_write :: "codecs \<Rightarrow> output_note_state \<Rightarrow> bytes" where
  "output_note_state_write C ExpectedPartial = [output_discriminant ExpectedPartial]"
| "output_note_state_write C (ExpectedFull rc) =
     output_discriminant (ExpectedFull rc) # fst (c_recipient C) rc"
| "output_note_state_write C (CommittedPartial pr) =
     output_discriminant (CommittedPartial pr) # fst (c_inclusion_proof C) pr"
| "output_note_state_write C (CommittedFull rc pr) =
     output_discriminant (CommittedFull rc pr) # fst (c_recipient C) rc @ fst (c_inclusion_proof C) pr"
| "output_note_state_write C (OutputConsumed h rc) =
     output_discriminant (OutputConsumed h rc) # fst (c_block_number C) h @ fst (c_recipient C) rc"

definition output_note_state_read :: "codecs \<Rightarrow> output_note_state reader" where
  "output_note_state_read C bs =
     and_then (read_u8 bs) (\<lambda>(d, bs).
     if d = 0 then Inr (ExpectedPartial, bs)
     else if d = 1 then and_then (snd (c_recipient C) bs) (\<lambda>(rc, bs). Inr (ExpectedFull rc, bs))
     else if d = 2 then and_then (snd (c_inclusion_proof C) bs) (\<lambda>(pr, bs). Inr (CommittedPartial pr, bs))
     else if d = 3
     then and_then (snd (c_recipient C) bs) (\<lambda>(rc, bs).
          and_then (snd (c_inclusion_proof C) bs) (\<lambda>(pr, bs). Inr (CommittedFull rc pr, bs)))
     else if d = 4
     then and_then (snd (c_block_number C) bs) (\<lambda>(h, bs).
          and_then (snd (c_recipient C) bs) (\<lambda>(rc, bs). Inr (OutputConsumed h rc, bs)))
     else Inl (InvalidValue ''OutputNoteState''))"

section \<open>Transactions\<close>

fun discard_cause_write :: "discard_cause \<Rightarrow> bytes" where
  "discard_cause_write Expired = [0]"
| "discard_cause_write InputConsumed = [1]"
| "discard_cause_write DiscardedInitialState = [2]"
| "discard_cause_write Stale = [3]"

definition discard_cause_read :: "discard_cause reader" where
  "discard_cause_read bs =
     and_then (read_u8 bs) (\<lambda>(d, bs).
     if d = 0 then Inr (Expired, bs)
     else if d = 1 then Inr (InputConsumed, bs)
     else if d = 2 then Inr (DiscardedInitialState, bs)
     else if d = 3 then Inr (Stale, bs)
     else Inl (InvalidValue ''Invalid discard cause''))"

fun transaction_status_write :: "codecs \<Rightarrow> transaction_status \<Rightarrow> bytes" where
  "transaction_status_write C TxPending = [variant_as_u8 (status_variant TxPending)]"
| "transaction_status_write C (TxCommitted h ts) =
     variant_as_u8 (status_variant (TxCommitted h ts)) # fst (c_block_number C) h @ fst (c_u64 C) ts"
| "transaction_status_write C (TxDiscarded c) =
     variant_as_u8 (status_variant (TxDiscarded c)) # discard_cause_write c"

definition transaction_status_read :: "codecs \<Rightarrow> transaction_status reader" where
  "transaction_status_read C bs =
     and_then (read_u8 bs) (\<lambda>(d, bs).
     if d = variant_as_u8 PendingVariant then Inr (TxPending, bs)
     else if d = variant_as_u8 CommittedVariant
     then and_then (snd (c_block_number C) bs) (\<lambda>(h, bs).
          and_then (snd (c_u64 C) bs) (\<lambda>(ts, bs). Inr (TxCommitted h ts, bs)))
     else if d = variant_as_u8 DiscardedVariant
     then and_then (discard_cause_read bs) (\<lambda>(c, bs). Inr (TxDiscarded c, bs))
     else Inl (InvalidValue ''Invalid transaction status''))"

definition transaction_details_write :: "codecs \<Rightarrow> transaction_details \<Rightarrow> bytes" where
  "transaction_details_write C d =
     fst (c_account_id C) (td_account_id d)
     @ fst (c_word C) (td_init_account_state d)
     @ fst (c_word C) (td_final_account_state d)
     @ fst (c_word_list C) (td_input_note_nullifiers d)
     @ fst (c_output_notes C) (td_output_notes d)
     @ fst (c_block_number C) (td_block_num d)
     @ fst (c_block_number C) (td_submission_height d)
     @ fst (c_block_number C) (td_expiration_block_num d)
     @ fst (c_u64 C) (td_creation_timestamp d)"

definition transaction_details_read :: "codecs \<Rightarrow> transaction_details reader" where
  "transaction_details_read C bs =
     and_then (snd (c_account_id C) bs) (\<lambda>(a, bs).
     and_then (snd (c_word C) bs) (\<lambda>(b, bs).
     and_then (snd (c_word C) bs) (\<lambda>(c, bs).
     and_then (snd (c_word_list C) bs) (\<lambda>(d, bs).
     and_then (snd (c_output_notes C) bs) (\<lambda>(e, bs).
     and_then (snd (c_block_number C) bs) (\<lambda>(f, bs).
     and_then (snd (c_block_number C) bs) (\<lambda>(g, bs).
     and_then (snd (c_block_number C) bs) (\<lambda>(h, bs).
     and_then (snd (c_u64 C) bs) (\<lambda>(i, bs).
     Inr (\<lparr>td_account_id = a, td_init_account_state = b, td_final_account_state = c, td_input_note_nullifiers = d, td_output_notes = e, td_block_num = f, td_submission_height = g, td_expiration_block_num = h, td_creation_timestamp = i\<rparr>, bs))))))))))"

section \<open>Round trips\<close>

named_theorems wire \<open>reading back what was written\<close>

lemma codecs_read [wire]:
  assumes "codecs_ok C"
  shows "snd (c_metadata C) (fst (c_metadata C) a @ rest) = Inr (a, rest)"
    and "snd (c_metadata_option C) (fst (c_metadata_option C) b @ rest) = Inr (b, rest)"
    and "snd (c_inclusion_proof C) (fst (c_inclusion_proof C) c @ rest) = Inr (c, rest)"
    and "snd (c_word C) (fst (c_word C) d @ rest) = Inr (d, rest)"
    and "snd (c_word_list C) (fst (c_word_list C) e @ rest) = Inr (e, rest)"
    and "snd (c_block_number C) (fst (c_block_number C) f @ rest) = Inr (f, rest)"
    and "snd (c_tag_option C) (fst (c_tag_option C) g @ rest) = Inr (g, rest)"
    and "snd (c_u64 C) (fst (c_u64 C) h @ rest) = Inr (h, rest)"
    and "snd (c_u64_option C) (fst (c_u64_option C) i @ rest) = Inr (i, rest)"
    and "snd (c_u32_option C) (fst (c_u32_option C) j @ rest) = Inr (j, rest)"
    and "snd (c_account_id C) (fst (c_account_id C) k @ rest) = Inr (k, rest)"
    and "snd (c_transaction_id C) (fst (c_transaction_id C) l @ rest) = Inr (l, rest)"
    and "snd (c_recipient C) (fst (c_recipient C) m @ rest) = Inr (m, rest)"
    and "snd (c_details C) (fst (c_details C) n @ rest) = Inr (n, rest)"
    and "snd (c_output_notes C) (fst (c_output_notes C) p @ rest) = Inr (p, rest)"
  using assms by (simp_all add: codecs_ok_def codec_ok_def)

lemma submission_data_wire [wire]:
  "codecs_ok C \<Longrightarrow> submission_data_read C (submission_data_write C s @ rest) = Inr (s, rest)"
  by (simp add: submission_data_write_def submission_data_read_def wire)

lemma expected_wire [wire]:
  "codecs_ok C \<Longrightarrow> expected_read C (expected_write C s @ rest) = Inr (s, rest)"
  by (simp add: expected_write_def expected_read_def wire)

lemma unverified_wire [wire]:
  "codecs_ok C \<Longrightarrow> unverified_read C (unverified_write C s @ rest) = Inr (s, rest)"
  by (simp add: unverified_write_def unverified_read_def wire)

lemma committed_wire [wire]:
  "codecs_ok C \<Longrightarrow> committed_read C (committed_write C s @ rest) = Inr (s, rest)"
  by (simp add: committed_write_def committed_read_def wire)

lemma invalid_wire [wire]:
  "codecs_ok C \<Longrightarrow> invalid_read C (invalid_write C s @ rest) = Inr (s, rest)"
  by (simp add: invalid_write_def invalid_read_def wire)

lemma processing_authenticated_wire [wire]:
  "codecs_ok C \<Longrightarrow> processing_authenticated_read C (processing_authenticated_write C s @ rest) = Inr (s, rest)"
  by (simp add: processing_authenticated_write_def processing_authenticated_read_def wire)

lemma processing_unauthenticated_wire [wire]:
  "codecs_ok C \<Longrightarrow> processing_unauthenticated_read C (processing_unauthenticated_write C s @ rest) = Inr (s, rest)"
  by (simp add: processing_unauthenticated_write_def processing_unauthenticated_read_def wire)

lemma consumed_authenticated_local_wire [wire]:
  "codecs_ok C \<Longrightarrow> consumed_authenticated_local_read C (consumed_authenticated_local_write C s @ rest) = Inr (s, rest)"
  by (simp add: consumed_authenticated_local_write_def consumed_authenticated_local_read_def wire)

lemma consumed_unauthenticated_local_wire [wire]:
  "codecs_ok C \<Longrightarrow> consumed_unauthenticated_local_read C (consumed_unauthenticated_local_write C s @ rest) = Inr (s, rest)"
  by (simp add: consumed_unauthenticated_local_write_def consumed_unauthenticated_local_read_def wire)

lemma consumed_external_wire [wire]:
  "codecs_ok C \<Longrightarrow> consumed_external_read C (consumed_external_write C s @ rest) = Inr (s, rest)"
  by (simp add: consumed_external_write_def consumed_external_read_def wire)

lemma input_note_state_wire [wire]:
  "codecs_ok C \<Longrightarrow> input_note_state_read C (input_note_state_write C s @ rest) = Inr (s, rest)"
  by (cases s) (simp_all add: input_note_state_write_def input_note_state_read_def wire)

lemma output_note_state_wire [wire]:
  "codecs_ok C \<Longrightarrow> output_note_state_read C (output_note_state_write C s @ rest) = Inr (s, rest)"
  by (cases s) (simp_all add: output_note_state_read_def wire)

lemma discard_cause_wire [wire]: "discard_cause_read (discard_cause_write c @ rest) = Inr (c, rest)"
  by (cases c) (simp_all add: discard_cause_read_def)

lemma transaction_status_wire [wire]:
  "codecs_ok C \<Longrightarrow> transaction_status_read C (transaction_status_write C s @ rest) = Inr (s, rest)"
  by (cases s) (simp_all add: transaction_status_read_def wire)

lemma transaction_details_wire [wire]:
  "codecs_ok C \<Longrightarrow> transaction_details_read C (transaction_details_write C d @ rest) = Inr (d, rest)"
  by (simp add: transaction_details_write_def transaction_details_read_def wire)

section \<open>Codecs for evaluation\<close>

text \<open>Numbers in unary, and codecs built from them by pairing, listing and change of type.\<close>

fun sample_nat_read :: "nat reader" where
  "sample_nat_read [] = Inl UnexpectedEOF"
| "sample_nat_read (b # bs) =
     (if b = 0 then Inr (0, bs) else and_then (sample_nat_read bs) (\<lambda>(n, bs). Inr (Suc n, bs)))"

definition sample_nat :: "nat codec" where
  "sample_nat = (\<lambda>n. replicate n 1 @ [0], sample_nat_read)"

definition sample_via :: "('a \<Rightarrow> 'b) \<Rightarrow> ('b \<Rightarrow> 'a) \<Rightarrow> 'b codec \<Rightarrow> 'a codec" where
  "sample_via f g c = (\<lambda>x. fst c (f x), \<lambda>bs. and_then (snd c bs) (\<lambda>(y, bs). Inr (g y, bs)))"

definition sample_pair :: "'a codec \<Rightarrow> 'b codec \<Rightarrow> ('a \<times> 'b) codec" where
  "sample_pair c d = (\<lambda>(x, y). fst c x @ fst d y,
     \<lambda>bs. and_then (snd c bs) (\<lambda>(x, bs). and_then (snd d bs) (\<lambda>(y, bs). Inr ((x, y), bs))))"

fun sample_items_read :: "'a codec \<Rightarrow> nat \<Rightarrow> 'a list reader" where
  "sample_items_read c 0 bs = Inr ([], bs)"
| "sample_items_read c (Suc n) bs =
     and_then (snd c bs) (\<lambda>(x, bs). and_then (sample_items_read c n bs) (\<lambda>(xs, bs). Inr (x # xs, bs)))"

definition sample_list :: "'a codec \<Rightarrow> 'a list codec" where
  "sample_list c = (\<lambda>xs. fst sample_nat (length xs) @ concat (map (fst c) xs),
     \<lambda>bs. and_then (snd sample_nat bs) (\<lambda>(n, bs). sample_items_read c n bs))"

lemma sample_nat_ok: "codec_ok sample_nat"
proof -
  have "sample_nat_read (replicate n 1 @ 0 # rest) = Inr (n, rest)" for n rest
    by (induction n) auto
  then show ?thesis by (simp add: codec_ok_def sample_nat_def)
qed

lemma sample_via_ok: "codec_ok c \<Longrightarrow> (\<And>x. g (f x) = x) \<Longrightarrow> codec_ok (sample_via f g c)"
  by (simp add: codec_ok_def sample_via_def)

lemma sample_pair_ok: "codec_ok c \<Longrightarrow> codec_ok d \<Longrightarrow> codec_ok (sample_pair c d)"
  by (auto simp: codec_ok_def sample_pair_def)

lemma sample_list_ok:
  assumes "codec_ok c"
  shows "codec_ok (sample_list c)"
proof -
  have "sample_items_read c (length xs) (concat (map (fst c) xs) @ rest) = Inr (xs, rest)" for xs rest
    using assms by (induction xs) (auto simp: codec_ok_def)
  then show ?thesis using sample_nat_ok by (simp add: codec_ok_def sample_list_def)
qed

definition sample_option :: "'a codec \<Rightarrow> 'a option codec" where
  "sample_option c = sample_via (\<lambda>x. case x of None \<Rightarrow> [] | Some y \<Rightarrow> [y])
     (\<lambda>ys. case ys of [] \<Rightarrow> None | y # _ \<Rightarrow> Some y) (sample_list c)"

definition sample_word :: "'w::len word codec" where
  "sample_word = sample_via unat of_nat sample_nat"

definition sample_digest :: "digest codec" where
  "sample_digest = sample_via digest_raw Digest sample_nat"

definition sample_account_id :: "account_id codec" where
  "sample_account_id = sample_via account_id_raw AccountId sample_nat"

definition sample_bool :: "bool codec" where
  "sample_bool = sample_via (\<lambda>b. if b then 1 else 0) (\<lambda>n. n = 1) sample_nat"

definition sample_metadata_codec :: "note_metadata codec" where
  "sample_metadata_codec =
     sample_via (\<lambda>m. ((md_sender m, md_note_type m = PublicNote), (md_tag m, md_attachment m)))
       (\<lambda>((s, p), (t, a)). \<lparr>md_sender = s, md_note_type = (if p then PublicNote else PrivateNote),
          md_tag = t, md_attachment = a\<rparr>)
       (sample_pair (sample_pair sample_account_id
           sample_bool)
         (sample_pair sample_word sample_digest))"

definition sample_proof_codec :: "note_inclusion_proof codec" where
  "sample_proof_codec =
     sample_via (\<lambda>p. (ip_block_num p, (ip_block_note_tree_index p, ip_note_path p)))
       (\<lambda>(n, (i, ds)). \<lparr>ip_block_num = n, ip_block_note_tree_index = i, ip_note_path = ds\<rparr>)
       (sample_pair sample_word (sample_pair sample_word (sample_list sample_digest)))"

definition sample_recipient_codec :: "note_recipient codec" where
  "sample_recipient_codec =
     sample_via (\<lambda>r. (rc_serial_num r, (rc_script_root r, rc_storage_commitment r)))
       (\<lambda>(a, (b, c)). \<lparr>rc_serial_num = a, rc_script_root = b, rc_storage_commitment = c\<rparr>)
       (sample_pair sample_digest (sample_pair sample_digest sample_digest))"

definition sample_asset_codec :: "asset codec" where
  "sample_asset_codec =
     sample_via (\<lambda>x. case x of Fungible a n \<Rightarrow> (a, (Some n, None)) | NonFungible a d \<Rightarrow> (a, (None, Some d)))
       (\<lambda>(a, (n, d)). case n of Some n \<Rightarrow> Fungible a n | None \<Rightarrow> NonFungible a (the d))
       (sample_pair sample_account_id (sample_pair (sample_option sample_word) (sample_option sample_digest)))"

definition sample_details_codec :: "note_details codec" where
  "sample_details_codec =
     sample_via (\<lambda>d. (nd_assets d, nd_recipient d)) (\<lambda>(a, r). \<lparr>nd_assets = a, nd_recipient = r\<rparr>)
       (sample_pair (sample_list sample_asset_codec) sample_recipient_codec)"

definition sample_output_note_codec :: "raw_output_note codec" where
  "sample_output_note_codec =
     sample_via
       (\<lambda>x. case x of
          FullOutput n \<Rightarrow> (nt_metadata n, (nt_assets n, (Some (nt_recipient n), None)))
        | PartialOutput n \<Rightarrow> (pn_metadata n, (pn_assets n, (None, Some (pn_recipient_digest n)))))
       (\<lambda>(m, (a, (r, d))). case r of
          Some r \<Rightarrow> FullOutput \<lparr>nt_assets = a, nt_metadata = m, nt_recipient = r\<rparr>
        | None \<Rightarrow> PartialOutput \<lparr>pn_metadata = m, pn_recipient_digest = the d, pn_assets = a\<rparr>)
       (sample_pair sample_metadata_codec (sample_pair (sample_list sample_asset_codec)
         (sample_pair (sample_option sample_recipient_codec) (sample_option sample_digest))))"

lemma sample_option_ok: "codec_ok c \<Longrightarrow> codec_ok (sample_option c)"
  unfolding sample_option_def by (rule sample_via_ok) (auto simp: sample_list_ok split: option.split)

lemma sample_base_ok:
  "codec_ok sample_word" "codec_ok sample_digest" "codec_ok sample_account_id"
  unfolding sample_word_def sample_digest_def sample_account_id_def
  by (rule sample_via_ok, simp_all add: sample_nat_ok)+

lemma sample_bool_ok: "codec_ok sample_bool"
  unfolding sample_bool_def by (rule sample_via_ok) (simp_all add: sample_nat_ok)

lemmas sample_oks = sample_pair_ok sample_list_ok sample_option_ok sample_base_ok sample_bool_ok

lemma sample_metadata_ok: "codec_ok sample_metadata_codec"
  unfolding sample_metadata_codec_def
proof (rule sample_via_ok)
  fix m :: note_metadata
  show "(\<lambda>((s, p), (t, a)). \<lparr>md_sender = s, md_note_type = (if p then PublicNote else PrivateNote),
      md_tag = t, md_attachment = a\<rparr>)
    ((md_sender m, md_note_type m = PublicNote), (md_tag m, md_attachment m)) = m"
    by (cases m; cases "md_note_type m") auto
qed (simp add: sample_oks)

lemma sample_proof_ok: "codec_ok sample_proof_codec"
  unfolding sample_proof_codec_def by (rule sample_via_ok) (simp_all add: sample_oks)

lemma sample_recipient_ok: "codec_ok sample_recipient_codec"
  unfolding sample_recipient_codec_def by (rule sample_via_ok) (simp_all add: sample_oks)

lemma sample_asset_ok: "codec_ok sample_asset_codec"
  unfolding sample_asset_codec_def by (rule sample_via_ok) (simp_all add: sample_oks split: asset.split)

lemma sample_details_ok: "codec_ok sample_details_codec"
  unfolding sample_details_codec_def
  by (rule sample_via_ok) (simp_all add: sample_oks sample_asset_ok sample_recipient_ok)

lemma sample_output_note_ok: "codec_ok sample_output_note_codec"
  unfolding sample_output_note_codec_def
  by (rule sample_via_ok)
    (simp_all add: sample_oks sample_asset_ok sample_recipient_ok sample_metadata_ok
      split: raw_output_note.split)

definition sample_codecs :: codecs where
  "sample_codecs =
     \<lparr>c_metadata = sample_metadata_codec, c_metadata_option = sample_option sample_metadata_codec,
      c_inclusion_proof = sample_proof_codec, c_word = sample_digest,
      c_word_list = sample_list sample_digest, c_block_number = sample_word,
      c_tag_option = sample_option sample_word, c_u64 = sample_word,
      c_u64_option = sample_option sample_word, c_u32_option = sample_option sample_word,
      c_account_id = sample_account_id,
      c_transaction_id = sample_via transaction_id_word TransactionId sample_digest,
      c_recipient = sample_recipient_codec, c_details = sample_details_codec,
      c_output_notes = sample_list sample_output_note_codec\<rparr>"

lemma sample_codecs_ok: "codecs_ok sample_codecs"
  by (simp add: codecs_ok_def sample_codecs_def sample_oks sample_metadata_ok sample_proof_ok
      sample_recipient_ok sample_details_ok sample_output_note_ok sample_via_ok)

section \<open>What is accepted\<close>

definition ensures :: "('a \<Rightarrow> bool) \<Rightarrow> 'e + 'a \<Rightarrow> bool" where
  "ensures P r \<longleftrightarrow> (case r of Inl _ \<Rightarrow> True | Inr x \<Rightarrow> P x)"

lemma ensures_simps [simp]: "ensures P (Inl e)" "ensures P (Inr x) \<longleftrightarrow> P x"
  by (simp_all add: ensures_def)

lemma ensures_and_then: "(\<And>a b. ensures P (f (a, b))) \<Longrightarrow> ensures P (and_then r f)"
  by (cases r) auto

lemma ensures_if: "(c \<Longrightarrow> ensures P x) \<Longrightarrow> (\<not> c \<Longrightarrow> ensures P y) \<Longrightarrow> ensures P (if c then x else y)"
  by simp

lemma input_note_state_read_ensures:
  "ensures (\<lambda>(s, _). [b] = [discriminant s]) (input_note_state_read C (b # bs))"
  unfolding input_note_state_read_def read_u8.simps and_then.simps prod.case
  by (intro ensures_if ensures_and_then) simp_all

lemma output_note_state_read_ensures:
  "ensures (\<lambda>(s, _). [b] = [output_discriminant s]) (output_note_state_read C (b # bs))"
  unfolding output_note_state_read_def read_u8.simps and_then.simps prod.case
  by (rule ensures_if ensures_and_then | simp)+

lemma transaction_status_read_ensures:
  "ensures (\<lambda>(s, _). [b] = [variant_as_u8 (status_variant s)]) (transaction_status_read C (b # bs))"
  unfolding transaction_status_read_def read_u8.simps and_then.simps prod.case
  by (rule ensures_if ensures_and_then | simp)+

lemma discard_cause_read_ensures:
  "ensures (\<lambda>(c, _). [b] = discard_cause_write c) (discard_cause_read (b # bs))"
  by (simp add: discard_cause_read_def)

section \<open>Properties\<close>

text \<open>
  C21. Input note records survive storage: reading back an encoded record, whatever its state,
  gives the record and exactly the bytes that followed it.
\<close>

theorem input_note_record_roundtrip:
  assumes "codecs_ok C"
  shows "input_note_record_read C (input_note_record_write C r @ rest) = Inr (r, rest)"
  using assms by (simp add: input_note_record_write_def input_note_record_read_def wire)

theorem input_note_record_roundtrip_witness:
  "codecs_ok sample_codecs
   \<and> input_note_record_read sample_codecs (input_note_record_write sample_codecs sample_processing @ [7])
     = Inr (sample_processing, [7])"
  using input_note_record_roundtrip [OF sample_codecs_ok] sample_codecs_ok by blast

text \<open>
  Output note states, transaction details and transaction statuses survive storage in the
  same way.
\<close>

lemma output_and_transaction_roundtrip:
  assumes "codecs_ok C"
  shows "output_note_state_read C (output_note_state_write C os @ rest) = Inr (os, rest)
    \<and> transaction_details_read C (transaction_details_write C d @ rest) = Inr (d, rest)
    \<and> transaction_status_read C (transaction_status_write C ts @ rest) = Inr (ts, rest)"
  using assms by (simp add: wire)

lemma output_and_transaction_roundtrip_witness:
  "codecs_ok sample_codecs
   \<and> transaction_status_read sample_codecs
       (transaction_status_write sample_codecs (TxDiscarded Stale) @ [7]) = Inr (TxDiscarded Stale, [7])"
  using output_and_transaction_roundtrip [OF sample_codecs_ok] sample_codecs_ok by blast

text \<open>
  The tag decides the kind: whatever bytes are read, an accepted input note state, output note
  state, discard cause or transaction status is of the kind its first byte names, so a byte
  that is no known discriminant is never accepted.
\<close>

lemma accepted_tag_names_kind:
  "(case input_note_state_read C bs of Inl _ \<Rightarrow> True | Inr (s, _) \<Rightarrow> take 1 bs = [discriminant s])
   \<and> (case output_note_state_read C bs of Inl _ \<Rightarrow> True
      | Inr (s, _) \<Rightarrow> take 1 bs = [output_discriminant s])
   \<and> (case discard_cause_read bs of Inl _ \<Rightarrow> True | Inr (c, _) \<Rightarrow> take 1 bs = discard_cause_write c)
   \<and> (case transaction_status_read C bs of Inl _ \<Rightarrow> True
      | Inr (s, _) \<Rightarrow> take 1 bs = [variant_as_u8 (status_variant s)])"
proof (cases bs)
  case Nil
  then show ?thesis
    by (simp add: input_note_state_read_def output_note_state_read_def discard_cause_read_def
        transaction_status_read_def)
next
  case (Cons b rest)
  have first: "take 1 (b # rest) = [b]" by simp
  show ?thesis
    using input_note_state_read_ensures [of b C rest] output_note_state_read_ensures [of b C rest]
      discard_cause_read_ensures [of b rest] transaction_status_read_ensures [of b C rest]
    unfolding Cons first ensures_def by blast
qed

end
