(* ===== verification/Rpc_Conversions.thy ===== *)
theory Rpc_Conversions
  imports Rpc_Domain
begin

text \<open>
  The conversions between the messages of the node's protocol and the client's domain types
  (\<^verbatim>\<open>rpc/domain\<close>): digests, Merkle paths, block headers, notes, nullifiers, transactions, storage map
  and vault updates, and the request limits. A message has the fields the conversion reads; what the
  protocol crates do (building words and identifiers, reading bytes) is the argument \<open>wire_ops\<close>.
  The theory shows which messages are accepted, that conversions forth and back agree, and what a
  malformed note type does.
\<close>

section \<open>Conversion errors\<close>

text \<open>
  \<open>ConversionPanicked\<close> is the panic of an \<open>expect\<close> inside a conversion, not an error of the source.
\<close>

datatype rpc_conversion_error =
    ConvDeserializationError message
  | NotAValidFelt
  | NoteTypeError message
  | ConvMerkleError message
  | InvalidField string
  | ConvInvalidInt message
  | MissingFieldInProtobufRepresentation string string
  | ConversionPanicked string

fun conversion_display :: "rpc_conversion_error \<Rightarrow> string" where
  "conversion_display (ConvDeserializationError _) = ''failed to deserialize''"
| "conversion_display NotAValidFelt =
     ''invalid field element: value is outside the valid range (0..modulus, where modulus = 2^64 - 2^32 + 1)''"
| "conversion_display (NoteTypeError _) = ''invalid note type in node response''"
| "conversion_display (ConvMerkleError _) = ''merkle proof error in node response''"
| "conversion_display (InvalidField f) = ''invalid field in node response: '' @ f"
| "conversion_display (ConvInvalidInt _) = ''integer conversion failed in node response''"
| "conversion_display (MissingFieldInProtobufRepresentation e f) =
     ''field `'' @ f @ ''` expected to be present in protobuf representation of '' @ e"
| "conversion_display (ConversionPanicked s) = s"

text \<open>\<open>missing_field\<close> names the message type by its path in the generated module.\<close>

definition missing_field :: "string \<Rightarrow> string \<Rightarrow> rpc_conversion_error" where
  "missing_field entity field_name = MissingFieldInProtobufRepresentation entity field_name"

definition rpc_from_conversion :: "rpc_conversion_error \<Rightarrow> rpc_error" where
  "rpc_from_conversion err = DeserializationError (conversion_display err)"

section \<open>What the protocol crates provide\<close>

type_synonym u64_quad = "u64 \<times> u64 \<times> u64 \<times> u64"

record wire_ops =
  wo_word_new :: "u64_quad \<Rightarrow> digest"
  wo_word_elements :: "digest \<Rightarrow> u64_quad"
  wo_account_id_read :: "u8 list \<Rightarrow> message + account_id"
  wo_account_id_bytes :: "account_id \<Rightarrow> u8 list"
  wo_note_type :: "u64 \<Rightarrow> message + note_type"
  wo_note_type_code :: "note_type \<Rightarrow> int"
  wo_attachment_default :: digest
  wo_attachment_read :: "u8 list \<Rightarrow> message + digest"
  wo_attachment_bytes :: "digest \<Rightarrow> u8 list"
  wo_attachment_kind :: "u8 \<Rightarrow> message + u8"
  wo_attachment_kind_none :: u8
  wo_details_read :: "u8 list \<Rightarrow> message + note_details"
  wo_inclusion_proof_new ::
    "block_number \<Rightarrow> u16 \<Rightarrow> digest list \<Rightarrow> message + note_inclusion_proof"
  wo_public_key_read :: "u8 list \<Rightarrow> message + public_key"
  wo_public_key_bytes :: "public_key \<Rightarrow> u8 list"
  wo_fee_parameters_new :: "account_id \<Rightarrow> u32 \<Rightarrow> message + fee_parameters"
  wo_slot_name_new :: "string \<Rightarrow> message + string"
  wo_vault_key :: "digest \<Rightarrow> message + digest"
  wo_asset_from_words :: "digest \<Rightarrow> digest \<Rightarrow> message + asset"
  wo_asset_vault_key :: "asset \<Rightarrow> digest"
  wo_transaction_id :: "account_id \<Rightarrow> digest \<Rightarrow> digest \<Rightarrow> nullifier list \<Rightarrow> transaction_id"

text \<open>A required field: missing it is an error, otherwise it is converted.\<close>

definition required :: "string \<Rightarrow> string \<Rightarrow> ('a \<Rightarrow> rpc_conversion_error + 'b) \<Rightarrow> 'a option \<Rightarrow> rpc_conversion_error + 'b" where
  "required entity field conv v = and_then (ok_or (missing_field entity field) v) conv"

lemma required_simps [simp]:
  "required e f conv None = Inl (missing_field e f)" "required e f conv (Some x) = conv x"
  by (simp_all add: required_def)

section \<open>Digests (\<^verbatim>\<open>digest.rs\<close>)\<close>

record proto_digest =
  pd_d0 :: u64
  pd_d1 :: u64
  pd_d2 :: u64
  pd_d3 :: u64

text \<open>The order of the field, as the error text of \<open>NotAValidFelt\<close> gives it.\<close>

definition felt_order :: nat where
  "felt_order = 2 ^ 64 - 2 ^ 32 + 1"

definition hex_lower :: "nat \<Rightarrow> char" where
  "hex_lower k = ''0123456789abcdef'' ! k"

definition hex_upper :: "nat \<Rightarrow> char" where
  "hex_upper k = ''0123456789ABCDEF'' ! k"

definition u64_to_be_bytes :: "u64 \<Rightarrow> u8 list" where
  "u64_to_be_bytes w = map (\<lambda>i. ucast (drop_bit (8 * i) w)) [7, 6, 5, 4, 3, 2, 1, 0]"

definition encode_hex_with :: "(nat \<Rightarrow> char) \<Rightarrow> proto_digest \<Rightarrow> string" where
  "encode_hex_with digit d =
     concat (map (\<lambda>b. [digit (unat (drop_bit 4 b)), digit (unat (take_bit 4 b))])
       (concat (map u64_to_be_bytes [pd_d0 d, pd_d1 d, pd_d2 d, pd_d3 d])))"

definition encode_hex :: "proto_digest \<Rightarrow> string" where
  "encode_hex d = encode_hex_with hex_lower d"

definition encode_hex_upper :: "proto_digest \<Rightarrow> string" where
  "encode_hex_upper d = encode_hex_with hex_upper d"

definition digest_from_word :: "wire_ops \<Rightarrow> digest \<Rightarrow> proto_digest" where
  "digest_from_word W w =
     (case wo_word_elements W w of (a, b, c, d) \<Rightarrow>
        \<lparr>pd_d0 = a, pd_d1 = b, pd_d2 = c, pd_d3 = d\<rparr>)"

definition felts_try_from :: "proto_digest \<Rightarrow> rpc_conversion_error + u64_quad" where
  "felts_try_from value =
     (if list_all (\<lambda>v. unat v < felt_order) [pd_d0 value, pd_d1 value, pd_d2 value, pd_d3 value]
      then Inr (pd_d0 value, pd_d1 value, pd_d2 value, pd_d3 value)
      else Inl NotAValidFelt)"

definition word_try_from :: "wire_ops \<Rightarrow> proto_digest \<Rightarrow> rpc_conversion_error + digest" where
  "word_try_from W value = and_then (felts_try_from value) (\<lambda>felts. Inr (wo_word_new W felts))"

section \<open>Merkle paths (\<^verbatim>\<open>merkle.rs\<close>)\<close>

definition merkle_path_from :: "wire_ops \<Rightarrow> digest list \<Rightarrow> proto_digest list" where
  "merkle_path_from W nodes = map (digest_from_word W) nodes"

definition merkle_path_try_from :: "wire_ops \<Rightarrow> proto_digest list \<Rightarrow> rpc_conversion_error + digest list" where
  "merkle_path_try_from W siblings = try_map (word_try_from W) siblings"

section \<open>Account identifiers (\<^verbatim>\<open>account.rs\<close>)\<close>

definition account_id_from :: "wire_ops \<Rightarrow> account_id \<Rightarrow> u8 list" where
  "account_id_from W a = wo_account_id_bytes W a"

definition account_id_try_from :: "wire_ops \<Rightarrow> u8 list \<Rightarrow> rpc_conversion_error + account_id" where
  "account_id_try_from W bytes = map_err (\<lambda>_. NotAValidFelt) (wo_account_id_read W bytes)"

section \<open>Block headers (\<^verbatim>\<open>block.rs\<close>)\<close>

record proto_fee_parameters =
  pf_native_asset_id :: "u8 list option"
  pf_verification_base_fee :: u32

record proto_block_header =
  pb_version :: u32
  pb_prev_block_commitment :: "proto_digest option"
  pb_block_num :: u32
  pb_chain_commitment :: "proto_digest option"
  pb_account_root :: "proto_digest option"
  pb_nullifier_root :: "proto_digest option"
  pb_note_root :: "proto_digest option"
  pb_tx_commitment :: "proto_digest option"
  pb_validator_key :: "u8 list option"
  pb_tx_kernel_commitment :: "proto_digest option"
  pb_fee_parameters :: "proto_fee_parameters option"
  pb_timestamp :: u32

definition fee_parameters_from :: "wire_ops \<Rightarrow> fee_parameters \<Rightarrow> proto_fee_parameters" where
  "fee_parameters_from W fees =
     \<lparr>pf_native_asset_id = Some (account_id_from W (fp_native_asset_id fees)),
      pf_verification_base_fee = fp_verification_base_fee fees\<rparr>"

definition block_header_from :: "wire_ops \<Rightarrow> block_header \<Rightarrow> proto_block_header" where
  "block_header_from W h =
     \<lparr>pb_version = bh_version h,
      pb_prev_block_commitment = Some (digest_from_word W (bh_prev_commitment h)),
      pb_block_num = bh_block_num h,
      pb_chain_commitment = Some (digest_from_word W (bh_chain_commitment h)),
      pb_account_root = Some (digest_from_word W (bh_account_root h)),
      pb_nullifier_root = Some (digest_from_word W (bh_nullifier_root h)),
      pb_note_root = Some (digest_from_word W (bh_note_root h)),
      pb_tx_commitment = Some (digest_from_word W (bh_tx_commitment h)),
      pb_validator_key = Some (wo_public_key_bytes W (bh_validator_key h)),
      pb_tx_kernel_commitment = Some (digest_from_word W (bh_tx_kernel_commitment h)),
      pb_fee_parameters = Some (fee_parameters_from W (bh_fee_parameters h)),
      pb_timestamp = bh_timestamp h\<rparr>"

definition fee_parameters_try_from ::
  "wire_ops \<Rightarrow> proto_fee_parameters \<Rightarrow> rpc_conversion_error + fee_parameters" where
  "fee_parameters_try_from W v =
     and_then (required ''proto::blockchain::FeeParameters'' ''account_id'' (account_id_try_from W)
       (pf_native_asset_id v)) (\<lambda>account_id.
     map_err (\<lambda>_. InvalidField ''FeeParameter'')
       (wo_fee_parameters_new W account_id (pf_verification_base_fee v)))"

abbreviation header_field ::
  "wire_ops \<Rightarrow> string \<Rightarrow> proto_digest option \<Rightarrow> rpc_conversion_error + digest" where
  "header_field W f v \<equiv> required ''proto::blockchain::BlockHeader'' f (word_try_from W) v"

definition block_header_try_from ::
  "wire_ops \<Rightarrow> proto_block_header \<Rightarrow> rpc_conversion_error + block_header" where
  "block_header_try_from W v =
     and_then (ok_or (missing_field ''proto::blockchain::BlockHeader'' ''validator_key'')
       (pb_validator_key v)) (\<lambda>key_bytes.
     and_then (map_err ConvDeserializationError (wo_public_key_read W key_bytes)) (\<lambda>key.
     and_then (header_field W ''prev_block_commitment'' (pb_prev_block_commitment v)) (\<lambda>prev.
     and_then (header_field W ''chain_commitment'' (pb_chain_commitment v)) (\<lambda>chain.
     and_then (header_field W ''account_root'' (pb_account_root v)) (\<lambda>account.
     and_then (header_field W ''nullifier_root'' (pb_nullifier_root v)) (\<lambda>nullifier.
     and_then (header_field W ''note_root'' (pb_note_root v)) (\<lambda>noter.
     and_then (header_field W ''tx_commitment'' (pb_tx_commitment v)) (\<lambda>tx.
     and_then (header_field W ''tx_kernel_commitment'' (pb_tx_kernel_commitment v)) (\<lambda>kernel.
     and_then (required ''proto::blockchain::BlockHeader'' ''fee_parameters''
       (fee_parameters_try_from W) (pb_fee_parameters v)) (\<lambda>fees.
     Inr \<lparr>bh_version = pb_version v, bh_prev_commitment = prev, bh_block_num = pb_block_num v,
          bh_chain_commitment = chain, bh_account_root = account, bh_nullifier_root = nullifier,
          bh_note_root = noter, bh_tx_commitment = tx, bh_tx_kernel_commitment = kernel,
          bh_validator_key = key, bh_fee_parameters = fees, bh_timestamp = pb_timestamp v\<rparr>))))))))))"

section \<open>Notes (\<^verbatim>\<open>note.rs\<close>)\<close>

record proto_note_metadata =
  pm_sender :: "u8 list option"
  pm_note_type :: int
  pm_tag :: u32
  pm_attachment :: "u8 list"

record proto_inclusion_proof =
  pi_note_id :: "proto_digest option option"
  pi_block_num :: u32
  pi_note_index_in_block :: u32
  pi_inclusion_path :: "proto_digest list option"

text \<open>The message \<open>NoteId\<close> has one optional digest; so a note id is an option of an option.\<close>

definition note_id_from :: "wire_ops \<Rightarrow> note_id \<Rightarrow> proto_digest option" where
  "note_id_from W i = Some (digest_from_word W (note_id_word i))"

definition note_id_try_from :: "wire_ops \<Rightarrow> proto_digest option \<Rightarrow> rpc_conversion_error + note_id" where
  "note_id_try_from W v =
     and_then (required ''proto::note::NoteId'' ''id'' (word_try_from W) v) (\<lambda>word. Inr (NoteId word))"

text \<open>A negative number does not fit the unsigned type and the \<open>expect\<close> panics.\<close>

definition note_type_try_from :: "wire_ops \<Rightarrow> int \<Rightarrow> rpc_conversion_error + note_type" where
  "note_type_try_from W code =
     (if code < 0 then Inl (ConversionPanicked ''invalid note type'')
      else map_err NoteTypeError (wo_note_type W (of_int code)))"

definition note_metadata_try_from ::
  "wire_ops \<Rightarrow> proto_note_metadata \<Rightarrow> rpc_conversion_error + note_metadata" where
  "note_metadata_try_from W v =
     and_then (required ''proto::note::NoteMetadata'' ''sender'' (account_id_try_from W) (pm_sender v)) (\<lambda>sender.
     and_then (note_type_try_from W (pm_note_type v)) (\<lambda>ty.
     and_then (if pm_attachment v = [] then Inr (wo_attachment_default W)
               else map_err ConvDeserializationError (wo_attachment_read W (pm_attachment v))) (\<lambda>attachment.
     Inr \<lparr>md_sender = sender, md_note_type = ty, md_tag = pm_tag v, md_attachment = attachment\<rparr>)))"

definition note_metadata_from :: "wire_ops \<Rightarrow> note_metadata \<Rightarrow> proto_note_metadata" where
  "note_metadata_from W m =
     \<lparr>pm_sender = Some (account_id_from W (md_sender m)),
      pm_note_type = wo_note_type_code W (md_note_type m),
      pm_tag = md_tag m,
      pm_attachment = wo_attachment_bytes W (md_attachment m)\<rparr>"

definition note_header_try_from ::
  "wire_ops \<Rightarrow> proto_digest option option \<times> proto_note_metadata option \<Rightarrow>
   rpc_conversion_error + note_id \<times> note_metadata" where
  "note_header_try_from W = (\<lambda>(i, m).
     and_then (required ''proto::note::NoteHeader'' ''note_id'' (note_id_try_from W) i) (\<lambda>id.
     and_then (required ''proto::note::NoteHeader'' ''metadata'' (note_metadata_try_from W) m) (\<lambda>md.
     Inr (id, md))))"

definition inclusion_proof_try_from ::
  "wire_ops \<Rightarrow> proto_inclusion_proof \<Rightarrow> rpc_conversion_error + note_inclusion_proof" where
  "inclusion_proof_try_from W v =
     and_then (if unat (pi_note_index_in_block v) < 2 ^ 16
               then Inr (ucast (pi_note_index_in_block v))
               else Inl (InvalidField ''NoteIndexInBlock'')) (\<lambda>index.
     and_then (required ''proto::note::NoteInclusionInBlockProof'' ''inclusion_path''
       (merkle_path_try_from W) (pi_inclusion_path v)) (\<lambda>path.
     map_err NoteTypeError (wo_inclusion_proof_new W (pi_block_num v) index path)))"

record proto_metadata_header =
  ph_sender :: "u8 list option"
  ph_note_type :: int
  ph_tag :: u32
  ph_attachment_kind :: int

record proto_note_sync_record =
  ps_metadata_header :: "proto_metadata_header option"
  ps_inclusion_proof :: "proto_inclusion_proof option"

definition attachment_kind_try_from :: "wire_ops \<Rightarrow> int \<Rightarrow> u8" where
  "attachment_kind_try_from W k =
     (if 0 \<le> k \<and> k < 256
      then (case wo_attachment_kind W (of_int k) of Inr kind \<Rightarrow> kind | Inl _ \<Rightarrow> wo_attachment_kind_none W)
      else wo_attachment_kind_none W)"

abbreviation sync_notes_field ::
  "string \<Rightarrow> ('a \<Rightarrow> rpc_conversion_error + 'b) \<Rightarrow> 'a option \<Rightarrow> rpc_conversion_error + 'b" where
  "sync_notes_field f conv v \<equiv> required ''proto::rpc::SyncNotesResponse'' f conv v"

definition committed_note_try_from ::
  "wire_ops \<Rightarrow> proto_note_sync_record \<Rightarrow> rpc_conversion_error + committed_note" where
  "committed_note_try_from W v =
     and_then (ok_or (missing_field ''proto::rpc::SyncNotesResponse'' ''notes.metadata_header'')
       (ps_metadata_header v)) (\<lambda>hdr.
     and_then (sync_notes_field ''notes.metadata_header.sender'' (account_id_try_from W) (ph_sender hdr)) (\<lambda>sender.
     and_then (note_type_try_from W (ph_note_type hdr)) (\<lambda>ty.
     let kind = attachment_kind_try_from W (ph_attachment_kind hdr);
         metadata = (if kind = wo_attachment_kind_none W
                     then FullMetadata \<lparr>md_sender = sender, md_note_type = ty, md_tag = ph_tag hdr,
                                        md_attachment = wo_attachment_default W\<rparr>
                     else HeaderMetadata sender ty (ph_tag hdr) kind)
     in and_then (ok_or (missing_field ''proto::rpc::SyncNotesResponse'' ''notes.inclusion_proof'')
          (ps_inclusion_proof v)) (\<lambda>proof.
        and_then (sync_notes_field ''notes.inclusion_proof.note_id'' (note_id_try_from W) (pi_note_id proof)) (\<lambda>id.
        and_then (inclusion_proof_try_from W proof) (\<lambda>ip.
        Inr \<lparr>cn_note_id = id, cn_committed_metadata = metadata, cn_inclusion_proof = ip\<rparr>))))))"

record note_sync_info =
  nsi_chain_tip :: block_number
  nsi_block_to :: block_number
  nsi_blocks :: "note_sync_block list"

record pagination_info =
  pg_chain_tip :: u32
  pg_block_num :: u32

record proto_note_sync_block =
  pk_block_header :: "proto_block_header option"
  pk_mmr_path :: "proto_digest list option"
  pk_notes :: "proto_note_sync_record list"

record proto_sync_notes_response =
  pr_pagination_info :: "pagination_info option"
  pr_blocks :: "proto_note_sync_block list"

definition note_sync_block_try_from ::
  "wire_ops \<Rightarrow> proto_note_sync_block \<Rightarrow> rpc_conversion_error + note_sync_block" where
  "note_sync_block_try_from W b =
     and_then (sync_notes_field ''blocks.block_header'' (block_header_try_from W) (pk_block_header b)) (\<lambda>hdr.
     and_then (sync_notes_field ''blocks.mmr_path'' (merkle_path_try_from W) (pk_mmr_path b)) (\<lambda>path.
     and_then (try_map (committed_note_try_from W) (pk_notes b)) (\<lambda>ns.
     Inr \<lparr>nsb_block_header = hdr, nsb_mmr_path = path,
          nsb_notes = bt_from_iter (map (\<lambda>n. (cn_note_id n, n)) ns)\<rparr>)))"

definition note_sync_info_try_from ::
  "wire_ops \<Rightarrow> proto_sync_notes_response \<Rightarrow> rpc_error + note_sync_info" where
  "note_sync_info_try_from W v =
     map_err rpc_from_conversion
       (and_then (ok_or (missing_field ''proto::rpc::SyncNotesResponse'' ''pagination_info'')
          (pr_pagination_info v)) (\<lambda>page.
        and_then (try_map (note_sync_block_try_from W) (pr_blocks v)) (\<lambda>blocks.
        Inr \<lparr>nsi_chain_tip = pg_chain_tip page, nsi_block_to = pg_block_num page, nsi_blocks = blocks\<rparr>)))"

datatype fetched_note =
    FetchedPrivate note_id note_metadata note_inclusion_proof
  | FetchedPublic full_note note_inclusion_proof

fun fetched_inclusion_proof :: "fetched_note \<Rightarrow> note_inclusion_proof" where
  "fetched_inclusion_proof (FetchedPrivate _ _ ip) = ip"
| "fetched_inclusion_proof (FetchedPublic _ ip) = ip"

fun fetched_metadata :: "fetched_note \<Rightarrow> note_metadata" where
  "fetched_metadata (FetchedPrivate _ m _) = m"
| "fetched_metadata (FetchedPublic n _) = nt_metadata n"

fun fetched_id :: "protocol \<Rightarrow> fetched_note \<Rightarrow> note_id" where
  "fetched_id P (FetchedPrivate i _ _) = i"
| "fetched_id P (FetchedPublic n _) = note_get_id P n"

record proto_note =
  pn_metadata_msg :: "proto_note_metadata option"
  pn_details_msg :: "u8 list option"

record proto_committed_note =
  pc_inclusion_proof :: "proto_inclusion_proof option"
  pc_note :: "proto_note option"

definition fetched_note_try_from ::
  "wire_ops \<Rightarrow> proto_committed_note \<Rightarrow> rpc_conversion_error + fetched_note" where
  "fetched_note_try_from W v =
     and_then (ok_or (missing_field ''proto::note::CommittedNote'' ''inclusion_proof'')
       (pc_inclusion_proof v)) (\<lambda>proof.
     and_then (required ''proto::note::CommittedNote'' ''inclusion_proof.note_id''
       (note_id_try_from W) (pi_note_id proof)) (\<lambda>id.
     and_then (inclusion_proof_try_from W proof) (\<lambda>ip.
     and_then (ok_or (missing_field ''proto::note::CommittedNote'' ''note'') (pc_note v)) (\<lambda>n.
     and_then (required ''proto::note::CommittedNote'' ''note.metadata''
       (note_metadata_try_from W) (pn_metadata_msg n)) (\<lambda>metadata.
     case pn_details_msg n of
       Some bytes \<Rightarrow>
         and_then (map_err ConvDeserializationError (wo_details_read W bytes)) (\<lambda>details.
         Inr (FetchedPublic \<lparr>nt_assets = nd_assets details, nt_metadata = metadata,
                             nt_recipient = nd_recipient details\<rparr> ip))
     | None \<Rightarrow> Inr (FetchedPrivate id metadata ip))))))"

section \<open>Nullifiers, transactions and updates\<close>

definition nullifier_try_from :: "wire_ops \<Rightarrow> proto_digest \<Rightarrow> rpc_conversion_error + nullifier" where
  "nullifier_try_from W v = and_then (word_try_from W v) (\<lambda>word. Inr (Nullifier word))"

record proto_nullifier_update =
  pu_nullifier :: "proto_digest option"
  pu_block_num :: u32

definition nullifier_update_try_from ::
  "wire_ops \<Rightarrow> proto_nullifier_update \<Rightarrow> rpc_conversion_error + nullifier_update" where
  "nullifier_update_try_from W v =
     and_then (required ''proto::rpc::sync_nullifiers_response::NullifierUpdate'' ''nullifier''
       (nullifier_try_from W) (pu_nullifier v)) (\<lambda>nf.
     Inr \<lparr>nu_nullifier = nf, nu_block_num = pu_block_num v\<rparr>)"

definition transaction_id_try_from ::
  "wire_ops \<Rightarrow> proto_digest option \<Rightarrow> rpc_conversion_error + transaction_id" where
  "transaction_id_try_from W v =
     and_then (required ''TransactionId'' ''id'' (word_try_from W) v) (\<lambda>word. Inr (TransactionId word))"

definition transaction_id_from :: "wire_ops \<Rightarrow> transaction_id \<Rightarrow> proto_digest option" where
  "transaction_id_from W t = Some (digest_from_word W (transaction_id_word t))"

record proto_transaction_header =
  pt_account_id :: "u8 list option"
  pt_initial_state_commitment :: "proto_digest option"
  pt_final_state_commitment :: "proto_digest option"
  pt_input_nullifiers :: "proto_digest option list"
  pt_output_notes :: "(proto_digest option option \<times> proto_note_metadata option) list"

text \<open>
  The identifier of a transaction header is computed by the protocol crate from its parts; the
  output notes and the fee are not read by the client.
\<close>

definition input_nullifier_try_from :: "wire_ops \<Rightarrow> proto_digest option \<Rightarrow> rpc_error + nullifier" where
  "input_nullifier_try_from W d =
     and_then (ok_or (ExpectedDataMissing ''nullifier'') d) (\<lambda>digest.
     map_err (\<lambda>e. InvalidResponse (conversion_display e)) (nullifier_try_from W digest))"

definition transaction_header_try_from ::
  "wire_ops \<Rightarrow> proto_transaction_header \<Rightarrow> rpc_error + rpc_transaction_header" where
  "transaction_header_try_from W v =
     and_then (map_err rpc_from_conversion (ok_or (missing_field ''TransactionHeader'' ''account_id'')
       (pt_account_id v))) (\<lambda>account_bytes.
     and_then (map_err rpc_from_conversion (ok_or (missing_field ''TransactionHeader'' ''initial_state_commitment'')
       (pt_initial_state_commitment v))) (\<lambda>initial.
     and_then (map_err rpc_from_conversion (ok_or (missing_field ''TransactionHeader'' ''final_state_commitment'')
       (pt_final_state_commitment v))) (\<lambda>final.
     and_then (try_map (input_nullifier_try_from W) (pt_input_nullifiers v)) (\<lambda>nullifiers.
     and_then (map_err rpc_from_conversion (try_map (note_header_try_from W) (pt_output_notes v))) (\<lambda>_.
     and_then (map_err rpc_from_conversion (account_id_try_from W account_bytes)) (\<lambda>account.
     and_then (map_err rpc_from_conversion (word_try_from W initial)) (\<lambda>i.
     and_then (map_err rpc_from_conversion (word_try_from W final)) (\<lambda>f.
     Inr \<lparr>th_id = wo_transaction_id W account i f nullifiers, th_account_id = account,
          th_initial_state_commitment = i, th_final_state_commitment = f,
          th_input_notes = nullifiers\<rparr>))))))))"

record proto_transaction_record =
  pq_block_num :: u32
  pq_header :: "proto_transaction_header option"

definition rpc_transaction_record_try_from ::
  "wire_ops \<Rightarrow> proto_transaction_record \<Rightarrow> rpc_error + rpc_transaction_record" where
  "rpc_transaction_record_try_from W v =
     and_then (map_err rpc_from_conversion (ok_or (missing_field ''TransactionRecord'' ''transaction_header'')
       (pq_header v))) (\<lambda>hdr.
     and_then (transaction_header_try_from W hdr) (\<lambda>h.
     Inr \<lparr>rt_block_num = pq_block_num v, rt_transaction_header = h\<rparr>))"

record transactions_info =
  txi_chain_tip :: block_number
  txi_block_num :: block_number
  txi_transaction_records :: "rpc_transaction_record list"

definition transactions_info_try_from ::
  "wire_ops \<Rightarrow> pagination_info option \<Rightarrow> proto_transaction_record list \<Rightarrow> rpc_error + transactions_info" where
  "transactions_info_try_from W page txs =
     and_then (map_err rpc_from_conversion (ok_or (missing_field ''SyncTransactionsResponse'' ''pagination_info'')
       page)) (\<lambda>pg.
     and_then (try_map (rpc_transaction_record_try_from W) txs) (\<lambda>records.
     Inr \<lparr>txi_chain_tip = pg_chain_tip pg, txi_block_num = pg_block_num pg,
          txi_transaction_records = records\<rparr>))"

record storage_map_update =
  su_block_num :: block_number
  su_slot_name :: string
  su_key :: digest
  su_value :: digest

record proto_storage_map_update =
  pv_block_num :: u32
  pv_slot_name :: string
  pv_key :: "proto_digest option"
  pv_value :: "proto_digest option"

definition storage_map_update_try_from ::
  "wire_ops \<Rightarrow> proto_storage_map_update \<Rightarrow> rpc_conversion_error + storage_map_update" where
  "storage_map_update_try_from W v =
     and_then (map_err InvalidField (wo_slot_name_new W (pv_slot_name v))) (\<lambda>slot.
     and_then (required ''proto::rpc::StorageMapUpdate'' ''key'' (word_try_from W) (pv_key v)) (\<lambda>key.
     and_then (required ''proto::rpc::StorageMapUpdate'' ''value'' (word_try_from W) (pv_value v)) (\<lambda>val.
     Inr \<lparr>su_block_num = pv_block_num v, su_slot_name = slot, su_key = key, su_value = val\<rparr>)))"

record account_vault_update =
  vu_block_num :: block_number
  vu_asset :: "asset option"
  vu_vault_key :: digest

record proto_asset =
  pa_key :: "proto_digest option"
  pa_value :: "proto_digest option"

record proto_vault_update =
  pw_block_num :: u32
  pw_asset :: "proto_asset option"
  pw_vault_key :: "proto_digest option"

definition asset_try_from :: "wire_ops \<Rightarrow> proto_asset \<Rightarrow> rpc_conversion_error + asset" where
  "asset_try_from W v =
     and_then (required ''proto::primitives::Asset'' ''key'' (word_try_from W) (pa_key v)) (\<lambda>key.
     and_then (required ''proto::primitives::Asset'' ''value'' (word_try_from W) (pa_value v)) (\<lambda>val.
     map_err InvalidField (wo_asset_from_words W key val)))"

definition account_vault_update_try_from ::
  "wire_ops \<Rightarrow> proto_vault_update \<Rightarrow> rpc_error + account_vault_update" where
  "account_vault_update_try_from W v =
     and_then (map_err rpc_from_conversion (required ''proto::rpc::SyncAccountVaultResponse'' ''vault_key''
       (word_try_from W) (pw_vault_key v))) (\<lambda>inner.
     and_then (map_err InvalidResponse (wo_vault_key W inner)) (\<lambda>key.
     and_then (case pw_asset v of
                 None \<Rightarrow> Inr None
               | Some a \<Rightarrow> and_then (map_err rpc_from_conversion (asset_try_from W a)) (\<lambda>a. Inr (Some a))) (\<lambda>asset.
     case asset of
       Some a \<Rightarrow>
         if wo_asset_vault_key W a \<noteq> key
         then Inl (InvalidResponse ''account vault update returned mismatched asset key'')
         else Inr \<lparr>vu_block_num = pw_block_num v, vu_asset = asset, vu_vault_key = key\<rparr>
     | None \<Rightarrow> Inr \<lparr>vu_block_num = pw_block_num v, vu_asset = asset, vu_vault_key = key\<rparr>)))"

section \<open>Request limits (\<^verbatim>\<open>limits.rs\<close>)\<close>

record rpc_limits =
  rl_note_ids_limit :: u32
  rl_nullifiers_limit :: u32
  rl_account_ids_limit :: u32
  rl_note_tags_limit :: u32

definition rpc_limits_default :: rpc_limits where
  "rpc_limits_default =
     \<lparr>rl_note_ids_limit = 100, rl_nullifiers_limit = 1000, rl_account_ids_limit = 1000,
      rl_note_tags_limit = 1000\<rparr>"

text \<open>The answer maps endpoint names to their parameters and those to limits.\<close>

type_synonym proto_limits = "(string \<times> (string \<times> u32) list) list"

definition get_param :: "proto_limits \<Rightarrow> rpc_endpoint \<Rightarrow> string \<Rightarrow> rpc_conversion_error + u32" where
  "get_param v endpoint param =
     and_then (ok_or (MissingFieldInProtobufRepresentation ''RpcLimits'' param)
       (map_of v (proto_name endpoint))) (\<lambda>parameters.
     ok_or (MissingFieldInProtobufRepresentation ''RpcLimits'' param) (map_of parameters param))"

definition rpc_limits_try_from :: "proto_limits \<Rightarrow> rpc_conversion_error + rpc_limits" where
  "rpc_limits_try_from v =
     and_then (get_param v GetNotesByIdEndpoint ''note_id'') (\<lambda>note_ids.
     and_then (case get_param v CheckNullifiersEndpoint ''nullifier'' of
                 Inr l \<Rightarrow> Inr l
               | Inl _ \<Rightarrow> get_param v SyncNullifiersEndpoint ''nullifier'') (\<lambda>nullifiers.
     and_then (get_param v SyncTransactionsEndpoint ''account_id'') (\<lambda>account_ids.
     and_then (get_param v SyncNotesEndpoint ''note_tag'') (\<lambda>note_tags.
     Inr \<lparr>rl_note_ids_limit = note_ids, rl_nullifiers_limit = nullifiers,
          rl_account_ids_limit = account_ids, rl_note_tags_limit = note_tags\<rparr>))))"

section \<open>Forth and back\<close>

text \<open>
  A word, an account, a header or metadata is representable when the protocol crate reads back
  what it writes for it; every value of the protocol crates is.
\<close>

definition quad_canonical :: "u64_quad \<Rightarrow> bool" where
  "quad_canonical = (\<lambda>(a, b, c, d). list_all (\<lambda>v. unat v < felt_order) [a, b, c, d])"

definition word_ok :: "wire_ops \<Rightarrow> digest \<Rightarrow> bool" where
  "word_ok W w \<longleftrightarrow> quad_canonical (wo_word_elements W w) \<and> wo_word_new W (wo_word_elements W w) = w"

definition account_ok :: "wire_ops \<Rightarrow> account_id \<Rightarrow> bool" where
  "account_ok W a \<longleftrightarrow> wo_account_id_read W (wo_account_id_bytes W a) = Inr a"

definition fees_ok :: "wire_ops \<Rightarrow> fee_parameters \<Rightarrow> bool" where
  "fees_ok W f \<longleftrightarrow> account_ok W (fp_native_asset_id f)
     \<and> wo_fee_parameters_new W (fp_native_asset_id f) (fp_verification_base_fee f) = Inr f"

definition header_ok :: "wire_ops \<Rightarrow> block_header \<Rightarrow> bool" where
  "header_ok W h \<longleftrightarrow>
     list_all (word_ok W) [bh_prev_commitment h, bh_chain_commitment h, bh_account_root h,
       bh_nullifier_root h, bh_note_root h, bh_tx_commitment h, bh_tx_kernel_commitment h]
     \<and> wo_public_key_read W (wo_public_key_bytes W (bh_validator_key h)) = Inr (bh_validator_key h)
     \<and> fees_ok W (bh_fee_parameters h)"

definition metadata_ok :: "wire_ops \<Rightarrow> note_metadata \<Rightarrow> bool" where
  "metadata_ok W m \<longleftrightarrow> account_ok W (md_sender m)
     \<and> 0 \<le> wo_note_type_code W (md_note_type m)
     \<and> wo_note_type W (of_int (wo_note_type_code W (md_note_type m))) = Inr (md_note_type m)
     \<and> (if wo_attachment_bytes W (md_attachment m) = [] then md_attachment m = wo_attachment_default W
        else wo_attachment_read W (wo_attachment_bytes W (md_attachment m)) = Inr (md_attachment m))"

lemma word_roundtrip [simp]: "word_ok W w \<Longrightarrow> word_try_from W (digest_from_word W w) = Inr w"
  by (auto simp: word_ok_def word_try_from_def felts_try_from_def digest_from_word_def quad_canonical_def
      split: prod.splits)

lemma account_roundtrip [simp]: "account_ok W a \<Longrightarrow> account_id_try_from W (account_id_from W a) = Inr a"
  by (simp add: account_ok_def account_id_try_from_def account_id_from_def)

lemma fees_roundtrip [simp]: "fees_ok W f \<Longrightarrow> fee_parameters_try_from W (fee_parameters_from W f) = Inr f"
  by (simp add: fees_ok_def fee_parameters_try_from_def fee_parameters_from_def)

lemma merkle_path_roundtrip:
  "list_all (word_ok W) path \<Longrightarrow> merkle_path_try_from W (merkle_path_from W path) = Inr path"
  unfolding merkle_path_try_from_def merkle_path_from_def
  by (induction path) simp_all

text \<open>A word comes only from a canonical digest.\<close>

lemma word_try_from_Inr:
  "word_try_from W d = Inr w \<longleftrightarrow>
     quad_canonical (pd_d0 d, pd_d1 d, pd_d2 d, pd_d3 d)
     \<and> w = wo_word_new W (pd_d0 d, pd_d1 d, pd_d2 d, pd_d3 d)"
  by (auto simp: word_try_from_def felts_try_from_def quad_canonical_def)

section \<open>Sample operations\<close>

definition sample_wire :: wire_ops where
  "sample_wire =
     \<lparr>wo_word_new = (\<lambda>(a, b, c, d). Digest (unat d)),
      wo_word_elements = (\<lambda>w. (0, 0, 0, of_nat (digest_raw w))),
      wo_account_id_read = (\<lambda>bs. Inr (AccountId (length bs))),
      wo_account_id_bytes = (\<lambda>a. replicate (account_id_raw a) 0),
      wo_note_type = (\<lambda>c. if c = 1 then Inr PublicNote else if c = 2 then Inr PrivateNote else Inl []),
      wo_note_type_code = (\<lambda>t. case t of PublicNote \<Rightarrow> 1 | PrivateNote \<Rightarrow> 2),
      wo_attachment_default = Digest 0,
      wo_attachment_read = (\<lambda>bs. Inr (Digest (length bs))),
      wo_attachment_bytes = (\<lambda>a. replicate (digest_raw a) 0),
      wo_attachment_kind = (\<lambda>k. if k < 3 then Inr k else Inl []),
      wo_attachment_kind_none = 0,
      wo_details_read = (\<lambda>bs. Inl []),
      wo_inclusion_proof_new = (\<lambda>b i p. Inr \<lparr>ip_block_num = b, ip_block_note_tree_index = i, ip_note_path = p\<rparr>),
      wo_public_key_read = (\<lambda>bs. Inr (PublicKey (length bs))),
      wo_public_key_bytes = (\<lambda>k. case k of PublicKey n \<Rightarrow> replicate n 0),
      wo_fee_parameters_new = (\<lambda>a f. Inr \<lparr>fp_native_asset_id = a, fp_verification_base_fee = f\<rparr>),
      wo_slot_name_new = Inr,
      wo_vault_key = Inr,
      wo_asset_from_words = (\<lambda>k v. Inr (NonFungible (AccountId 0) v)),
      wo_asset_vault_key = (\<lambda>a. Digest 0),
      wo_transaction_id = (\<lambda>a i f ns. TransactionId i)\<rparr>"

section \<open>Properties\<close>

text \<open>
  Block headers and note metadata survive the wire: converting a representable value to its
  protocol message and back gives the same value, every root and the validator key included.
\<close>

lemma header_and_metadata_roundtrip:
  assumes "header_ok W h" and "metadata_ok W m"
  shows "block_header_try_from W (block_header_from W h) = Inr h
    \<and> note_metadata_try_from W (note_metadata_from W m) = Inr m"
  using assms
  by (simp add: block_header_try_from_def block_header_from_def header_ok_def note_metadata_try_from_def
      note_metadata_from_def metadata_ok_def note_type_try_from_def)

lemma header_and_metadata_roundtrip_witness:
  "header_ok sample_wire sample_header \<and> metadata_ok sample_wire sample_metadata
   \<and> block_header_try_from sample_wire (block_header_from sample_wire sample_header) = Inr sample_header"
proof -
  have *: "header_ok sample_wire sample_header" "metadata_ok sample_wire sample_metadata"
    by (simp_all add: header_ok_def metadata_ok_def word_ok_def account_ok_def fees_ok_def quad_canonical_def
        felt_order_def sample_wire_def sample_header_def sample_metadata_def)
  show ?thesis using header_and_metadata_roundtrip [OF *] * by blast
qed

text \<open>
  A negative note type is not rejected but ends the program: a note of a sync answer with a
  header, a readable sender and a negative note type makes the conversion panic, where every
  other malformed field is returned as an error.
\<close>

lemma negative_note_type_panics:
  assumes "ps_metadata_header v = Some hdr" and "ph_sender hdr = Some bytes"
    and "account_id_try_from W bytes = Inr sender" and "ph_note_type hdr < 0"
  shows "committed_note_try_from W v = Inl (ConversionPanicked ''invalid note type'')"
  using assms by (simp add: committed_note_try_from_def note_type_try_from_def)

lemma negative_note_type_panics_witness:
  "committed_note_try_from sample_wire
     \<lparr>ps_metadata_header = Some \<lparr>ph_sender = Some [], ph_note_type = -1, ph_tag = 0, ph_attachment_kind = 0\<rparr>,
      ps_inclusion_proof = None\<rparr>
   = Inl (ConversionPanicked ''invalid note type'')"
  by (rule negative_note_type_panics [where bytes = "[]" and sender = "AccountId 0"
        and hdr = "\<lparr>ph_sender = Some [], ph_note_type = -1, ph_tag = 0, ph_attachment_kind = 0\<rparr>"])
    (simp_all add: account_id_try_from_def sample_wire_def)

end
