(* ===== verification/Rpc_Client.thy ===== *)
theory Rpc_Client
  imports Rpc_Conversions Node_Endpoint "HOL-Library.Product_Lexorder"
begin

text \<open>
  The gRPC client (\<^verbatim>\<open>rpc/tonic_client/mod.rs\<close>, \<^verbatim>\<open>retry.rs\<close>): connection, retries, cached limits,
  requests split into chunks and paginated requests. A call goes through the state of the client and
  of the node. The generated stubs, the transport and what the node answers are the argument
  \<open>rpc_env\<close>. The theory shows what a call with retries returns and that it ends, that the paginated
  requests end and collect exactly what the node holds in the requested range, and what they do
  when the node leaves out the pagination data.
\<close>

section \<open>Calls\<close>

text \<open>A client API stub carries the genesis commitment it announces to the node.\<close>

record api_client =
  ac_genesis :: "digest option"

record grpc_client =
  gc_client :: "api_client option"
  gc_endpoint :: string
  gc_timeout_ms :: u64
  gc_genesis_commitment :: "digest option"
  gc_limits :: "rpc_limits option"
  gc_max_retries :: u32
  gc_retry_interval_ms :: u64

type_synonym ('n, 'a) rpc = "grpc_client \<times> 'n \<Rightarrow> (rpc_error + 'a) \<times> grpc_client \<times> 'n"
type_synonym ('n, 'a) stub = "api_client \<Rightarrow> 'n \<Rightarrow> (grpc_status + 'a) \<times> 'n"

fun rpc_bind :: "('n, 'a) rpc \<Rightarrow> ('a \<Rightarrow> ('n, 'b) rpc) \<Rightarrow> ('n, 'b) rpc" where
  "rpc_bind m f w = (case m w of (Inl e, w') \<Rightarrow> (Inl e, w') | (Inr x, w') \<Rightarrow> f x w')"

definition rpc_lift :: "rpc_error + 'a \<Rightarrow> ('n, 'a) rpc" where
  "rpc_lift r w = (r, w)"

lemma rpc_lift_simp [simp]: "rpc_lift r w = (r, w)"
  by (simp add: rpc_lift_def)

text \<open>The range of blocks of a request.\<close>

type_synonym block_range = "u32 \<times> u32 option"

record 'n rpc_env =
  re_wire :: wire_ops
  re_client_version :: string
  re_word_to_hex :: "digest \<Rightarrow> string"
  re_connect :: "string \<Rightarrow> u64 \<Rightarrow> digest option \<Rightarrow> 'n \<Rightarrow> (message + unit) \<times> 'n"
  re_get_limits :: "('n, proto_limits) stub"
  re_get_notes_by_id :: "proto_digest option list \<Rightarrow> ('n, proto_committed_note list) stub"
  re_sync_nullifiers ::
    "u32 list \<Rightarrow> u32 \<Rightarrow> block_range \<Rightarrow> ('n, proto_nullifier_update list \<times> pagination_info option) stub"
  re_sync_storage_maps ::
    "block_range \<Rightarrow> u8 list \<Rightarrow> ('n, proto_storage_map_update list \<times> pagination_info option) stub"
  re_sync_account_vault ::
    "block_range \<Rightarrow> u8 list \<Rightarrow> ('n, proto_vault_update list \<times> pagination_info option) stub"
  re_sync_notes :: "block_range \<Rightarrow> u32 list \<Rightarrow> ('n, proto_sync_notes_response) stub"
  re_sync_transactions ::
    "block_range \<Rightarrow> u8 list list \<Rightarrow> ('n, pagination_info option \<times> proto_transaction_record list) stub"

definition grpc_client_new :: "endpoint \<Rightarrow> u64 \<Rightarrow> grpc_client" where
  "grpc_client_new e timeout_ms =
     \<lparr>gc_client = None, gc_endpoint = endpoint_to_string e, gc_timeout_ms = timeout_ms,
      gc_genesis_commitment = None, gc_limits = None, gc_max_retries = 4, gc_retry_interval_ms = 100\<rparr>"

definition with_max_retries :: "u32 \<Rightarrow> grpc_client \<Rightarrow> grpc_client" where
  "with_max_retries n C = C\<lparr>gc_max_retries := n\<rparr>"

definition with_retry_interval_ms :: "u64 \<Rightarrow> grpc_client \<Rightarrow> grpc_client" where
  "with_retry_interval_ms n C = C\<lparr>gc_retry_interval_ms := n\<rparr>"

section \<open>Connecting\<close>

definition connect :: "'n rpc_env \<Rightarrow> ('n, unit) rpc" where
  "connect E = (\<lambda>(C, n).
     case re_connect E (gc_endpoint C) (gc_timeout_ms C) (gc_genesis_commitment C) n of
       (Inl err, n') \<Rightarrow> (Inl (ConnectionError err), C, n')
     | (Inr _, n') \<Rightarrow> (Inr (), C\<lparr>gc_client := Some \<lparr>ac_genesis = gc_genesis_commitment C\<rparr>\<rparr>, n'))"

definition ensure_connected :: "'n rpc_env \<Rightarrow> ('n, api_client) rpc" where
  "ensure_connected E = (\<lambda>(C, n).
     case gc_client C of
       Some api \<Rightarrow> (Inr api, C, n)
     | None \<Rightarrow>
         (case connect E (C, n) of
            (Inl e, w) \<Rightarrow> (Inl e, w)
          | (Inr _, C', n') \<Rightarrow>
              (case gc_client C' of
                 Some api \<Rightarrow> (Inr api, C', n')
               | None \<Rightarrow> (Inl (RpcPanicked ''rpc_api should be initialized''), C', n'))))"

definition has_genesis_commitment :: "grpc_client \<Rightarrow> digest option" where
  "has_genesis_commitment C = gc_genesis_commitment C"

definition set_genesis_commitment :: "digest \<Rightarrow> grpc_client \<Rightarrow> grpc_client" where
  "set_genesis_commitment commitment C =
     (case gc_genesis_commitment C of
        Some _ \<Rightarrow> C
      | None \<Rightarrow>
          C\<lparr>gc_genesis_commitment := Some commitment,
            gc_client := map_option (\<lambda>api. api\<lparr>ac_genesis := Some commitment\<rparr>) (gc_client C)\<rparr>)"

definition rpc_error_from_status :: "'n rpc_env \<Rightarrow> grpc_client \<Rightarrow> rpc_endpoint \<Rightarrow> grpc_status \<Rightarrow> rpc_error" where
  "rpc_error_from_status E C endpoint status =
     from_grpc_error_with_context endpoint status
       \<lparr>ac_client_version = re_client_version E,
        ac_genesis_commitment =
          (case gc_genesis_commitment C of None \<Rightarrow> ''none'' | Some w \<Rightarrow> re_word_to_hex E w)\<rparr>"

section \<open>Retries\<close>

record retry_state =
  rs_attempt :: u32
  rs_max_retries :: u32
  rs_retry_interval_ms :: u64

definition retry_state_new :: "u32 \<Rightarrow> u64 \<Rightarrow> retry_state" where
  "retry_state_new max_retries interval =
     \<lparr>rs_attempt = 0, rs_max_retries = max_retries, rs_retry_interval_ms = interval\<rparr>"

definition is_retryable :: "grpc_status \<Rightarrow> bool" where
  "is_retryable status \<longleftrightarrow> gs_code status = CodeResourceExhausted \<or> gs_code status = CodeUnavailable"

text \<open>Durations are milliseconds. A header value reads as text when it is printable ASCII.\<close>

definition header_to_str :: "string \<Rightarrow> string option" where
  "header_to_str v =
     (if list_all (\<lambda>c. let k = of_char c :: nat in 32 \<le> k \<and> k < 127 \<or> k = 9) v then Some v else None)"

definition extract_retry_after :: "grpc_status \<Rightarrow> nat option" where
  "extract_retry_after status =
     Option.bind (map_of (gs_metadata status) ''retry-after'') (\<lambda>v.
     Option.bind (header_to_str v) (\<lambda>s.
     case parse_u64 s of Inr secs \<Rightarrow> Some (1000 * unat secs) | Inl _ \<Rightarrow> None))"

definition retry_delay :: "grpc_status \<Rightarrow> u64 \<Rightarrow> nat" where
  "retry_delay status fallback_ms =
     (case extract_retry_after status of
        Some delay \<Rightarrow> if delay = 0 then unat fallback_ms else delay
      | None \<Rightarrow> unat fallback_ms)"

text \<open>\<open>Some d\<close> is the answer \<open>true\<close> after waiting for \<open>d\<close>.\<close>

definition should_retry :: "retry_state \<Rightarrow> grpc_status \<Rightarrow> nat option \<times> retry_state" where
  "should_retry R status =
     (if rs_attempt R \<ge> rs_max_retries R \<or> \<not> is_retryable status then (None, R)
      else (Some (retry_delay status (rs_retry_interval_ms R)), R\<lparr>rs_attempt := rs_attempt R + 1\<rparr>))"

function retry_loop ::
  "'n rpc_env \<Rightarrow> rpc_endpoint \<Rightarrow> ('n, 'a) stub \<Rightarrow> retry_state \<Rightarrow> ('n, 'a) rpc" where
  "retry_loop E endpoint call R w =
     (case ensure_connected E w of
        (Inl e, w') \<Rightarrow> (Inl e, w')
      | (Inr api, C, n) \<Rightarrow>
          (case call api n of
             (Inr response, n') \<Rightarrow> (Inr response, C, n')
           | (Inl status, n') \<Rightarrow>
               (if fst (should_retry R status) \<noteq> None
                then retry_loop E endpoint call (snd (should_retry R status)) (C, n')
                else (Inl (rpc_error_from_status E C endpoint status), C, n'))))"
  by pat_completeness auto

lemma should_retry_progress:
  assumes "fst (should_retry R status) \<noteq> None"
  shows "unat (rs_max_retries (snd (should_retry R status))) - unat (rs_attempt (snd (should_retry R status)))
    < unat (rs_max_retries R) - unat (rs_attempt R)"
proof -
  have lt: "rs_attempt R < rs_max_retries R"
    using assms by (auto simp: should_retry_def split: if_splits)
  note unat_plus_one [OF this]
  then show ?thesis
    using assms lt by (auto simp: should_retry_def word_less_nat_alt split: if_splits)
qed

termination retry_loop
  by (relation "measure (\<lambda>(E, endpoint, call, R, w). unat (rs_max_retries R) - unat (rs_attempt R))")
    (simp_all add: should_retry_progress)

definition call_with_retry :: "'n rpc_env \<Rightarrow> rpc_endpoint \<Rightarrow> ('n, 'a) stub \<Rightarrow> ('n, 'a) rpc" where
  "call_with_retry E endpoint call = (\<lambda>(C, n).
     retry_loop E endpoint call (retry_state_new (gc_max_retries C) (gc_retry_interval_ms C)) (C, n))"

declare retry_loop.simps [simp del]

section \<open>Limits\<close>

definition get_rpc_limits :: "'n rpc_env \<Rightarrow> ('n, rpc_limits) rpc" where
  "get_rpc_limits E = (\<lambda>(C, n).
     case gc_limits C of
       Some limits \<Rightarrow> (Inr limits, C, n)
     | None \<Rightarrow>
         rpc_bind (call_with_retry E GetLimitsEndpoint (re_get_limits E)) (\<lambda>response.
         rpc_bind (rpc_lift (map_err rpc_from_conversion (rpc_limits_try_from response))) (\<lambda>limits (C, n).
         (Inr limits, C\<lparr>gc_limits := Some limits\<rparr>, n))) (C, n))"

definition has_rpc_limits :: "grpc_client \<Rightarrow> rpc_limits option" where
  "has_rpc_limits C = gc_limits C"

definition set_rpc_limits :: "rpc_limits \<Rightarrow> grpc_client \<Rightarrow> grpc_client" where
  "set_rpc_limits limits C = C\<lparr>gc_limits := Some limits\<rparr>"

definition get_network_id :: "grpc_client \<Rightarrow> rpc_error + network_id" where
  "get_network_id C =
     and_then (map_err InvalidNodeEndpoint (endpoint_try_from (gc_endpoint C))) (\<lambda>e. Inr (to_network_id e))"

section \<open>Chunked requests\<close>

definition rpc_chunks :: "u32 \<Rightarrow> 'a list \<Rightarrow> ('n, 'a list list) rpc" where
  "rpc_chunks chunk_size xs =
     rpc_lift (if chunk_size = 0 then Inl (RpcPanicked ''chunk size must be non-zero'')
               else Inr (chunks_of (unat chunk_size) xs))"

fun rpc_fold :: "('s \<Rightarrow> 'x \<Rightarrow> ('n, 's) rpc) \<Rightarrow> 's \<Rightarrow> 'x list \<Rightarrow> ('n, 's) rpc" where
  "rpc_fold f s [] w = (Inr s, w)"
| "rpc_fold f s (x # xs) w =
     (case f s x w of (Inl e, w') \<Rightarrow> (Inl e, w') | (Inr s', w') \<Rightarrow> rpc_fold f s' xs w')"

definition notes_chunk :: "'n rpc_env \<Rightarrow> fetched_note list \<Rightarrow> note_id list \<Rightarrow> ('n, fetched_note list) rpc" where
  "notes_chunk E acc chunk =
     rpc_bind (call_with_retry E GetNotesByIdEndpoint
         (re_get_notes_by_id E (map (note_id_from (re_wire E)) chunk))) (\<lambda>response.
     rpc_lift (map_err rpc_from_conversion
       (and_then (try_map (fetched_note_try_from (re_wire E)) response) (\<lambda>ns. Inr (acc @ ns)))))"

definition get_notes_by_id :: "'n rpc_env \<Rightarrow> note_id list \<Rightarrow> ('n, fetched_note list) rpc" where
  "get_notes_by_id E note_ids =
     rpc_bind (get_rpc_limits E) (\<lambda>limits.
     rpc_bind (rpc_chunks (rl_note_ids_limit limits) note_ids) (\<lambda>chunks.
     rpc_fold (notes_chunk E) [] chunks))"

section \<open>Pagination\<close>

record block_pagination =
  bp_current_block_from :: block_number
  bp_block_to :: "block_number option"
  bp_iterations :: u32

datatype pagination_result =
    PageContinue
  | PageDone block_number block_number

definition max_iterations :: nat where
  "max_iterations = 1000"

definition pagination_new :: "block_number \<Rightarrow> block_number option \<Rightarrow> block_pagination" where
  "pagination_new block_from block_to =
     \<lparr>bp_current_block_from = block_from, bp_block_to = block_to, bp_iterations = 0\<rparr>"

definition target_block :: "block_number option \<Rightarrow> block_number \<Rightarrow> block_number" where
  "target_block block_to chain_tip = (case block_to of None \<Rightarrow> chain_tip | Some to \<Rightarrow> min to chain_tip)"

definition saturating_inc :: "u32 \<Rightarrow> u32" where
  "saturating_inc b = (if b = - 1 then b else b + 1)"

definition advance ::
  "block_pagination \<Rightarrow> block_number \<Rightarrow> block_number \<Rightarrow> rpc_error + pagination_result \<times> block_pagination" where
  "advance P block_num chain_tip =
     (if unat (bp_iterations P) \<ge> max_iterations
      then Inl (PaginationError ''too many pagination iterations, possible infinite loop'')
      else
        let P1 = P\<lparr>bp_iterations := bp_iterations P + 1\<rparr>
        in if block_num < bp_current_block_from P
           then Inl (PaginationError ''invalid pagination: block_num went backwards'')
           else if block_num \<ge> target_block (bp_block_to P) chain_tip
           then Inr (PageDone chain_tip block_num, P1)
           else Inr (PageContinue, P1\<lparr>bp_current_block_from := saturating_inc block_num\<rparr>))"

text \<open>
  The loop shared by \<open>sync_storage_maps\<close> and \<open>sync_account_vault\<close>: fetch a page, convert its updates,
  advance.
\<close>

function page_loop ::
  "(block_range \<Rightarrow> ('n, 'u list \<times> pagination_info) rpc) \<Rightarrow> block_pagination \<Rightarrow> 'u list \<Rightarrow>
   ('n, block_number \<times> block_number \<times> 'u list) rpc" where
  "page_loop fetch P updates w =
     (case fetch (bp_current_block_from P, bp_block_to P) w of
        (Inl e, w') \<Rightarrow> (Inl e, w')
      | (Inr (batch, page), w') \<Rightarrow>
          (case advance P (pg_block_num page) (pg_chain_tip page) of
             Inl e \<Rightarrow> (Inl e, w')
           | Inr (PageDone chain_tip block_num, _) \<Rightarrow> (Inr (chain_tip, block_num, updates @ batch), w')
           | Inr (PageContinue, P') \<Rightarrow> page_loop fetch P' (updates @ batch) w'))"
  by pat_completeness auto

lemma advance_iterations:
  assumes "advance P b t = Inr (r, P')"
  shows "unat (bp_iterations P) < max_iterations \<and> unat (bp_iterations P') = Suc (unat (bp_iterations P))
    \<and> bp_block_to P' = bp_block_to P"
proof -
  have lt: "unat (bp_iterations P) < max_iterations"
    using assms by (auto simp: advance_def split: if_splits)
  then have "bp_iterations P < (1000 :: u32)" by (simp add: max_iterations_def word_less_nat_alt)
  from unat_plus_one [OF this] lt show ?thesis
    using assms by (auto simp: advance_def Let_def split: if_splits)
qed

termination page_loop
  by (relation "measure (\<lambda>(fetch, P, updates, w). max_iterations - unat (bp_iterations P))")
    (auto dest!: advance_iterations)

declare page_loop.simps [simp del]

definition storage_map_page ::
  "'n rpc_env \<Rightarrow> account_id \<Rightarrow> block_range \<Rightarrow> ('n, storage_map_update list \<times> pagination_info) rpc" where
  "storage_map_page E account_id blocks =
     rpc_bind (call_with_retry E SyncStorageMapsEndpoint
         (re_sync_storage_maps E blocks (account_id_from (re_wire E) account_id))) (\<lambda>(ups, page).
     rpc_lift (and_then (ok_or (ExpectedDataMissing ''pagination_info'') page) (\<lambda>pg.
       and_then (map_err rpc_from_conversion (try_map (storage_map_update_try_from (re_wire E)) ups)) (\<lambda>batch.
       Inr (batch, pg)))))"

record storage_map_info =
  smi_chain_tip :: block_number
  smi_block_number :: block_number
  smi_updates :: "storage_map_update list"

definition sync_storage_maps ::
  "'n rpc_env \<Rightarrow> block_number \<Rightarrow> block_number option \<Rightarrow> account_id \<Rightarrow> ('n, storage_map_info) rpc" where
  "sync_storage_maps E block_from block_to account_id =
     rpc_bind (page_loop (storage_map_page E account_id) (pagination_new block_from block_to) [])
       (\<lambda>(chain_tip, block_number, updates).
     rpc_lift (Inr \<lparr>smi_chain_tip = chain_tip, smi_block_number = block_number, smi_updates = updates\<rparr>))"

definition account_vault_page ::
  "'n rpc_env \<Rightarrow> account_id \<Rightarrow> block_range \<Rightarrow> ('n, account_vault_update list \<times> pagination_info) rpc" where
  "account_vault_page E account_id blocks =
     rpc_bind (call_with_retry E SyncAccountVaultEndpoint
         (re_sync_account_vault E blocks (account_id_from (re_wire E) account_id))) (\<lambda>(ups, page).
     rpc_lift (and_then (ok_or (ExpectedDataMissing ''pagination_info'') page) (\<lambda>pg.
       and_then (try_map (account_vault_update_try_from (re_wire E)) ups) (\<lambda>batch.
       Inr (batch, pg)))))"

record account_vault_info =
  avi_chain_tip :: block_number
  avi_block_number :: block_number
  avi_updates :: "account_vault_update list"

definition sync_account_vault ::
  "'n rpc_env \<Rightarrow> block_number \<Rightarrow> block_number option \<Rightarrow> account_id \<Rightarrow> ('n, account_vault_info) rpc" where
  "sync_account_vault E block_from block_to account_id =
     rpc_bind (page_loop (account_vault_page E account_id) (pagination_new block_from block_to) [])
       (\<lambda>(chain_tip, block_number, updates).
     rpc_lift (Inr \<lparr>avi_chain_tip = chain_tip, avi_block_number = block_number, avi_updates = updates\<rparr>))"

section \<open>Nullifiers\<close>

text \<open>
  The set of updates is ordered by nullifier and block, as the derived order of \<open>NullifierUpdate\<close>
  compares both fields.
\<close>

type_synonym nullifier_set = "(nullifier \<times> block_number, unit) btree_map"

definition add_updates :: "nullifier_update list \<Rightarrow> nullifier_set \<Rightarrow> nullifier_set" where
  "add_updates ups S = fold (\<lambda>u. bt_insert (nu_nullifier u, nu_block_num u) ()) ups S"

definition update_of :: "nullifier \<times> block_number \<Rightarrow> nullifier_update" where
  "update_of k = \<lparr>nu_nullifier = fst k, nu_block_num = snd k\<rparr>"

definition nullifier_page ::
  "'n rpc_env \<Rightarrow> u16 list \<Rightarrow> block_range \<Rightarrow> ('n, nullifier_update list \<times> pagination_info option) rpc" where
  "nullifier_page E chunk blocks =
     rpc_bind (call_with_retry E SyncNullifiersEndpoint
         (re_sync_nullifiers E (map ucast chunk) 16 blocks)) (\<lambda>(ups, page).
     rpc_lift (and_then (map_err (\<lambda>e. InvalidResponse (conversion_display e))
         (try_map (nullifier_update_try_from (re_wire E)) ups)) (\<lambda>batch.
       Inr (batch, page))))"

text \<open>The inner loop, with the iterations left; without pagination data the same range is asked again.\<close>

fun nullifier_loop ::
  "(block_range \<Rightarrow> ('n, nullifier_update list \<times> pagination_info option) rpc) \<Rightarrow> block_number option \<Rightarrow>
   nat \<Rightarrow> block_number \<Rightarrow> nullifier_set \<Rightarrow> ('n, nullifier_set) rpc" where
  "nullifier_loop fetch block_to 0 current_block_from S w =
     (Inl (PaginationError ''too many pagination iterations, possible infinite loop''), w)"
| "nullifier_loop fetch block_to (Suc k) current_block_from S w =
     (case fetch (current_block_from, block_to) w of
        (Inl e, w') \<Rightarrow> (Inl e, w')
      | (Inr (batch, None), w') \<Rightarrow>
          nullifier_loop fetch block_to k current_block_from (add_updates batch S) w'
      | (Inr (batch, Some page), w') \<Rightarrow>
          if pg_block_num page < current_block_from
          then (Inl (PaginationError ''invalid pagination: block_num went backwards''), w')
          else if pg_block_num page \<ge> target_block block_to (pg_chain_tip page)
          then (Inr (add_updates batch S), w')
          else nullifier_loop fetch block_to k (pg_block_num page + 1) (add_updates batch S) w')"

definition nullifier_chunk ::
  "'n rpc_env \<Rightarrow> block_number \<Rightarrow> block_number option \<Rightarrow> nullifier_set \<Rightarrow> u16 list \<Rightarrow> ('n, nullifier_set) rpc" where
  "nullifier_chunk E block_num block_to S chunk =
     nullifier_loop (nullifier_page E chunk) block_to max_iterations block_num S"

definition rpc_sync_nullifiers ::
  "'n rpc_env \<Rightarrow> u16 list \<Rightarrow> block_number \<Rightarrow> block_number option \<Rightarrow> ('n, nullifier_update list) rpc" where
  "rpc_sync_nullifiers E prefixes block_num block_to =
     rpc_bind (get_rpc_limits E) (\<lambda>limits.
     rpc_bind (rpc_chunks (rl_nullifiers_limit limits) prefixes) (\<lambda>chunks.
     rpc_bind (rpc_fold (nullifier_chunk E block_num block_to) [] chunks) (\<lambda>S.
     rpc_lift (Inr (map update_of (bt_keys S))))))"

definition get_nullifier_commit_heights ::
  "'n rpc_env \<Rightarrow> protocol \<Rightarrow> nullifier list \<Rightarrow> block_number \<Rightarrow> ('n, (nullifier, block_number option) btree_map) rpc" where
  "get_nullifier_commit_heights E P requested block_from =
     rpc_bind (rpc_sync_nullifiers E (map (nullifier_prefix P) requested) block_from None) (\<lambda>retrieved.
     rpc_lift (Inr (fold (\<lambda>nf. bt_insert nf
         (map_option nu_block_num (find (\<lambda>u. nu_nullifier u = nf) retrieved))) requested [])))"

section \<open>What a call with retries returns\<close>

definition node_after :: "('n, 'a) stub \<Rightarrow> api_client \<Rightarrow> nat \<Rightarrow> 'n \<Rightarrow> 'n" where
  "node_after call api k n = ((\<lambda>n. snd (call api n)) ^^ k) n"

lemma node_after_simps:
  "node_after call api 0 n = n"
  "node_after call api (Suc k) n = node_after call api k (snd (call api n))"
  by (simp_all add: node_after_def funpow_Suc_right del: funpow.simps(2))

definition retries_then :: "('n, 'a) stub \<Rightarrow> api_client \<Rightarrow> nat \<Rightarrow> 'n \<Rightarrow> bool" where
  "retries_then call api k n \<longleftrightarrow>
     (\<forall>j < k. \<exists>st. fst (call api (node_after call api j n)) = Inl st \<and> is_retryable st)"

definition call_outcome ::
  "'n rpc_env \<Rightarrow> rpc_endpoint \<Rightarrow> ('n, 'a) stub \<Rightarrow> api_client \<Rightarrow> grpc_client \<Rightarrow> 'n \<Rightarrow> (rpc_error + 'a) \<times> grpc_client \<times> 'n" where
  "call_outcome E endpoint call api C n =
     (case call api n of
        (Inr r, n') \<Rightarrow> (Inr r, C, n')
      | (Inl st, n') \<Rightarrow> (Inl (rpc_error_from_status E C endpoint st), C, n'))"

lemma retries_then_Suc:
  "retries_then call api (Suc k) n \<longleftrightarrow>
     (\<exists>st. fst (call api n) = Inl st \<and> is_retryable st) \<and> retries_then call api k (snd (call api n))"
  unfolding retries_then_def by (simp add: All_less_Suc2 node_after_simps)

lemma retry_loop_outcome:
  assumes "gc_client C = Some api"
  shows "\<exists>k \<le> unat (rs_max_retries R) - unat (rs_attempt R).
      retries_then call api k n
      \<and> retry_loop E endpoint call R (C, n) = call_outcome E endpoint call api C (node_after call api k n)
      \<and> ((\<exists>st. fst (call api (node_after call api k n)) = Inl st \<and> is_retryable st) \<longrightarrow>
           k = unat (rs_max_retries R) - unat (rs_attempt R))"
proof (induction "unat (rs_max_retries R) - unat (rs_attempt R)" arbitrary: R n rule: less_induct)
  case less
  have loop: "retry_loop E endpoint call R (C, n) =
      (case call api n of
         (Inr r, n') \<Rightarrow> (Inr r, C, n')
       | (Inl st, n') \<Rightarrow>
           if fst (should_retry R st) \<noteq> None
           then retry_loop E endpoint call (snd (should_retry R st)) (C, n')
           else (Inl (rpc_error_from_status E C endpoint st), C, n'))"
    by (subst retry_loop.simps) (simp add: ensure_connected_def assms)
  obtain r n' where c: "call api n = (r, n')" by (cases "call api n")
  show ?case
  proof (cases "\<exists>st. r = Inl st \<and> fst (should_retry R st) \<noteq> None")
    case True
    then obtain st where st: "r = Inl st" "fst (should_retry R st) \<noteq> None" by blast
    let ?R = "snd (should_retry R st)"
    have retry: "is_retryable st" "unat (rs_max_retries ?R) - unat (rs_attempt ?R) + 1
        = unat (rs_max_retries R) - unat (rs_attempt R)"
    proof -
      have lt: "rs_attempt R < rs_max_retries R" and "is_retryable st"
        using st(2) by (auto simp: should_retry_def split: if_splits)
      then show "is_retryable st" "unat (rs_max_retries ?R) - unat (rs_attempt ?R) + 1
        = unat (rs_max_retries R) - unat (rs_attempt R)"
        using unat_plus_one [OF lt] by (auto simp: should_retry_def word_less_nat_alt not_le)
    qed
    from less [OF should_retry_progress [OF st(2)]] obtain k where
      k: "k \<le> unat (rs_max_retries ?R) - unat (rs_attempt ?R)" "retries_then call api k n'"
        "retry_loop E endpoint call ?R (C, n') = call_outcome E endpoint call api C (node_after call api k n')"
        "(\<exists>st. fst (call api (node_after call api k n')) = Inl st \<and> is_retryable st) \<longrightarrow>
           k = unat (rs_max_retries ?R) - unat (rs_attempt ?R)"
      by blast
    show ?thesis
      using k retry st by (intro exI [of _ "Suc k"]) (auto simp: retries_then_Suc node_after_simps c loop)
  next
    case False
    then have "retry_loop E endpoint call R (C, n) = call_outcome E endpoint call api C n"
      by (cases r) (auto simp: loop c call_outcome_def)
    moreover have "unat (rs_max_retries R) - unat (rs_attempt R) = 0" if "r = Inl st" "is_retryable st" for st
      using that False by (auto simp: should_retry_def word_le_nat_alt split: if_splits)
    ultimately show ?thesis
      by (intro exI [of _ 0]) (auto simp: retries_then_def node_after_simps c)
  qed
qed

section \<open>What the paginated requests collect\<close>

text \<open>
  An honest node answers a page with every update of the ledger from the first block of the request
  to the last block the page covers, and reports the chain tip.
\<close>

definition honest_pages ::
  "(block_range \<Rightarrow> ('n, 'u list \<times> pagination_info) rpc) \<Rightarrow> 'u set \<Rightarrow> ('u \<Rightarrow> block_number) \<Rightarrow> block_number \<Rightarrow> bool" where
  "honest_pages fetch ledger block_of tip \<longleftrightarrow>
     (\<forall>b to w batch page w'. fetch (b, to) w = (Inr (batch, page), w') \<longrightarrow>
        b \<le> pg_block_num page \<and> pg_chain_tip page = tip
        \<and> set batch = {u \<in> ledger. b \<le> block_of u \<and> block_of u \<le> pg_block_num page})"

definition answers_pages :: "(block_range \<Rightarrow> ('n, 'u) rpc) \<Rightarrow> bool" where
  "answers_pages fetch \<longleftrightarrow> (\<forall>r w. \<exists>x w'. fetch r w = (Inr x, w'))"

lemma successor_le:
  fixes c d x :: u32
  assumes "c < d"
  shows "c + 1 \<le> x \<longleftrightarrow> c < x"
  using unat_plus_one [OF assms] by (simp add: word_le_nat_alt word_less_nat_alt Suc_le_eq)

lemma saturating_inc_less: "c < d \<Longrightarrow> saturating_inc c = c + 1"
  by (auto simp: saturating_inc_def)

text \<open>One iteration, by the result of the page and of the advance.\<close>

lemma page_loop_cases:
  assumes "page_loop fetch P updates w = (Inr (t, b, res), w')"
  obtains batch page w1 P' where
    "fetch (bp_current_block_from P, bp_block_to P) w = (Inr (batch, page), w1)"
    "advance P (pg_block_num page) (pg_chain_tip page) = Inr (PageDone t b, P')" "res = updates @ batch"
  | batch page w1 P' where
    "fetch (bp_current_block_from P, bp_block_to P) w = (Inr (batch, page), w1)"
    "advance P (pg_block_num page) (pg_chain_tip page) = Inr (PageContinue, P')"
    "page_loop fetch P' (updates @ batch) w1 = (Inr (t, b, res), w')"
  using assms
  by (subst (asm) page_loop.simps) (auto split: prod.splits sum.splits pagination_result.splits)

lemma advance_Done:
  "advance P bn tip = Inr (PageDone t b, P') \<Longrightarrow> t = tip \<and> b = bn \<and> target_block (bp_block_to P) tip \<le> bn"
  by (auto simp: advance_def Let_def split: if_splits)

lemma advance_Continue:
  "advance P bn tip = Inr (PageContinue, P') \<Longrightarrow>
     bn < target_block (bp_block_to P) tip \<and> bp_current_block_from P' = bn + 1
     \<and> bp_block_to P' = bp_block_to P \<and> bp_current_block_from P \<le> bn"
  using saturating_inc_less [of bn "target_block (bp_block_to P) tip"]
  by (auto simp: advance_def Let_def not_le split: if_splits)

lemma page_loop_complete:
  assumes "honest_pages fetch ledger block_of tip"
    and "page_loop fetch P updates w = (Inr (t, b, res), w')"
  shows "t = tip \<and> target_block (bp_block_to P) tip \<le> b \<and> bp_current_block_from P \<le> b
    \<and> set res = set updates \<union> {u \<in> ledger. bp_current_block_from P \<le> block_of u \<and> block_of u \<le> b}"
  using assms(2)
proof (induction "max_iterations - unat (bp_iterations P)" arbitrary: P updates w rule: less_induct)
  case less
  from less.prems show ?case
  proof (cases rule: page_loop_cases)
    case (1 batch page w1 P')
    then show ?thesis
      using assms(1) advance_Done [OF 1(2)] unfolding honest_pages_def by (fastforce simp: 1(3))
  next
    case (2 batch page w1 P')
    have page: "bp_current_block_from P \<le> pg_block_num page" "pg_chain_tip page = tip"
      "set batch = {u \<in> ledger. bp_current_block_from P \<le> block_of u \<and> block_of u \<le> pg_block_num page}"
      using assms(1) 2(1) unfolding honest_pages_def by blast+
    note next_page = advance_Continue [OF 2(2)]
    have "max_iterations - unat (bp_iterations P') < max_iterations - unat (bp_iterations P)"
      using advance_iterations [OF 2(2)] by linarith
    from less.hyps [OF this 2(3)] have
      ih: "t = tip" "target_block (bp_block_to P) tip \<le> b" "pg_block_num page + 1 \<le> b"
        "set res = set (updates @ batch) \<union> {u \<in> ledger. pg_block_num page + 1 \<le> block_of u \<and> block_of u \<le> b}"
      using next_page by simp_all
    have step: "pg_block_num page + 1 \<le> x \<longleftrightarrow> pg_block_num page < x" for x
      using next_page page(2) successor_le by blast
    with ih(3) have "pg_block_num page < b" by simp
    then show ?thesis
      using ih page(1,3) by (auto simp: step)
  qed
qed

lemma page_loop_returns:
  assumes "honest_pages fetch ledger block_of tip" and "answers_pages fetch"
    and "unat (bp_iterations P) + (unat (target_block (bp_block_to P) tip) - unat (bp_current_block_from P)) < max_iterations"
  shows "\<exists>r w'. page_loop fetch P updates w = (Inr r, w')"
  using assms(3)
proof (induction "max_iterations - unat (bp_iterations P)" arbitrary: P updates w rule: less_induct)
  case less
  obtain batch page w1 where f: "fetch (bp_current_block_from P, bp_block_to P) w = (Inr (batch, page), w1)"
    using assms(2) unfolding answers_pages_def by (metis surj_pair)
  have page: "bp_current_block_from P \<le> pg_block_num page" "pg_chain_tip page = tip"
    using assms(1) f unfolding honest_pages_def by blast+
  show ?case
  proof (cases "pg_block_num page \<ge> target_block (bp_block_to P) tip")
    case True
    then show ?thesis
      using less.prems page by (subst page_loop.simps) (auto simp: f advance_def Let_def)
  next
    case False
    have "\<not> pg_block_num page < bp_current_block_from P" using page(1) by simp
    then obtain P' where a: "advance P (pg_block_num page) tip = Inr (PageContinue, P')"
      using less.prems False unfolding advance_def Let_def by simp
    note it = advance_iterations [OF a] and next_page = advance_Continue [OF a]
    have "unat (pg_block_num page + 1) = Suc (unat (pg_block_num page))"
      using unat_plus_one False by (meson not_le)
    then have "unat (bp_iterations P') + (unat (target_block (bp_block_to P') tip) - unat (bp_current_block_from P'))
        < max_iterations"
      using less.prems it next_page page(1) by (auto simp: word_le_nat_alt word_less_nat_alt)
    from less.hyps [OF _ this, of "updates @ batch" w1] it show ?thesis
      by (subst page_loop.simps) (auto simp: f page(2) a)
  qed
qed

section \<open>What the nullifier requests collect\<close>

definition honest_nullifiers ::
  "(block_range \<Rightarrow> ('n, nullifier_update list \<times> pagination_info option) rpc) \<Rightarrow> nullifier_update set \<Rightarrow> block_number \<Rightarrow> bool" where
  "honest_nullifiers fetch ledger tip \<longleftrightarrow>
     (\<forall>b to w batch page w'. fetch (b, to) w = (Inr (batch, page), w') \<longrightarrow>
        (\<exists>pg. page = Some pg \<and> b \<le> pg_block_num pg \<and> pg_chain_tip pg = tip
          \<and> set batch = {u \<in> ledger. b \<le> nu_block_num u \<and> nu_block_num u \<le> pg_block_num pg}))"

abbreviation update_key :: "nullifier_update \<Rightarrow> nullifier \<times> block_number" where
  "update_key u \<equiv> (nu_nullifier u, nu_block_num u)"

lemma update_of_key [simp]: "update_of (update_key u) = u" "update_key (update_of k) = k"
  by (simp_all add: update_of_def)

lemma add_updates_keys: "fst ` set (add_updates ups S) = fst ` set S \<union> update_key ` set ups"
  unfolding add_updates_def by (induction ups arbitrary: S) auto

lemma add_updates_wf: "bt_wf S \<Longrightarrow> bt_wf (add_updates ups S)"
  unfolding add_updates_def by (induction ups arbitrary: S) auto

lemma honest_nullifiersD:
  assumes "honest_nullifiers fetch ledger tip" and "fetch (b, to) w = (Inr x, w')"
  shows "\<exists>batch pg. x = (batch, Some pg) \<and> b \<le> pg_block_num pg \<and> pg_chain_tip pg = tip
    \<and> set batch = {u \<in> ledger. b \<le> nu_block_num u \<and> nu_block_num u \<le> pg_block_num pg}"
proof -
  obtain batch page where x: "x = (batch, page)" by (cases x)
  with assms obtain pg where "page = Some pg" "b \<le> pg_block_num pg" "pg_chain_tip pg = tip"
    "set batch = {u \<in> ledger. b \<le> nu_block_num u \<and> nu_block_num u \<le> pg_block_num pg}"
    unfolding honest_nullifiers_def by blast
  with x show ?thesis by blast
qed

lemma nullifier_loop_complete:
  assumes "honest_nullifiers fetch ledger tip" and "bt_wf S"
    and "nullifier_loop fetch block_to k b S w = (Inr S', w')"
  shows "bt_wf S' \<and> (\<exists>last. target_block block_to tip \<le> last \<and> b \<le> last
    \<and> fst ` set S' = fst ` set S \<union> update_key ` {u \<in> ledger. b \<le> nu_block_num u \<and> nu_block_num u \<le> last})"
  using assms(2,3)
proof (induction k arbitrary: b S w)
  case 0
  then show ?case by simp
next
  case (Suc k)
  obtain r w1 where f: "fetch (b, block_to) w = (r, w1)" by (cases "fetch (b, block_to) w")
  with Suc.prems(2) obtain x where x: "r = Inr x" by (cases r) simp_all
  from honest_nullifiersD [OF assms(1) f [unfolded x]] obtain batch pg where
    xp: "x = (batch, Some pg)"
    and page: "b \<le> pg_block_num pg" "pg_chain_tip pg = tip"
      "set batch = {u \<in> ledger. b \<le> nu_block_num u \<and> nu_block_num u \<le> pg_block_num pg}"
    by (elim exE conjE)
  note r = x [unfolded xp]
  have nb: "\<not> pg_block_num pg < b" using page(1) by simp
  show ?case
  proof (cases "target_block block_to tip \<le> pg_block_num pg")
    case True
    then have S': "S' = add_updates batch S"
      using Suc.prems(2) nb by (simp add: f r page(2))
    show ?thesis
    proof (intro conjI exI [of _ "pg_block_num pg"])
      show "bt_wf S'" unfolding S' by (rule add_updates_wf [OF Suc.prems(1)])
      show "fst ` set S' = fst ` set S
          \<union> update_key ` {u \<in> ledger. b \<le> nu_block_num u \<and> nu_block_num u \<le> pg_block_num pg}"
        unfolding S' add_updates_keys page(3) ..
    qed (fact True page(1))+
  next
    case False
    then have next_page: "nullifier_loop fetch block_to k (pg_block_num pg + 1) (add_updates batch S) w1 = (Inr S', w')"
      using Suc.prems(2) nb by (simp add: f r page(2))
    from False have "pg_block_num pg < target_block block_to tip" by simp
    note step = successor_le [OF this]
    from Suc.IH [OF add_updates_wf [OF Suc.prems(1)] next_page, unfolded step] obtain last where
      ih: "bt_wf S'" "target_block block_to tip \<le> last" "pg_block_num pg < last"
        "fst ` set S' = fst ` set (add_updates batch S)
           \<union> update_key ` {u \<in> ledger. pg_block_num pg < nu_block_num u \<and> nu_block_num u \<le> last}"
      by (elim conjE exE)
    have "b \<le> n \<and> n \<le> last \<longleftrightarrow> b \<le> n \<and> n \<le> pg_block_num pg \<or> pg_block_num pg < n \<and> n \<le> last" for n
      using page(1) ih(3) by (auto simp: word_le_nat_alt word_less_nat_alt)
    then have "{u \<in> ledger. b \<le> nu_block_num u \<and> nu_block_num u \<le> last} = set batch
        \<union> {u \<in> ledger. pg_block_num pg < nu_block_num u \<and> nu_block_num u \<le> last}"
      unfolding page(3) by blast
    then have keys: "fst ` set S' = fst ` set S \<union> update_key ` {u \<in> ledger. b \<le> nu_block_num u \<and> nu_block_num u \<le> last}"
      unfolding ih(4) add_updates_keys by (simp only: image_Un Un_assoc)
    show ?thesis
    proof (intro conjI exI [of _ last])
      show "b \<le> last" using page(1) ih(3) by (meson less_imp_le order_trans)
    qed (fact ih(1) ih(2) keys)+
  qed
qed

lemma rpc_fold_invariant:
  assumes "rpc_fold f s xs w = (Inr s', w')" and "I [] s"
    and "\<And>seen x s w t w'. x \<in> set xs \<Longrightarrow> I seen s \<Longrightarrow> f s x w = (Inr t, w') \<Longrightarrow> I (seen @ [x]) t"
  shows "I xs s'"
proof -
  have "I (seen @ ys) s'"
    if "rpc_fold f s ys w = (Inr s', w')" "I seen s" "set ys \<subseteq> set xs" for seen ys s w
    using that
  proof (induction ys arbitrary: seen s w)
    case (Cons y ys)
    obtain r w1 where f: "f s y w = (r, w1)" by (cases "f s y w")
    with Cons.prems(1) obtain t where r: "r = Inr t" "rpc_fold f t ys w1 = (Inr s', w')" by (cases r) auto
    from assms(3) [OF _ Cons.prems(2)] f r(1) Cons.prems(3) have "I (seen @ [y]) t" by auto
    from Cons.IH [OF r(2) this] Cons.prems(3) show ?case by simp
  qed simp
  from this [OF assms(1,2)] show ?thesis by simp
qed

lemma rpc_bind_Inr: "rpc_bind m f w = (Inr y, w') \<longleftrightarrow> (\<exists>x w1. m w = (Inr x, w1) \<and> f x w1 = (Inr y, w'))"
  by (cases "m w"; cases "fst (m w)") auto

declare rpc_bind.simps [simp del]

text \<open>Without pagination data the loop runs into its limit.\<close>

lemma nullifier_loop_no_info:
  assumes "\<And>r w. \<exists>batch w'. fetch r w = (Inr (batch, None), w')"
  shows "fst (nullifier_loop fetch block_to k b S w)
    = Inl (PaginationError ''too many pagination iterations, possible infinite loop'')"
proof (induction k arbitrary: S w)
  case (Suc k)
  obtain batch w' where "fetch (b, block_to) w = (Inr (batch, None), w')" using assms by blast
  with Suc show ?case by simp
qed simp

text \<open>The fold over the chunks, by what has been asked so far.\<close>

definition nullifiers_between ::
  "protocol \<Rightarrow> nullifier_update set \<Rightarrow> u16 set \<Rightarrow> block_number \<Rightarrow> nullifier_update set" where
  "nullifiers_between P ledger prefixes b =
     {u \<in> ledger. nullifier_prefix P (nu_nullifier u) \<in> prefixes \<and> b \<le> nu_block_num u}"

definition collected ::
  "protocol \<Rightarrow> nullifier_update set \<Rightarrow> block_number \<Rightarrow> block_number \<Rightarrow> u16 list list \<Rightarrow> nullifier_set \<Rightarrow> bool" where
  "collected P ledger b target chunks S \<longleftrightarrow> bt_wf S
     \<and> update_key ` {u \<in> nullifiers_between P ledger (set (concat chunks)) b. nu_block_num u \<le> target} \<subseteq> fst ` set S
     \<and> fst ` set S \<subseteq> update_key ` nullifiers_between P ledger (set (concat chunks)) b"

lemma collected_step:
  assumes "collected P ledger b target chunks S"
    and wf: "bt_wf S'" and reach: "target \<le> b_end"
    and keys: "fst ` set S' = fst ` set S
      \<union> update_key ` {u \<in> nullifiers_between P ledger (set chunk) b. nu_block_num u \<le> b_end}"
  shows "collected P ledger b target (chunks @ [chunk]) S'"
proof -
  have "nullifiers_between P ledger (set (concat (chunks @ [chunk]))) b
      = nullifiers_between P ledger (set (concat chunks)) b \<union> nullifiers_between P ledger (set chunk) b"
    unfolding nullifiers_between_def by auto
  then show ?thesis
    using assms(1) wf reach unfolding collected_def keys by (auto intro: order_trans)
qed

lemma nullifier_loop_returns:
  assumes "honest_nullifiers fetch ledger tip" and "answers_pages fetch"
    and "unat (target_block block_to tip) - unat cur < k"
  shows "\<exists>S' w'. nullifier_loop fetch block_to k cur S w = (Inr S', w')"
  using assms(3)
proof (induction k arbitrary: cur S w)
  case (Suc k)
  obtain batch page w1 where f: "fetch (cur, block_to) w = (Inr (batch, page), w1)"
    using assms(2) unfolding answers_pages_def by (metis surj_pair)
  then obtain pg where page: "page = Some pg" "cur \<le> pg_block_num pg" "pg_chain_tip pg = tip"
    using assms(1) unfolding honest_nullifiers_def by blast
  show ?case
  proof (cases "pg_block_num pg \<ge> target_block block_to tip")
    case True
    then show ?thesis using page by (simp add: f not_less [symmetric])
  next
    case False
    then have "unat (pg_block_num pg + 1) = Suc (unat (pg_block_num pg))"
      using unat_plus_one by (meson not_le)
    with Suc.prems False page(2) have "unat (target_block block_to tip) - unat (pg_block_num pg + 1) < k"
      by (simp add: word_le_nat_alt)
    from Suc.IH [OF this, of "add_updates batch S" w1] False page show ?thesis
      by (simp add: f not_less [symmetric])
  qed
qed simp

section \<open>A sample node\<close>

text \<open>
  A node at block 3 that answers one block per page: it holds one storage map update and one
  nullifier in block 2. With \<open>info = False\<close> it leaves out the pagination data of nullifiers.
\<close>

definition sample_digest_msg :: "u64 \<Rightarrow> proto_digest" where
  "sample_digest_msg d = \<lparr>pd_d0 = 0, pd_d1 = 0, pd_d2 = 0, pd_d3 = d\<rparr>"

definition sample_map_msg :: proto_storage_map_update where
  "sample_map_msg = \<lparr>pv_block_num = 2, pv_slot_name = ''s'', pv_key = Some (sample_digest_msg 1),
     pv_value = Some (sample_digest_msg 2)\<rparr>"

definition sample_map_update :: storage_map_update where
  "sample_map_update = \<lparr>su_block_num = 2, su_slot_name = ''s'', su_key = Digest 1, su_value = Digest 2\<rparr>"

definition sample_nullifier_update :: nullifier_update where
  "sample_nullifier_update = \<lparr>nu_nullifier = Nullifier (Digest 5), nu_block_num = 2\<rparr>"

definition sample_env :: "bool \<Rightarrow> 'n rpc_env" where
  "sample_env info =
     \<lparr>re_wire = sample_wire, re_client_version = ''0'', re_word_to_hex = (\<lambda>_. ''0x''),
      re_connect = (\<lambda>_ _ _ n. (Inr (), n)),
      re_get_limits = (\<lambda>_ n. (Inr [], n)),
      re_get_notes_by_id = (\<lambda>_ _ n. (Inr [], n)),
      re_sync_nullifiers = (\<lambda>ps _ (b, _) _ n.
        (Inr (if b = 2 \<and> 5 \<in> set ps then [\<lparr>pu_nullifier = Some (sample_digest_msg 5), pu_block_num = 2\<rparr>] else [],
              if info then Some \<lparr>pg_chain_tip = 3, pg_block_num = b\<rparr> else None), n)),
      re_sync_storage_maps = (\<lambda>(b, _) _ _ n.
        (Inr (if b = 2 then [sample_map_msg] else [], Some \<lparr>pg_chain_tip = 3, pg_block_num = b\<rparr>), n)),
      re_sync_account_vault = (\<lambda>(b, _) _ _ n. (Inr ([], Some \<lparr>pg_chain_tip = 3, pg_block_num = b\<rparr>), n)),
      re_sync_notes = (\<lambda>_ _ _ n. (Inr \<lparr>pr_pagination_info = None, pr_blocks = []\<rparr>, n)),
      re_sync_transactions = (\<lambda>_ _ _ n. (Inr (None, []), n))\<rparr>"

lemma call_with_retry_ok:
  assumes "\<And>e t g n. re_connect E e t g n = (Inr (), n)" and "\<And>api n. call api n = (Inr r, n)"
  shows "\<exists>w'. call_with_retry E endpoint call w = (Inr r, w')"
  by (cases w; cases "gc_client (fst w)")
    (simp_all add: call_with_retry_def retry_loop.simps ensure_connected_def connect_def assms)

lemma sample_words: "word_try_from sample_wire (sample_digest_msg d) = Inr (Digest (unat d))" if "d < 8"
  using that by (simp add: word_try_from_def felts_try_from_def sample_digest_msg_def felt_order_def
      sample_wire_def word_less_nat_alt)

lemma sample_map_page:
  "\<exists>w'. storage_map_page (sample_env i) a (b, to) w
     = (Inr (if b = 2 then [sample_map_update] else [], \<lparr>pg_chain_tip = 3, pg_block_num = b\<rparr>), w')"
proof -
  have "\<exists>w'. call_with_retry (sample_env i) SyncStorageMapsEndpoint
      (re_sync_storage_maps (sample_env i) (b, to) (account_id_from sample_wire a)) w
      = (Inr (if b = 2 then [sample_map_msg] else [], Some \<lparr>pg_chain_tip = 3, pg_block_num = b\<rparr>), w')"
    by (rule call_with_retry_ok) (simp_all add: sample_env_def)
  moreover have "storage_map_update_try_from sample_wire sample_map_msg = Inr sample_map_update"
    by (simp add: storage_map_update_try_from_def sample_map_msg_def sample_map_update_def sample_words)
      (simp add: sample_wire_def)
  ultimately show ?thesis
    by (auto simp: storage_map_page_def rpc_bind.simps sample_env_def)
qed

lemma sample_vault_page:
  "\<exists>w'. account_vault_page (sample_env i) a (b, to) w
     = (Inr ([], \<lparr>pg_chain_tip = 3, pg_block_num = b\<rparr>), w')"
proof -
  have "\<exists>w'. call_with_retry (sample_env i) SyncAccountVaultEndpoint
      (re_sync_account_vault (sample_env i) (b, to) (account_id_from sample_wire a)) w
      = (Inr ([], Some \<lparr>pg_chain_tip = 3, pg_block_num = b\<rparr>), w')"
    by (rule call_with_retry_ok) (simp_all add: sample_env_def)
  then show ?thesis by (auto simp: account_vault_page_def rpc_bind.simps sample_env_def)
qed

lemma ucast_five: "(ucast (x :: u16) :: u32) = 5 \<longleftrightarrow> x = 5"
proof
  assume "(ucast x :: u32) = 5"
  then have "unat (ucast x :: u32) = 5" by simp
  moreover have "unat x < 2 ^ 32" using unsigned_less [where ?'a = nat, of x] by simp
  ultimately have "unat x = unat (5 :: u16)" by (simp add: unsigned_ucast_eq take_bit_nat_eq_self)
  then show "x = 5" by (rule unsigned_word_eqI)
qed simp

lemma sample_nullifier_page:
  "\<exists>w'. nullifier_page (sample_env i) chunk (b, to) w
     = (Inr (if b = 2 \<and> 5 \<in> set chunk then [sample_nullifier_update] else [],
             if i then Some \<lparr>pg_chain_tip = 3, pg_block_num = b\<rparr> else None), w')"
proof -
  have mem: "(5::u32) \<in> ucast ` set chunk \<longleftrightarrow> (5::u16) \<in> set chunk"
    using ucast_five by (auto simp: image_iff)
  have "\<exists>w'. call_with_retry (sample_env i) SyncNullifiersEndpoint
      (re_sync_nullifiers (sample_env i) (map ucast chunk) 16 (b, to)) w
      = (Inr (if b = 2 \<and> 5 \<in> set chunk then [\<lparr>pu_nullifier = Some (sample_digest_msg 5), pu_block_num = 2\<rparr>] else [],
              if i then Some \<lparr>pg_chain_tip = 3, pg_block_num = b\<rparr> else None), w')"
    by (rule call_with_retry_ok) (simp_all add: sample_env_def mem)
  moreover have "nullifier_update_try_from sample_wire \<lparr>pu_nullifier = Some (sample_digest_msg 5), pu_block_num = 2\<rparr>
      = Inr sample_nullifier_update"
    by (simp add: nullifier_update_try_from_def nullifier_try_from_def sample_nullifier_update_def sample_words)
  ultimately show ?thesis
    by (auto simp: nullifier_page_def rpc_bind.simps sample_env_def)
qed

text \<open>The pages of this node meet the laws below.\<close>

lemma sample_honest_maps:
  "honest_pages (storage_map_page (sample_env i) a) {sample_map_update} su_block_num 3"
  unfolding honest_pages_def
proof (intro allI impI)
  fix b to batch page and w w' :: "grpc_client \<times> 'n"
  assume "storage_map_page (sample_env i) a (b, to) w = (Inr (batch, page), w')"
  with sample_map_page [of i a b to w]
  have "batch = (if b = 2 then [sample_map_update] else [])" "page = \<lparr>pg_chain_tip = 3, pg_block_num = b\<rparr>"
    by auto
  then show "b \<le> pg_block_num page \<and> pg_chain_tip page = 3
      \<and> set batch = {u \<in> {sample_map_update}. b \<le> su_block_num u \<and> su_block_num u \<le> pg_block_num page}"
    by (auto simp: sample_map_update_def)
qed

lemma sample_honest_vault: "honest_pages (account_vault_page (sample_env i) a) {} vu_block_num 3"
  unfolding honest_pages_def
proof (intro allI impI)
  fix b to w batch page w'
  assume "account_vault_page (sample_env i) a (b, to) w = (Inr (batch, page), w')"
  with sample_vault_page [of i a b to w] show "b \<le> pg_block_num page \<and> pg_chain_tip page = 3
      \<and> set batch = {u \<in> {}. b \<le> vu_block_num u \<and> vu_block_num u \<le> pg_block_num page}"
    by auto
qed

lemma sample_answers:
  "answers_pages (storage_map_page (sample_env i) a)" "answers_pages (account_vault_page (sample_env i) a)"
  "answers_pages (nullifier_page (sample_env i) c)"
  unfolding answers_pages_def
  using sample_map_page [of i a] sample_vault_page [of i a] sample_nullifier_page [of i c] by (metis surj_pair)+

lemma sample_honest_nullifiers:
  "honest_nullifiers (nullifier_page (sample_env True) chunk)
     {u \<in> {sample_nullifier_update}. nullifier_prefix sample_protocol (nu_nullifier u) \<in> set chunk} 3"
  unfolding honest_nullifiers_def
proof (intro allI impI)
  fix b to w batch page w'
  assume "nullifier_page (sample_env True) chunk (b, to) w = (Inr (batch, page), w')"
  with sample_nullifier_page [of True chunk b to w]
  have "batch = (if b = 2 \<and> 5 \<in> set chunk then [sample_nullifier_update] else [])"
    "page = Some \<lparr>pg_chain_tip = 3, pg_block_num = b\<rparr>"
    by auto
  moreover have "nullifier_prefix sample_protocol (nu_nullifier sample_nullifier_update) = 5"
    by (simp add: sample_protocol_def sample_nullifier_update_def)
  ultimately show "\<exists>pg. page = Some pg \<and> b \<le> pg_block_num pg \<and> pg_chain_tip pg = 3
      \<and> set batch = {u \<in> {u \<in> {sample_nullifier_update}. nullifier_prefix sample_protocol (nu_nullifier u) \<in> set chunk}.
          b \<le> nu_block_num u \<and> nu_block_num u \<le> pg_block_num pg}"
    by (auto simp: sample_nullifier_update_def)
qed

section \<open>Properties\<close>

text \<open>
  C20. Retries are bounded and decide the result: a call on a connected client is repeated only while
  the node answers with a retryable status, at most \<open>max_retries\<close> times, and the result is the
  answer of the last call; a retryable status is returned as an error only when the retries are
  used up.
\<close>

theorem call_with_retry_outcome:
  assumes "gc_client C = Some api"
  shows "\<exists>k \<le> unat (gc_max_retries C).
      retries_then call api k n
      \<and> call_with_retry E endpoint call (C, n) = call_outcome E endpoint call api C (node_after call api k n)
      \<and> ((\<exists>st. fst (call api (node_after call api k n)) = Inl st \<and> is_retryable st) \<longrightarrow>
           k = unat (gc_max_retries C))"
  using retry_loop_outcome [OF assms, of "retry_state_new (gc_max_retries C) (gc_retry_interval_ms C)"]
  by (simp add: call_with_retry_def retry_state_new_def)

definition sample_status :: "grpc_code \<Rightarrow> grpc_status" where
  "sample_status c = \<lparr>gs_code = c, gs_message = [], gs_details = [], gs_metadata = []\<rparr>"

text \<open>A node that is unavailable for the first calls, counted down in its state.\<close>

definition sample_stub :: "(nat, nat) stub" where
  "sample_stub api n = (if n = 0 then (Inr 7, 0) else (Inl (sample_status CodeUnavailable), n - 1))"

definition sample_client :: grpc_client where
  "sample_client = (grpc_client_new endpoint_localhost 1000)\<lparr>gc_client := Some \<lparr>ac_genesis = None\<rparr>\<rparr>"

theorem call_with_retry_outcome_witness:
  "\<exists>k \<le> 4. retries_then sample_stub \<lparr>ac_genesis = None\<rparr> k 2
     \<and> call_with_retry (sample_env True) GetLimitsEndpoint sample_stub (sample_client, 2)
       = call_outcome (sample_env True) GetLimitsEndpoint sample_stub \<lparr>ac_genesis = None\<rparr> sample_client
           (node_after sample_stub \<lparr>ac_genesis = None\<rparr> k 2)"
proof -
  have c: "gc_client sample_client = Some \<lparr>ac_genesis = None\<rparr>" "unat (gc_max_retries sample_client) = 4"
    by (simp_all add: sample_client_def grpc_client_new_def)
  show ?thesis
    using call_with_retry_outcome [OF c(1), of sample_stub 2 "sample_env True" GetLimitsEndpoint]
    unfolding c(2) by (elim exE conjE) (intro exI conjI, assumption+)
qed

text \<open>
  C13. Paginated account updates are complete: against a node that answers each page with everything
  in the blocks the page covers, the updates of storage maps and of the vault that are returned are
  exactly those of the ledger from the first requested block to the last block reported, and that
  block is at least the end of the requested range or the chain tip.
\<close>

theorem account_updates_complete:
  assumes "honest_pages (storage_map_page E a) maps su_block_num tip"
    and "honest_pages (account_vault_page E a) vault vu_block_num tip"
    and "sync_storage_maps E block_from block_to a w = (Inr minfo, w')"
    and "sync_account_vault E block_from block_to a v = (Inr vinfo, v')"
  shows "target_block block_to tip \<le> smi_block_number minfo
    \<and> set (smi_updates minfo) = {u \<in> maps. block_from \<le> su_block_num u \<and> su_block_num u \<le> smi_block_number minfo}
    \<and> target_block block_to tip \<le> avi_block_number vinfo
    \<and> set (avi_updates vinfo) = {u \<in> vault. block_from \<le> vu_block_num u \<and> vu_block_num u \<le> avi_block_number vinfo}"
proof -
  obtain t b ups w1 where m: "page_loop (storage_map_page E a) (pagination_new block_from block_to) [] w
      = (Inr (t, b, ups), w1)" "minfo = \<lparr>smi_chain_tip = t, smi_block_number = b, smi_updates = ups\<rparr>"
    using assms(3) by (auto simp: sync_storage_maps_def rpc_bind_Inr)
  obtain t' b' ups' w2 where v: "page_loop (account_vault_page E a) (pagination_new block_from block_to) [] v
      = (Inr (t', b', ups'), w2)" "vinfo = \<lparr>avi_chain_tip = t', avi_block_number = b', avi_updates = ups'\<rparr>"
    using assms(4) by (auto simp: sync_account_vault_def rpc_bind_Inr)
  from page_loop_complete [OF assms(1) m(1)] page_loop_complete [OF assms(2) v(1)] show ?thesis
    by (simp add: m(2) v(2) pagination_new_def)
qed

theorem account_updates_complete_witness:
  "\<exists>minfo vinfo w' v'.
     sync_storage_maps (sample_env True) 1 None (AccountId 4) (sample_client, ()) = (Inr minfo, w')
     \<and> sync_account_vault (sample_env True) 1 None (AccountId 4) (sample_client, ()) = (Inr vinfo, v')
     \<and> target_block None 3 \<le> smi_block_number minfo
     \<and> set (smi_updates minfo)
        = {u \<in> {sample_map_update}. 1 \<le> su_block_num u \<and> su_block_num u \<le> smi_block_number minfo}"
proof -
  let ?P = "pagination_new 1 None"
  have lim: "unat (bp_iterations ?P) + (unat (target_block (bp_block_to ?P) 3)
      - unat (bp_current_block_from ?P)) < max_iterations"
    by (simp add: pagination_new_def target_block_def max_iterations_def)
  obtain minfo w' where m:
    "sync_storage_maps (sample_env True) 1 None (AccountId 4) (sample_client, ()) = (Inr minfo, w')"
    using page_loop_returns [OF sample_honest_maps sample_answers(1) lim, of True "AccountId 4" "[]" "(sample_client, ())"]
    by (auto simp: sync_storage_maps_def rpc_bind.simps)
  obtain vinfo v' where v:
    "sync_account_vault (sample_env True) 1 None (AccountId 4) (sample_client, ()) = (Inr vinfo, v')"
    using page_loop_returns [OF sample_honest_vault sample_answers(2) lim, of True "AccountId 4" "[]" "(sample_client, ())"]
    by (auto simp: sync_account_vault_def rpc_bind.simps)
  from account_updates_complete [OF sample_honest_maps sample_honest_vault m v] m v show ?thesis
    by blast
qed

text \<open>
  C19. Pagination ends with an answer: against such a node that answers every page, requesting a range
  of fewer than a thousand blocks succeeds, so the iteration limit never strikes an honest node
  that makes progress.
\<close>

theorem account_updates_return:
  assumes "honest_pages (storage_map_page E a) maps su_block_num tip" "answers_pages (storage_map_page E a)"
    and "honest_pages (account_vault_page E a) vault vu_block_num tip" "answers_pages (account_vault_page E a)"
    and "unat (target_block block_to tip) - unat block_from < 1000"
  shows "(\<exists>info w'. sync_storage_maps E block_from block_to a w = (Inr info, w'))
    \<and> (\<exists>info w'. sync_account_vault E block_from block_to a w = (Inr info, w'))"
proof -
  have lim: "unat (bp_iterations (pagination_new block_from block_to))
      + (unat (target_block (bp_block_to (pagination_new block_from block_to)) tip)
          - unat (bp_current_block_from (pagination_new block_from block_to))) < max_iterations"
    using assms(5) by (simp add: pagination_new_def max_iterations_def)
  from page_loop_returns [OF assms(1,2) lim, of "[]" w] page_loop_returns [OF assms(3,4) lim, of "[]" w]
  show ?thesis
    by (auto simp: sync_storage_maps_def sync_account_vault_def rpc_bind.simps)
qed

theorem account_updates_return_witness:
  "(\<exists>info w'. sync_storage_maps (sample_env True) 1 (Some 2) (AccountId 4) (sample_client, ()) = (Inr info, w'))
   \<and> (\<exists>info w'. sync_account_vault (sample_env True) 1 (Some 2) (AccountId 4) (sample_client, ()) = (Inr info, w'))"
  by (rule account_updates_return [OF sample_honest_maps sample_answers(1) sample_honest_vault sample_answers(2)])
    (simp add: target_block_def min_def)

text \<open>
  C6. Nullifier sync is complete and sound: against an honest node, every nullifier of the ledger with
  a requested prefix from the first block to the end of the range is returned, whatever
  the limit on prefixes per request; nothing else is returned, and the result is in strictly
  ascending order of nullifier and block.
\<close>

theorem sync_nullifiers_complete:
  assumes "\<And>chunk. honest_nullifiers (nullifier_page E chunk)
      {u \<in> ledger. nullifier_prefix P (nu_nullifier u) \<in> set chunk} tip"
    and "rpc_sync_nullifiers E prefixes block_num block_to w = (Inr res, w')"
  shows "{u \<in> nullifiers_between P ledger (set prefixes) block_num. nu_block_num u \<le> target_block block_to tip} \<subseteq> set res
    \<and> set res \<subseteq> nullifiers_between P ledger (set prefixes) block_num
    \<and> sorted_wrt (<) (map update_key res)"
proof -
  let ?t = "target_block block_to tip"
  obtain limits :: rpc_limits and chunks S w1 where l: "rl_nullifiers_limit limits \<noteq> 0"
    "chunks = chunks_of (unat (rl_nullifiers_limit limits)) prefixes"
    and fold: "rpc_fold (nullifier_chunk E block_num block_to) [] chunks w1 = (Inr S, w')"
    and res: "res = map update_of (bt_keys S)"
    using assms(2) by (auto simp: rpc_sync_nullifiers_def rpc_bind_Inr rpc_chunks_def split: if_splits)
  have chunks: "concat chunks = prefixes"
    unfolding l(2) using l(1) by (intro concat_chunks_of) (simp add: unat_gt_0)
  have "collected P ledger block_num ?t chunks S"
  proof (rule rpc_fold_invariant [OF fold, of "collected P ledger block_num ?t"])
    show "collected P ledger block_num ?t [] []" by (simp add: collected_def nullifiers_between_def)
    fix seen chunk S0 w0 S1 w2
    assume c: "collected P ledger block_num ?t seen S0" and f: "nullifier_chunk E block_num block_to S0 chunk w0 = (Inr S1, w2)"
    then have "bt_wf S0" by (simp add: collected_def)
    from nullifier_loop_complete [OF assms(1) this f [unfolded nullifier_chunk_def]]
    obtain last where last: "bt_wf S1" "?t \<le> last"
      "fst ` set S1 = fst ` set S0 \<union> update_key ` {u \<in> {u \<in> ledger. nullifier_prefix P (nu_nullifier u) \<in> set chunk}.
          block_num \<le> nu_block_num u \<and> nu_block_num u \<le> last}"
      by (elim exE conjE)
    show "collected P ledger block_num ?t (seen @ [chunk]) S1"
      by (rule collected_step [OF c last(1,2)]) (simp add: last(3) nullifiers_between_def conj_assoc)
  qed
  then have wf: "bt_wf S" and incl:
    "update_key ` {u \<in> nullifiers_between P ledger (set prefixes) block_num. nu_block_num u \<le> ?t} \<subseteq> fst ` set S"
    "fst ` set S \<subseteq> update_key ` nullifiers_between P ledger (set prefixes) block_num"
    by (simp_all add: collected_def chunks)
  have "set res = update_of ` (fst ` set S)" "map update_key res = bt_keys S"
    by (simp_all add: res image_image comp_def)
  moreover have "update_of ` update_key ` A = A" for A by (force simp: image_iff)
  ultimately show ?thesis
    using incl wf image_mono [OF incl(1), of update_of] image_mono [OF incl(2), of update_of]
    by (simp add: bt_wf_def)
qed

theorem sync_nullifiers_complete_witness:
  "\<exists>res w'. rpc_sync_nullifiers (sample_env True) [5] 1 None (sample_client\<lparr>gc_limits := Some rpc_limits_default\<rparr>, ())
      = (Inr res, w')
     \<and> sample_nullifier_update \<in> set res"
proof -
  obtain res w' where r: "rpc_sync_nullifiers (sample_env True) [5] 1 None
      (sample_client\<lparr>gc_limits := Some rpc_limits_default\<rparr>, ()) = (Inr res, w')"
  proof -
    have "unat (target_block None 3) - unat (1 :: u32) < max_iterations"
      by (simp add: target_block_def max_iterations_def)
    from nullifier_loop_returns [OF sample_honest_nullifiers sample_answers(3) this]
    obtain S w' where "nullifier_loop (nullifier_page (sample_env True) [5]) None max_iterations 1 []
        (sample_client\<lparr>gc_limits := Some rpc_limits_default\<rparr>, ()) = (Inr S, w')" by blast
    then show thesis
      by (intro that) (simp add: rpc_sync_nullifiers_def rpc_bind.simps get_rpc_limits_def rpc_chunks_def
          chunks_of.simps rpc_limits_default_def nullifier_chunk_def)
  qed
  have "sample_nullifier_update \<in> {u \<in> nullifiers_between sample_protocol {sample_nullifier_update} (set [5]) 1.
      nu_block_num u \<le> target_block None 3}"
    by (simp add: nullifiers_between_def sample_nullifier_update_def sample_protocol_def target_block_def)
  with sync_nullifiers_complete [OF sample_honest_nullifiers r] r show ?thesis by blast
qed

text \<open>
  Missing pagination data is not the end: a node that answers nullifier requests without pagination
  data is asked for the same range until the iteration limit, and the sync then fails,
  although the comment at that point takes missing data for the last page.
\<close>

lemma missing_pagination_info_fails:
  fixes limits :: rpc_limits
  assumes "gc_limits C = Some limits" and "rl_nullifiers_limit limits \<noteq> 0" and "prefixes \<noteq> []"
    and "\<And>chunk r w. \<exists>batch w'. nullifier_page E chunk r w = (Inr (batch, None), w')"
  shows "fst (rpc_sync_nullifiers E prefixes block_num block_to (C, n))
    = Inl (PaginationError ''too many pagination iterations, possible infinite loop'')"
proof -
  obtain c cs where cs: "chunks_of (unat (rl_nullifiers_limit limits)) prefixes = c # cs"
    using chunks_of_Cons [of "unat (rl_nullifiers_limit limits)" prefixes] assms(2,3)
    by (auto simp: unat_gt_0)
  have "fst (nullifier_chunk E block_num block_to [] c (C, n))
      = Inl (PaginationError ''too many pagination iterations, possible infinite loop'')"
    unfolding nullifier_chunk_def by (rule nullifier_loop_no_info) (rule assms(4))
  then obtain w' where "nullifier_chunk E block_num block_to [] c (C, n)
      = (Inl (PaginationError ''too many pagination iterations, possible infinite loop''), w')"
    by (metis prod.collapse)
  then show ?thesis
    using assms(1,2)
    by (simp add: rpc_sync_nullifiers_def rpc_bind.simps get_rpc_limits_def rpc_chunks_def cs)
qed

lemma missing_pagination_info_fails_witness:
  "fst (rpc_sync_nullifiers (sample_env False) [5] 1 None (sample_client\<lparr>gc_limits := Some rpc_limits_default\<rparr>, ()))
    = Inl (PaginationError ''too many pagination iterations, possible infinite loop'')"
proof (rule missing_pagination_info_fails)
  show "gc_limits (sample_client\<lparr>gc_limits := Some rpc_limits_default\<rparr>) = Some rpc_limits_default" by simp
  show "rl_nullifiers_limit rpc_limits_default \<noteq> 0" by (simp add: rpc_limits_default_def)
  show "\<exists>batch w'. nullifier_page (sample_env False) chunk r w = (Inr (batch, None), w')" for chunk r w
    using sample_nullifier_page [of False chunk "fst r" "snd r" w] by auto
qed simp

end
