(* ===== verification/Rpc_Notes.thy ===== *)
theory Rpc_Notes
  imports Rpc_Client
begin

text \<open>
  Note synchronization over the RPC interface: the request for one page of blocks with notes
  (\<open>sync_notes\<close> of \<^verbatim>\<open>rpc/tonic_client/mod.rs\<close>) and the default method \<open>sync_notes_with_details\<close> of
  \<^verbatim>\<open>rpc/mod.rs\<close> that collects the pages and fetches the bodies and metadata that are missing. The
  theory shows which blocks the pages cover, that the loop ends against a node that makes
  progress, and that the block at the chain tip can be left out.
\<close>

section \<open>Pages of notes\<close>

definition sync_notes_page ::
  "'n rpc_env \<Rightarrow> note_tag list \<Rightarrow> block_range \<Rightarrow> ('n, note_sync_info) rpc" where
  "sync_notes_page E note_tags blocks =
     rpc_bind (call_with_retry E SyncNotesEndpoint (re_sync_notes E blocks note_tags)) (\<lambda>response.
     rpc_lift (note_sync_info_try_from (re_wire E) response))"

text \<open>
  The loop of \<open>sync_notes_with_details\<close> has no bound: \<open>None\<close> stands for not returning. The addition
  on block numbers wraps, as in a release build.
\<close>

partial_function (option) note_pages ::
  "(block_range \<Rightarrow> ('n, note_sync_info) rpc) \<Rightarrow> block_number option \<Rightarrow> block_number \<Rightarrow>
   note_sync_block list \<Rightarrow> grpc_client \<times> 'n \<Rightarrow>
   ((rpc_error + note_sync_block list) \<times> grpc_client \<times> 'n) option" where
  "note_pages fetch block_to cursor all_blocks w =
     (case fetch (cursor, block_to) w of
        (Inl e, w') \<Rightarrow> Some (Inl e, w')
      | (Inr note_sync, w') \<Rightarrow>
          (let cursor' = nsi_block_to note_sync + 1;
               all_blocks' = all_blocks @ nsi_blocks note_sync
           in if nsi_blocks note_sync = [] \<or> cursor' \<ge> nsi_chain_tip note_sync
              then Some (Inr all_blocks', w')
              else note_pages fetch block_to cursor' all_blocks' w'))"

text \<open>The notes whose body or metadata must be fetched, and what is done with each answer.\<close>

definition notes_to_fetch :: "note_sync_block list \<Rightarrow> note_id list" where
  "notes_to_fetch blocks =
     map cn_note_id (filter (\<lambda>n. cn_metadata n = None \<or> cn_note_type n \<noteq> PrivateNote)
       (concat (map (\<lambda>b. bt_values (nsb_notes b)) blocks)))"

definition fill_metadata :: "protocol \<Rightarrow> fetched_note \<Rightarrow> note_sync_block \<Rightarrow> note_sync_block" where
  "fill_metadata P f b =
     b\<lparr>nsb_notes := bt_modify (fetched_id P f)
         (\<lambda>n. if cn_metadata n = None then cn_set_metadata (fetched_metadata f) n else n) (nsb_notes b)\<rparr>"

definition fetched_step ::
  "protocol \<Rightarrow> fetched_note \<Rightarrow> note_sync_block list \<times> (note_id, full_note) btree_map \<Rightarrow>
   note_sync_block list \<times> (note_id, full_note) btree_map" where
  "fetched_step P f = (\<lambda>(blocks, public_notes).
     (map (fill_metadata P f) blocks,
      case f of FetchedPublic n _ \<Rightarrow> bt_insert (note_get_id P n) n public_notes
      | FetchedPrivate _ _ _ \<Rightarrow> public_notes))"

definition rpc_sync_notes_with_details ::
  "'n rpc_env \<Rightarrow> protocol \<Rightarrow> block_number \<Rightarrow> block_number option \<Rightarrow> note_tag list \<Rightarrow> grpc_client \<times> 'n \<Rightarrow>
   ((rpc_error + sync_notes_result) \<times> grpc_client \<times> 'n) option" where
  "rpc_sync_notes_with_details E P block_from block_to note_tags w =
     map_option (\<lambda>(r, w').
         case r of
           Inl e \<Rightarrow> (Inl e, w')
         | Inr all_blocks \<Rightarrow>
             if notes_to_fetch all_blocks = []
             then (Inr \<lparr>snr_blocks = all_blocks, snr_public_notes = []\<rparr>, w')
             else rpc_bind (get_notes_by_id E (notes_to_fetch all_blocks)) (\<lambda>fetched.
               let (blocks, public_notes) = fold (fetched_step P) fetched (all_blocks, [])
               in rpc_lift (Inr \<lparr>snr_blocks = blocks, snr_public_notes = public_notes\<rparr>)) w')
       (note_pages (sync_notes_page E note_tags) block_to block_from [] w)"

section \<open>What the pages cover\<close>

abbreviation block_num_of :: "note_sync_block \<Rightarrow> block_number" where
  "block_num_of b \<equiv> bh_block_num (nsb_block_header b)"

text \<open>
  What the documentation of \<open>NoteSyncInfo\<close> promises of a page that starts at block \<open>b\<close>: it reports the
  chain tip and the last block it checked, and holds the blocks with matching notes in between; the
  node stops early only after it has found something.
\<close>

definition note_page_law :: "(block_range \<Rightarrow> ('n, note_sync_info) rpc) \<Rightarrow> note_sync_block set \<Rightarrow> block_number \<Rightarrow> bool" where
  "note_page_law fetch ledger tip \<longleftrightarrow>
     (\<forall>b w. b \<le> tip \<longrightarrow>
        (\<exists>info w'. fetch (b, None) w = (Inr info, w') \<and> nsi_chain_tip info = tip
           \<and> b \<le> nsi_block_to info \<and> nsi_block_to info \<le> tip
           \<and> set (nsi_blocks info) = {x \<in> ledger. b \<le> block_num_of x \<and> block_num_of x \<le> nsi_block_to info}
           \<and> (nsi_blocks info = [] \<longrightarrow> nsi_block_to info = tip)))"

lemma note_pages_collects:
  assumes law: "note_page_law fetch ledger tip" and max: "tip \<noteq> - 1" and "cursor \<le> tip"
  shows "\<exists>res w'. note_pages fetch None cursor acc w = Some (Inr (acc @ res), w')
    \<and> {x \<in> ledger. cursor \<le> block_num_of x \<and> block_num_of x < tip} \<subseteq> set res
    \<and> set res \<subseteq> {x \<in> ledger. cursor \<le> block_num_of x}"
  using assms(3)
proof (induction "unat tip - unat cursor" arbitrary: cursor acc w rule: less_induct)
  case less
  from law less.prems obtain info w1 where f: "fetch (cursor, None) w = (Inr info, w1)"
    and page: "nsi_chain_tip info = tip" "cursor \<le> nsi_block_to info" "nsi_block_to info \<le> tip"
      "set (nsi_blocks info) = {x \<in> ledger. cursor \<le> block_num_of x \<and> block_num_of x \<le> nsi_block_to info}"
      "nsi_blocks info = [] \<longrightarrow> nsi_block_to info = tip"
    unfolding note_page_law_def by meson
  let ?next = "nsi_block_to info + 1"
  have "nsi_block_to info < - 1"
    using page(3) max by (metis order_le_less_trans order_neq_le_trans word_order.extremum)
  from unat_plus_one [OF this] have suc: "unat ?next = Suc (unat (nsi_block_to info))" .
  show ?case
  proof (cases "nsi_blocks info = [] \<or> ?next \<ge> tip")
    case True
    then have "tip \<le> ?next" using page(5) suc by (auto simp: word_le_nat_alt)
    then have "x \<le> nsi_block_to info" if "x < tip" for x
      using that suc by (simp add: word_le_nat_alt word_less_nat_alt)
    then show ?thesis
      using True page by (intro exI [of _ "nsi_blocks info"] exI [of _ w1])
        (subst note_pages.simps, auto simp: f Let_def)
  next
    case False
    then have "?next \<le> tip" "unat tip - unat ?next < unat tip - unat cursor"
      using suc page(2) by (auto simp: word_le_nat_alt)
    from less.hyps [OF this(2,1), of "acc @ nsi_blocks info" w1] obtain res w' where
      ih: "note_pages fetch None ?next (acc @ nsi_blocks info) w1 = Some (Inr ((acc @ nsi_blocks info) @ res), w')"
        "{x \<in> ledger. ?next \<le> block_num_of x \<and> block_num_of x < tip} \<subseteq> set res"
        "set res \<subseteq> {x \<in> ledger. ?next \<le> block_num_of x}"
      by blast
    have step: "?next \<le> x \<longleftrightarrow> nsi_block_to info < x" for x
      using suc by (simp add: word_le_nat_alt word_less_nat_alt Suc_le_eq)
    show ?thesis
    proof (intro exI conjI)
      show "note_pages fetch None cursor acc w = Some (Inr (acc @ (nsi_blocks info @ res)), w')"
        using False ih(1) page(1) by (subst note_pages.simps) (simp add: f Let_def)
      show "{x \<in> ledger. cursor \<le> block_num_of x \<and> block_num_of x < tip} \<subseteq> set (nsi_blocks info @ res)"
        using ih(2) page(4) by (auto simp: step)
      show "set (nsi_blocks info @ res) \<subseteq> {x \<in> ledger. cursor \<le> block_num_of x}"
        using ih(3) page(2,4) by (auto simp: step)
    qed
  qed
qed

text \<open>A node at block 3 with notes in blocks 1, 2 and 3 that checks one block per page at first.\<close>

definition sample_block :: "u32 \<Rightarrow> note_sync_block" where
  "sample_block n = \<lparr>nsb_block_header = sample_header\<lparr>bh_block_num := n\<rparr>, nsb_mmr_path = [], nsb_notes = []\<rparr>"

definition sample_note_page :: "block_range \<Rightarrow> (unit, note_sync_info) rpc" where
  "sample_note_page r w =
     (let b = fst r; last = (if b = 0 then 1 else max b 2)
      in (Inr \<lparr>nsi_chain_tip = 3, nsi_block_to = last,
               nsi_blocks = filter (\<lambda>x. b \<le> block_num_of x \<and> block_num_of x \<le> last) [sample_block 1, sample_block 2, sample_block 3]\<rparr>, w))"

lemma sample_page_law:
  "note_page_law sample_note_page {sample_block 1, sample_block 2, sample_block 3} 3"
  unfolding note_page_law_def
proof (intro allI impI)
  fix b :: u32 and w :: "grpc_client \<times> unit"
  assume "b \<le> 3"
  then have "unat b = unat (0 :: u32) \<or> unat b = unat (1 :: u32) \<or> unat b = unat (2 :: u32) \<or> unat b = unat (3 :: u32)"
    by (simp add: word_le_nat_alt) linarith
  then have "b = 0 \<or> b = 1 \<or> b = 2 \<or> b = 3" by (metis unsigned_word_eqI)
  then show "\<exists>info w'. sample_note_page (b, None) w = (Inr info, w') \<and> nsi_chain_tip info = 3
      \<and> b \<le> nsi_block_to info \<and> nsi_block_to info \<le> 3
      \<and> set (nsi_blocks info) = {x \<in> {sample_block 1, sample_block 2, sample_block 3}.
            b \<le> block_num_of x \<and> block_num_of x \<le> nsi_block_to info}
      \<and> (nsi_blocks info = [] \<longrightarrow> nsi_block_to info = 3)"
    by (cases w; elim disjE) (auto simp: sample_note_page_def sample_block_def max_def)
qed

section \<open>Properties\<close>



text \<open>
  The block at the chain tip can be left out: when a page ends just below the chain tip, the loop
  stops with that page, and the notes of the block at the tip are not requested, although the
  documentation of \<open>NoteSyncInfo\<close> asks the client to continue while the last block checked is below
  the chain tip.
\<close>

lemma note_pages_stop_below_tip:
  assumes "fetch (block_from, block_to) w = (Inr info, w')" and "nsi_block_to info + 1 = nsi_chain_tip info"
  shows "note_pages fetch block_to block_from acc w = Some (Inr (acc @ nsi_blocks info), w')"
  using assms by (subst note_pages.simps) (simp add: Let_def)

lemma note_pages_stop_below_tip_witness:
  "note_pages sample_note_page None 1 [] (sample_client, ()) = Some (Inr [sample_block 1, sample_block 2], (sample_client, ()))"
  using note_pages_stop_below_tip [of sample_note_page 1 None "(sample_client, ())"]
  by (simp add: sample_note_page_def sample_block_def max_def)

end
