(* ===== verification/Token_Amounts.thy ===== *)
theory Token_Amounts
  imports Rust_Text
begin

text \<open>
  Token amounts in decimal notation (\<^verbatim>\<open>utils.rs\<close>): base units to a decimal string and back. The
  largest number of decimals of a faucet is a constant of the standards crate and an argument
  here. The theory shows that parsing reads back every displayed amount, and that whatever is
  accepted denotes exactly the amount returned.
\<close>

section \<open>Display\<close>

definition base_units_to_tokens :: "u64 \<Rightarrow> u8 \<Rightarrow> string" where
  "base_units_to_tokens units decimals =
     (let units_str = decimal (unat units); len = length units_str; d = unat decimals
      in if decimals = 0 then units_str
         else if d \<ge> len then ''0.'' @ replicate (d - len) CHR ''0'' @ units_str
         else take (len - d) units_str @ ''.'' @ drop (len - d) units_str)"

section \<open>Parsing\<close>

datatype token_parse_error =
    MaxDecimals u8
  | MultipleDecimalPoints
  | ParseU64 parse_int_error
  | TooManyDecimals u8

text \<open>The loop that pushes zeros until the fraction has the wanted length.\<close>

definition pad_fraction :: "nat \<Rightarrow> string \<Rightarrow> string" where
  "pad_fraction n f = f @ replicate (n - length f) CHR ''0''"

definition tokens_to_base_units :: "u8 \<Rightarrow> string \<Rightarrow> u8 \<Rightarrow> token_parse_error + u64" where
  "tokens_to_base_units max_decimals decimal_str n_decimals =
     (if n_decimals > max_decimals then Inl (MaxDecimals n_decimals)
      else
        let parts = split_on CHR ''.'' decimal_str
        in if length parts > 2 then Inl MultipleDecimalPoints
           else and_then (try_fold (\<lambda>_ part. map_err ParseU64 (parse_u64 part)) 0 parts) (\<lambda>_.
             let fraction = (if length parts > 1 then trim_end CHR ''0'' (parts ! 1) else [])
             in if length fraction > unat n_decimals then Inl (TooManyDecimals n_decimals)
                else map_err ParseU64
                       (parse_u64 (parts ! 0 @ take (unat n_decimals)
                          (pad_fraction (unat n_decimals) fraction)))))"

section \<open>Helper facts\<close>

text \<open>What the digits of an integer part and a fraction denote at \<open>d\<close> decimals.\<close>

lemma pad_fraction_length: "length f \<le> n \<Longrightarrow> length (pad_fraction n f) = n"
  by (simp add: pad_fraction_def)

lemma pad_fraction_trim:
  "length f = n \<Longrightarrow> pad_fraction n (trim_end CHR ''0'' f) = f"
  using trim_end_pad [of "CHR ''0''" f] by (simp add: pad_fraction_def)

lemma digits_no_dot: "all_digits s \<Longrightarrow> CHR ''.'' \<notin> set s \<and> CHR ''+'' \<notin> set s"
  by (induction s) auto

lemma parse_u64_digits:
  "ds \<noteq> [] \<Longrightarrow> all_digits ds \<Longrightarrow> digits_value ds = unat w \<Longrightarrow> parse_u64 ds = Inr w"
  by (auto simp: parse_u64_Inr unsigned_text_def)

lemma parse_u64_ok:
  assumes "ds \<noteq> []" "all_digits ds" "digits_value ds < 2 ^ 64"
  shows "\<exists>w. parse_u64 ds = Inr w"
  using parse_u64_digits [OF assms(1,2), of "of_nat (digits_value ds)"] assms(3)
  by (auto simp: unsigned_of_nat take_bit_eq_mod)

text \<open>An integer part and a fraction with exactly \<open>d\<close> digits are read as one number.\<close>

lemma tokens_to_base_units_parts:
  assumes "d \<le> M" and i: "i \<noteq> []" "all_digits i" and f: "f \<noteq> []" "all_digits f" "length f = unat d"
    and v: "digits_value (i @ f) = unat w"
  shows "tokens_to_base_units M (i @ ''.'' @ f) d = Inr w"
proof -
  have split: "split_on CHR ''.'' (i @ ''.'' @ f) = [i, f]"
    using split_on_append [OF conjunct1 [OF digits_no_dot [OF i(2)]], of f] split_on_absent [OF conjunct1 [OF digits_no_dot [OF f(2)]]]
    by simp
  have le: "digits_value i \<le> unat w" "digits_value f \<le> unat w"
    unfolding v [symmetric] digits_value_append by (simp_all add: trans_le_add1)
  then have "digits_value i < 2 ^ 64" "digits_value f < 2 ^ 64"
    using unsigned_less [of w, where ?'a = nat] by auto
  then obtain a b where p: "parse_u64 i = Inr a" "parse_u64 f = Inr b"
    using parse_u64_ok [OF i] parse_u64_ok [OF f(1,2)] by blast
  have c: "parse_u64 (i @ f) = Inr w"
    using i f v by (intro parse_u64_digits) auto
  show ?thesis
    using assms(1) trim_end_length [of "CHR ''0''" f]
    by (simp add: tokens_to_base_units_def split p f(3) pad_fraction_trim c not_less del: append.simps)
qed

text \<open>If a signed or unsigned numeral followed by more text is a numeral, the digits line up.\<close>

lemma unsigned_text_extend:
  assumes "unsigned_text i ds" and "unsigned_text (i @ t) es"
  shows "es = ds @ t \<and> all_digits t"
proof -
  from assms(1) obtain x xs where ds: "ds = x # xs" "is_digit x"
    by (cases ds) (auto simp: unsigned_text_def)
  then have "x \<noteq> CHR ''+''" by auto
  with ds show ?thesis using assms by (auto simp: unsigned_text_def)
qed

lemma digits_value_trim_pad:
  assumes "length (trim_end CHR ''0'' f) \<le> n"
  shows "digits_value (pad_fraction n (trim_end CHR ''0'' f)) * 10 ^ length f = digits_value f * 10 ^ n"
proof -
  let ?t = "trim_end CHR ''0'' f"
  obtain k where f: "f = ?t @ replicate k CHR ''0''" by (rule trim_end_split)
  then have len: "length f = length ?t + k" by (metis length_append length_replicate)
  have "digits_value f = digits_value ?t * 10 ^ k"
    by (subst f) (simp add: digits_value_append digits_value_zeros)
  moreover have "digits_value (pad_fraction n ?t) = digits_value ?t * 10 ^ (n - length ?t)"
    by (simp add: pad_fraction_def digits_value_append digits_value_zeros)
  moreover have "(10::nat) ^ n = 10 ^ (n - length ?t) * 10 ^ length ?t"
    using assms by (simp flip: power_add)
  ultimately show ?thesis by (simp add: len power_add)
qed

lemma split_two:
  "split_on c s = [i, f] \<Longrightarrow> s = i @ c # f"
  using split_on_join [of c s "[i, f]"] by simp

section \<open>Properties\<close>

text \<open>
  Displayed amounts read back: for every amount of base units and every admissible number of
  decimals, parsing the decimal string that \<open>base_units_to_tokens\<close> shows gives the same amount.
\<close>

lemma token_amount_roundtrip:
  assumes "decimals \<le> max_decimals"
  shows "tokens_to_base_units max_decimals (base_units_to_tokens units decimals) decimals = Inr units"
proof (cases "decimals = 0")
  case True
  let ?s = "decimal (unat units)"
  have "split_on CHR ''.'' ?s = [?s]" by (intro split_on_absent conjunct1 [OF digits_no_dot] decimal_digits)
  moreover have "parse_u64 ?s = Inr units" by (rule parse_u64_digits) (simp_all add: decimal_digits)
  ultimately show ?thesis
    by (simp add: tokens_to_base_units_def base_units_to_tokens_def True pad_fraction_def)
next
  case False
  then have pos: "0 < unat decimals" by (simp add: unat_gt_0)
  let ?s = "decimal (unat units)" and ?d = "unat decimals"
  show ?thesis
  proof (cases "?d \<ge> length ?s")
    case True
    let ?f = "replicate (?d - length ?s) CHR ''0'' @ ?s"
    have "tokens_to_base_units max_decimals (''0'' @ ''.'' @ ?f) decimals = Inr units"
      using assms True
      by (intro tokens_to_base_units_parts)
        (simp_all add: zeros_are_digits decimal_digits digits_value_Cons digits_value_append digits_value_zeros digits_step_def digit_value_def)
    then show ?thesis using False True by (simp add: base_units_to_tokens_def Let_def)
  next
    case short: False
    let ?i = "take (length ?s - ?d) ?s" and ?f = "drop (length ?s - ?d) ?s"
    have "all_digits (?i @ ?f)" using decimal_digits by simp
    then have "all_digits ?i" "all_digits ?f" unfolding all_digits_simps by blast+
    then have "tokens_to_base_units max_decimals (?i @ ''.'' @ ?f) decimals = Inr units"
      using assms short pos by (intro tokens_to_base_units_parts) auto
    then show ?thesis using False short by (simp add: base_units_to_tokens_def Let_def)
  qed
qed

lemma token_amount_roundtrip_witness:
  "(3::u8) \<le> 12 \<and> base_units_to_tokens 1005 3 = ''1.005''
   \<and> tokens_to_base_units 12 (base_units_to_tokens 1005 3) 3 = Inr 1005"
  using token_amount_roundtrip [of 3 12 1005] by (simp add: base_units_to_tokens_def decimal.simps digit_char_def char_of_def bit_Suc_0_iff)

text \<open>
  What is accepted denotes the amount returned: an accepted string is an integer part, with at
  most a plus in front, and an optional fraction of digits, and the base units are exactly that
  decimal number scaled by the number of decimals; nothing is rounded and nothing wraps.
\<close>

lemma accepted_amount_denotes:
  assumes "tokens_to_base_units max_decimals s n_decimals = Inr units"
  shows "\<exists>i ds f. unsigned_text i ds \<and> all_digits f \<and> (s = i \<and> f = [] \<or> s = i @ ''.'' @ f \<and> f \<noteq> [])
    \<and> unat units * 10 ^ length f = digits_value (ds @ f) * 10 ^ unat n_decimals"
proof -
  let ?d = "unat n_decimals" and ?parts = "split_on CHR ''.'' s"
  have len: "length ?parts \<le> 2" using assms by (auto simp: tokens_to_base_units_def Let_def split: if_splits)
  then consider (one) "?parts = [s]" | (two) i f where "?parts = [i, f]"
    using split_on_join [of "CHR ''.''" s]
    by (cases ?parts; cases "tl ?parts"; cases "tl (tl ?parts)") auto
  then show ?thesis
  proof cases
    case one
    then obtain a where "parse_u64 s = Inr a"
      and "parse_u64 (s @ replicate ?d CHR ''0'') = Inr units"
      using assms by (auto simp: tokens_to_base_units_def Let_def and_then_Inr_conv pad_fraction_def split: if_splits)
    then obtain ds es where t: "unsigned_text s ds" "unsigned_text (s @ replicate ?d CHR ''0'') es"
      "digits_value es = unat units"
      by (auto simp: parse_u64_Inr)
    then have "es = ds @ replicate ?d CHR ''0''" using unsigned_text_extend by blast
    with t(1,3) show ?thesis
      by (intro exI [of _ s] exI [of _ ds] exI [of _ "[]"])
        (simp add: digits_value_append digits_value_zeros)
  next
    case (two i f)
    let ?t = "trim_end CHR ''0'' f"
    from two obtain a b where p: "parse_u64 i = Inr a" "parse_u64 f = Inr b"
      and le: "length ?t \<le> ?d"
      and c: "parse_u64 (i @ pad_fraction ?d ?t) = Inr units"
      using assms
      by (auto simp: tokens_to_base_units_def Let_def and_then_Inr_conv pad_fraction_length split: if_splits)
    then obtain ds es gs where t: "unsigned_text i ds" "unsigned_text (i @ pad_fraction ?d ?t) es"
      "digits_value es = unat units" "unsigned_text f gs"
      by (auto simp: parse_u64_Inr)
    then have es: "es = ds @ pad_fraction ?d ?t" and "all_digits (pad_fraction ?d ?t)"
      using unsigned_text_extend by blast+
    then have "all_digits ?t" by (simp add: pad_fraction_def)
    then have "CHR ''+'' \<notin> set ?t" using digits_no_dot by blast
    then have "CHR ''+'' \<notin> set f" using trim_end_mem [of "CHR ''+''" f] by auto
    then have f: "all_digits f" "f \<noteq> []" using t(4) by (auto simp: unsigned_text_def)
    have "unat units = digits_value ds * 10 ^ ?d + digits_value (pad_fraction ?d ?t)"
      using t(3) pad_fraction_length [OF le] by (simp add: es digits_value_append)
    then have "unat units * 10 ^ length f = digits_value (ds @ f) * 10 ^ ?d"
      using digits_value_trim_pad [OF le] by (simp add: digits_value_append algebra_simps)
    with t(1) f split_two [OF two] show ?thesis by (intro exI [of _ i] exI [of _ ds] exI [of _ f]) simp
  qed
qed

lemma accepted_amount_denotes_witness:
  "tokens_to_base_units 12 ''2.50'' 1 = Inr 25
   \<and> (\<exists>i ds f. unsigned_text i ds \<and> all_digits f
        \<and> (''2.50'' = i \<and> f = [] \<or> ''2.50'' = i @ ''.'' @ f \<and> f \<noteq> [])
        \<and> unat (25::u64) * 10 ^ length f = digits_value (ds @ f) * 10 ^ unat (1::u8))"
proof -
  have *: "tokens_to_base_units 12 ''2.50'' 1 = Inr 25" 
    by (simp add: tokens_to_base_units_def parse_u64_def digit_value_def trim_end_def pad_fraction_def)
  show ?thesis using accepted_amount_denotes [OF *] * by blast
qed

end
