(* ===== verification/Transaction_Request.thy ===== *)
theory Transaction_Request
  imports Rpc_Domain "HOL-Library.Multiset"
begin

text \<open>
  Transaction requests (\<^verbatim>\<open>transaction/request/mod.rs\<close>, \<^verbatim>\<open>builder.rs\<close>, \<^verbatim>\<open>foreign.rs\<close>) and the checks made
  on a request and on an executed transaction (\<^verbatim>\<open>transaction/mod.rs\<close>). Creating notes, compiling
  scripts and reading an account's vault are calls into the protocol crates: they are the arguments
  \<open>note_ops\<close>, \<open>script_ops\<close> and \<open>vault_view\<close>. The theory shows what a built request contains, which
  input notes a transaction gets, and that the check of a request compares the amounts that
  leave the account with those it holds or receives.
\<close>

section \<open>Requests\<close>

datatype note_script = NoteScript (script_root: digest)

definition recipient_script :: "note_recipient \<Rightarrow> note_script" where
  "recipient_script r = NoteScript (rc_script_root r)"

text \<open>Opaque values of the virtual machine and of the protocol crates.\<close>

datatype transaction_script = TransactionScript nat
datatype advice_map = AdviceMap nat
datatype merkle_store = MerkleStore nat

record partial_account =
  pa_id :: account_id
  pa_commitment :: digest

type_synonym storage_requirements = "(string \<times> digest list) list"

datatype foreign_account =
    ForeignPublic account_id storage_requirements
  | ForeignPrivate partial_account

fun foreign_account_id :: "foreign_account \<Rightarrow> account_id" where
  "foreign_account_id (ForeignPublic a _) = a"
| "foreign_account_id (ForeignPrivate pa) = pa_id pa"

fun storage_slot_requirements :: "foreign_account \<Rightarrow> storage_requirements" where
  "storage_slot_requirements (ForeignPublic _ r) = r"
| "storage_slot_requirements (ForeignPrivate _) = []"

definition foreign_public ::
  "(account_id \<Rightarrow> bool) \<Rightarrow> account_id \<Rightarrow> storage_requirements \<Rightarrow> transaction_request_error + foreign_account" where
  "foreign_public has_public_state a reqs =
     (if \<not> has_public_state a then Inl (InvalidForeignAccountId a) else Inr (ForeignPublic a reqs))"

definition foreign_private ::
  "(account_id \<Rightarrow> bool) \<Rightarrow> partial_account \<Rightarrow> transaction_request_error + foreign_account" where
  "foreign_private has_public_state pa =
     (if has_public_state (pa_id pa) then Inl (InvalidForeignAccountId (pa_id pa)) else Inr (ForeignPrivate pa))"

datatype transaction_script_template =
    CustomScript transaction_script
  | SendNotes "partial_note list"

record transaction_request =
  tq_input_notes :: "full_note list"
  tq_input_notes_args :: "(note_id \<times> digest option) list"
  tq_script_template :: "transaction_script_template option"
  tq_expected_output_recipients :: "(digest, note_recipient) btree_map"
  tq_expected_future_notes :: "(note_id, note_details \<times> note_tag) btree_map"
  tq_advice_map :: advice_map
  tq_merkle_store :: merkle_store
  tq_foreign_accounts :: "(account_id, foreign_account) btree_map"
  tq_expiration_delta :: "u16 option"
  tq_ignore_invalid_input_notes :: bool
  tq_script_arg :: "digest option"
  tq_auth_arg :: "digest option"
  tq_expected_ntx_scripts :: "note_script list"

definition input_note_ids :: "protocol \<Rightarrow> transaction_request \<Rightarrow> note_id list" where
  "input_note_ids P R = map (note_get_id P) (tq_input_notes R)"

text \<open>
  Totals per faucet and the distinct non-fungible assets. The additions are on 64-bit amounts and
  wrap, as in a release build.
\<close>

type_synonym asset_totals = "(account_id, u64) btree_map \<times> (account_id \<times> digest) list"

fun collect_asset :: "asset \<Rightarrow> asset_totals \<Rightarrow> asset_totals" where
  "collect_asset (Fungible faucet amount) (balances, nfts) =
     (bt_upsert faucet (\<lambda>balance. balance + amount) amount balances, nfts)"
| "collect_asset (NonFungible faucet v) (balances, nfts) =
     (balances, if (faucet, v) \<in> set nfts then nfts else nfts @ [(faucet, v)])"

definition collect_assets :: "asset list \<Rightarrow> asset_totals" where
  "collect_assets assets = fold collect_asset assets ([], [])"

definition incoming_assets :: "transaction_request \<Rightarrow> asset_totals" where
  "incoming_assets R = collect_assets (concat (map nt_assets (tq_input_notes R)))"

definition get_note_args :: "transaction_request \<Rightarrow> (note_id, digest) btree_map" where
  "get_note_args R =
     bt_from_iter (List.map_filter (\<lambda>(i, args). map_option (\<lambda>a. (i, a)) args) (tq_input_notes_args R))"

definition own_note ::
  "transaction_request \<Rightarrow> partial_note \<Rightarrow> transaction_request_error + full_note" where
  "own_note R partial =
     (case bt_get (tq_expected_output_recipients R) (pn_recipient_digest partial) of
        None \<Rightarrow> Inl (RequestPanicked ''Recipient should be included if it's an own note'')
      | Some recipient \<Rightarrow>
          Inr \<lparr>nt_assets = pn_assets partial, nt_metadata = pn_metadata partial, nt_recipient = recipient\<rparr>)"

definition expected_output_own_notes ::
  "transaction_request \<Rightarrow> transaction_request_error + full_note list" where
  "expected_output_own_notes R =
     (case tq_script_template R of
        Some (SendNotes ns) \<Rightarrow> try_map (own_note R) ns
      | _ \<Rightarrow> Inr [])"

text \<open>
  The input notes of the transaction; \<open>check_inputs\<close> is the check of the collection type of the
  protocol crates (its size and duplicate nullifiers).
\<close>

definition add_authenticated ::
  "protocol \<Rightarrow> (note_id, input_note) btree_map \<Rightarrow> input_note_record \<Rightarrow>
   transaction_request_error + (note_id, input_note) btree_map" where
  "add_authenticated P m r =
     (if \<not> inr_is_authenticated r then Inl (InputNoteNotAuthenticated (inr_id P r))
      else if inr_is_consumed r then Inl (InputNoteAlreadyConsumed (inr_id P r))
      else case inr_try_into_input_note r of
             Inl _ \<Rightarrow> Inl (RequestPanicked ''Authenticated note record should be convertible to InputNote'')
           | Inr n \<Rightarrow> Inr (bt_insert (inr_id P r) n m))"

definition add_unauthenticated ::
  "protocol \<Rightarrow> full_note list \<Rightarrow> (note_id, input_note) btree_map \<Rightarrow> (note_id, input_note) btree_map" where
  "add_unauthenticated P ns m =
     fold (\<lambda>n. bt_insert (note_get_id P n) (Unauthenticated n))
       (filter (\<lambda>n. note_get_id P n \<notin> set (bt_keys m)) ns) m"

fun take_notes ::
  "note_id list \<Rightarrow> (note_id, input_note) btree_map \<Rightarrow> transaction_request_error + input_note list" where
  "take_notes [] m = Inr []"
| "take_notes (i # is) m =
     (case bt_get m i of
        None \<Rightarrow> Inl (RequestPanicked ''The input note map was checked to contain all input notes'')
      | Some n \<Rightarrow> and_then (take_notes is (bt_remove i m)) (\<lambda>ns. Inr (n # ns)))"

definition build_input_notes ::
  "protocol \<Rightarrow> (input_note list \<Rightarrow> message option) \<Rightarrow> transaction_request \<Rightarrow> input_note_record list \<Rightarrow>
   transaction_request_error + input_note list" where
  "build_input_notes P check_inputs R authenticated_note_records =
     and_then (try_fold (add_authenticated P) [] authenticated_note_records) (\<lambda>m.
     and_then (take_notes (input_note_ids P R) (add_unauthenticated P (tq_input_notes R) m)) (\<lambda>ns.
     case check_inputs ns of None \<Rightarrow> Inr ns | Some e \<Rightarrow> Inl (RequestInputError e)))"

record script_ops =
  so_send_notes :: "partial_note list \<Rightarrow> u16 option \<Rightarrow> message + transaction_script"
  so_compile :: "string \<Rightarrow> message + transaction_script"

definition build_transaction_script ::
  "script_ops \<Rightarrow> transaction_request \<Rightarrow> transaction_request_error + transaction_script" where
  "build_transaction_script S R =
     (case tq_script_template R of
        Some (CustomScript script) \<Rightarrow> Inr script
      | Some (SendNotes ns) \<Rightarrow>
          map_err RequestAccountInterfaceError (so_send_notes S ns (tq_expiration_delta R))
      | None \<Rightarrow> map_err CodeBuilderError (so_compile S ''begin nop end''))"

section \<open>Building requests\<close>

record request_builder =
  rb_input_notes :: "full_note list"
  rb_input_notes_args :: "(note_id \<times> digest option) list"
  rb_own_output_notes :: "full_note list"
  rb_expected_output_recipients :: "(digest, note_recipient) btree_map"
  rb_expected_future_notes :: "(note_id, note_details \<times> note_tag) btree_map"
  rb_custom_script :: "transaction_script option"
  rb_advice_map :: advice_map
  rb_merkle_store :: merkle_store
  rb_foreign_accounts :: "(account_id, foreign_account) btree_map"
  rb_expiration_delta :: "u16 option"
  rb_ignore_invalid_input_notes :: bool
  rb_script_arg :: "digest option"
  rb_auth_arg :: "digest option"
  rb_expected_ntx_scripts :: "note_script list"

text \<open>The empty advice map and Merkle store are those of the crates that define them.\<close>

definition builder_new :: "advice_map \<Rightarrow> merkle_store \<Rightarrow> request_builder" where
  "builder_new advice merkle =
     \<lparr>rb_input_notes = [], rb_input_notes_args = [], rb_own_output_notes = [],
      rb_expected_output_recipients = [], rb_expected_future_notes = [], rb_custom_script = None,
      rb_advice_map = advice, rb_merkle_store = merkle, rb_foreign_accounts = [],
      rb_expiration_delta = None, rb_ignore_invalid_input_notes = False, rb_script_arg = None,
      rb_auth_arg = None, rb_expected_ntx_scripts = []\<rparr>"

definition with_input_notes ::
  "protocol \<Rightarrow> (full_note \<times> digest option) list \<Rightarrow> request_builder \<Rightarrow> request_builder" where
  "with_input_notes P ns B =
     fold (\<lambda>(n, argument) B.
         B\<lparr>rb_input_notes_args := rb_input_notes_args B @ [(note_get_id P n, argument)],
           rb_input_notes := rb_input_notes B @ [n]\<rparr>) ns B"

definition with_own_output_notes :: "protocol \<Rightarrow> full_note list \<Rightarrow> request_builder \<Rightarrow> request_builder" where
  "with_own_output_notes P ns B =
     fold (\<lambda>n B.
         B\<lparr>rb_expected_output_recipients :=
             bt_insert (recipient_digest P (nt_recipient n)) (nt_recipient n) (rb_expected_output_recipients B),
           rb_own_output_notes := rb_own_output_notes B @ [n]\<rparr>) ns B"

definition with_custom_script :: "transaction_script \<Rightarrow> request_builder \<Rightarrow> request_builder" where
  "with_custom_script script B = B\<lparr>rb_custom_script := Some script\<rparr>"

definition with_foreign_accounts :: "foreign_account list \<Rightarrow> request_builder \<Rightarrow> request_builder" where
  "with_foreign_accounts accounts B =
     B\<lparr>rb_foreign_accounts :=
         fold (\<lambda>a. bt_insert (foreign_account_id a) a) accounts (rb_foreign_accounts B)\<rparr>"

definition with_expected_output_recipients ::
  "protocol \<Rightarrow> note_recipient list \<Rightarrow> request_builder \<Rightarrow> request_builder" where
  "with_expected_output_recipients P recipients B =
     B\<lparr>rb_expected_output_recipients := bt_from_iter (map (\<lambda>r. (recipient_digest P r, r)) recipients)\<rparr>"

definition with_expected_future_notes ::
  "protocol \<Rightarrow> (note_details \<times> note_tag) list \<Rightarrow> request_builder \<Rightarrow> request_builder" where
  "with_expected_future_notes P ns B =
     B\<lparr>rb_expected_future_notes := bt_from_iter (map (\<lambda>n. (details_id P (fst n), n)) ns)\<rparr>"

definition with_expiration_delta :: "u16 \<Rightarrow> request_builder \<Rightarrow> request_builder" where
  "with_expiration_delta d B = B\<lparr>rb_expiration_delta := Some d\<rparr>"

definition with_ignore_invalid_input_notes :: "request_builder \<Rightarrow> request_builder" where
  "with_ignore_invalid_input_notes B = B\<lparr>rb_ignore_invalid_input_notes := True\<rparr>"

definition with_script_arg :: "digest \<Rightarrow> request_builder \<Rightarrow> request_builder" where
  "with_script_arg w B = B\<lparr>rb_script_arg := Some w\<rparr>"

definition with_auth_arg :: "digest \<Rightarrow> request_builder \<Rightarrow> request_builder" where
  "with_auth_arg w B = B\<lparr>rb_auth_arg := Some w\<rparr>"

definition with_expected_ntx_scripts :: "note_script list \<Rightarrow> request_builder \<Rightarrow> request_builder" where
  "with_expected_ntx_scripts scripts B = B\<lparr>rb_expected_ntx_scripts := scripts\<rparr>"

text \<open>The first note identifier that repeats an earlier one.\<close>

fun first_duplicate :: "note_id list \<Rightarrow> note_id list \<Rightarrow> note_id option" where
  "first_duplicate seen [] = None"
| "first_duplicate seen (i # is) = (if i \<in> set seen then Some i else first_duplicate (i # seen) is)"

definition partial_of_note :: "protocol \<Rightarrow> full_note \<Rightarrow> partial_note" where
  "partial_of_note P n =
     \<lparr>pn_metadata = nt_metadata n, pn_recipient_digest = recipient_digest P (nt_recipient n),
      pn_assets = nt_assets n\<rparr>"

definition build_script_template ::
  "protocol \<Rightarrow> request_builder \<Rightarrow> transaction_request_error + transaction_script_template option" where
  "build_script_template P B =
     (case (rb_custom_script B, rb_own_output_notes B = []) of
        (Some _, False) \<Rightarrow> Inl (ScriptTemplateError ''Cannot set both a custom script and own output notes'')
      | (Some script, True) \<Rightarrow>
          if rb_expiration_delta B \<noteq> None
          then Inl (ScriptTemplateError ''Cannot set expiration delta when a custom script is set'')
          else Inr (Some (CustomScript script))
      | (None, False) \<Rightarrow> Inr (Some (SendNotes (map (partial_of_note P) (rb_own_output_notes B))))
      | (None, True) \<Rightarrow> Inr None)"

definition build_request :: "protocol \<Rightarrow> request_builder \<Rightarrow> transaction_request_error + transaction_request" where
  "build_request P B =
     (case first_duplicate [] (map fst (rb_input_notes_args B)) of
        Some i \<Rightarrow> Inl (DuplicateInputNote i)
      | None \<Rightarrow>
          and_then (build_script_template P B) (\<lambda>script_template.
          Inr \<lparr>tq_input_notes = rb_input_notes B, tq_input_notes_args = rb_input_notes_args B,
               tq_script_template = script_template,
               tq_expected_output_recipients = rb_expected_output_recipients B,
               tq_expected_future_notes = rb_expected_future_notes B,
               tq_advice_map = rb_advice_map B, tq_merkle_store = rb_merkle_store B,
               tq_foreign_accounts = rb_foreign_accounts B,
               tq_expiration_delta = rb_expiration_delta B,
               tq_ignore_invalid_input_notes = rb_ignore_invalid_input_notes B,
               tq_script_arg = rb_script_arg B, tq_auth_arg = rb_auth_arg B,
               tq_expected_ntx_scripts = rb_expected_ntx_scripts B\<rparr>))"

section \<open>Standard requests\<close>

text \<open>The note scripts of the standards crate draw randomness, whose state \<open>'r\<close> they return.\<close>

record 'r note_ops =
  no_p2id :: "account_id \<Rightarrow> account_id \<Rightarrow> asset list \<Rightarrow> note_type \<Rightarrow> 'r \<Rightarrow> (message + full_note) \<times> 'r"
  no_p2ide :: "account_id \<Rightarrow> account_id \<Rightarrow> block_number option \<Rightarrow> block_number option \<Rightarrow> asset list \<Rightarrow>
    note_type \<Rightarrow> 'r \<Rightarrow> (message + full_note) \<times> 'r"
  no_swap :: "account_id \<Rightarrow> asset \<Rightarrow> asset \<Rightarrow> note_type \<Rightarrow> note_type \<Rightarrow> 'r \<Rightarrow>
    (message + full_note \<times> note_details) \<times> 'r"
  no_account_tag :: "account_id \<Rightarrow> note_tag"
  no_draw_word :: "'r \<Rightarrow> digest \<times> 'r"
  no_empty_note :: "account_id \<Rightarrow> digest \<Rightarrow> note_script \<Rightarrow> message + full_note"

record payment_note_description =
  pd_assets :: "asset list"
  pd_sender :: account_id
  pd_target :: account_id
  pd_reclaim_height :: "block_number option"
  pd_timelock_height :: "block_number option"

definition payment_new :: "asset list \<Rightarrow> account_id \<Rightarrow> account_id \<Rightarrow> payment_note_description" where
  "payment_new assets sender target =
     \<lparr>pd_assets = assets, pd_sender = sender, pd_target = target, pd_reclaim_height = None,
      pd_timelock_height = None\<rparr>"

definition with_reclaim_height :: "block_number \<Rightarrow> payment_note_description \<Rightarrow> payment_note_description" where
  "with_reclaim_height h D = D\<lparr>pd_reclaim_height := Some h\<rparr>"

definition with_timelock_height :: "block_number \<Rightarrow> payment_note_description \<Rightarrow> payment_note_description" where
  "with_timelock_height h D = D\<lparr>pd_timelock_height := Some h\<rparr>"

definition payment_into_note ::
  "'r note_ops \<Rightarrow> payment_note_description \<Rightarrow> note_type \<Rightarrow> 'r \<Rightarrow> (message + full_note) \<times> 'r" where
  "payment_into_note K D note_type =
     (if pd_reclaim_height D = None \<and> pd_timelock_height D = None
      then no_p2id K (pd_sender D) (pd_target D) (pd_assets D) note_type
      else no_p2ide K (pd_sender D) (pd_target D) (pd_reclaim_height D) (pd_timelock_height D) (pd_assets D)
             note_type)"

definition build_consume_notes ::
  "protocol \<Rightarrow> full_note list \<Rightarrow> request_builder \<Rightarrow> transaction_request_error + transaction_request" where
  "build_consume_notes P ns B = build_request P (with_input_notes P (map (\<lambda>n. (n, None)) ns) B)"

definition build_mint_fungible_asset ::
  "protocol \<Rightarrow> 'r note_ops \<Rightarrow> account_id \<Rightarrow> u64 \<Rightarrow> account_id \<Rightarrow> note_type \<Rightarrow> request_builder \<Rightarrow> 'r \<Rightarrow>
   (transaction_request_error + transaction_request) \<times> 'r" where
  "build_mint_fungible_asset P K faucet amount target note_type B r =
     (case no_p2id K faucet target [Fungible faucet amount] note_type r of
        (Inl e, r') \<Rightarrow> (Inl (NoteCreationError e), r')
      | (Inr n, r') \<Rightarrow> (build_request P (with_own_output_notes P [n] B), r'))"

fun is_zero_fungible :: "asset \<Rightarrow> bool" where
  "is_zero_fungible (Fungible _ amount) \<longleftrightarrow> amount = 0"
| "is_zero_fungible (NonFungible _ _) \<longleftrightarrow> False"

definition build_pay_to_id ::
  "protocol \<Rightarrow> 'r note_ops \<Rightarrow> payment_note_description \<Rightarrow> note_type \<Rightarrow> request_builder \<Rightarrow> 'r \<Rightarrow>
   (transaction_request_error + transaction_request) \<times> 'r" where
  "build_pay_to_id P K D note_type B r =
     (if list_all is_zero_fungible (pd_assets D) then (Inl P2IDNoteWithoutAsset, r)
      else case payment_into_note K D note_type r of
             (Inl e, r') \<Rightarrow> (Inl (NoteCreationError e), r')
           | (Inr n, r') \<Rightarrow> (build_request P (with_own_output_notes P [n] B), r'))"

definition build_swap ::
  "protocol \<Rightarrow> 'r note_ops \<Rightarrow> account_id \<Rightarrow> asset \<Rightarrow> asset \<Rightarrow> note_type \<Rightarrow> note_type \<Rightarrow> request_builder \<Rightarrow> 'r \<Rightarrow>
   (transaction_request_error + transaction_request) \<times> 'r" where
  "build_swap P K account offered requested note_type payback_note_type B r =
     (case no_swap K account offered requested note_type payback_note_type r of
        (Inl e, r') \<Rightarrow> (Inl (NoteCreationError e), r')
      | (Inr (n, payback), r') \<Rightarrow>
          (build_request P (with_own_output_notes P [n]
             (with_expected_future_notes P [(payback, no_account_tag K account)] B)), r'))"

fun registration_notes ::
  "'r note_ops \<Rightarrow> account_id \<Rightarrow> note_script list \<Rightarrow> 'r \<Rightarrow> (message + full_note list) \<times> 'r" where
  "registration_notes K sender [] r = (Inr [], r)"
| "registration_notes K sender (s # scripts) r =
     (let (serial, r1) = no_draw_word K r
      in case no_empty_note K sender serial s of
           Inl e \<Rightarrow> (Inl e, r1)
         | Inr n \<Rightarrow>
             (case registration_notes K sender scripts r1 of
                (Inl e, r2) \<Rightarrow> (Inl e, r2)
              | (Inr ns, r2) \<Rightarrow> (Inr (n # ns), r2)))"

definition build_register_note_scripts ::
  "protocol \<Rightarrow> 'r note_ops \<Rightarrow> account_id \<Rightarrow> note_script list \<Rightarrow> request_builder \<Rightarrow> 'r \<Rightarrow>
   (transaction_request_error + transaction_request) \<times> 'r" where
  "build_register_note_scripts P K sender scripts B r =
     (case registration_notes K sender scripts r of
        (Inl e, r') \<Rightarrow> (Inl (NoteCreationError e), r')
      | (Inr ns, r') \<Rightarrow> (build_request P (with_own_output_notes P ns B), r'))"

section \<open>Checks\<close>

definition partial_note_id :: "protocol \<Rightarrow> partial_note \<Rightarrow> note_id" where
  "partial_note_id P n = note_id_new P (pn_recipient_digest n) (assets_commitment P (pn_assets n))"

definition get_outgoing_assets :: "protocol \<Rightarrow> transaction_request \<Rightarrow> transaction_request_error + asset_totals" where
  "get_outgoing_assets P R =
     (let own_notes_assets =
            (case tq_script_template R of
               Some (SendNotes ns) \<Rightarrow> bt_from_iter (map (\<lambda>n. (partial_note_id P n, pn_assets n)) ns)
             | _ \<Rightarrow> [])
      in and_then (expected_output_own_notes R) (\<lambda>own_notes.
         let output_notes_assets = bt_from_iter (map (\<lambda>n. (note_get_id P n, nt_assets n)) own_notes);
             merged = fold (\<lambda>(i, as). bt_insert i as) own_notes_assets output_notes_assets
         in Inr (collect_assets (concat (bt_values merged)))))"

record vault_view =
  vv_balance :: "account_id \<Rightarrow> message + u64"
  vv_has_non_fungible :: "account_id \<times> digest \<Rightarrow> message + bool"

definition unwrap_or :: "'a \<Rightarrow> 'e + 'a \<Rightarrow> 'a" where
  "unwrap_or d r = (case r of Inl _ \<Rightarrow> d | Inr x \<Rightarrow> x)"

definition check_fungible ::
  "vault_view \<Rightarrow> (account_id, u64) btree_map \<Rightarrow> account_id \<times> u64 \<Rightarrow> client_error + unit" where
  "check_fungible V incoming = (\<lambda>(faucet, amount).
     let account_asset_amount = unwrap_or 0 (vv_balance V faucet);
         incoming_balance = (case bt_get incoming faucet of None \<Rightarrow> 0 | Some b \<Rightarrow> b)
     in if account_asset_amount + incoming_balance < amount
        then Inl (AssetError (FungibleAssetAmountNotSufficient account_asset_amount amount))
        else Inr ())"

definition check_non_fungible ::
  "vault_view \<Rightarrow> (account_id \<times> digest) list \<Rightarrow> account_id \<times> digest \<Rightarrow> client_error + unit" where
  "check_non_fungible V incoming nft =
     (case vv_has_non_fungible V nft of
        Inr True \<Rightarrow> Inr ()
      | Inr False \<Rightarrow>
          if nft \<notin> set incoming then Inl (AssetError (NonFungibleFaucetIdTypeMismatch (fst nft))) else Inr ()
      | Inl _ \<Rightarrow> Inl (AssetError (NonFungibleFaucetIdTypeMismatch (fst nft))))"

definition validate_basic_account_request ::
  "protocol \<Rightarrow> transaction_request \<Rightarrow> vault_view \<Rightarrow> client_error + unit" where
  "validate_basic_account_request P R V =
     and_then (map_err TransactionRequestError (get_outgoing_assets P R)) (\<lambda>(fungible, non_fungible).
     let (incoming_fungible, incoming_non_fungible) = incoming_assets R
     in and_then (try_map (check_fungible V incoming_fungible) fungible) (\<lambda>_.
        and_then (try_map (check_non_fungible V incoming_non_fungible) non_fungible) (\<lambda>_. Inr ())))"

fun output_recipient :: "raw_output_note \<Rightarrow> note_recipient option" where
  "output_recipient (FullOutput n) = Some (nt_recipient n)"
| "output_recipient (PartialOutput _) = None"

definition notes_from_output :: "raw_output_note list \<Rightarrow> full_note list" where
  "notes_from_output outs =
     List.map_filter (\<lambda>n. case n of FullOutput f \<Rightarrow> Some f | PartialOutput _ \<Rightarrow> None) outs"

definition validate_executed_transaction ::
  "protocol \<Rightarrow> raw_output_note list \<Rightarrow> note_recipient list \<Rightarrow> client_error + unit" where
  "validate_executed_transaction P outs expected =
     (let digests = map (recipient_digest P) (List.map_filter output_recipient outs);
          missing = filter (\<lambda>d. d \<notin> set digests) (map (recipient_digest P) expected)
      in if missing \<noteq> [] then Inl (MissingOutputRecipients missing) else Inr ())"

section \<open>Totals of assets\<close>

fun amount_of :: "account_id \<Rightarrow> asset \<Rightarrow> nat" where
  "amount_of f (Fungible g x) = (if g = f then unat x else 0)"
| "amount_of f (NonFungible _ _) = 0"

definition fungible_total :: "account_id \<Rightarrow> asset list \<Rightarrow> nat" where
  "fungible_total f as = sum_list (map (amount_of f) as)"

definition non_fungibles :: "asset list \<Rightarrow> (account_id \<times> digest) set" where
  "non_fungibles as = {(f, v). NonFungible f v \<in> set as}"

lemma fungible_total_simps [simp]:
  "fungible_total f [] = 0" "fungible_total f (a # as) = amount_of f a + fungible_total f as"
  "fungible_total f (as @ bs) = fungible_total f as + fungible_total f bs"
  by (simp_all add: fungible_total_def)

lemma fungible_total_mset: "mset as = mset bs \<Longrightarrow> fungible_total f as = fungible_total f bs"
  unfolding fungible_total_def by (metis mset_map sum_mset_sum_list)

lemma mset_concat_cong: "mset xss = mset yss \<Longrightarrow> mset (concat xss) = mset (concat yss)"
  by (simp add: mset_concat flip: sum_mset_sum_list)

lemma non_fungibles_mset: "mset as = mset bs \<Longrightarrow> non_fungibles as = non_fungibles bs"
  unfolding non_fungibles_def using mset_eq_setD by blast

lemma no_fungible_total:
  assumes "\<nexists>x. Fungible f x \<in> set as"
  shows "fungible_total f as = 0"
proof -
  have "amount_of f a = 0" if "a \<in> set as" for a
    using assms that by (cases a) auto
  then show ?thesis by (simp add: fungible_total_def)
qed

lemma collect_fungible:
  "bt_get (fst (fold collect_asset as (b, n))) f =
     (if \<exists>x. Fungible f x \<in> set as
      then Some ((case bt_get b f of None \<Rightarrow> 0 | Some y \<Rightarrow> y) + of_nat (fungible_total f as))
      else bt_get b f)"
proof (induction as arbitrary: b n)
  case (Cons a as)
  show ?case
  proof (cases a)
    case (Fungible g x)
    with no_fungible_total [of f as] show ?thesis
      by (auto simp: Cons.IH bt_get_upsert algebra_simps split: option.splits)
  qed (auto simp: Cons.IH)
qed simp

lemma collect_wf: "bt_wf b \<Longrightarrow> bt_wf (fst (fold collect_asset as (b, n)))"
proof (induction as arbitrary: b n)
  case (Cons a as)
  then show ?case by (cases a) simp_all
qed simp

lemma collect_non_fungible:
  "set (snd (fold collect_asset as (b, n))) = set n \<union> non_fungibles as"
proof (induction as arbitrary: b n)
  case (Cons a as)
  then show ?case by (cases a) (auto simp: non_fungibles_def)
qed (simp add: non_fungibles_def)

lemma collected:
  fixes as :: "asset list"
  shows collected_fungible: "bt_get (fst (collect_assets as)) f =
      (if \<exists>x. Fungible f x \<in> set as then Some (of_nat (fungible_total f as)) else None)"
    and collected_wf: "bt_wf (fst (collect_assets as))"
    and collected_non_fungible: "set (snd (collect_assets as)) = non_fungibles as"
  using collect_fungible [of as "[]" "[]" f] collect_wf [of "[]" as "[]"] collect_non_fungible [of as "[]" "[]"]
  by (simp_all add: collect_assets_def)

section \<open>Assets that leave the account\<close>

text \<open>
  What the protocol crates document of note identifiers: they are derived from the digest of the
  recipient and the commitment to the assets.
\<close>

definition ids_from_parts :: "protocol \<Rightarrow> bool" where
  "ids_from_parts P \<longleftrightarrow>
     (\<forall>d. details_id P d = note_id_new P (recipient_digest P (nd_recipient d)) (assets_commitment P (nd_assets d)))"

definition recipients_keyed :: "protocol \<Rightarrow> (digest, note_recipient) btree_map \<Rightarrow> bool" where
  "recipients_keyed P m \<longleftrightarrow> (\<forall>d r. bt_get m d = Some r \<longrightarrow> recipient_digest P r = d)"

lemma bt_insert_same: "bt_wf m \<Longrightarrow> bt_get m k = Some v \<Longrightarrow> bt_insert k v m = m"
  by (rule bt.iter_unique) (auto simp: fun_eq_iff)

lemma bt_insert_all_same:
  assumes "bt_wf m" "\<And>k v. (k, v) \<in> set xs \<Longrightarrow> bt_get m k = Some v"
  shows "fold (\<lambda>(k, v). bt_insert k v) xs m = m"
  using assms(2) by (induction xs) (auto simp: bt_insert_same [OF assms(1)])

lemma mset_bt_insert: "k \<notin> fst ` set m \<Longrightarrow> mset (bt_insert k v m) = add_mset (k, v) (mset m)"
  by (induction m) auto

lemma mset_fold_insert:
  "distinct (map fst xs) \<Longrightarrow> fst ` set xs \<inter> fst ` set m = {} \<Longrightarrow>
     mset (fold (\<lambda>(k, v). bt_insert k v) xs m) = mset xs + mset m"
  by (induction xs arbitrary: m) (force simp: mset_bt_insert)+

lemma mset_from_iter: "distinct (map fst xs) \<Longrightarrow> mset (bt_from_iter xs) = mset xs"
  by (simp add: bt_from_iter_def mset_fold_insert)

lemma own_notes_pairs:
  assumes "ids_from_parts P" "recipients_keyed P (tq_expected_output_recipients R)"
    and "try_map (own_note R) ps = Inr own"
  shows "map (\<lambda>p. (partial_note_id P p, pn_assets p)) ps = map (\<lambda>n. (note_get_id P n, nt_assets n)) own"
proof -
  have "list_all2 (\<lambda>p n. own_note R p = Inr n) ps own" using assms(3) by (simp add: try_map_Inr_conv)
  then show ?thesis
  proof (induction rule: list_all2_induct)
    case (Cons p ps n own)
    from Cons.hyps(1) obtain r where r: "bt_get (tq_expected_output_recipients R) (pn_recipient_digest p) = Some r"
      "n = \<lparr>nt_assets = pn_assets p, nt_metadata = pn_metadata p, nt_recipient = r\<rparr>"
      by (auto simp: own_note_def split: option.splits)
    then have "recipient_digest P r = pn_recipient_digest p"
      using assms(2) unfolding recipients_keyed_def by blast
    with r assms(1) Cons.IH show ?case
      by (simp add: partial_note_id_def ids_from_parts_def note_into_details_def)
  qed simp
qed

lemma outgoing_assets_of_own_notes:
  assumes "ids_from_parts P" "recipients_keyed P (tq_expected_output_recipients R)"
    and own: "expected_output_own_notes R = Inr own" and "distinct (map (note_get_id P) own)"
  shows "\<exists>as. get_outgoing_assets P R = Inr (collect_assets as) \<and> mset as = mset (concat (map nt_assets own))"
proof -
  let ?L = "map (\<lambda>n. (note_get_id P n, nt_assets n)) own"
  let ?M = "bt_from_iter ?L"
  define ps where "ps = (case tq_script_template R of Some (SendNotes ps) \<Rightarrow> ps | _ \<Rightarrow> [])"
  have "try_map (own_note R) ps = Inr own"
    using own by (auto simp: ps_def expected_output_own_notes_def split: option.splits transaction_script_template.splits)
  from own_notes_pairs [OF assms(1,2) this]
  have "(case tq_script_template R of
           Some (SendNotes ns) \<Rightarrow> bt_from_iter (map (\<lambda>n. (partial_note_id P n, pn_assets n)) ns) | _ \<Rightarrow> []) = ?M"
    by (auto simp: ps_def bt_from_iter_def split: option.splits transaction_script_template.splits)
  moreover have "fold (\<lambda>(i, as). bt_insert i as) ?M ?M = ?M"
    by (rule bt_insert_all_same) (simp_all add: bt_get_iff_mem)
  ultimately have "get_outgoing_assets P R = Inr (collect_assets (concat (bt_values ?M)))"
    by (simp add: get_outgoing_assets_def own Let_def)
  moreover have "mset ?M = mset ?L" using assms(4) by (intro mset_from_iter) (simp add: comp_def)
  then have "mset (bt_values ?M) = mset (map nt_assets own)"
    by (metis (no_types, lifting) comp_apply list.map_comp map_eq_conv mset_map snd_conv)
  ultimately show ?thesis using mset_concat_cong by blast
qed

section \<open>What a builder keeps\<close>

text \<open>A program uses the builder through a sequence of calls.\<close>

datatype builder_call =
    CallInputNotes "(full_note \<times> digest option) list"
  | CallOwnOutputNotes "full_note list"
  | CallCustomScript transaction_script
  | CallForeignAccounts "foreign_account list"
  | CallExpectedOutputRecipients "note_recipient list"
  | CallExpectedFutureNotes "(note_details \<times> note_tag) list"
  | CallExpirationDelta u16
  | CallIgnoreInvalidInputNotes
  | CallScriptArg digest
  | CallAuthArg digest
  | CallExpectedNtxScripts "note_script list"

fun builder_step :: "protocol \<Rightarrow> builder_call \<Rightarrow> request_builder \<Rightarrow> request_builder" where
  "builder_step P (CallInputNotes ns) B = with_input_notes P ns B"
| "builder_step P (CallOwnOutputNotes ns) B = with_own_output_notes P ns B"
| "builder_step P (CallCustomScript s) B = with_custom_script s B"
| "builder_step P (CallForeignAccounts as) B = with_foreign_accounts as B"
| "builder_step P (CallExpectedOutputRecipients rs) B = with_expected_output_recipients P rs B"
| "builder_step P (CallExpectedFutureNotes ns) B = with_expected_future_notes P ns B"
| "builder_step P (CallExpirationDelta d) B = with_expiration_delta d B"
| "builder_step P CallIgnoreInvalidInputNotes B = with_ignore_invalid_input_notes B"
| "builder_step P (CallScriptArg w) B = with_script_arg w B"
| "builder_step P (CallAuthArg w) B = with_auth_arg w B"
| "builder_step P (CallExpectedNtxScripts ss) B = with_expected_ntx_scripts ss B"

definition run_builder :: "protocol \<Rightarrow> builder_call list \<Rightarrow> request_builder \<Rightarrow> request_builder" where
  "run_builder P calls B = fold (builder_step P) calls B"

lemmas builder_defs = with_custom_script_def with_foreign_accounts_def with_expected_output_recipients_def
  with_expected_future_notes_def with_expiration_delta_def with_ignore_invalid_input_notes_def
  with_script_arg_def with_auth_arg_def with_expected_ntx_scripts_def

definition recipients_of_own_notes :: "protocol \<Rightarrow> request_builder \<Rightarrow> bool" where
  "recipients_of_own_notes P B \<longleftrightarrow>
     (\<forall>n \<in> set (rb_own_output_notes B).
        bt_get (rb_expected_output_recipients B) (recipient_digest P (nt_recipient n)) \<noteq> None)"

definition builder_inv :: "protocol \<Rightarrow> request_builder \<Rightarrow> bool" where
  "builder_inv P B \<longleftrightarrow>
     map fst (rb_input_notes_args B) = map (note_get_id P) (rb_input_notes B)
     \<and> recipients_keyed P (rb_expected_output_recipients B)"

lemma with_input_notes_eq:
  "with_input_notes P ns B =
     B\<lparr>rb_input_notes := rb_input_notes B @ map fst ns,
       rb_input_notes_args := rb_input_notes_args B @ map (\<lambda>(n, a). (note_get_id P n, a)) ns\<rparr>"
  unfolding with_input_notes_def by (induction ns arbitrary: B) auto

lemma own_output_notes_eq:
  "with_own_output_notes P ns B =
     B\<lparr>rb_own_output_notes := rb_own_output_notes B @ ns,
       rb_expected_output_recipients :=
         fold (\<lambda>n. bt_insert (recipient_digest P (nt_recipient n)) (nt_recipient n)) ns (rb_expected_output_recipients B)\<rparr>"
  unfolding with_own_output_notes_def by (induction ns arbitrary: B) auto

lemma recipients_keyed_fold:
  "recipients_keyed P m \<Longrightarrow>
     recipients_keyed P (fold (\<lambda>n. bt_insert (recipient_digest P (nt_recipient n)) (nt_recipient n)) ns m)"
proof (induction ns arbitrary: m)
  case (Cons n ns)
  have "recipients_keyed P (bt_insert (recipient_digest P (nt_recipient n)) (nt_recipient n) m)"
    using Cons.prems by (simp add: recipients_keyed_def)
  from Cons.IH [OF this] show ?case by simp
qed simp

lemma recipients_fold_get:
  "bt_get (fold (\<lambda>n. bt_insert (recipient_digest P (nt_recipient n)) (nt_recipient n)) ns m) d \<noteq> None \<longleftrightarrow>
     d \<in> (\<lambda>n. recipient_digest P (nt_recipient n)) ` set ns \<or> bt_get m d \<noteq> None"
  by (induction ns arbitrary: m) (auto simp del: not_None_eq)

lemma recipients_keyed_iter: "recipients_keyed P (bt_from_iter (map (\<lambda>r. (recipient_digest P r, r)) rs))"
  by (auto simp: recipients_keyed_def bt_get_from_iter dest!: map_of_SomeD)

lemma builder_inv_step: "builder_inv P B \<Longrightarrow> builder_inv P (builder_step P c B)"
  by (cases c) (auto simp: builder_inv_def builder_defs with_input_notes_eq own_output_notes_eq
      recipients_keyed_fold recipients_keyed_iter)

lemma builder_inv_run: "builder_inv P B \<Longrightarrow> builder_inv P (run_builder P calls B)"
  unfolding run_builder_def by (induction calls arbitrary: B) (simp_all add: builder_inv_step)

lemma builder_inv_new [simp]: "builder_inv P (builder_new a m)"
  by (simp add: builder_inv_def builder_new_def recipients_keyed_def)

lemma recipients_of_own_notes_step:
  assumes "recipients_of_own_notes P B" and "\<nexists>rs. c = CallExpectedOutputRecipients rs"
  shows "recipients_of_own_notes P (builder_step P c B)"
  using assms
  by (cases c) (auto simp: recipients_of_own_notes_def builder_defs with_input_notes_eq own_output_notes_eq
      recipients_fold_get simp del: not_None_eq)

lemma recipients_of_own_notes_run:
  assumes "recipients_of_own_notes P B" and "\<And>rs. CallExpectedOutputRecipients rs \<notin> set calls"
  shows "recipients_of_own_notes P (run_builder P calls B)"
  using assms(2,1) unfolding run_builder_def
proof (induction calls arbitrary: B)
  case (Cons c calls)
  then show ?case using recipients_of_own_notes_step [of P B c] by auto
qed simp

lemma no_own_notes_run:
  assumes "rb_own_output_notes B = []" and "\<And>ns. CallOwnOutputNotes ns \<notin> set calls"
  shows "rb_own_output_notes (run_builder P calls B) = []"
  using assms(2,1) unfolding run_builder_def
proof (induction calls arbitrary: B)
  case (Cons c calls)
  have "rb_own_output_notes (builder_step P c B) = []"
    using Cons.prems by (cases c) (auto simp: builder_defs with_input_notes_eq)
  with Cons show ?case by auto
qed simp

lemma first_duplicate_None:
  "first_duplicate seen is = None \<longleftrightarrow> distinct is \<and> set is \<inter> set seen = {}"
  by (induction "is" arbitrary: seen) auto

lemma build_request_Inr:
  assumes "build_request P B = Inr R"
  shows "distinct (map fst (rb_input_notes_args B))"
    and "tq_input_notes R = rb_input_notes B"
    and "tq_expected_output_recipients R = rb_expected_output_recipients B"
    and "build_script_template P B = Inr (tq_script_template R)"
    and "tq_input_notes_args R = rb_input_notes_args B"
  using assms
  by (auto simp: build_request_def and_then_Inr_conv first_duplicate_None split: option.splits)

lemma script_template_Inr:
  assumes "build_script_template P B = Inr T"
  shows "(case T of
            Some (SendNotes ps) \<Rightarrow> rb_custom_script B = None \<and> ps = map (partial_of_note P) (rb_own_output_notes B)
          | Some (CustomScript s) \<Rightarrow> rb_custom_script B = Some s \<and> rb_own_output_notes B = [] \<and> rb_expiration_delta B = None
          | None \<Rightarrow> rb_custom_script B = None \<and> rb_own_output_notes B = [])"
  using assms by (auto simp: build_script_template_def split: option.splits bool.splits if_splits)

text \<open>Notes that agree in all but a recipient with the same digest.\<close>

definition same_note :: "protocol \<Rightarrow> full_note \<Rightarrow> full_note \<Rightarrow> bool" where
  "same_note P n n' \<longleftrightarrow>
     nt_assets n' = nt_assets n \<and> nt_metadata n' = nt_metadata n
     \<and> recipient_digest P (nt_recipient n') = recipient_digest P (nt_recipient n)"

lemma own_notes_of_partials:
  assumes "recipients_keyed P (tq_expected_output_recipients R)"
    and "\<And>n. n \<in> set ns \<Longrightarrow> bt_get (tq_expected_output_recipients R) (recipient_digest P (nt_recipient n)) \<noteq> None"
  shows "\<exists>own. try_map (own_note R) (map (partial_of_note P) ns) = Inr own \<and> list_all2 (same_note P) ns own"
  using assms(2)
proof (induction ns)
  case (Cons n ns)
  then obtain own where own: "try_map (own_note R) (map (partial_of_note P) ns) = Inr own"
    "list_all2 (same_note P) ns own" by auto
  from Cons.prems obtain r where r: "bt_get (tq_expected_output_recipients R) (recipient_digest P (nt_recipient n)) = Some r"
    by fastforce
  then have "recipient_digest P r = recipient_digest P (nt_recipient n)"
    using assms(1) unfolding recipients_keyed_def by blast
  with r have "\<exists>m. own_note R (partial_of_note P n) = Inr m \<and> same_note P n m"
    by (simp add: own_note_def partial_of_note_def same_note_def)
  with own show ?case by auto
qed simp

section \<open>The input notes of a transaction\<close>

definition record_of :: "protocol \<Rightarrow> input_note_record list \<Rightarrow> note_id \<Rightarrow> input_note_record option" where
  "record_of P recs i = find (\<lambda>r. inr_id P r = i) (rev recs)"

definition unwrap_input :: "input_note_record \<Rightarrow> input_note" where
  "unwrap_input r = (case inr_try_into_input_note r of Inr n \<Rightarrow> n | Inl _ \<Rightarrow> undefined)"

text \<open>The note a transaction should get for a requested note: the stored one, with its proof, if there is one.\<close>

definition requested_input :: "protocol \<Rightarrow> input_note_record list \<Rightarrow> full_note \<Rightarrow> input_note" where
  "requested_input P recs n =
     (case record_of P recs (note_get_id P n) of
        Some r \<Rightarrow> unwrap_input r
      | None \<Rightarrow> Unauthenticated n)"

definition unusable :: "input_note_record \<Rightarrow> bool" where
  "unusable r \<longleftrightarrow> \<not> inr_is_authenticated r \<or> inr_is_consumed r"

definition unusable_error :: "protocol \<Rightarrow> input_note_record \<Rightarrow> transaction_request_error" where
  "unusable_error P r =
     (if \<not> inr_is_authenticated r then InputNoteNotAuthenticated (inr_id P r) else InputNoteAlreadyConsumed (inr_id P r))"

lemma authenticated_converts:
  "inr_is_authenticated r \<Longrightarrow> \<exists>n pr. inr_try_into_input_note r = Inr (Authenticated n pr)"
  by (cases "inr_state r")
    (auto simp: inr_is_authenticated_def inr_try_into_input_note_def inr_metadata_def inr_inclusion_proof_def
      handler_defs)

lemma add_authenticated_eq:
  "add_authenticated P m r =
     (if unusable r then Inl (unusable_error P r) else Inr (bt_insert (inr_id P r) (unwrap_input r) m))"
  using authenticated_converts [of r]
  by (auto simp: add_authenticated_def unusable_def unusable_error_def unwrap_input_def)

lemma add_all_authenticated:
  "try_fold (add_authenticated P) m recs =
     (case find unusable recs of
        Some r \<Rightarrow> Inl (unusable_error P r)
      | None \<Rightarrow> Inr (fold (\<lambda>(i, n). bt_insert i n) (map (\<lambda>r. (inr_id P r, unwrap_input r)) recs) m))"
  by (induction recs arbitrary: m) (auto simp: add_authenticated_eq split: option.splits)

lemma take_notes_distinct:
  assumes "distinct is" and "\<And>i. i \<in> set is \<Longrightarrow> bt_get m i = Some (f i)"
  shows "take_notes is m = Inr (map f is)"
  using assms
proof (induction "is" arbitrary: m)
  case (Cons i "is")
  have "take_notes is (bt_remove i m) = Inr (map f is)"
    using Cons.prems by (intro Cons.IH) auto
  with Cons.prems(2) [of i] show ?case by simp
qed simp

lemma map_of_rev_records:
  "map_of (rev (map (\<lambda>r. (inr_id P r, unwrap_input r)) recs)) i = map_option unwrap_input (record_of P recs i)"
proof -
  have "map_of (map (\<lambda>r. (inr_id P r, unwrap_input r)) rs) i
      = map_option unwrap_input (find (\<lambda>r. inr_id P r = i) rs)" for rs
    by (induction rs) auto
  from this [of "rev recs"] show ?thesis by (simp add: record_of_def rev_map)
qed

lemma unauthenticated_added:
  "bt_get (add_unauthenticated P ns m) i =
     (case bt_get m i of
        Some n \<Rightarrow> Some n
      | None \<Rightarrow> map_of (rev (map (\<lambda>n. (note_get_id P n, Unauthenticated n)) ns)) i)"
proof -
  have "fold (\<lambda>n. bt_insert (note_get_id P n) (Unauthenticated n)) xs m
      = fold (\<lambda>(i, n). bt_insert i n) (map (\<lambda>n. (note_get_id P n, Unauthenticated n)) xs) m" for xs
    by (simp add: fold_map comp_def)
  moreover have "map_of (rev (map (\<lambda>n. (note_get_id P n, Unauthenticated n))
        (filter (\<lambda>n. note_get_id P n \<notin> set (bt_keys m)) ns))) i
      = (if i \<in> set (bt_keys m) then None
         else map_of (rev (map (\<lambda>n. (note_get_id P n, Unauthenticated n)) ns)) i)"
    by (induction ns) (auto simp: map_add_def split: option.splits)
  moreover have "i \<in> set (bt_keys m) \<longleftrightarrow> bt_get m i \<noteq> None"
    using bt_get_keys [of m i] by simp
  ultimately show ?thesis
    by (auto simp: add_unauthenticated_def bt.get_fold_insert split: option.splits)
qed

text \<open>What \<open>build_input_notes\<close> computes when the requested notes have distinct identifiers.\<close>

lemma build_input_notes_eq:
  assumes "distinct (input_note_ids P R)"
  shows "build_input_notes P check_inputs R recs =
    (case find unusable recs of
       Some r \<Rightarrow> Inl (unusable_error P r)
     | None \<Rightarrow>
         (let ns = map (requested_input P recs) (tq_input_notes R)
          in case check_inputs ns of None \<Rightarrow> Inr ns | Some e \<Rightarrow> Inl (RequestInputError e)))"
proof -
  let ?m = "fold (\<lambda>(i, n). bt_insert i n) (map (\<lambda>r. (inr_id P r, unwrap_input r)) recs) []"
  let ?f = "\<lambda>i. the (bt_get (add_unauthenticated P (tq_input_notes R) ?m) i)"
  have get: "bt_get (add_unauthenticated P (tq_input_notes R) ?m) (note_get_id P n) = Some (requested_input P recs n)"
    if "n \<in> set (tq_input_notes R)" for n
  proof -
    have "distinct (map fst (rev (map (\<lambda>n. (note_get_id P n, Unauthenticated n)) (tq_input_notes R))))"
      using assms by (simp add: input_note_ids_def comp_def flip: rev_map)
    then have "map_of (rev (map (\<lambda>n. (note_get_id P n, Unauthenticated n)) (tq_input_notes R))) (note_get_id P n)
        = Some (Unauthenticated n)"
      using that by (intro map_of_is_SomeI) auto
    then show ?thesis
      by (simp add: unauthenticated_added bt.get_fold_insert map_of_rev_records requested_input_def split: option.splits)
  qed
  have "take_notes (input_note_ids P R) (add_unauthenticated P (tq_input_notes R) ?m) = Inr (map ?f (input_note_ids P R))"
    by (rule take_notes_distinct [OF assms]) (auto simp: input_note_ids_def get)
  moreover have "map ?f (input_note_ids P R) = map (requested_input P recs) (tq_input_notes R)"
    by (simp add: input_note_ids_def get)
  ultimately show ?thesis
    by (auto simp: build_input_notes_def add_all_authenticated Let_def split: option.splits)
qed

section \<open>The balance check\<close>

lemma fungible_entries:
  "set (fst (collect_assets as)) = {(f, of_nat (fungible_total f as)) | f. \<exists>x. Fungible f x \<in> set as}"
proof -
  have "(f, b) \<in> set (fst (collect_assets as)) \<longleftrightarrow>
      (\<exists>x. Fungible f x \<in> set as) \<and> b = of_nat (fungible_total f as)" for f b
    by (simp add: collected_fungible flip: bt_get_iff_mem [OF collected_wf])
      auto
  then show ?thesis by auto
qed

lemma collected_balance:
  "(case bt_get (fst (collect_assets as)) f of None \<Rightarrow> 0 | Some b \<Rightarrow> b) = (of_nat (fungible_total f as) :: u64)"
  unfolding collected_fungible using no_fungible_total [of f as] by auto

lemma check_fungible_entry:
  assumes "unat (unwrap_or 0 (vv_balance V f)) + fungible_total f ins < 2 ^ 64" and "fungible_total f as < 2 ^ 64"
  shows "check_fungible V (fst (collect_assets ins)) (f, of_nat (fungible_total f as)) = Inr () \<longleftrightarrow>
    fungible_total f as \<le> unat (unwrap_or 0 (vv_balance V f)) + fungible_total f ins"
proof -
  let ?bal = "unwrap_or 0 (vv_balance V f)"
  have in_range: "unat (of_nat (fungible_total f ins) :: u64) = fungible_total f ins"
    "unat (of_nat (fungible_total f as) :: u64) = fungible_total f as"
    using assms by (simp_all add: unat_of_nat)
  have "unat (?bal + of_nat (fungible_total f ins)) = unat ?bal + fungible_total f ins"
    using assms(1) by (simp add: unat_word_ariths in_range)
  then show ?thesis
    unfolding check_fungible_def Let_def prod.case collected_balance
    by (simp add: word_less_nat_alt in_range not_less)
qed

lemma check_non_fungible_conv:
  "check_non_fungible V (snd (collect_assets ins)) nft = Inr () \<longleftrightarrow>
     vv_has_non_fungible V nft = Inr True \<or> vv_has_non_fungible V nft = Inr False \<and> nft \<in> non_fungibles ins"
  by (auto simp: check_non_fungible_def collected_non_fungible split: sum.splits bool.splits)

lemma try_map_unit: "(\<exists>ys. try_map g xs = Inr ys) \<longleftrightarrow> (\<forall>x \<in> set xs. g x = Inr ())"
  by (induction xs) (auto simp: and_then_Inr_conv)

lemma validate_conv:
  assumes "get_outgoing_assets P R = Inr (collect_assets as)"
  shows "validate_basic_account_request P R V = Inr () \<longleftrightarrow>
    (\<forall>f. (\<exists>x. Fungible f x \<in> set as) \<longrightarrow>
       check_fungible V (fst (incoming_assets R)) (f, of_nat (fungible_total f as)) = Inr ())
    \<and> (\<forall>nft \<in> non_fungibles as. check_non_fungible V (snd (incoming_assets R)) nft = Inr ())"
proof -
  obtain fungible nfts where c: "collect_assets as = (fungible, nfts)" by fastforce
  obtain inf inn where i: "incoming_assets R = (inf, inn)" by fastforce
  have "validate_basic_account_request P R V = Inr () \<longleftrightarrow>
      (\<forall>x \<in> set fungible. check_fungible V inf x = Inr ()) \<and> (\<forall>x \<in> set nfts. check_non_fungible V inn x = Inr ())"
    by (simp add: validate_basic_account_request_def assms c i and_then_Inr_conv try_map_unit)
  then show ?thesis
    using fungible_entries [of as] collected_non_fungible [of as] by (auto simp: c i)
qed

section \<open>Properties\<close>


text \<open>A request that sends the sample notes, and a vault with a single balance.\<close>

definition sample_sender :: "full_note list \<Rightarrow> request_builder" where
  "sample_sender ns = with_own_output_notes sample_protocol ns (builder_new (AdviceMap 0) (MerkleStore 0))"

definition sample_vault :: "u64 \<Rightarrow> vault_view" where
  "sample_vault b = \<lparr>vv_balance = (\<lambda>f. if f = AccountId 3 then Inr b else Inl ''not found''),
     vv_has_non_fungible = (\<lambda>_. Inr False)\<rparr>"

lemma sample_ids_from_parts: "ids_from_parts sample_protocol"
  by (simp add: ids_from_parts_def sample_protocol_def)

lemma sample_total: "fungible_total f (nt_assets (sample_note k)) = (if f = AccountId 3 then 10 else 0)"
  by (auto simp: sample_note_def)

lemma sample_request:
  assumes "build_request sample_protocol (sample_sender [sample_note 1, sample_note 2]) = Inr R"
  shows "expected_output_own_notes R = Inr [sample_note 1, sample_note 2]" "tq_input_notes R = []"
    "recipients_keyed sample_protocol (tq_expected_output_recipients R)"
proof -
  have R: "tq_script_template R = Some (SendNotes (map (partial_of_note sample_protocol) [sample_note 1, sample_note 2]))"
    "tq_input_notes R = []"
    "tq_expected_output_recipients R = [(Digest 1, sample_recipient 1), (Digest 2, sample_recipient 2)]"
    using assms by (auto simp: sample_sender_def own_output_notes_eq builder_new_def build_request_def
        build_script_template_def sample_defs id_order_defs)
  show "expected_output_own_notes R = Inr [sample_note 1, sample_note 2]"
    by (simp add: expected_output_own_notes_def R own_note_def partial_of_note_def sample_defs)
  show "recipients_keyed sample_protocol (tq_expected_output_recipients R)"
    by (auto simp: recipients_keyed_def R sample_defs split: if_splits)
  show "tq_input_notes R = []" by (rule R(2))
qed


definition sample_amounts :: "u64 \<Rightarrow> nat \<Rightarrow> full_note" where
  "sample_amounts x k = (sample_note k)\<lparr>nt_assets := [Fungible (AccountId 3) x]\<rparr>"




text \<open>
  Setting the expected recipients after own notes were added drops the recipients of the own notes:
  the builder still accepts the request, and its validation panics.
\<close>

lemma replaced_recipients_panic:
  assumes "recipient_digest P (nt_recipient n) \<notin> recipient_digest P ` set rs"
  shows "\<exists>R. build_request P (run_builder P [CallOwnOutputNotes [n], CallExpectedOutputRecipients rs] (builder_new a m)) = Inr R
    \<and> validate_basic_account_request P R V
      = Inl (TransactionRequestError (RequestPanicked ''Recipient should be included if it's an own note''))"
proof -
  let ?B = "run_builder P [CallOwnOutputNotes [n], CallExpectedOutputRecipients rs] (builder_new a m)"
  have B: "rb_own_output_notes ?B = [n]" "rb_custom_script ?B = None" "rb_input_notes_args ?B = []"
    "rb_expected_output_recipients ?B = bt_from_iter (map (\<lambda>r. (recipient_digest P r, r)) rs)"
    by (simp_all add: run_builder_def own_output_notes_eq with_expected_output_recipients_def builder_new_def)
  have none: "bt_get (rb_expected_output_recipients ?B) (recipient_digest P (nt_recipient n)) = None"
    unfolding B(4) bt_get_from_iter using assms by (auto simp: map_of_eq_None_iff image_image)
  obtain R where R: "build_request P ?B = Inr R" "tq_script_template R = Some (SendNotes [partial_of_note P n])"
    "tq_expected_output_recipients R = rb_expected_output_recipients ?B"
    by (simp add: build_request_def build_script_template_def B)
  have "own_note R (partial_of_note P n) = Inl (RequestPanicked ''Recipient should be included if it's an own note'')"
    using none by (simp add: own_note_def partial_of_note_def R(3))
  then have "get_outgoing_assets P R = Inl (RequestPanicked ''Recipient should be included if it's an own note'')"
    by (simp add: get_outgoing_assets_def expected_output_own_notes_def R(2) Let_def)
  then show ?thesis using R(1) by (auto simp: validate_basic_account_request_def)
qed

lemma replaced_recipients_panic_witness:
  "\<exists>R. build_request sample_protocol (run_builder sample_protocol
        [CallOwnOutputNotes [sample_note 1], CallExpectedOutputRecipients [sample_recipient 2]]
        (builder_new (AdviceMap 0) (MerkleStore 0))) = Inr R
    \<and> validate_basic_account_request sample_protocol R (sample_vault 20)
      = Inl (TransactionRequestError (RequestPanicked ''Recipient should be included if it's an own note''))"
  by (rule replaced_recipients_panic) (simp add: sample_defs)

text \<open>
  C27. A transaction gets the notes its request names: for a built request, the input notes are the
  requested ones in the order of the request, each replaced by its stored record with the
  inclusion proof where an authenticated record is supplied; a record that is not authenticated or
  already consumed stops the transaction with the error for the first such record, and no lookup fails.
\<close>

theorem transaction_input_notes:
  assumes "run_builder P calls (builder_new a m) = B" and "build_request P B = Inr R"
  shows "build_input_notes P check_inputs R recs =
    (case find unusable recs of
       Some r \<Rightarrow> Inl (unusable_error P r)
     | None \<Rightarrow>
         (let ns = map (requested_input P recs) (tq_input_notes R)
          in case check_inputs ns of None \<Rightarrow> Inr ns | Some e \<Rightarrow> Inl (RequestInputError e)))"
proof (rule build_input_notes_eq)
  have "builder_inv P B" using builder_inv_run [OF builder_inv_new, of P calls a m] assms(1) by simp
  then show "distinct (input_note_ids P R)"
    using build_request_Inr(1,2) [OF assms(2)] by (simp add: builder_inv_def input_note_ids_def)
qed

theorem transaction_input_notes_witness:
  "\<exists>R. build_request sample_protocol (run_builder sample_protocol [CallInputNotes [(sample_note 5, None), (sample_note 2, None)]]
        (builder_new (AdviceMap 0) (MerkleStore 0))) = Inr R
    \<and> build_input_notes sample_protocol (\<lambda>_. None) R [sample_committed]
      = Inr [Authenticated (sample_note 5) (sample_proof 5), Unauthenticated (sample_note 2)]"
proof -
  let ?calls = "[CallInputNotes [(sample_note 5, None), (sample_note 2, None)]]"
  let ?B = "run_builder sample_protocol ?calls (builder_new (AdviceMap 0) (MerkleStore 0))"
  obtain R where R: "build_request sample_protocol ?B = Inr R"
    by (simp add: run_builder_def build_request_def build_script_template_def with_input_notes_eq builder_new_def sample_defs)
  have "tq_input_notes R = [sample_note 5, sample_note 2]"
    using build_request_Inr(2) [OF R] by (simp add: run_builder_def with_input_notes_eq builder_new_def)
  then have "build_input_notes sample_protocol (\<lambda>_. None) R [sample_committed]
      = Inr [Authenticated (sample_note 5) (sample_proof 5), Unauthenticated (sample_note 2)]"
    using transaction_input_notes [OF refl R, of "\<lambda>_. None" "[sample_committed]"]
    by (simp add: unusable_def requested_input_def record_of_def unwrap_input_def sample_committed_def sample_defs
        inr_is_authenticated_def inr_is_consumed_def inr_id_def inr_try_into_input_note_def inr_metadata_def
        inr_inclusion_proof_def handler_defs note_of_details_def)
  with R show ?thesis by blast
qed

text \<open>
  A payment sends what it says: when the note constructors of the standards crate put the given
  assets into the note, a payment request either has no asset to transfer and is refused, or
  fails to create its note, or becomes a request whose outgoing assets are those of the payment.
\<close>

lemma payment_sends_its_assets:
  assumes "ids_from_parts P"
    and "\<And>s u as ty r n r'. no_p2id K s u as ty r = (Inr n, r') \<Longrightarrow> nt_assets n = as"
    and "\<And>s u h l as ty r n r'. no_p2ide K s u h l as ty r = (Inr n, r') \<Longrightarrow> nt_assets n = as"
  shows "case fst (build_pay_to_id P K D ty (builder_new a m) r) of
      Inl e \<Rightarrow> e = P2IDNoteWithoutAsset \<and> (\<forall>x \<in> set (pd_assets D). is_zero_fungible x)
        \<or> (\<exists>msg. e = NoteCreationError msg)
    | Inr R \<Rightarrow> (\<exists>x \<in> set (pd_assets D). \<not> is_zero_fungible x)
        \<and> (\<exists>as. get_outgoing_assets P R = Inr (collect_assets as) \<and> mset as = mset (pd_assets D))"
proof (cases "list_all is_zero_fungible (pd_assets D)")
  case True
  then show ?thesis by (simp add: build_pay_to_id_def list_all_iff)
next
  case False
  obtain res r' where c: "payment_into_note K D ty r = (res, r')" by fastforce
  show ?thesis
  proof (cases res)
    case (Inl e)
    with False c show ?thesis by (simp add: build_pay_to_id_def)
  next
    case (Inr n)
    have assets: "nt_assets n = pd_assets D"
      using c Inr assms(2,3) by (auto simp: payment_into_note_def split: if_splits)
    let ?B = "with_own_output_notes P [n] (builder_new a m)"
    obtain R where R: "build_request P ?B = Inr R" "tq_script_template R = Some (SendNotes [partial_of_note P n])"
      "tq_expected_output_recipients R = [(recipient_digest P (nt_recipient n), nt_recipient n)]"
      by (simp add: build_request_def build_script_template_def own_output_notes_eq builder_new_def)
    have "expected_output_own_notes R = Inr [n]"
      by (simp add: expected_output_own_notes_def R own_note_def partial_of_note_def)
    moreover have "recipients_keyed P (tq_expected_output_recipients R)" by (simp add: recipients_keyed_def R)
    ultimately have "\<exists>as. get_outgoing_assets P R = Inr (collect_assets as) \<and> mset as = mset (pd_assets D)"
      using outgoing_assets_of_own_notes [OF assms(1), of R "[n]"] assets by simp
    with False c Inr R(1) show ?thesis by (simp add: build_pay_to_id_def list_all_iff Bex_def)
  qed
qed

text \<open>Note constructors that give every note the same serial number and put the assets into it.\<close>

definition sample_note_ops :: "nat note_ops" where
  "sample_note_ops =
     \<lparr>no_p2id = (\<lambda>s t as ty r. (Inr ((sample_note r)\<lparr>nt_assets := as\<rparr>), Suc r)),
      no_p2ide = (\<lambda>s t h l as ty r. (Inr ((sample_note r)\<lparr>nt_assets := as\<rparr>), Suc r)),
      no_swap = (\<lambda>_ _ _ _ _ r. (Inl ''unsupported'', r)), no_account_tag = (\<lambda>_. 0),
      no_draw_word = (\<lambda>r. (Digest r, Suc r)), no_empty_note = (\<lambda>_ _ _. Inl ''unsupported'')\<rparr>"

lemma payment_sends_its_assets_witness:
  "\<exists>R as. fst (build_pay_to_id sample_protocol sample_note_ops
        (payment_new [Fungible (AccountId 3) 4] (AccountId 1) (AccountId 2)) PublicNote
        (builder_new (AdviceMap 0) (MerkleStore 0)) 1) = Inr R
     \<and> get_outgoing_assets sample_protocol R = Inr (collect_assets as) \<and> mset as = {#Fungible (AccountId 3) 4#}"
proof -
  let ?D = "payment_new [Fungible (AccountId 3) 4] (AccountId 1) (AccountId 2)"
  let ?b = "fst (build_pay_to_id sample_protocol sample_note_ops ?D PublicNote (builder_new (AdviceMap 0) (MerkleStore 0)) 1)"
  obtain R where R: "?b = Inr R"
    by (simp add: build_pay_to_id_def payment_into_note_def payment_new_def sample_note_ops_def build_request_def
        build_script_template_def own_output_notes_eq builder_new_def)
  have kept: "no_p2id sample_note_ops s u as ty r = (Inr n, r') \<Longrightarrow> nt_assets n = as"
    "no_p2ide sample_note_ops s u h l as ty r = (Inr n, r') \<Longrightarrow> nt_assets n = as" for s u h l as ty r n r'
    by (auto simp: sample_note_ops_def)
  have "case ?b of
      Inl e \<Rightarrow> e = P2IDNoteWithoutAsset \<and> (\<forall>x \<in> set (pd_assets ?D). is_zero_fungible x)
        \<or> (\<exists>msg. e = NoteCreationError msg)
    | Inr R \<Rightarrow> (\<exists>x \<in> set (pd_assets ?D). \<not> is_zero_fungible x)
        \<and> (\<exists>as. get_outgoing_assets sample_protocol R = Inr (collect_assets as) \<and> mset as = mset (pd_assets ?D))"
    by (rule payment_sends_its_assets [OF sample_ids_from_parts]) (fact kept)+
  then have "\<exists>as. get_outgoing_assets sample_protocol R = Inr (collect_assets as) \<and> mset as = mset (pd_assets ?D)"
    unfolding R sum.case by (elim conjE) assumption
  with R show ?thesis by (simp add: payment_new_def)
qed

end
