(* ===== verification/Note_Tags.thy ===== *)
theory Note_Tags
  imports Wire_Format
begin

text \<open>
  Note tags the client tracks (\<^verbatim>\<open>sync/tag.rs\<close>): a tag with its source, the byte encoding of the
  source, and the tag record of an input note. The operations on the tags of the store are in
  \<open>Sqlite_Transactions\<close>.
\<close>

datatype note_tag_source =
    TagAccount account_id
  | TagNote note_id
  | TagUser

record note_tag_record =
  tag_tag :: note_tag
  tag_source :: note_tag_source

definition with_note_source :: "note_tag \<Rightarrow> note_id \<Rightarrow> note_tag_record" where
  "with_note_source t i = \<lparr>tag_tag = t, tag_source = TagNote i\<rparr>"

definition with_account_source :: "note_tag \<Rightarrow> account_id \<Rightarrow> note_tag_record" where
  "with_account_source t a = \<lparr>tag_tag = t, tag_source = TagAccount a\<rparr>"

fun note_tag_source_write :: "account_id codec \<Rightarrow> note_id codec \<Rightarrow> note_tag_source \<Rightarrow> bytes" where
  "note_tag_source_write ac nc (TagAccount a) = 0 # fst ac a"
| "note_tag_source_write ac nc (TagNote i) = 1 # fst nc i"
| "note_tag_source_write ac nc TagUser = [2]"

definition note_tag_source_read :: "account_id codec \<Rightarrow> note_id codec \<Rightarrow> note_tag_source reader" where
  "note_tag_source_read ac nc bs =
     and_then (read_u8 bs) (\<lambda>(v, bs).
       if v = 0 then and_then (snd ac bs) (\<lambda>(a, bs). Inr (TagAccount a, bs))
       else if v = 1 then and_then (snd nc bs) (\<lambda>(i, bs). Inr (TagNote i, bs))
       else if v = 2 then Inr (TagUser, bs)
       else Inl (InvalidValue (''Invalid tag source: '' @ decimal (unat v))))"

definition note_tag_record_from_note :: "protocol \<Rightarrow> input_note_record \<Rightarrow> note_record_error + note_tag_record" where
  "note_tag_record_from_note P r =
     (case inr_metadata r of
        Some metadata \<Rightarrow> Inr (with_note_source (md_tag metadata) (inr_id P r))
      | None \<Rightarrow> Inl (ConversionError ''Input Note Record does not contain tag''))"

lemma note_tag_source_ok:
  "codec_ok ac \<Longrightarrow> codec_ok nc \<Longrightarrow> codec_ok (note_tag_source_write ac nc, note_tag_source_read ac nc)"
  unfolding codec_ok_def
proof (intro allI)
  fix x rest
  assume "\<forall>x rest. snd ac (fst ac x @ rest) = Inr (x, rest)" "\<forall>x rest. snd nc (fst nc x @ rest) = Inr (x, rest)"
  then show "snd (note_tag_source_write ac nc, note_tag_source_read ac nc)
      (fst (note_tag_source_write ac nc, note_tag_source_read ac nc) x @ rest) = Inr (x, rest)"
    by (cases x) (simp_all add: note_tag_source_read_def)
qed

text \<open>A codec that reads back what it wrote is injective, so encoded values compare like values.\<close>

lemma codec_ok_inj: "codec_ok c \<Longrightarrow> fst c x = fst c y \<longleftrightarrow> x = y"
  unfolding codec_ok_def by (metis append_Nil2 old.sum.inject(2) prod.inject)

end
