(* ===== verification/Sqlite_Database.thy ===== *)
theory Sqlite_Database
  imports Note_Tags "HOL-Library.List_Lexorder"
begin

text \<open>
  The database of the SQLite store (\<^verbatim>\<open>sqlite-store/src/store.sql\<close>): its tables for notes, scripts,
  block headers, authentication nodes, tags and transactions, and the classification of engine
  errors (\<^verbatim>\<open>sql_error.rs\<close>). A table with a primary key is a map from the key to the other columns,
  kept in key order; \<open>INSERT OR REPLACE\<close> is an insertion, \<open>INSERT OR IGNORE\<close> an insertion of absent
  keys, \<open>UPDATE ... WHERE key\<close> a modification of one row. Columns with encoded values hold bytes;
  identifiers stand for their hexadecimal text and are ordered as SQLite orders that text. A
  \<open>SELECT\<close> without \<open>ORDER BY\<close> returns rows in key order. Failures of the engine itself (disk, locks)
  are not modelled; values it cannot convert are. An operation that opens a database transaction
  returns the new database only on success, since a dropped transaction is rolled back.
\<close>

section \<open>Engine errors\<close>

datatype rusqlite_error =
    FromSqlConversionFailure nat
  | IntegralValueOutOfRange nat int
  | InvalidColumnIndex nat
  | InvalidColumnType nat
  | InvalidParameterName string
  | InvalidColumnName string
  | StatementChangedRows nat
  | ExecuteReturnedResults
  | InvalidQuery
  | MultipleStatement
  | InvalidParameterCount nat nat
  | QueryReturnedNoRows
  | ToSqlConversionFailure
  | OtherRusqliteError nat

fun rusqlite_store_error :: "(rusqlite_error \<Rightarrow> string) \<Rightarrow> rusqlite_error \<Rightarrow> store_error" where
  "rusqlite_store_error show (FromSqlConversionFailure i) = ParsingError (show (FromSqlConversionFailure i))"
| "rusqlite_store_error show (IntegralValueOutOfRange i v) = ParsingError (show (IntegralValueOutOfRange i v))"
| "rusqlite_store_error show (InvalidColumnIndex i) = ParsingError (show (InvalidColumnIndex i))"
| "rusqlite_store_error show (InvalidColumnType i) = ParsingError (show (InvalidColumnType i))"
| "rusqlite_store_error show (InvalidParameterName s) = QueryError (show (InvalidParameterName s))"
| "rusqlite_store_error show (InvalidColumnName s) = QueryError (show (InvalidColumnName s))"
| "rusqlite_store_error show (StatementChangedRows n) = QueryError (show (StatementChangedRows n))"
| "rusqlite_store_error show ExecuteReturnedResults = QueryError (show ExecuteReturnedResults)"
| "rusqlite_store_error show InvalidQuery = QueryError (show InvalidQuery)"
| "rusqlite_store_error show MultipleStatement = QueryError (show MultipleStatement)"
| "rusqlite_store_error show (InvalidParameterCount a b) = QueryError (show (InvalidParameterCount a b))"
| "rusqlite_store_error show QueryReturnedNoRows = QueryError (show QueryReturnedNoRows)"
| "rusqlite_store_error show ToSqlConversionFailure = DatabaseError (show ToSqlConversionFailure)"
| "rusqlite_store_error show (OtherRusqliteError n) = DatabaseError (show (OtherRusqliteError n))"

abbreviation into_store_error :: "(rusqlite_error \<Rightarrow> string) \<Rightarrow> rusqlite_error + 'a \<Rightarrow> store_error + 'a" where
  "into_store_error show \<equiv> map_err (rusqlite_store_error show)"

text \<open>
  Integer columns hold signed 64-bit integers: an unsigned parameter from \<open>2^63\<close> on cannot be bound,
  and a negative column cannot be read as unsigned.
\<close>

definition bind_u64 :: "u64 \<Rightarrow> rusqlite_error + int" where
  "bind_u64 x = (if unat x < 2 ^ 63 then Inr (int (unat x)) else Inl ToSqlConversionFailure)"

definition column_u64 :: "nat \<Rightarrow> int \<Rightarrow> rusqlite_error + u64" where
  "column_u64 i v = (if 0 \<le> v then Inr (word_of_int v) else Inl (IntegralValueOutOfRange i v))"

section \<open>Encodings\<close>

text \<open>
  The encodings of the protocol crates that the columns use, and the text of engine errors. A note
  script, a transaction script and the storage of a note are identified by their commitments.
\<close>

record sql_codecs =
  sc_base :: codecs
  sc_assets :: "note_assets codec"
  sc_storage :: "digest codec"
  sc_script :: "digest codec"
  sc_tx_script :: "digest codec"
  sc_tag :: "note_tag codec"
  sc_note_id :: "note_id codec"
  sc_header :: "block_header codec"
  sc_show :: "rusqlite_error \<Rightarrow> string"

abbreviation input_state_codec :: "sql_codecs \<Rightarrow> input_note_state codec" where
  "input_state_codec C \<equiv> (input_note_state_write (sc_base C), input_note_state_read (sc_base C))"

abbreviation output_state_codec :: "sql_codecs \<Rightarrow> output_note_state codec" where
  "output_state_codec C \<equiv> (output_note_state_write (sc_base C), output_note_state_read (sc_base C))"

abbreviation tag_source_codec :: "sql_codecs \<Rightarrow> note_tag_source codec" where
  "tag_source_codec C \<equiv> (note_tag_source_write (c_account_id (sc_base C)) (sc_note_id C),
     note_tag_source_read (c_account_id (sc_base C)) (sc_note_id C))"

definition read_from_bytes :: "'a codec \<Rightarrow> bytes \<Rightarrow> store_error + 'a" where
  "read_from_bytes c bs =
     and_then (map_err StoreDataDeserializationError (snd c bs)) (\<lambda>(x, _). Inr x)"

definition sql_codecs_ok :: "sql_codecs \<Rightarrow> bool" where
  "sql_codecs_ok C \<longleftrightarrow>
     codecs_ok (sc_base C) \<and> codec_ok (sc_assets C) \<and> codec_ok (sc_storage C) \<and> codec_ok (sc_script C)
     \<and> codec_ok (sc_tx_script C) \<and> codec_ok (sc_tag C) \<and> codec_ok (sc_note_id C) \<and> codec_ok (sc_header C)"

section \<open>Tables\<close>

record input_note_row =
  ir_assets :: bytes
  ir_serial_number :: bytes
  ir_inputs :: bytes
  ir_script_root :: digest
  ir_nullifier :: nullifier
  ir_state_discriminant :: u8
  ir_state :: bytes
  ir_created_at :: int
  ir_consumed_block_height :: "u32 option"
  ir_consumed_tx_order :: "u32 option"
  ir_consumer_account_id :: "account_id option"

record output_note_row =
  or_recipient_digest :: digest
  or_assets :: bytes
  or_metadata :: bytes
  or_nullifier :: "nullifier option"
  or_expected_height :: u32
  or_state_discriminant :: u8
  or_state :: bytes

record block_header_row =
  br_header :: bytes
  br_peaks :: bytes
  br_has_client_notes :: bool

record transaction_row =
  xr_details :: bytes
  xr_script_root :: "bytes option"
  xr_block_num :: u32
  xr_status_variant :: u8
  xr_status :: bytes

record database =
  db_input_notes :: "(note_id, input_note_row) btree_map"
  db_output_notes :: "(note_id, output_note_row) btree_map"
  db_notes_scripts :: "(digest, bytes) btree_map"
  db_block_headers :: "(block_number, block_header_row) btree_map"
  db_blockchain_nodes :: "(int, digest) btree_map"
  db_tags :: "(bytes \<times> bytes) list"
  db_state_sync :: "block_number list"
  db_transactions :: "(transaction_id, transaction_row) btree_map"
  db_transaction_scripts :: "(bytes, bytes) btree_map"

text \<open>The database as \<^verbatim>\<open>store.sql\<close> creates it.\<close>

definition database_new :: database where
  "database_new =
     \<lparr>db_input_notes = [], db_output_notes = [], db_notes_scripts = [], db_block_headers = [],
      db_blockchain_nodes = [], db_tags = [], db_state_sync = [0], db_transactions = [],
      db_transaction_scripts = []\<rparr>"

section \<open>Facts about columns\<close>

lemma codec_ok_empty: "codec_ok c \<Longrightarrow> snd c (fst c x) = Inr (x, [])"
  unfolding codec_ok_def by (metis append_Nil2)

lemma read_from_bytes_ok [simp]: "codec_ok c \<Longrightarrow> read_from_bytes c (fst c x) = Inr x"
  by (simp add: read_from_bytes_def codec_ok_empty)

lemma state_codecs_ok [simp]:
  assumes "codecs_ok D"
  shows "codec_ok (input_note_state_write D, input_note_state_read D)"
    and "codec_ok (output_note_state_write D, output_note_state_read D)"
    and "codec_ok (transaction_details_write D, transaction_details_read D)"
    and "codec_ok (transaction_status_write D, transaction_status_read D)"
  using assms by (simp_all add: codec_ok_def wire)

lemma sql_codecs_okD [simp]:
  assumes "sql_codecs_ok C"
  shows "codecs_ok (sc_base C)" "codec_ok (sc_assets C)" "codec_ok (sc_storage C)" "codec_ok (sc_script C)"
    "codec_ok (sc_tx_script C)" "codec_ok (sc_tag C)" "codec_ok (sc_header C)" "codec_ok (c_word (sc_base C))"
    "codec_ok (c_metadata (sc_base C))" "codec_ok (c_word_list (sc_base C))" "codec_ok (tag_source_codec C)"
  using assms by (simp_all add: sql_codecs_ok_def codecs_ok_def note_tag_source_ok)

lemma column_bind_u64: "bind_u64 x = Inr v \<Longrightarrow> column_u64 i v = Inr x"
  by (auto simp: bind_u64_def column_u64_def split: if_splits)

lemma sint_small_u64:
  fixes x :: u64
  assumes "unat x < 2 ^ 63"
  shows "sint x = uint x"
proof -
  have "uint x < 2 ^ 63"
    using assms nat_less_numeral_power_cancel_iff [of "uint x" "num.Bit0 num.One" 63] by (simp only: unat_eq_nat_uint)
  moreover have "- (2 ^ 63) \<le> uint x" by (rule order_trans [OF _ uint_ge_0]) simp
  ultimately show ?thesis
    unfolding sint_uint by (intro signed_take_bit_int_eq_self) simp_all
qed

lemma column_small_u64: "unat x < 2 ^ 63 \<Longrightarrow> column_u64 i (sint x) = Inr x"
  by (simp add: column_u64_def sint_small_u64)

lemma bind_small_u64: "unat x < 2 ^ 63 \<Longrightarrow> bind_u64 x = Inr (sint x)"
  by (simp add: bind_u64_def sint_small_u64)

section \<open>Encodings for evaluation\<close>

definition sample_header_codec :: "block_header codec" where
  "sample_header_codec =
     sample_via
       (\<lambda>h. (bh_version h, (bh_prev_commitment h, (bh_block_num h, (bh_chain_commitment h, (bh_account_root h,
         (bh_nullifier_root h, (bh_note_root h, (bh_tx_commitment h, (bh_tx_kernel_commitment h,
         ((case bh_validator_key h of PublicKey n \<Rightarrow> n), ((fp_native_asset_id (bh_fee_parameters h),
          fp_verification_base_fee (bh_fee_parameters h)), bh_timestamp h))))))))))))
       (\<lambda>(a, (b, (c, (d, (e, (f, (g, (i, (j, (k, ((l, m), n))))))))))).
          \<lparr>bh_version = a, bh_prev_commitment = b, bh_block_num = c, bh_chain_commitment = d, bh_account_root = e,
           bh_nullifier_root = f, bh_note_root = g, bh_tx_commitment = i, bh_tx_kernel_commitment = j,
           bh_validator_key = PublicKey k,
           bh_fee_parameters = \<lparr>fp_native_asset_id = l, fp_verification_base_fee = m\<rparr>, bh_timestamp = n\<rparr>)
       (sample_pair sample_word (sample_pair sample_digest (sample_pair sample_word (sample_pair sample_digest
         (sample_pair sample_digest (sample_pair sample_digest (sample_pair sample_digest (sample_pair sample_digest
         (sample_pair sample_digest (sample_pair sample_nat
         (sample_pair (sample_pair sample_account_id sample_word) sample_word)))))))))))"

lemma sample_header_codec_ok: "codec_ok sample_header_codec"
  unfolding sample_header_codec_def
  by (rule sample_via_ok) (simp_all add: sample_oks sample_nat_ok split: public_key.split)

definition sample_sql :: sql_codecs where
  "sample_sql =
     \<lparr>sc_base = sample_codecs, sc_assets = sample_list sample_asset_codec, sc_storage = sample_digest,
      sc_script = sample_digest, sc_tx_script = sample_digest, sc_tag = sample_word,
      sc_note_id = sample_via note_id_word NoteId sample_digest, sc_header = sample_header_codec,
      sc_show = (\<lambda>e. ''rusqlite'')\<rparr>"

lemma sample_sql_ok: "sql_codecs_ok sample_sql"
  by (simp add: sql_codecs_ok_def sample_sql_def sample_codecs_ok sample_oks sample_asset_ok
      sample_header_codec_ok sample_via_ok)

end
