(* ===== verification/Sqlite_Accounts.thy ===== *)
theory Sqlite_Accounts
  imports Sqlite_Database Smt_Forest "HOL-Library.Product_Lexorder"
begin

text \<open>
  The accounts of the SQLite store (\<^verbatim>\<open>sqlite-store/src/account\<close>): the latest state of every account
  in one set of tables, the values each state replaced in another, keyed by the nonce of the state
  that replaced them, and the operations that write a transaction's delta, replace a whole state,
  undo discarded states, lock accounts and prune history. Nonce columns hold the same 64 bits as a
  signed integer, so equality is that of the unsigned values and SQL order is the signed one. The
  in-memory forest of account trees is changed along with the tables and is not rolled back with
  them: an operation returns it on failure too.
\<close>

section \<open>Accounts and deltas\<close>

datatype slot_name = SlotName (slot_name_raw: nat)

instantiation slot_name :: linorder
begin
definition less_eq_slot_name :: "slot_name \<Rightarrow> slot_name \<Rightarrow> bool" where
  "a \<le> b \<longleftrightarrow> slot_name_raw a \<le> slot_name_raw b"
definition less_slot_name :: "slot_name \<Rightarrow> slot_name \<Rightarrow> bool" where
  "a < b \<longleftrightarrow> slot_name_raw a < slot_name_raw b"
instance
  by standard (auto simp: less_eq_slot_name_def less_slot_name_def intro: slot_name.expand)
end

datatype address = Address (address_raw: nat)

datatype slot_type = ValueType | MapType

fun slot_type_u8 :: "slot_type \<Rightarrow> u8" where
  "slot_type_u8 ValueType = 0"
| "slot_type_u8 MapType = 1"

fun slot_type_of :: "storage_slot \<Rightarrow> slot_type" where
  "slot_type_of (ValueSlot _) = ValueType"
| "slot_type_of (MapSlot _) = MapType"

fun slot_value :: "storage_slot \<Rightarrow> digest" where
  "slot_value (ValueSlot v) = v"
| "slot_value (MapSlot m) = sm_root m"

record acct_header =
  hd_id :: account_id
  hd_nonce :: u64
  hd_vault_root :: digest
  hd_storage_commitment :: digest
  hd_code_commitment :: digest

record account_state =
  as_id :: account_id
  as_vault :: asset_vault
  as_storage :: "(slot_name \<times> storage_slot) list"
  as_code :: digest
  as_nonce :: u64
  as_seed :: "digest option"

record account_delta =
  dl_fungible :: "(digest \<times> u64) list"
  dl_non_fungible :: "(digest \<times> digest \<times> bool) list"
  dl_values :: "(slot_name \<times> digest) list"
  dl_maps :: "(slot_name \<times> (digest \<times> digest) list) list"

text \<open>
  What the protocol crates compute: commitments, the arithmetic and words of fungible assets, the
  construction of vaults, maps and storage from entries, and the encodings of code and addresses.
  Code is identified by its commitment, a vault entry by its key and value words; the amounts of a
  delta are signed.
\<close>

record account_ops =
  ko_commitment :: "acct_header \<Rightarrow> digest"
  ko_storage_commitment :: "(slot_name \<times> storage_slot) list \<Rightarrow> digest"
  ko_fungible_new :: "digest \<Rightarrow> u64 \<Rightarrow> message + u64"
  ko_fungible_add :: "u64 \<Rightarrow> u64 \<Rightarrow> message + u64"
  ko_fungible_sub :: "u64 \<Rightarrow> u64 \<Rightarrow> message + u64"
  ko_fungible_word :: "digest \<Rightarrow> u64 \<Rightarrow> digest"
  ko_asset_amount :: "digest \<Rightarrow> digest \<Rightarrow> message + u64 option"
  ko_default_map_root :: digest
  ko_conflicting_roots :: "digest \<Rightarrow> digest \<Rightarrow> message"
  ko_code :: "digest codec"
  ko_address :: "address codec"
  ko_address_tag :: "address \<Rightarrow> note_tag"
  ko_show_slot_type :: "u8 \<Rightarrow> string"
  ko_code_error :: "deserialization_error \<Rightarrow> message"
  ko_vault_new :: "(digest \<times> digest) list \<Rightarrow> message + asset_vault"
  ko_map_new :: storage_map
  ko_map_insert :: "storage_map \<Rightarrow> digest \<Rightarrow> digest \<Rightarrow> message + storage_map"
  ko_storage_new :: "(slot_name \<times> storage_slot) list \<Rightarrow> message + (slot_name \<times> storage_slot) list"
  ko_storage_header :: "(slot_name \<times> slot_type \<times> digest) list \<Rightarrow> message + (slot_name \<times> slot_type \<times> digest) list"
  ko_slot_not_map :: "slot_name \<Rightarrow> message"
  ko_untracked_key :: "message \<Rightarrow> bool"

definition header_of_account :: "account_ops \<Rightarrow> account_state \<Rightarrow> acct_header" where
  "header_of_account K acc =
     \<lparr>hd_id = as_id acc, hd_nonce = as_nonce acc, hd_vault_root = av_root (as_vault acc),
      hd_storage_commitment = ko_storage_commitment K (as_storage acc), hd_code_commitment = as_code acc\<rparr>"

section \<open>Tables\<close>

record header_row =
  hw_header :: acct_header
  hw_commitment :: digest
  hw_seed :: "bytes option"
  hw_locked :: bool

record account_tables =
  at_codes :: "(digest, bytes) btree_map"
  at_latest_headers :: "(account_id, header_row) btree_map"
  at_hist_headers :: "(digest, header_row \<times> u64) btree_map"
  at_latest_storage :: "(account_id \<times> slot_name, digest \<times> u8) btree_map"
  at_hist_storage :: "(account_id \<times> u64 \<times> slot_name, digest option \<times> u8) btree_map"
  at_latest_maps :: "(account_id \<times> slot_name \<times> digest, digest) btree_map"
  at_hist_maps :: "(account_id \<times> u64 \<times> slot_name \<times> digest, digest option) btree_map"
  at_latest_assets :: "(account_id \<times> digest, digest) btree_map"
  at_hist_assets :: "(account_id \<times> u64 \<times> digest, digest option) btree_map"
  at_foreign_codes :: "(account_id, digest) btree_map"
  at_addresses :: "(bytes, account_id) btree_map"

definition account_tables_new :: account_tables where
  "account_tables_new =
     \<lparr>at_codes = [], at_latest_headers = [], at_hist_headers = [], at_latest_storage = [],
      at_hist_storage = [], at_latest_maps = [], at_hist_maps = [], at_latest_assets = [],
      at_hist_assets = [], at_foreign_codes = [], at_addresses = []\<rparr>"

text \<open>Violations of the foreign keys and of the check on seeds are failures of the engine.\<close>

definition foreign_key_failure :: "sql_codecs \<Rightarrow> store_error" where
  "foreign_key_failure C = rusqlite_store_error (sc_show C) (OtherRusqliteError 787)"

definition check_failure :: "sql_codecs \<Rightarrow> store_error" where
  "check_failure C = rusqlite_store_error (sc_show C) (OtherRusqliteError 275)"

section \<open>Headers and code\<close>

definition insert_account_code :: "account_ops \<Rightarrow> digest \<Rightarrow> account_tables \<Rightarrow> account_tables" where
  "insert_account_code K code T = T\<lparr>at_codes := bt_or_insert code (fst (ko_code K) code) (at_codes T)\<rparr>"

text \<open>Replacing a row also removes the row of another key with the same unique commitment.\<close>

definition insert_latest_header ::
  "sql_codecs \<Rightarrow> header_row \<Rightarrow> account_tables \<Rightarrow> store_error + account_tables" where
  "insert_latest_header C row T =
     (if bt_get (at_codes T) (hd_code_commitment (hw_header row)) = None then Inl (foreign_key_failure C)
      else Inr (T\<lparr>at_latest_headers :=
             bt_insert (hd_id (hw_header row)) row
               (filter (\<lambda>(i, r). hw_commitment r \<noteq> hw_commitment row) (at_latest_headers T))\<rparr>))"

definition insert_hist_header ::
  "sql_codecs \<Rightarrow> header_row \<Rightarrow> u64 \<Rightarrow> account_tables \<Rightarrow> store_error + account_tables" where
  "insert_hist_header C row replaced_at_nonce T =
     (if hd_nonce (hw_header row) = 0 \<and> hw_seed row = None then Inl (check_failure C)
      else if bt_get (at_codes T) (hd_code_commitment (hw_header row)) = None then Inl (foreign_key_failure C)
      else Inr (T\<lparr>at_hist_headers := bt_insert (hw_commitment row) (row, replaced_at_nonce) (at_hist_headers T)\<rparr>))"

definition insert_account_header ::
  "account_ops \<Rightarrow> sql_codecs \<Rightarrow> acct_header \<Rightarrow> digest option \<Rightarrow> acct_header option \<Rightarrow> account_tables \<Rightarrow>
   store_error + account_tables" where
  "insert_account_header K C new_header account_seed old_header T =
     and_then
       (case old_header of
          None \<Rightarrow> Inr T
        | Some old \<Rightarrow>
            (let (old_seed, old_locked) =
                   (case bt_get (at_latest_headers T) (hd_id old) of
                      None \<Rightarrow> (None, False) | Some row \<Rightarrow> (hw_seed row, hw_locked row))
             in insert_hist_header C
                  \<lparr>hw_header = old, hw_commitment = ko_commitment K old, hw_seed = old_seed, hw_locked = old_locked\<rparr>
                  (hd_nonce new_header) T))
       (insert_latest_header C
          \<lparr>hw_header = new_header, hw_commitment = ko_commitment K new_header,
           hw_seed = map_option (fst (c_word (sc_base C))) account_seed, hw_locked = False\<rparr>)"

section \<open>Reading headers and code\<close>

datatype account_status = StatusNew digest | StatusTracked | StatusLocked "digest option"

definition status_is_new :: "account_status \<Rightarrow> bool" where
  "status_is_new st = (case st of StatusNew _ \<Rightarrow> True | _ \<Rightarrow> False)"

definition status_is_locked :: "account_status \<Rightarrow> bool" where
  "status_is_locked st = (case st of StatusLocked _ \<Rightarrow> True | _ \<Rightarrow> False)"

fun status_seed :: "account_status \<Rightarrow> digest option" where
  "status_seed (StatusNew seed) = Some seed"
| "status_seed (StatusLocked seed) = seed"
| "status_seed StatusTracked = None"

definition parse_accounts :: "sql_codecs \<Rightarrow> header_row \<Rightarrow> store_error + acct_header \<times> account_status" where
  "parse_accounts C row =
     and_then (case hw_seed row of
         None \<Rightarrow> Inr None
       | Some bs \<Rightarrow> and_then (read_from_bytes (c_word (sc_base C)) bs) (\<lambda>seed. Inr (Some seed)))
     (\<lambda>account_seed.
        Inr (hw_header row,
             if hw_locked row then StatusLocked account_seed
             else case account_seed of Some seed \<Rightarrow> StatusNew seed | None \<Rightarrow> StatusTracked))"

definition get_account_ids :: "account_tables \<Rightarrow> account_id list" where
  "get_account_ids T = map fst (at_latest_headers T)"

definition get_account_headers :: "sql_codecs \<Rightarrow> account_tables \<Rightarrow> store_error + (acct_header \<times> account_status) list" where
  "get_account_headers C T = try_map (\<lambda>(i, row). parse_accounts C row) (at_latest_headers T)"

definition get_account_header ::
  "sql_codecs \<Rightarrow> account_id \<Rightarrow> account_tables \<Rightarrow> store_error + (acct_header \<times> account_status) option" where
  "get_account_header C a T =
     (case bt_get (at_latest_headers T) a of
        None \<Rightarrow> Inr None
      | Some row \<Rightarrow> and_then (parse_accounts C row) (\<lambda>r. Inr (Some r)))"

text \<open>Only superseded states are searched by commitment.\<close>

definition get_account_header_by_commitment ::
  "sql_codecs \<Rightarrow> digest \<Rightarrow> account_tables \<Rightarrow> store_error + acct_header option" where
  "get_account_header_by_commitment C c T =
     (case bt_get (at_hist_headers T) c of
        None \<Rightarrow> Inr None
      | Some (row, _) \<Rightarrow> and_then (parse_accounts C row) (\<lambda>(h, _). Inr (Some h)))"

definition code_from_bytes :: "account_ops \<Rightarrow> bytes \<Rightarrow> store_error + digest" where
  "code_from_bytes K bs =
     and_then (map_err (\<lambda>e. StoreAccountError (ko_code_error K e)) (snd (ko_code K) bs)) (\<lambda>(code, _). Inr code)"

definition query_account_code :: "account_ops \<Rightarrow> digest \<Rightarrow> account_tables \<Rightarrow> store_error + digest option" where
  "query_account_code K c T =
     (case bt_get (at_codes T) c of
        None \<Rightarrow> Inr None
      | Some bs \<Rightarrow> and_then (code_from_bytes K bs) (\<lambda>code. Inr (Some code)))"

definition get_account_code_by_id ::
  "account_ops \<Rightarrow> sql_codecs \<Rightarrow> account_id \<Rightarrow> account_tables \<Rightarrow> store_error + digest option" where
  "get_account_code_by_id K C a T =
     and_then (get_account_header C a T) (\<lambda>found.
       case found of None \<Rightarrow> Inr None | Some (h, _) \<Rightarrow> query_account_code K (hd_code_commitment h) T)"

definition upsert_foreign_account_code ::
  "account_ops \<Rightarrow> sql_codecs \<Rightarrow> account_id \<Rightarrow> digest \<Rightarrow> account_tables \<Rightarrow> store_error + account_tables" where
  "upsert_foreign_account_code K C a code T =
     (let T1 = insert_account_code K code T
      in if bt_get (at_codes T1) code = None then Inl (foreign_key_failure C)
         else Inr (insert_account_code K code (T1\<lparr>at_foreign_codes := bt_insert a code (at_foreign_codes T1)\<rparr>)))"

definition get_foreign_account_code ::
  "account_ops \<Rightarrow> account_id list \<Rightarrow> account_tables \<Rightarrow> store_error + (account_id, digest) btree_map" where
  "get_foreign_account_code K ids T =
     and_then (try_map (\<lambda>(i, bs). and_then (code_from_bytes K bs) (\<lambda>code. Inr (i, code)))
         (List.map_filter (\<lambda>(i, c). map_option (Pair i) (bt_get (at_codes T) c))
            (filter (\<lambda>(i, c). i \<in> set ids) (at_foreign_codes T))))
       (\<lambda>codes. Inr (bt_from_iter codes))"

section \<open>Reading states\<close>

definition query_vault_assets :: "account_ops \<Rightarrow> account_id \<Rightarrow> account_tables \<Rightarrow> store_error + (digest \<times> digest) list" where
  "query_vault_assets K a T =
     try_map (\<lambda>((a', k), v). and_then (map_err StoreAssetError (ko_asset_amount K k v)) (\<lambda>_. Inr (k, v)))
       (filter (\<lambda>((a', _), _). a' = a) (at_latest_assets T))"

definition get_account_vault :: "account_ops \<Rightarrow> account_id \<Rightarrow> account_tables \<Rightarrow> store_error + asset_vault" where
  "get_account_vault K a T =
     and_then (query_vault_assets K a T) (\<lambda>assets. map_err StoreAssetVaultError (ko_vault_new K assets))"

definition slot_type_try_from :: "account_ops \<Rightarrow> u8 \<Rightarrow> store_error + slot_type" where
  "slot_type_try_from K b =
     (if b = 0 then Inr ValueType else if b = 1 then Inr MapType else Inl (ParsingError (ko_show_slot_type K b)))"

datatype account_storage_filter = StorageAll | StorageSlotName slot_name | StorageRoot digest

fun storage_filter_condition :: "account_storage_filter \<Rightarrow> slot_name \<Rightarrow> digest \<Rightarrow> bool" where
  "storage_filter_condition StorageAll s v \<longleftrightarrow> True"
| "storage_filter_condition (StorageSlotName name) s v \<longleftrightarrow> s = name"
| "storage_filter_condition (StorageRoot root) s v \<longleftrightarrow> v = root"

definition query_storage_maps ::
  "account_ops \<Rightarrow> account_id \<Rightarrow> slot_name option \<Rightarrow> account_tables \<Rightarrow> store_error + (slot_name, storage_map) btree_map" where
  "query_storage_maps K a slot_name_filter T =
     try_fold (\<lambda>maps ((_, s, k), v).
         let m = (case bt_get maps s of None \<Rightarrow> ko_map_new K | Some m \<Rightarrow> m)
         in and_then (map_err StoreStorageMapError (ko_map_insert K m k v)) (\<lambda>m'. Inr (bt_insert s m' maps)))
       [] (filter (\<lambda>((a', s, _), _). a' = a \<and> (case slot_name_filter of None \<Rightarrow> True | Some name \<Rightarrow> s = name))
             (at_latest_maps T))"

definition read_slots ::
  "account_ops \<Rightarrow> account_id \<Rightarrow> (slot_name \<Rightarrow> digest \<Rightarrow> bool) \<Rightarrow> account_tables \<Rightarrow>
   store_error + (slot_name \<times> digest \<times> slot_type) list" where
  "read_slots K a cond T =
     try_map (\<lambda>((_, s), (v, ty)). and_then (slot_type_try_from K ty) (\<lambda>ty. Inr (s, v, ty)))
       (filter (\<lambda>((a', s), (v, _)). a' = a \<and> cond s v) (at_latest_storage T))"

definition query_storage_slots ::
  "account_ops \<Rightarrow> account_id \<Rightarrow> account_storage_filter \<Rightarrow> account_tables \<Rightarrow>
   store_error + (slot_name, storage_slot) btree_map" where
  "query_storage_slots K a flt T =
     and_then (read_slots K a (storage_filter_condition flt) T) (\<lambda>storage_values.
     and_then (if list_ex (\<lambda>(_, _, ty). ty = MapType) storage_values
               then query_storage_maps K a (case flt of StorageSlotName name \<Rightarrow> Some name | _ \<Rightarrow> None) T
               else Inr []) (\<lambda>storage_maps.
     Inr (bt_from_iter (map (\<lambda>(s, v, ty).
       (s, case ty of
             ValueType \<Rightarrow> ValueSlot v
           | MapType \<Rightarrow> MapSlot (case bt_get storage_maps s of None \<Rightarrow> ko_map_new K | Some m \<Rightarrow> m))) storage_values))))"

definition get_account_storage ::
  "account_ops \<Rightarrow> account_id \<Rightarrow> account_storage_filter \<Rightarrow> account_tables \<Rightarrow>
   store_error + (slot_name \<times> storage_slot) list" where
  "get_account_storage K a flt T =
     and_then (query_storage_slots K a flt T) (\<lambda>slots. map_err StoreAccountError (ko_storage_new K slots))"

definition query_storage_values ::
  "account_ops \<Rightarrow> account_id \<Rightarrow> account_tables \<Rightarrow> store_error + (slot_name, slot_type \<times> digest) btree_map" where
  "query_storage_values K a T =
     and_then (read_slots K a (\<lambda>_ _. True) T) (\<lambda>rows. Inr (bt_from_iter (map (\<lambda>(s, v, ty). (s, ty, v)) rows)))"

definition get_account ::
  "account_ops \<Rightarrow> sql_codecs \<Rightarrow> account_id \<Rightarrow> account_tables \<Rightarrow>
   store_error + (account_state \<times> account_status) option" where
  "get_account K C a T =
     and_then (get_account_header C a T) (\<lambda>found.
       case found of
         None \<Rightarrow> Inr None
       | Some (header, status) \<Rightarrow>
           and_then (get_account_vault K a T) (\<lambda>vault.
           and_then (get_account_storage K a StorageAll T) (\<lambda>storage.
           and_then (query_account_code K (hd_code_commitment header) T) (\<lambda>code.
             case code of
               None \<Rightarrow> Inr None
             | Some account_code \<Rightarrow>
                 Inr (Some (\<lparr>as_id = hd_id header, as_vault = vault, as_storage = storage, as_code = account_code,
                             as_nonce = hd_nonce header, as_seed = status_seed status\<rparr>, status))))))"

text \<open>A partial account: the roots of its vault and maps without their entries.\<close>

record partial_account_state =
  ps_id :: account_id
  ps_nonce :: u64
  ps_code :: digest
  ps_storage_header :: "(slot_name \<times> slot_type \<times> digest) list"
  ps_map_roots :: "digest list"
  ps_vault_root :: digest
  ps_seed :: "digest option"

definition get_minimal_partial_account ::
  "account_ops \<Rightarrow> sql_codecs \<Rightarrow> account_id \<Rightarrow> account_tables \<Rightarrow>
   store_error + (partial_account_state \<times> account_status) option" where
  "get_minimal_partial_account K C a T =
     and_then (get_account_header C a T) (\<lambda>found.
       case found of
         None \<Rightarrow> Inr None
       | Some (header, status) \<Rightarrow>
           and_then (query_storage_values K a T) (\<lambda>storage_values.
           and_then (map_err StoreAccountError (ko_storage_header K storage_values)) (\<lambda>storage_header.
           and_then (query_account_code K (hd_code_commitment header) T) (\<lambda>code.
             case code of
               None \<Rightarrow> Inr None
             | Some account_code \<Rightarrow>
                 Inr (Some (\<lparr>ps_id = hd_id header, ps_nonce = hd_nonce header, ps_code = account_code,
                             ps_storage_header = storage_header,
                             ps_map_roots = map (\<lambda>(_, _, v). v) (filter (\<lambda>(_, ty, _). ty = MapType) storage_values),
                             ps_vault_root = hd_vault_root header, ps_seed = status_seed status\<rparr>, status))))))"

definition get_account_addresses :: "account_ops \<Rightarrow> account_id \<Rightarrow> account_tables \<Rightarrow> store_error + address list" where
  "get_account_addresses K a T =
     try_map (\<lambda>(bs, _). read_from_bytes (ko_address K) bs) (filter (\<lambda>(_, a'). a' = a) (at_addresses T))"

section \<open>Writing states\<close>

text \<open>Whole states go into the latest tables only.\<close>

definition put_slot :: "account_id \<Rightarrow> slot_name \<Rightarrow> digest \<Rightarrow> u8 \<Rightarrow> account_tables \<Rightarrow> account_tables" where
  "put_slot a s v ty T = T\<lparr>at_latest_storage := bt_insert (a, s) (v, ty) (at_latest_storage T)\<rparr>"

definition put_map_entry :: "account_id \<Rightarrow> slot_name \<Rightarrow> digest \<times> digest \<Rightarrow> account_tables \<Rightarrow> account_tables" where
  "put_map_entry a s = (\<lambda>(k, v) T. T\<lparr>at_latest_maps := bt_insert (a, s, k) v (at_latest_maps T)\<rparr>)"

definition put_asset :: "account_id \<Rightarrow> digest \<times> digest \<Rightarrow> account_tables \<Rightarrow> account_tables" where
  "put_asset a = (\<lambda>(k, v) T. T\<lparr>at_latest_assets := bt_insert (a, k) v (at_latest_assets T)\<rparr>)"

definition insert_storage_slots ::
  "account_id \<Rightarrow> (slot_name \<times> storage_slot) list \<Rightarrow> account_tables \<Rightarrow> account_tables" where
  "insert_storage_slots a slots T =
     fold (\<lambda>(s, slot) T.
         let T1 = put_slot a s (slot_value slot) (slot_type_u8 (slot_type_of slot)) T
         in case slot of MapSlot m \<Rightarrow> fold (put_map_entry a s) (sm_entries m) T1 | ValueSlot _ \<Rightarrow> T1)
       slots T"

definition insert_assets :: "account_id \<Rightarrow> (digest \<times> digest) list \<Rightarrow> account_tables \<Rightarrow> account_tables" where
  "insert_assets a assets T = fold (put_asset a) assets T"

text \<open>A changed entry is archived with the value it had, or with \<open>NULL\<close> when it is new.\<close>

definition archive_asset :: "account_id \<Rightarrow> u64 \<Rightarrow> digest \<Rightarrow> account_tables \<Rightarrow> account_tables" where
  "archive_asset a n k T =
     T\<lparr>at_hist_assets := bt_insert (a, n, k) (bt_get (at_latest_assets T) (a, k)) (at_hist_assets T)\<rparr>"

definition persist_vault_delta ::
  "account_id \<Rightarrow> u64 \<Rightarrow> digest list \<Rightarrow> (digest \<times> digest) list \<Rightarrow> account_tables \<Rightarrow> account_tables" where
  "persist_vault_delta a n removed_vault_keys updated_assets T =
     (let T1 = fold (archive_asset a n) removed_vault_keys T;
          T2 = T1\<lparr>at_latest_assets :=
                 filter (\<lambda>((a', k), v). \<not> (a' = a \<and> k \<in> set removed_vault_keys)) (at_latest_assets T1)\<rparr>
      in fold (\<lambda>(k, v) T. put_asset a (k, v) (archive_asset a n k T)) updated_assets T2)"

definition write_map_entry_delta ::
  "'f smt_ops \<Rightarrow> account_id \<Rightarrow> u64 \<Rightarrow> slot_name \<Rightarrow> (digest \<times> digest) list \<Rightarrow> account_tables \<Rightarrow> account_tables" where
  "write_map_entry_delta S a n s changed_entries T =
     fold (\<lambda>(k, v) T.
         let T1 = T\<lparr>at_hist_maps := bt_insert (a, n, s, k) (bt_get (at_latest_maps T) (a, s, k)) (at_hist_maps T)\<rparr>
         in if v = smt_empty_word S then T1\<lparr>at_latest_maps := bt_remove (a, s, k) (at_latest_maps T1)\<rparr>
            else put_map_entry a s (k, v) T1)
       changed_entries T"

definition write_storage_delta ::
  "'f smt_ops \<Rightarrow> account_id \<Rightarrow> u64 \<Rightarrow> (slot_name, digest \<times> slot_type) btree_map \<Rightarrow> account_delta \<Rightarrow>
   account_tables \<Rightarrow> account_tables" where
  "write_storage_delta S a n updated_slots delta T =
     (let delta_map_entries = bt_from_iter (dl_maps delta)
      in fold (\<lambda>(s, (v, ty)) T.
           let old_slot_value = map_option fst (bt_get (at_latest_storage T) (a, s));
               T1 = T\<lparr>at_hist_storage := bt_insert (a, n, s) (old_slot_value, slot_type_u8 ty) (at_hist_storage T)\<rparr>;
               T2 = put_slot a s v (slot_type_u8 ty) T1
           in case bt_get delta_map_entries s of
                Some changed_entries \<Rightarrow> write_map_entry_delta S a n s changed_entries T2
              | None \<Rightarrow> T2)
         updated_slots T)"

section \<open>Operations that also change the forest\<close>

type_synonym ('f, 'a) forest_op = "'f account_smt_forest \<Rightarrow> (store_error + 'a) \<times> 'f account_smt_forest"

definition fpure :: "store_error + 'a \<Rightarrow> ('f, 'a) forest_op" where
  "fpure r F = (r, F)"

definition fbind :: "('f, 'a) forest_op \<Rightarrow> ('a \<Rightarrow> ('f, 'b) forest_op) \<Rightarrow> ('f, 'b) forest_op" where
  "fbind m k F = (case m F of (Inl e, F') \<Rightarrow> (Inl e, F') | (Inr x, F') \<Rightarrow> k x F')"

definition lift_forest :: "('f account_smt_forest \<Rightarrow> store_error + 'a \<times> 'f account_smt_forest) \<Rightarrow> ('f, 'a) forest_op" where
  "lift_forest m F = (case m F of Inl e \<Rightarrow> (Inl e, F) | Inr (x, F') \<Rightarrow> (Inr x, F'))"

fun fold_forest :: "('s \<Rightarrow> 'x \<Rightarrow> ('f, 's) forest_op) \<Rightarrow> 's \<Rightarrow> 'x list \<Rightarrow> ('f, 's) forest_op" where
  "fold_forest f s [] = fpure (Inr s)"
| "fold_forest f s (x # xs) = fbind (f s x) (\<lambda>s'. fold_forest f s' xs)"

text \<open>Errors of the forest component inside the store: its own store errors, and its panics.\<close>

fun forest_error :: "client_error \<Rightarrow> store_error" where
  "forest_error (StoreError e) = e"
| "forest_error (Panicked s) = StorePanicked s"
| "forest_error _ = StorePanicked ''unreachable''"

subsection \<open>Vault deltas\<close>

definition unsigned_abs :: "u64 \<Rightarrow> u64" where
  "unsigned_abs d = (if 0 \<le> sint d then d else - d)"

definition get_account_fungible_assets_for_delta ::
  "account_ops \<Rightarrow> account_id \<Rightarrow> account_delta \<Rightarrow> account_tables \<Rightarrow> store_error + (digest, u64) btree_map" where
  "get_account_fungible_assets_for_delta K a delta T =
     and_then (try_map (\<lambda>((a', k), v).
         and_then (map_err StoreAssetError (ko_asset_amount K k v)) (\<lambda>asset.
         case asset of Some amount \<Rightarrow> Inr (k, amount) | None \<Rightarrow> Inl (StorePanicked ''the asset is non-fungible'')))
       (filter (\<lambda>((a', k), v). a' = a \<and> k \<in> fst ` set (dl_fungible delta)) (at_latest_assets T)))
     (\<lambda>assets. Inr (bt_from_iter assets))"

definition fungible_step ::
  "account_ops \<Rightarrow> (digest, u64) btree_map \<times> (digest, digest) btree_map \<times> digest list \<Rightarrow> digest \<times> u64 \<Rightarrow>
   store_error + (digest, u64) btree_map \<times> (digest, digest) btree_map \<times> digest list" where
  "fungible_step K = (\<lambda>(assets, updated_assets, removed_vault_keys) (vault_key, d).
     and_then (map_err StoreAssetError (ko_fungible_new K vault_key (unsigned_abs d))) (\<lambda>delta_asset.
     and_then (case bt_get assets vault_key of
         Some asset \<Rightarrow> map_err StoreAssetError
           (if 0 \<le> sint d then ko_fungible_add K asset delta_asset else ko_fungible_sub K asset delta_asset)
       | None \<Rightarrow> Inr delta_asset) (\<lambda>amount.
     if 0 < amount
     then Inr (bt_remove vault_key assets, bt_insert vault_key (ko_fungible_word K vault_key amount) updated_assets,
               removed_vault_keys)
     else Inr (bt_remove vault_key assets, updated_assets, removed_vault_keys @ [vault_key]))))"

definition apply_account_vault_delta ::
  "'f smt_ops \<Rightarrow> account_ops \<Rightarrow> account_id \<Rightarrow> acct_header \<Rightarrow> acct_header \<Rightarrow> (digest, u64) btree_map \<Rightarrow>
   account_delta \<Rightarrow> account_tables \<Rightarrow> ('f, account_tables) forest_op" where
  "apply_account_vault_delta S K a init_state final_state updated_fungible_assets delta T =
     fbind (fpure (try_fold (fungible_step K) (updated_fungible_assets, [], []) (dl_fungible delta)))
       (\<lambda>(_, updated_assets, removed_vault_keys).
        let updated = fold (\<lambda>(k, v, _). bt_insert k v) (filter (\<lambda>(_, _, added). added) (dl_non_fungible delta)) updated_assets;
            removed = removed_vault_keys @ map fst (filter (\<lambda>(_, _, added). \<not> added) (dl_non_fungible delta));
            T1 = persist_vault_delta a (hd_nonce final_state) removed updated T
        in fbind (lift_forest (update_asset_nodes S (hd_vault_root init_state) updated removed)) (\<lambda>new_vault_root.
             if new_vault_root \<noteq> hd_vault_root final_state
             then fpure (Inl (MerkleStoreError (ko_conflicting_roots K (hd_vault_root final_state) new_vault_root)))
             else fpure (Inr T1)))"

subsection \<open>Storage deltas\<close>

definition get_storage_map_roots_for_delta ::
  "account_id \<Rightarrow> account_delta \<Rightarrow> account_tables \<Rightarrow> (slot_name, digest) btree_map" where
  "get_storage_map_roots_for_delta a delta T =
     bt_from_iter (map (\<lambda>((a', s), (v, ty)). (s, v))
       (filter (\<lambda>((a', s), _). a' = a \<and> s \<in> fst ` set (dl_maps delta)) (at_latest_storage T)))"

definition old_map_root :: "account_ops \<Rightarrow> (slot_name, digest) btree_map \<Rightarrow> slot_name \<Rightarrow> digest" where
  "old_map_root K old_map_roots s =
     (case bt_get old_map_roots s of Some r \<Rightarrow> r | None \<Rightarrow> ko_default_map_root K)"

definition apply_account_storage_delta ::
  "'f smt_ops \<Rightarrow> account_ops \<Rightarrow> (slot_name, digest) btree_map \<Rightarrow> account_delta \<Rightarrow>
   ('f, (slot_name, digest \<times> slot_type) btree_map) forest_op" where
  "apply_account_storage_delta S K old_map_roots delta =
     fold_forest (\<lambda>updated_slots (s, entries).
         fbind (lift_forest (update_storage_map_nodes S (old_map_root K old_map_roots s) entries)) (\<lambda>new_root.
         fpure (Inr (bt_insert s (new_root, MapType) updated_slots))))
       (bt_from_iter (map (\<lambda>(s, v). (s, (v, ValueType))) (dl_values delta))) (dl_maps delta)"

text \<open>The first root equal to the old one is replaced; if there is none, the new root is appended.\<close>

fun replace_first :: "digest \<Rightarrow> digest \<Rightarrow> digest list \<Rightarrow> digest list" where
  "replace_first old new [] = [new]"
| "replace_first old new (r # rs) = (if r = old then new # rs else r # replace_first old new rs)"

definition update_map_root ::
  "account_ops \<Rightarrow> (slot_name, digest) btree_map \<Rightarrow> slot_name \<times> digest \<times> slot_type \<Rightarrow> digest list \<Rightarrow> digest list" where
  "update_map_root K old_map_roots = (\<lambda>(s, (new_root, ty)) roots.
     if ty = MapType then replace_first (old_map_root K old_map_roots s) new_root roots else roots)"

definition apply_account_delta ::
  "'f smt_ops \<Rightarrow> account_ops \<Rightarrow> sql_codecs \<Rightarrow> acct_header \<Rightarrow> acct_header \<Rightarrow> (digest, u64) btree_map \<Rightarrow>
   (slot_name, digest) btree_map \<Rightarrow> account_delta \<Rightarrow> account_tables \<Rightarrow> ('f, account_tables) forest_op" where
  "apply_account_delta S K C init_state final_state updated_fungible_assets old_map_roots delta T =
     (let a = hd_id final_state in
      fbind (fpure (insert_account_header K C final_state None (Some init_state) T)) (\<lambda>T1.
      fbind (apply_account_vault_delta S K a init_state final_state updated_fungible_assets delta T1) (\<lambda>T2 F.
      case get_roots F (hd_id init_state) of
        None \<Rightarrow> (Inl (StoreAccountDataNotFound (hd_id init_state)), F)
      | Some roots \<Rightarrow>
          let final_roots = (case roots of [] \<Rightarrow> [] | _ # rs \<Rightarrow> hd_vault_root final_state # rs)
          in fbind (apply_account_storage_delta S K old_map_roots delta) (\<lambda>updated_storage_slots F.
               let final_roots = fold (update_map_root K old_map_roots) updated_storage_slots final_roots;
                   T3 = write_storage_delta S a (hd_nonce final_state) updated_storage_slots delta T2
               in (Inr T3, stage_roots a final_roots F)) F)))"

subsection \<open>Undoing discarded states\<close>

definition restore_storage :: "account_id \<Rightarrow> u64 \<Rightarrow> account_tables \<Rightarrow> account_tables" where
  "restore_storage a n T =
     (let archived = filter (\<lambda>((a', n', s), _). a' = a \<and> n' = n) (at_hist_storage T);
          T1 = fold (\<lambda>((_, _, s), (old, ty)) T. case old of Some v \<Rightarrow> put_slot a s v ty T | None \<Rightarrow> T) archived T
      in T1\<lparr>at_latest_storage :=
           filter (\<lambda>((a', s), _). \<not> (a' = a \<and> s \<in> (\<lambda>((_, _, s'), _). s') ` set (filter (\<lambda>(_, (old, _)). old = None) archived)))
             (at_latest_storage T1)\<rparr>)"

definition restore_maps :: "account_id \<Rightarrow> u64 \<Rightarrow> account_tables \<Rightarrow> account_tables" where
  "restore_maps a n T =
     (let archived = filter (\<lambda>((a', n', _), _). a' = a \<and> n' = n) (at_hist_maps T);
          T1 = fold (\<lambda>((_, _, s, k), old) T. case old of Some v \<Rightarrow> put_map_entry a s (k, v) T | None \<Rightarrow> T) archived T
      in T1\<lparr>at_latest_maps :=
           filter (\<lambda>((a', s, k), _). \<not> (a' = a \<and> ((a, n, s, k), None) \<in> set archived)) (at_latest_maps T1)\<rparr>)"

definition restore_assets :: "account_id \<Rightarrow> u64 \<Rightarrow> account_tables \<Rightarrow> account_tables" where
  "restore_assets a n T =
     (let archived = filter (\<lambda>((a', n', k), _). a' = a \<and> n' = n) (at_hist_assets T);
          T1 = fold (\<lambda>((_, _, k), old) T. case old of Some v \<Rightarrow> put_asset a (k, v) T | None \<Rightarrow> T) archived T
      in T1\<lparr>at_latest_assets :=
           filter (\<lambda>((a', k), _). \<not> (a' = a \<and> ((a, n, k), None) \<in> set archived)) (at_latest_assets T1)\<rparr>)"

definition restore_old_values_for_nonce :: "account_id \<Rightarrow> u64 \<Rightarrow> account_tables \<Rightarrow> account_tables" where
  "restore_old_values_for_nonce a n T = restore_assets a n (restore_maps a n (restore_storage a n T))"

definition delete_account :: "account_id \<Rightarrow> account_tables \<Rightarrow> account_tables" where
  "delete_account a T =
     T\<lparr>at_latest_headers := bt_remove a (at_latest_headers T),
       at_latest_storage := filter (\<lambda>((a', _), _). a' \<noteq> a) (at_latest_storage T),
       at_latest_maps := filter (\<lambda>((a', _), _). a' \<noteq> a) (at_latest_maps T),
       at_latest_assets := filter (\<lambda>((a', _), _). a' \<noteq> a) (at_latest_assets T)\<rparr>"

definition delete_archived :: "account_id \<Rightarrow> u64 list \<Rightarrow> account_tables \<Rightarrow> account_tables" where
  "delete_archived a nonces T =
     T\<lparr>at_hist_storage := filter (\<lambda>((a', n, _), _). \<not> (a' = a \<and> n \<in> set nonces)) (at_hist_storage T),
       at_hist_maps := filter (\<lambda>((a', n, _), _). \<not> (a' = a \<and> n \<in> set nonces)) (at_hist_maps T),
       at_hist_assets := filter (\<lambda>((a', n, _), _). \<not> (a' = a \<and> n \<in> set nonces)) (at_hist_assets T),
       at_hist_headers := filter (\<lambda>(_, (row, n)). \<not> (hd_id (hw_header row) = a \<and> n \<in> set nonces)) (at_hist_headers T)\<rparr>"

definition undo_account_nonces ::
  "sql_codecs \<Rightarrow> account_id \<Rightarrow> u64 list \<Rightarrow> account_tables \<Rightarrow> store_error + account_tables" where
  "undo_account_nonces C a nonces T =
     (let T1 = fold (restore_old_values_for_nonce a) nonces T;
          min_nonce = last nonces;
          old_headers = map (\<lambda>(_, (row, _)). row)
            (filter (\<lambda>(_, (row, n)). hd_id (hw_header row) = a \<and> n = min_nonce) (at_hist_headers T1))
      in and_then (if old_headers \<noteq> [] then try_fold (\<lambda>T row. insert_latest_header C row T) T1 old_headers
                   else Inr (delete_account a T1))
           (\<lambda>T2. Inr (delete_archived a nonces T2)))"

text \<open>The nonces of the discarded states of each account, the most recent first.\<close>

definition discarded_nonces :: "digest list \<Rightarrow> account_tables \<Rightarrow> (account_id, u64 list) btree_map" where
  "discarded_nonces commitments T =
     (let pairs = map (\<lambda>(a, row). (a, hd_nonce (hw_header row)))
                    (filter (\<lambda>(a, row). hw_commitment row \<in> set commitments) (at_latest_headers T))
                @ map (\<lambda>(c, (row, n)). (hd_id (hw_header row), hd_nonce (hw_header row)))
                    (filter (\<lambda>(c, _). c \<in> set commitments) (at_hist_headers T));
          grouped = fold (\<lambda>(a, n). bt_upsert a (\<lambda>ns. ns @ [n]) [n]) pairs []
      in map (\<lambda>(a, ns). (a, rev (sorted_list_of_set (set ns)))) grouped)"

definition undo_account_state ::
  "'f smt_ops \<Rightarrow> sql_codecs \<Rightarrow> (account_id \<times> digest) list \<Rightarrow> account_tables \<Rightarrow> ('f, account_tables) forest_op" where
  "undo_account_state S C discarded_states T =
     (if discarded_states = [] then fpure (Inr T)
      else fbind (fpure (try_fold (\<lambda>T (a, nonces). undo_account_nonces C a nonces T) T
               (discarded_nonces (map snd discarded_states) T)))
             (\<lambda>T1 F. (Inr T1, fold (\<lambda>(a, _). discard_roots S a) discarded_states F)))"

subsection \<open>Whole states\<close>

text \<open>Everything of an account is archived, replaced, and marked as new where it did not exist.\<close>

definition archive_all :: "account_id \<Rightarrow> u64 \<Rightarrow> account_tables \<Rightarrow> account_tables" where
  "archive_all a n T =
     T\<lparr>at_hist_storage := fold (\<lambda>((_, s), (v, ty)). bt_insert (a, n, s) (Some v, ty))
         (filter (\<lambda>((a', _), _). a' = a) (at_latest_storage T)) (at_hist_storage T),
       at_hist_maps := fold (\<lambda>((_, s, k), v). bt_insert (a, n, s, k) (Some v))
         (filter (\<lambda>((a', _), _). a' = a) (at_latest_maps T)) (at_hist_maps T),
       at_hist_assets := fold (\<lambda>((_, k), v). bt_insert (a, n, k) (Some v))
         (filter (\<lambda>((a', _), _). a' = a) (at_latest_assets T)) (at_hist_assets T)\<rparr>"

definition clear_latest :: "account_id \<Rightarrow> account_tables \<Rightarrow> account_tables" where
  "clear_latest a T =
     T\<lparr>at_latest_storage := filter (\<lambda>((a', _), _). a' \<noteq> a) (at_latest_storage T),
       at_latest_maps := filter (\<lambda>((a', _), _). a' \<noteq> a) (at_latest_maps T),
       at_latest_assets := filter (\<lambda>((a', _), _). a' \<noteq> a) (at_latest_assets T)\<rparr>"

definition mark_new :: "account_id \<Rightarrow> u64 \<Rightarrow> account_tables \<Rightarrow> account_tables" where
  "mark_new a n T =
     T\<lparr>at_hist_storage := fold (\<lambda>((_, s), (v, ty)). bt_or_insert (a, n, s) (None, ty))
         (filter (\<lambda>((a', _), _). a' = a) (at_latest_storage T)) (at_hist_storage T),
       at_hist_maps := fold (\<lambda>((_, s, k), v). bt_or_insert (a, n, s, k) None)
         (filter (\<lambda>((a', _), _). a' = a) (at_latest_maps T)) (at_hist_maps T),
       at_hist_assets := fold (\<lambda>((_, k), v). bt_or_insert (a, n, k) None)
         (filter (\<lambda>((a', _), _). a' = a) (at_latest_assets T)) (at_hist_assets T)\<rparr>"

definition update_account_state ::
  "'f smt_ops \<Rightarrow> account_ops \<Rightarrow> sql_codecs \<Rightarrow> account_state \<Rightarrow> account_tables \<Rightarrow> ('f, account_tables) forest_op" where
  "update_account_state S K C acc T =
     (let a = as_id acc; n = as_nonce acc in
      fbind (lift_forest (\<lambda>F. and_then (map_err forest_error
               (insert_and_register_account_state S a (as_vault acc) (map snd (as_storage acc)) F)) (\<lambda>F'. Inr ((), F'))))
        (\<lambda>_. fbind (fpure (get_account_header C a T)) (\<lambda>old.
             let T1 = clear_latest a (archive_all a n T);
                 T2 = insert_assets a (av_assets (as_vault acc)) (insert_storage_slots a (as_storage acc) T1);
                 T3 = mark_new a n T2
             in fpure (insert_account_header K C (header_of_account K acc) None (map_option fst old) T3))))"

definition lock_account_on_unexpected_commitment ::
  "account_id \<Rightarrow> digest \<Rightarrow> account_tables \<Rightarrow> account_tables" where
  "lock_account_on_unexpected_commitment a mismatched_digest T =
     (if list_ex (\<lambda>(c, (row, _)). hd_id (hw_header row) = a \<and> c = mismatched_digest) (at_hist_headers T) then T
      else T\<lparr>at_latest_headers := bt_modify a (\<lambda>row. row\<lparr>hw_locked := True\<rparr>) (at_latest_headers T),
             at_hist_headers := map (\<lambda>(c, (row, n)). (c, (if hd_id (hw_header row) = a
                                                           then row\<lparr>hw_locked := True\<rparr> else row, n))) (at_hist_headers T)\<rparr>)"

section \<open>Pruning\<close>

definition code_referenced :: "digest \<Rightarrow> account_tables \<Rightarrow> bool" where
  "code_referenced c T \<longleftrightarrow>
     list_ex (\<lambda>(_, row). hd_code_commitment (hw_header row) = c) (at_latest_headers T)
     \<or> list_ex (\<lambda>(_, (row, _)). hd_code_commitment (hw_header row) = c) (at_hist_headers T)
     \<or> list_ex (\<lambda>(_, c'). c' = c) (at_foreign_codes T)"

definition delete_code :: "digest \<Rightarrow> account_tables \<times> nat \<Rightarrow> account_tables \<times> nat" where
  "delete_code c = (\<lambda>(T, n).
     if code_referenced c T then (T, n)
     else (T\<lparr>at_codes := bt_remove c (at_codes T)\<rparr>, n + (if bt_get (at_codes T) c = None then 0 else 1)))"

text \<open>The nonces are compared as signed columns.\<close>

definition prune_account_history :: "account_id \<Rightarrow> u64 \<Rightarrow> account_tables \<Rightarrow> account_tables \<times> nat" where
  "prune_account_history a up_to_nonce T =
     (let doomed = (\<lambda>a' n. a' = a \<and> n <=s up_to_nonce);
          old_headers = filter (\<lambda>(_, (row, n)). doomed (hd_id (hw_header row)) n) (at_hist_headers T);
          old_storage = filter (\<lambda>((a', n, _), _). doomed a' n) (at_hist_storage T);
          old_maps = filter (\<lambda>((a', n, _), _). doomed a' n) (at_hist_maps T);
          old_assets = filter (\<lambda>((a', n, _), _). doomed a' n) (at_hist_assets T);
          candidate_code_commitments = remdups (map (\<lambda>(_, (row, _)). hd_code_commitment (hw_header row)) old_headers);
          T1 = T\<lparr>at_hist_headers := filter (\<lambda>(_, (row, n)). \<not> doomed (hd_id (hw_header row)) n) (at_hist_headers T),
                 at_hist_storage := filter (\<lambda>((a', n, _), _). \<not> doomed a' n) (at_hist_storage T),
                 at_hist_maps := filter (\<lambda>((a', n, _), _). \<not> doomed a' n) (at_hist_maps T),
                 at_hist_assets := filter (\<lambda>((a', n, _), _). \<not> doomed a' n) (at_hist_assets T)\<rparr>
      in fold delete_code candidate_code_commitments
           (T1, length old_headers + length old_storage + length old_maps + length old_assets))"

end
