(* ===== verification/Account_Proofs.thy ===== *)
theory Account_Proofs
  imports Rpc_Client Transaction_Request Sqlite_Accounts
begin

text \<open>
  Accounts as the node reports them (\<^verbatim>\<open>rpc/domain/account.rs\<close>, \<^verbatim>\<open>smt.rs\<close>, \<^verbatim>\<open>merkle.rs\<close>, the account requests
  of \<^verbatim>\<open>rpc/tonic_client/mod.rs\<close>) and the inputs a transaction gets of a foreign account
  (\<^verbatim>\<open>transaction/request/foreign.rs\<close>): conversion of proofs and details, the checks an answer has to
  pass, the request for a whole account with its large maps and vaults, and what the assembled
  account is made of. Trees, hashes and constructors of the protocol crates are the argument
  \<open>account_wire\<close>.
\<close>

section \<open>Sparse Merkle trees (\<^verbatim>\<open>smt.rs\<close>, \<^verbatim>\<open>merkle.rs\<close>)\<close>

datatype smt_leaf =
    EmptyLeaf u64
  | SingleLeaf "digest \<times> digest"
  | MultipleLeaf "(digest \<times> digest) list"

record sparse_path =
  sx_empty_nodes_mask :: u64
  sx_siblings :: "digest list"

record smt_proof =
  sp_path :: sparse_path
  sp_leaf :: smt_leaf

record proto_leaf_entry =
  pe_key :: "proto_digest option"
  pe_value :: "proto_digest option"

datatype proto_smt_leaf =
    ProtoEmptyLeafIndex u64
  | ProtoSingle proto_leaf_entry
  | ProtoMultiple "proto_leaf_entry list"

record proto_sparse_path =
  px_empty_nodes_mask :: u64
  px_siblings :: "proto_digest list"

record proto_smt_opening =
  po_leaf :: "proto_smt_leaf option option"
  po_path :: "proto_sparse_path option"

text \<open>A message for a leaf is present or absent, and so is the variant inside it.\<close>

datatype partial_storage_map = PartialStorageMap nat
datatype partial_storage = PartialStorage nat
datatype storage_map_witness = StorageMapWitness nat

record account_witness =
  wt_id :: account_id
  wt_state_commitment :: digest
  wt_path :: sparse_path

record account_wire =
  aw_wire :: wire_ops
  aw_leaf_index_new :: "u64 \<Rightarrow> message + u64"
  aw_sparse_from_parts :: "u64 \<Rightarrow> digest list \<Rightarrow> message + sparse_path"
  aw_smt_proof_new :: "sparse_path \<Rightarrow> smt_leaf \<Rightarrow> message + smt_proof"
  aw_proof_get :: "smt_proof \<Rightarrow> digest \<Rightarrow> digest option"
  aw_key_hash :: "digest \<Rightarrow> digest"
  aw_key_to_hex :: "digest \<Rightarrow> string"
  aw_show_nat :: "nat \<Rightarrow> string"
  aw_slot_type :: "u8 \<Rightarrow> message + slot_type"
  aw_slot_id :: "string \<Rightarrow> slot_name"
  aw_storage_header_new :: "(string \<times> slot_type \<times> digest) list \<Rightarrow> message + (string \<times> slot_type \<times> digest) list"
  aw_code_read :: "u8 list \<Rightarrow> message + digest"
  aw_commitment :: "acct_header \<Rightarrow> digest"
  aw_witness_new :: "account_id \<Rightarrow> digest \<Rightarrow> sparse_path \<Rightarrow> message + account_witness"
  aw_has_public_state :: "account_id \<Rightarrow> bool"
  aw_is_private :: "account_id \<Rightarrow> bool"
  aw_empty_word :: digest
  aw_vault_new :: "asset list \<Rightarrow> message + asset_vault"
  aw_map_with_entries :: "(digest \<times> digest) list \<Rightarrow> message + storage_map"
  aw_storage_new :: "(slot_name \<times> storage_slot) list \<Rightarrow> message + (slot_name \<times> storage_slot) list"
  aw_account_new :: "account_id \<Rightarrow> asset_vault \<Rightarrow> (slot_name \<times> storage_slot) list \<Rightarrow> digest \<Rightarrow> u64 \<Rightarrow> digest option \<Rightarrow>
    message + account_state"
  aw_partial_map_full :: "storage_map \<Rightarrow> partial_storage_map"
  aw_map_witness_new :: "smt_proof \<Rightarrow> digest \<Rightarrow> message + storage_map_witness"
  aw_partial_map_witnesses :: "storage_map_witness list \<Rightarrow> transaction_request_error + partial_storage_map"
  aw_partial_storage_new :: "(string \<times> slot_type \<times> digest) list \<Rightarrow> partial_storage_map list \<Rightarrow> message + partial_storage"
  aw_partial_account_new :: "account_id \<Rightarrow> u64 \<Rightarrow> digest \<Rightarrow> partial_storage \<Rightarrow> asset_vault \<Rightarrow> message + partial_account"

abbreviation aw_word :: "account_wire \<Rightarrow> proto_digest \<Rightarrow> rpc_conversion_error + digest" where
  "aw_word W \<equiv> word_try_from (aw_wire W)"

definition leaf_entry_from :: "account_wire \<Rightarrow> digest \<times> digest \<Rightarrow> proto_leaf_entry" where
  "leaf_entry_from W = (\<lambda>(k, v).
     \<lparr>pe_key = Some (digest_from_word (aw_wire W) k), pe_value = Some (digest_from_word (aw_wire W) v)\<rparr>)"

definition leaf_entry_try_from :: "account_wire \<Rightarrow> proto_leaf_entry \<Rightarrow> rpc_conversion_error + digest \<times> digest" where
  "leaf_entry_try_from W e =
     and_then (required ''proto::primitives::SmtLeafEntry'' ''key'' (aw_word W) (pe_key e)) (\<lambda>k.
     and_then (required ''proto::primitives::SmtLeafEntry'' ''value'' (aw_word W) (pe_value e)) (\<lambda>v. Inr (k, v)))"

fun smt_leaf_from :: "account_wire \<Rightarrow> smt_leaf \<Rightarrow> proto_smt_leaf option" where
  "smt_leaf_from W (EmptyLeaf i) = Some (ProtoEmptyLeafIndex i)"
| "smt_leaf_from W (SingleLeaf e) = Some (ProtoSingle (leaf_entry_from W e))"
| "smt_leaf_from W (MultipleLeaf es) = Some (ProtoMultiple (map (leaf_entry_from W) es))"

fun smt_leaf_try_from :: "account_wire \<Rightarrow> proto_smt_leaf option \<Rightarrow> rpc_conversion_error + smt_leaf" where
  "smt_leaf_try_from W (Some (ProtoEmptyLeafIndex i)) =
     and_then (map_err InvalidField (aw_leaf_index_new W i)) (\<lambda>i. Inr (EmptyLeaf i))"
| "smt_leaf_try_from W (Some (ProtoSingle e)) = and_then (leaf_entry_try_from W e) (\<lambda>e. Inr (SingleLeaf e))"
| "smt_leaf_try_from W (Some (ProtoMultiple es)) =
     and_then (try_map (leaf_entry_try_from W) es) (\<lambda>es. Inr (MultipleLeaf es))"
| "smt_leaf_try_from W None = Inl (missing_field ''proto::primitives::SmtLeaf'' ''leaf'')"

definition sparse_path_from :: "account_wire \<Rightarrow> sparse_path \<Rightarrow> proto_sparse_path" where
  "sparse_path_from W p =
     \<lparr>px_empty_nodes_mask = sx_empty_nodes_mask p, px_siblings = map (digest_from_word (aw_wire W)) (sx_siblings p)\<rparr>"

definition sparse_path_try_from :: "account_wire \<Rightarrow> proto_sparse_path \<Rightarrow> rpc_conversion_error + sparse_path" where
  "sparse_path_try_from W p =
     and_then (try_map (aw_word W) (px_siblings p)) (\<lambda>siblings.
     map_err ConvMerkleError (aw_sparse_from_parts W (px_empty_nodes_mask p) siblings))"

definition smt_proof_from :: "account_wire \<Rightarrow> smt_proof \<Rightarrow> proto_smt_opening" where
  "smt_proof_from W p =
     \<lparr>po_leaf = Some (smt_leaf_from W (sp_leaf p)), po_path = Some (sparse_path_from W (sp_path p))\<rparr>"

definition smt_proof_try_from :: "account_wire \<Rightarrow> proto_smt_opening \<Rightarrow> rpc_conversion_error + smt_proof" where
  "smt_proof_try_from W v =
     and_then (required ''proto::primitives::SmtOpening'' ''leaf'' (smt_leaf_try_from W) (po_leaf v)) (\<lambda>leaf.
     and_then (required ''proto::primitives::SmtOpening'' ''path'' (sparse_path_try_from W) (po_path v)) (\<lambda>path.
     map_err InvalidField (aw_smt_proof_new W path leaf)))"

section \<open>Account details (\<^verbatim>\<open>account.rs\<close>)\<close>

type_synonym storage_header = "(string \<times> slot_type \<times> digest) list"

datatype storage_map_entries =
    AllEntries "(digest \<times> digest) list"
  | EntriesWithProofs "smt_proof list"

record storage_map_details =
  smd_slot_name :: string
  smd_too_many_entries :: bool
  smd_entries :: storage_map_entries

record storage_details =
  sdt_header :: storage_header
  sdt_map_details :: "storage_map_details list"

record vault_details =
  vd_too_many_assets :: bool
  vd_assets :: "asset list"

record account_details =
  acd_header :: acct_header
  acd_storage_details :: storage_details
  acd_code :: digest
  acd_vault_details :: vault_details

record account_proof =
  apf_account_witness :: account_witness
  apf_state_headers :: "account_details option"

datatype account_proof_error = InconsistentAccountCommitment | InconsistentAccountId | InconsistentCodeCommitment

fun account_proof_error_display :: "account_proof_error \<Rightarrow> string" where
  "account_proof_error_display InconsistentAccountCommitment =
     ''the received account commitment doesn't match the received account header's commitment''"
| "account_proof_error_display InconsistentAccountId =
     ''the received account id doesn't match the received account header's id''"
| "account_proof_error_display InconsistentCodeCommitment =
     ''the received code commitment doesn't match the received account header's code commitment''"

definition account_proof_new ::
  "account_wire \<Rightarrow> account_witness \<Rightarrow> account_details option \<Rightarrow> account_proof_error + account_proof" where
  "account_proof_new W witness details =
     (let proof = Inr \<lparr>apf_account_witness = witness, apf_state_headers = details\<rparr>
      in case details of
           None \<Rightarrow> proof
         | Some d \<Rightarrow>
             if aw_commitment W (acd_header d) \<noteq> wt_state_commitment witness then Inl InconsistentAccountCommitment
             else if hd_id (acd_header d) \<noteq> wt_id witness then Inl InconsistentAccountId
             else if acd_code d \<noteq> hd_code_commitment (acd_header d) then Inl InconsistentCodeCommitment
             else proof)"

definition find_map_details :: "storage_details \<Rightarrow> string \<Rightarrow> storage_map_details option" where
  "find_map_details D target = List.find (\<lambda>m. smd_slot_name m = target) (sdt_map_details D)"

fun into_storage_map :: "account_wire \<Rightarrow> storage_map_entries \<Rightarrow> (message + storage_map) option" where
  "into_storage_map W (AllEntries entries) = Some (aw_map_with_entries W entries)"
| "into_storage_map W (EntriesWithProofs _) = None"

subsection \<open>Messages\<close>

record proto_account_header =
  ph_account_id :: "u8 list option"
  ph_nonce :: u64
  ph_vault_root :: "proto_digest option"
  ph_storage_commitment :: "proto_digest option"
  ph_code_commitment :: "proto_digest option"

record proto_storage_slot =
  pl_slot_name :: string
  pl_slot_type :: u32
  pl_commitment :: "proto_digest option"

record proto_map_entry =
  pm_key :: "proto_digest option"
  pm_value :: "proto_digest option"

datatype proto_map_entries =
    ProtoAllEntries "proto_map_entry list"
  | ProtoEntriesWithProofs "proto_smt_opening option list"

record proto_map_details =
  pj_slot_name :: string
  pj_too_many_entries :: bool
  pj_entries :: "proto_map_entries option"

record proto_storage_details =
  pk_header :: "proto_storage_slot list option"
  pk_map_details :: "proto_map_details list"

record proto_vault_details =
  pu_too_many_assets :: bool
  pu_assets :: "proto_asset list"

record proto_account_details =
  pz_header :: "proto_account_header option"
  pz_storage_details :: "proto_storage_details option"
  pz_code :: "u8 list option"
  pz_vault_details :: "proto_vault_details option"

record proto_account_witness =
  py_witness_id :: "u8 list option"
  py_commitment :: "proto_digest option"
  py_path :: "proto_sparse_path option"

record proto_account_response =
  ar_block_num :: "u32 option"
  ar_witness :: "proto_account_witness option"
  ar_details :: "proto_account_details option"

abbreviation rpc_required ::
  "string \<Rightarrow> string \<Rightarrow> ('a \<Rightarrow> rpc_conversion_error + 'b) \<Rightarrow> 'a option \<Rightarrow> rpc_error + 'b" where
  "rpc_required entity field conv v \<equiv> map_err rpc_from_conversion (required entity field conv v)"

definition account_header_try_into :: "account_wire \<Rightarrow> proto_account_header \<Rightarrow> rpc_error + acct_header" where
  "account_header_try_into W h =
     and_then (rpc_required ''proto::account::AccountHeader'' ''account_id'' (account_id_try_from (aw_wire W)) (ph_account_id h)) (\<lambda>i.
     and_then (rpc_required ''proto::account::AccountHeader'' ''vault_root'' (aw_word W) (ph_vault_root h)) (\<lambda>vault_root.
     and_then (rpc_required ''proto::account::AccountHeader'' ''storage_commitment'' (aw_word W) (ph_storage_commitment h)) (\<lambda>storage.
     and_then (rpc_required ''proto::account::AccountHeader'' ''code_commitment'' (aw_word W) (ph_code_commitment h)) (\<lambda>code.
     Inr \<lparr>hd_id = i, hd_nonce = ph_nonce h, hd_vault_root = vault_root, hd_storage_commitment = storage,
          hd_code_commitment = code\<rparr>))))"

definition slot_header_try_from :: "account_wire \<Rightarrow> proto_storage_slot \<Rightarrow> rpc_error + string \<times> slot_type \<times> digest" where
  "slot_header_try_from W slot =
     and_then (rpc_required ''proto::account::account_storage_header::StorageSlot'' ''commitment'' (aw_word W) (pl_commitment slot)) (\<lambda>v.
     and_then (if unat (pl_slot_type slot) < 256 then map_err InvalidResponse (aw_slot_type W (ucast (pl_slot_type slot)))
               else Inl (InvalidResponse ''out of range integral type conversion attempted'')) (\<lambda>ty.
     and_then (map_err InvalidResponse (wo_slot_name_new (aw_wire W) (pl_slot_name slot))) (\<lambda>n. Inr (n, ty, v))))"

definition storage_header_try_into :: "account_wire \<Rightarrow> proto_storage_slot list \<Rightarrow> rpc_error + storage_header" where
  "storage_header_try_into W slots =
     and_then (try_map (slot_header_try_from W) slots) (\<lambda>header_slots.
     map_err InvalidResponse (aw_storage_header_new W (sort_key (\<lambda>(n, _, _). aw_slot_id W n) header_slots)))"

definition map_entry_try_from :: "account_wire \<Rightarrow> proto_map_entry \<Rightarrow> rpc_error + digest \<times> digest" where
  "map_entry_try_from W e =
     and_then (ok_or (ExpectedDataMissing ''key'') (pm_key e)) (\<lambda>k.
     and_then (map_err rpc_from_conversion (aw_word W k)) (\<lambda>key.
     and_then (ok_or (ExpectedDataMissing ''value'') (pm_value e)) (\<lambda>v.
     and_then (map_err rpc_from_conversion (aw_word W v)) (\<lambda>val. Inr (key, val)))))"

definition map_proof_try_from :: "account_wire \<Rightarrow> proto_smt_opening option \<Rightarrow> rpc_error + smt_proof" where
  "map_proof_try_from W proof =
     and_then (ok_or (ExpectedDataMissing ''proof'') proof) (\<lambda>p. map_err rpc_from_conversion (smt_proof_try_from W p))"

definition map_details_try_from :: "account_wire \<Rightarrow> proto_map_details \<Rightarrow> rpc_error + storage_map_details" where
  "map_details_try_from W v =
     and_then (map_err ExpectedDataMissing (wo_slot_name_new (aw_wire W) (pj_slot_name v))) (\<lambda>slot_name.
     and_then (case pj_entries v of
         Some (ProtoAllEntries es) \<Rightarrow> and_then (try_map (map_entry_try_from W) es) (\<lambda>es. Inr (AllEntries es))
       | Some (ProtoEntriesWithProofs ps) \<Rightarrow> and_then (try_map (map_proof_try_from W) ps) (\<lambda>ps. Inr (EntriesWithProofs ps))
       | None \<Rightarrow> Inr (AllEntries [])) (\<lambda>entries.
     Inr \<lparr>smd_slot_name = slot_name, smd_too_many_entries = pj_too_many_entries v, smd_entries = entries\<rparr>))"

definition storage_details_try_from :: "account_wire \<Rightarrow> proto_storage_details \<Rightarrow> rpc_error + storage_details" where
  "storage_details_try_from W v =
     and_then (map_err rpc_from_conversion (ok_or (missing_field ''proto::account::AccountStorageHeader'' ''header'') (pk_header v))) (\<lambda>slots.
     and_then (storage_header_try_into W slots) (\<lambda>header.
     and_then (try_map (map_details_try_from W) (pk_map_details v)) (\<lambda>map_details.
     Inr \<lparr>sdt_header = header, sdt_map_details = map_details\<rparr>)))"

definition vault_details_try_from :: "account_wire \<Rightarrow> proto_vault_details \<Rightarrow> rpc_error + vault_details" where
  "vault_details_try_from W v =
     and_then (map_err rpc_from_conversion (try_map (asset_try_from (aw_wire W)) (pu_assets v))) (\<lambda>assets.
     Inr \<lparr>vd_too_many_assets = pu_too_many_assets v, vd_assets = assets\<rparr>)"

definition account_witness_try_from :: "account_wire \<Rightarrow> proto_account_witness \<Rightarrow> rpc_error + account_witness" where
  "account_witness_try_from W v =
     and_then (rpc_required ''proto::account::AccountWitness'' ''state_commitment'' (aw_word W) (py_commitment v)) (\<lambda>commitment.
     and_then (rpc_required ''proto::account::AccountWitness'' ''merkle_path'' (sparse_path_try_from W) (py_path v)) (\<lambda>path.
     and_then (rpc_required ''proto::account::AccountWitness'' ''witness_id'' (account_id_try_from (aw_wire W)) (py_witness_id v)) (\<lambda>i.
     map_err RpcPanicked (aw_witness_new W i commitment path))))"

subsection \<open>Storage requirements\<close>

definition keys_for_slot :: "storage_requirements \<Rightarrow> string \<Rightarrow> digest list" where
  "keys_for_slot reqs slot_name = (case map_of reqs slot_name of Some keys \<Rightarrow> keys | None \<Rightarrow> [])"

datatype slot_data = AllEntriesRequest bool | MapKeysRequest "proto_digest list"

record map_detail_request =
  mdr_slot_name :: string
  mdr_slot_data :: slot_data

definition storage_map_requests :: "account_wire \<Rightarrow> storage_requirements \<Rightarrow> map_detail_request list" where
  "storage_map_requests W reqs =
     map (\<lambda>(n, keys). \<lparr>mdr_slot_name = n, mdr_slot_data =
       if keys = [] then AllEntriesRequest True else MapKeysRequest (map (digest_from_word (aw_wire W)) keys)\<rparr>) reqs"

text \<open>Every proof of an answer has to be a proof for the key requested at its position.\<close>

definition check_key_proof :: "account_wire \<Rightarrow> smt_proof \<times> digest \<Rightarrow> rpc_error + unit" where
  "check_key_proof W = (\<lambda>(proof, raw_key).
     if aw_proof_get W proof (aw_key_hash W raw_key) = None
     then Inl (InvalidResponse (''proof for storage map key '' @ aw_key_to_hex W raw_key @ '' does not match the requested key''))
     else Inr ())"

definition check_map_proofs :: "account_wire \<Rightarrow> storage_requirements \<Rightarrow> storage_map_details \<Rightarrow> rpc_error + unit" where
  "check_map_proofs W reqs detail =
     (let requested_keys = keys_for_slot reqs (smd_slot_name detail)
      in case smd_entries detail of
           EntriesWithProofs proofs \<Rightarrow>
             if length proofs \<noteq> length requested_keys
             then Inl (InvalidResponse (''expected '' @ aw_show_nat W (length requested_keys) @ '' proofs for storage map slot ''
                    @ [CHR 0x27] @ smd_slot_name detail @ [CHR 0x27] @ '', got '' @ aw_show_nat W (length proofs)))
             else and_then (try_map (check_key_proof W) (zip proofs requested_keys)) (\<lambda>_. Inr ())
         | AllEntries _ \<Rightarrow> Inr ())"

definition into_domain ::
  "account_wire \<Rightarrow> (digest, digest) btree_map \<Rightarrow> storage_requirements \<Rightarrow> proto_account_details \<Rightarrow> rpc_error + account_details" where
  "into_domain W known_account_codes reqs v =
     and_then (map_err rpc_from_conversion (ok_or (missing_field ''proto::rpc::account_response::AccountDetails'' ''header'') (pz_header v)))
       (\<lambda>h. and_then (account_header_try_into W h) (\<lambda>header.
     and_then (map_err rpc_from_conversion (ok_or (missing_field ''proto::rpc::account_response::AccountDetails'' ''storage_details'')
       (pz_storage_details v))) (\<lambda>s. and_then (storage_details_try_from W s) (\<lambda>storage_details.
     and_then (try_map (check_map_proofs W reqs) (sdt_map_details storage_details)) (\<lambda>_.
     and_then (case pz_code v of
         Some bytes \<Rightarrow> map_err DeserializationError (aw_code_read W bytes)
       | None \<Rightarrow> ok_or (InvalidResponse ''Account code was not provided, but the response did not contain it either'')
                   (bt_get known_account_codes (hd_code_commitment header))) (\<lambda>code.
     and_then (map_err rpc_from_conversion (ok_or (missing_field ''proto::rpc::AccountVaultDetails'' ''vault_details'') (pz_vault_details v)))
       (\<lambda>va. and_then (vault_details_try_from W va) (\<lambda>vault_details.
     Inr \<lparr>acd_header = header, acd_storage_details = storage_details, acd_code = code, acd_vault_details = vault_details\<rparr>))))))))"

definition account_response_try_into :: "account_wire \<Rightarrow> proto_account_response \<Rightarrow> rpc_error + account_proof" where
  "account_response_try_into W v =
     and_then (ok_or (ExpectedDataMissing ''GetAccountProof returned an account without witness'') (ar_witness v)) (\<lambda>witness.
     and_then (case ar_details v of
         None \<Rightarrow> Inr None
       | Some d \<Rightarrow> and_then (into_domain W [] [] d) (\<lambda>d. Inr (Some d))) (\<lambda>details.
     and_then (account_witness_try_from W witness) (\<lambda>witness.
     map_err (\<lambda>e. InvalidResponse (account_proof_error_display e)) (account_proof_new W witness details))))"

section \<open>Account requests\<close>

record account_detail_request =
  dr_code_commitment :: "proto_digest option"
  dr_asset_vault_commitment :: "proto_digest option"
  dr_storage_maps :: "map_detail_request list"

record account_request =
  aq_account_id :: "u8 list"
  aq_block_num :: "u32 option"
  aq_details :: "account_detail_request option"

datatype account_state_at = AtBlock block_number | AtChainTip

record 'n account_env =
  ae_rpc :: "'n rpc_env"
  ae_wire :: account_wire
  ae_get_account :: "account_request \<Rightarrow> ('n, proto_account_response) stub"

abbreviation empty_word_message :: "account_wire \<Rightarrow> proto_digest option" where
  "empty_word_message W \<equiv> Some (digest_from_word (aw_wire W) (aw_empty_word W))"

definition ask_account :: "'n account_env \<Rightarrow> account_request \<Rightarrow> ('n, proto_account_response) rpc" where
  "ask_account E request = call_with_retry (ae_rpc E) GetAccountEndpoint (ae_get_account E request)"

definition account_proof_request :: "account_wire \<Rightarrow> account_id \<Rightarrow> storage_requirements \<Rightarrow> account_state_at \<Rightarrow> account_request" where
  "account_proof_request W a reqs at =
     \<lparr>aq_account_id = account_id_from (aw_wire W) a,
      aq_block_num = (case at of AtBlock n \<Rightarrow> Some n | AtChainTip \<Rightarrow> None),
      aq_details =
        (if aw_has_public_state W a
         then Some \<lparr>dr_code_commitment = empty_word_message W, dr_asset_vault_commitment = None,
                    dr_storage_maps = storage_map_requests W reqs\<rparr>
         else None)\<rparr>"

definition accept_account_proof ::
  "account_wire \<Rightarrow> (digest, digest) btree_map \<Rightarrow> storage_requirements \<Rightarrow> proto_account_response \<Rightarrow> rpc_error + block_number \<times> account_proof" where
  "accept_account_proof W known reqs response =
     and_then (ok_or (ExpectedDataMissing ''AccountWitness'') (ar_witness response)) (\<lambda>v.
     and_then (account_witness_try_from W v) (\<lambda>witness.
     and_then (if aw_has_public_state W (wt_id witness)
               then and_then (ok_or (ExpectedDataMissing ''Account.Details'') (ar_details response)) (\<lambda>d.
                    and_then (into_domain W known reqs d) (\<lambda>d. Inr (Some d)))
               else Inr None) (\<lambda>headers.
     and_then (map_err (\<lambda>e. InvalidResponse (account_proof_error_display e)) (account_proof_new W witness headers)) (\<lambda>proof.
     and_then (ok_or (ExpectedDataMissing ''response block num'') (ar_block_num response)) (\<lambda>block_num.
     Inr (block_num, proof))))))"

definition get_account_proof ::
  "'n account_env \<Rightarrow> account_id \<Rightarrow> storage_requirements \<Rightarrow> account_state_at \<Rightarrow> digest option \<Rightarrow> ('n, block_number \<times> account_proof) rpc" where
  "get_account_proof E a reqs at known_account_code =
     (let known_codes_by_commitment = (case known_account_code of Some code \<Rightarrow> bt_insert code code [] | None \<Rightarrow> [])
      in rpc_bind (ask_account E (account_proof_request (ae_wire E) a reqs at)) (\<lambda>response.
         rpc_lift (accept_account_proof (ae_wire E) known_codes_by_commitment reqs response)))"

subsection \<open>Whole accounts\<close>

definition full_account_request :: "account_wire \<Rightarrow> account_id \<Rightarrow> string list \<Rightarrow> account_request" where
  "full_account_request W a maps_to_request =
     \<lparr>aq_account_id = account_id_from (aw_wire W) a, aq_block_num = None,
      aq_details =
        (if aw_has_public_state W a
         then Some \<lparr>dr_code_commitment = empty_word_message W, dr_asset_vault_commitment = empty_word_message W,
                    dr_storage_maps = map (\<lambda>n. \<lparr>mdr_slot_name = n, mdr_slot_data = AllEntriesRequest True\<rparr>) maps_to_request\<rparr>
         else None)\<rparr>"

definition fetch_full_account_proof :: "'n account_env \<Rightarrow> account_id \<Rightarrow> ('n, block_number \<times> account_proof) rpc" where
  "fetch_full_account_proof E a =
     (let W = ae_wire E
      in rpc_bind (ask_account E (full_account_request W a [])) (\<lambda>account_response.
         rpc_bind (rpc_lift (ok_or (ExpectedDataMissing
             ''GetAccountDetails returned an account without a matching block number for the witness'') (ar_block_num account_response)))
           (\<lambda>block_number.
         rpc_bind (if aw_has_public_state W a
             then rpc_bind (rpc_lift (and_then (ok_or (ExpectedDataMissing ''details in public account'') (ar_details account_response))
                      (into_domain W [] []))) (\<lambda>account_details.
                  let maps_to_request = map fst (filter (\<lambda>(_, ty, _). ty = MapType) (sdt_header (acd_storage_details account_details)))
                  in rpc_bind (ask_account E (full_account_request W a maps_to_request)) (\<lambda>response.
                     rpc_lift (account_response_try_into W response)))
             else rpc_lift (account_response_try_into W account_response)) (\<lambda>account_proof.
         rpc_lift (Inr (block_number, account_proof))))))"

text \<open>
  The updates of a paginated request name a key once per block that changed it; sorted by block
  and collected into a map, the last one stays.
\<close>

definition latest_map_entries :: "string \<Rightarrow> storage_map_update list \<Rightarrow> (digest \<times> digest) list" where
  "latest_map_entries n updates =
     bt_from_iter (map (\<lambda>u. (su_key u, su_value u)) (sort_key su_block_num (filter (\<lambda>u. su_slot_name u = n) updates)))"

definition latest_assets :: "account_vault_update list \<Rightarrow> asset list" where
  "latest_assets updates =
     List.map_filter (\<lambda>a. a) (bt_values (bt_from_iter (map (\<lambda>u. (vu_vault_key u, vu_asset u)) (sort_key vu_block_num updates))))"

definition fetch_map_info ::
  "'n account_env \<Rightarrow> account_id \<Rightarrow> storage_map_info option \<Rightarrow> ('n, storage_map_info) rpc" where
  "fetch_map_info E a map_cache =
     (case map_cache of Some info \<Rightarrow> rpc_lift (Inr info) | None \<Rightarrow> sync_storage_maps (ae_rpc E) 0 None a)"

definition invalid_map :: "message + storage_map \<Rightarrow> rpc_error + storage_map" where
  "invalid_map = map_err (\<lambda>e. InvalidResponse (''the rpc api returned a non-valid map entry: '' @ e))"

definition build_slot ::
  "'n account_env \<Rightarrow> account_id \<Rightarrow> storage_details \<Rightarrow> (slot_name \<times> storage_slot) list \<times> storage_map_info option \<Rightarrow>
   string \<times> slot_type \<times> digest \<Rightarrow> ('n, (slot_name \<times> storage_slot) list \<times> storage_map_info option) rpc" where
  "build_slot E a D = (\<lambda>(slots, map_cache) (n, ty, v).
     let W = ae_wire E; s = aw_slot_id W n
     in case ty of
          ValueType \<Rightarrow> rpc_lift (Inr (slots @ [(s, ValueSlot v)], map_cache))
        | MapType \<Rightarrow>
            rpc_bind (rpc_lift (ok_or (ExpectedDataMissing (''slot named '' @ [CHR 0x27] @ n @ [CHR 0x27]
              @ '' was reported as a map, but it does not have a matching map_detail entry'')) (find_map_details D n))) (\<lambda>map_details.
            if smd_too_many_entries map_details
            then rpc_bind (fetch_map_info E a map_cache) (\<lambda>info.
                 rpc_bind (rpc_lift (invalid_map (aw_map_with_entries W (latest_map_entries n (smi_updates info))))) (\<lambda>m.
                 rpc_lift (Inr (slots @ [(s, MapSlot m)], Some info))))
            else rpc_bind (rpc_lift (and_then
                     (ok_or (ExpectedDataMissing ''expected AllEntries for full account fetch, got EntriesWithProofs'')
                        (into_storage_map W (smd_entries map_details))) invalid_map)) (\<lambda>m.
                 rpc_lift (Inr (slots @ [(s, MapSlot m)], map_cache)))))"

definition build_storage_slots ::
  "'n account_env \<Rightarrow> account_id \<Rightarrow> storage_details \<Rightarrow> ('n, (slot_name \<times> storage_slot) list) rpc" where
  "build_storage_slots E a D =
     rpc_bind (rpc_fold (build_slot E a D) ([], None) (sdt_header D)) (\<lambda>(slots, _). rpc_lift (Inr slots))"

record account_update_summary =
  us_commitment :: digest
  us_last_block_num :: block_number

datatype fetched_account =
    FetchedPrivateAccount account_id account_update_summary
  | FetchedPublicAccount account_state account_update_summary

fun fetched_commitment :: "fetched_account \<Rightarrow> digest" where
  "fetched_commitment (FetchedPrivateAccount _ summary) = us_commitment summary"
| "fetched_commitment (FetchedPublicAccount _ summary) = us_commitment summary"

definition fetch_assets :: "'n account_env \<Rightarrow> account_id \<Rightarrow> vault_details \<Rightarrow> ('n, asset list) rpc" where
  "fetch_assets E a V =
     (if vd_too_many_assets V
      then rpc_bind (sync_account_vault (ae_rpc E) 0 None a) (\<lambda>vault_info.
           rpc_lift (Inr (latest_assets (avi_updates vault_info))))
      else rpc_lift (Inr (vd_assets V)))"

definition assemble_account ::
  "account_wire \<Rightarrow> acct_header \<Rightarrow> digest \<Rightarrow> asset list \<Rightarrow> (slot_name \<times> storage_slot) list \<Rightarrow> rpc_error + account_state" where
  "assemble_account W header code assets slots =
     and_then (map_err (\<lambda>e. InvalidResponse (''api rpc returned non-valid assets: '' @ e)) (aw_vault_new W assets)) (\<lambda>vault.
     and_then (map_err (\<lambda>e. InvalidResponse (''api rpc returned non-valid storage slots: '' @ e)) (aw_storage_new W slots)) (\<lambda>storage.
     map_err (\<lambda>e. InvalidResponse (''failed to instance an account from the rpc api response: '' @ e))
       (aw_account_new W (hd_id header) vault storage code (hd_nonce header) None)))"

definition get_account_details :: "'n account_env \<Rightarrow> account_id \<Rightarrow> ('n, fetched_account) rpc" where
  "get_account_details E a =
     rpc_bind (fetch_full_account_proof E a) (\<lambda>(block_number, proof).
     let summary = \<lparr>us_commitment = wt_state_commitment (apf_account_witness proof), us_last_block_num = block_number\<rparr>
     in if aw_is_private (ae_wire E) a then rpc_lift (Inr (FetchedPrivateAccount a summary))
        else rpc_bind (rpc_lift (ok_or (ExpectedDataMissing ''GetAccountDetails returned a public account without details'')
                 (apf_state_headers proof))) (\<lambda>details.
             let header = acd_header details
             in rpc_bind (fetch_assets E (hd_id header) (acd_vault_details details)) (\<lambda>assets.
                rpc_bind (build_storage_slots E (hd_id header) (acd_storage_details details)) (\<lambda>slots.
                rpc_bind (rpc_lift (assemble_account (ae_wire E) header (acd_code details) assets slots)) (\<lambda>acc.
                rpc_lift (Inr (FetchedPublicAccount acc summary)))))))"

section \<open>Inputs of foreign accounts (\<^verbatim>\<open>foreign.rs\<close>)\<close>

record account_inputs =
  ain_account :: partial_account
  ain_code :: digest
  ain_witness :: account_witness

definition proofs_to_witnesses ::
  "account_wire \<Rightarrow> smt_proof list \<Rightarrow> digest list \<Rightarrow> transaction_request_error + storage_map_witness list" where
  "proofs_to_witnesses W proofs keys =
     try_map (\<lambda>(proof, key). map_err RequestStorageMapError (aw_map_witness_new W proof key)) (zip proofs keys)"

definition partial_map_of ::
  "account_wire \<Rightarrow> storage_requirements \<Rightarrow> storage_map_details \<Rightarrow> transaction_request_error + partial_storage_map" where
  "partial_map_of W reqs detail =
     (case smd_entries detail of
        AllEntries entries \<Rightarrow>
          and_then (map_err RequestStorageMapError (aw_map_with_entries W entries)) (\<lambda>m. Inr (aw_partial_map_full W m))
      | EntriesWithProofs proofs \<Rightarrow>
          and_then (proofs_to_witnesses W proofs (keys_for_slot reqs (smd_slot_name detail))) (aw_partial_map_witnesses W))"

definition account_proof_into_inputs ::
  "account_wire \<Rightarrow> account_proof \<Rightarrow> storage_requirements \<Rightarrow> transaction_request_error + account_inputs" where
  "account_proof_into_inputs W proof reqs =
     (case apf_state_headers proof of
        None \<Rightarrow> Inl ForeignAccountDataMissing
      | Some d \<Rightarrow>
          and_then (try_map (partial_map_of W reqs) (sdt_map_details (acd_storage_details d))) (\<lambda>maps.
          and_then (map_err RequestAssetVaultError (aw_vault_new W (vd_assets (acd_vault_details d)))) (\<lambda>vault.
          and_then (map_err RequestAccountError (aw_partial_storage_new W (sdt_header (acd_storage_details d)) maps)) (\<lambda>storage.
          and_then (map_err RequestAccountError
              (aw_partial_account_new W (hd_id (acd_header d)) (hd_nonce (acd_header d)) (acd_code d) storage vault)) (\<lambda>account.
          Inr \<lparr>ain_account = account, ain_code = acd_code d, ain_witness = apf_account_witness proof\<rparr>)))))"

section \<open>The latest update of a key\<close>

text \<open>
  Reference definition: among the updates of a key, those of the highest block, and of these the
  last one reported.
\<close>

definition latest_update :: "('u \<Rightarrow> 'k) \<Rightarrow> ('u \<Rightarrow> block_number) \<Rightarrow> 'u list \<Rightarrow> 'k \<Rightarrow> 'u option" where
  "latest_update key block updates k =
     (let us = filter (\<lambda>u. key u = k) updates; tip = Max (block ` set us)
      in if us = [] then None else Some (last (filter (\<lambda>u. block u = tip) us)))"

lemma last_filter: "xs \<noteq> [] \<Longrightarrow> P (last xs) \<Longrightarrow> last (filter P xs) = last xs"
  by (induction xs rule: rev_induct) simp_all

lemma last_sort_key:
  assumes "xs \<noteq> []"
  shows "last (sort_key f xs) = last (filter (\<lambda>x. f x = Max (f ` set xs)) xs)"
proof -
  let ?s = "sort_key f xs"
  have ne: "?s \<noteq> []" using assms by (metis set_empty set_sort)
  have max: "f (last ?s) = Max (f ` set xs)"
  proof (rule Max_eqI [symmetric])
    show "f (last ?s) \<in> f ` set xs" using last_in_set [OF ne] by simp
    fix y assume "y \<in> f ` set xs"
    then obtain i where i: "i < length ?s" "y = f (?s ! i)" by (metis imageE in_set_conv_nth set_sort)
    have "map f ?s ! i \<le> map f ?s ! (length ?s - 1)" by (rule sorted_nth_mono) (use i ne in auto)
    then show "y \<le> f (last ?s)" using i ne by (simp add: last_conv_nth del: length_sort)
  qed simp
  have "last ?s = last (filter (\<lambda>x. f x = Max (f ` set xs)) ?s)" using last_filter [OF ne] max by metis
  then show ?thesis by (simp only: sort_key_stable)
qed

lemma map_of_rev_last:
  "map_of (rev (map (\<lambda>u. (key u, val u)) us)) k =
    (let ks = filter (\<lambda>u. key u = k) us in if ks = [] then None else Some (val (last ks)))"
  by (induction us rule: rev_induct) (auto simp: Let_def)

lemma latest_by_key:
  "bt_get (bt_from_iter (map (\<lambda>u. (key u, val u)) (sort_key block updates))) k =
    map_option val (latest_update key block updates k)"
  by (simp add: bt_get_from_iter map_of_rev_last filter_sort latest_update_def Let_def last_sort_key)
    (metis set_empty set_sort)

lemma latest_map_entries_get:
  "bt_get (latest_map_entries n updates) k =
    map_option su_value (latest_update su_key su_block_num (filter (\<lambda>u. su_slot_name u = n) updates) k)"
  by (simp only: latest_map_entries_def latest_by_key)

lemma latest_assets_mem:
  "a \<in> set (latest_assets updates) \<longleftrightarrow>
    (\<exists>k u. latest_update vu_vault_key vu_block_num updates k = Some u \<and> vu_asset u = Some a)"
proof -
  let ?m = "bt_from_iter (map (\<lambda>u. (vu_vault_key u, vu_asset u)) (sort_key vu_block_num updates))"
  have "a \<in> set (latest_assets updates) \<longleftrightarrow> (\<exists>k. (k, Some a) \<in> set ?m)"
    by (force simp: latest_assets_def map_filter_def)
  also have "\<dots> \<longleftrightarrow> (\<exists>k. bt_get ?m k = Some (Some a))"
    by (simp only: bt_get_iff_mem [OF bt_wf_from_iter])
  finally have "a \<in> set (latest_assets updates) \<longleftrightarrow> (\<exists>k. bt_get ?m k = Some (Some a))" .
  then show ?thesis by (auto simp: latest_by_key)
qed

section \<open>Round trip of tree proofs\<close>

fun leaf_words :: "smt_leaf \<Rightarrow> digest list" where
  "leaf_words (EmptyLeaf i) = []"
| "leaf_words (SingleLeaf e) = [fst e, snd e]"
| "leaf_words (MultipleLeaf es) = concat (map (\<lambda>e. [fst e, snd e]) es)"

lemma leaf_entry_roundtrip:
  "word_ok (aw_wire W) (fst e) \<Longrightarrow> word_ok (aw_wire W) (snd e) \<Longrightarrow> leaf_entry_try_from W (leaf_entry_from W e) = Inr e"
  by (cases e) (simp add: leaf_entry_from_def leaf_entry_try_from_def)

text \<open>A proof the constructors of the crates accept survives the message and back.\<close>

lemma smt_proof_roundtrip:
  assumes "\<forall>w \<in> set (leaf_words (sp_leaf p)) \<union> set (sx_siblings (sp_path p)). word_ok (aw_wire W) w"
    and "\<And>i. sp_leaf p = EmptyLeaf i \<Longrightarrow> aw_leaf_index_new W i = Inr i"
    and "aw_sparse_from_parts W (sx_empty_nodes_mask (sp_path p)) (sx_siblings (sp_path p)) = Inr (sp_path p)"
    and "aw_smt_proof_new W (sp_path p) (sp_leaf p) = Inr p"
  shows "smt_proof_try_from W (smt_proof_from W p) = Inr p"
proof -
  have "try_map (leaf_entry_try_from W) (map (leaf_entry_from W) es) = Inr es" if "sp_leaf p = MultipleLeaf es" for es
    unfolding try_map_Inr_conv list_all2_map1 list_all2_same
    by (intro ballI leaf_entry_roundtrip) (use assms(1) that in auto)
  then have "smt_leaf_try_from W (smt_leaf_from W (sp_leaf p)) = Inr (sp_leaf p)"
    using assms(1,2) by (cases "sp_leaf p") (auto simp: leaf_entry_roundtrip)
  moreover have "try_map (aw_word W) (map (digest_from_word (aw_wire W)) (sx_siblings (sp_path p))) = Inr (sx_siblings (sp_path p))"
    using assms(1) by (auto simp: try_map_Inr_conv list_all2_map1 list_all2_same)
  ultimately show ?thesis
    using assms(3,4) by (simp add: smt_proof_try_from_def smt_proof_from_def sparse_path_try_from_def sparse_path_from_def)
qed

section \<open>Accepted answers\<close>

text \<open>
  A whole account is asked for twice, once for the names of its maps: the block number returned is that
  of the first answer and the proof that of the second, whatever block the second is for.
\<close>

lemma full_proof_mixes_answers:
  assumes "aw_has_public_state (ae_wire E) a" "ask_account E (full_account_request (ae_wire E) a []) w = (Inr first, w1)"
    and "ar_block_num first = Some n" "ar_details first = Some v" "into_domain (ae_wire E) [] [] v = Inr d"
    and "ask_account E (full_account_request (ae_wire E) a
      (map fst (filter (\<lambda>(_, ty, _). ty = MapType) (sdt_header (acd_storage_details d))))) w1 = (Inr second, w2)"
    and "account_response_try_into (ae_wire E) second = Inr p"
  shows "fetch_full_account_proof E a w = (Inr (n, p), w2)"
  using assms by (simp add: fetch_full_account_proof_def rpc_bind.simps Let_def)

lemma check_map_proofs_ok:
  assumes "check_map_proofs W reqs m = Inr u" "smd_entries m = EntriesWithProofs ps"
  shows "list_all2 (\<lambda>p k. aw_proof_get W p (aw_key_hash W k) \<noteq> None) ps (keys_for_slot reqs (smd_slot_name m))"
proof -
  let ?keys = "keys_for_slot reqs (smd_slot_name m)"
  have len: "length ps = length ?keys" and "\<exists>us. try_map (check_key_proof W) (zip ps ?keys) = Inr us"
    using assms by (auto simp: check_map_proofs_def Let_def and_then_Inr_conv split: if_splits)
  then have "\<forall>q \<in> set (zip ps ?keys). \<exists>u. check_key_proof W q = Inr u"
    by (auto simp: try_map_Inr_conv list_all2_conv_all_nth in_set_conv_nth)
  then show ?thesis
    using len by (fastforce simp: list_all2_iff check_key_proof_def split: if_splits)
qed

lemma into_domain_checked:
  assumes "into_domain W known reqs v = Inr d" "m \<in> set (sdt_map_details (acd_storage_details d))"
  shows "\<exists>u. check_map_proofs W reqs m = Inr u"
proof -
  obtain us where "try_map (check_map_proofs W reqs) (sdt_map_details (acd_storage_details d)) = Inr us"
    using assms(1) by (auto simp: into_domain_def and_then_Inr_conv)
  then show ?thesis using assms(2)
    by (fastforce simp: try_map_Inr_conv list_all2_conv_all_nth in_set_conv_nth)
qed

lemma account_proof_new_checked:
  assumes "account_proof_new W witness details = Inr proof"
  shows "apf_account_witness proof = witness" "apf_state_headers proof = details"
    and "details = Some d \<Longrightarrow> aw_commitment W (acd_header d) = wt_state_commitment witness
      \<and> hd_id (acd_header d) = wt_id witness \<and> acd_code d = hd_code_commitment (acd_header d)"
  using assms by (auto simp: account_proof_new_def Let_def split: option.splits if_splits)

section \<open>Assembled accounts\<close>

definition slot_built ::
  "account_wire \<Rightarrow> storage_details \<Rightarrow> storage_map_info option \<Rightarrow> string \<times> slot_type \<times> digest \<Rightarrow> slot_name \<times> storage_slot \<Rightarrow> bool" where
  "slot_built W D info = (\<lambda>(n, ty, v) (s, slot). s = aw_slot_id W n
     \<and> (if ty = ValueType then slot = ValueSlot v
        else \<exists>m detail entries. slot = MapSlot m \<and> find_map_details D n = Some detail \<and> aw_map_with_entries W entries = Inr m
          \<and> (if smd_too_many_entries detail
             then \<exists>i. info = Some i \<and> (\<forall>k. map_of entries k = map_option su_value
               (latest_update su_key su_block_num (filter (\<lambda>u. su_slot_name u = n) (smi_updates i)) k))
             else smd_entries detail = AllEntries entries)))"

lemma slot_built_cached: "slot_built W D None h x \<Longrightarrow> slot_built W D info h x"
  by (auto simp: slot_built_def split: prod.splits if_splits)

text \<open>One slot: what is built before stays right, and the fetched updates stay those used so far.\<close>

lemma build_slot_step:
  assumes "build_slot E a D (slots, cache) h w = (Inr (slots', cache'), w')"
  shows "\<exists>x. slots' = slots @ [x] \<and> slot_built (ae_wire E) D cache' h x \<and> (cache \<noteq> None \<longrightarrow> cache' = cache)"
proof -
  obtain n ty v where h: "h = (n, ty, v)" by (cases h)
  have map_get: "map_of (latest_map_entries n us) = (\<lambda>k. map_option su_value
      (latest_update su_key su_block_num (filter (\<lambda>u. su_slot_name u = n) us) k))" for us
    using latest_map_entries_get by (intro ext) simp
  show ?thesis
  proof (cases ty)
    case ValueType
    then show ?thesis using assms h by (auto simp: build_slot_def slot_built_def)
  next
    case MapType
    then obtain detail where detail: "find_map_details D n = Some detail"
      using assms h by (cases "find_map_details D n") (auto simp: build_slot_def rpc_bind_Inr Let_def)
    show ?thesis
    proof (cases "smd_too_many_entries detail")
      case True
      obtain info w1 m where "fetch_map_info E a cache w = (Inr info, w1)"
          "aw_map_with_entries (ae_wire E) (latest_map_entries n (smi_updates info)) = Inr m"
          "slots' = slots @ [(aw_slot_id (ae_wire E) n, MapSlot m)]" "cache' = Some info"
        using assms True MapType detail h
        by (auto simp: build_slot_def rpc_bind_Inr Let_def invalid_map_def map_err_Inr_conv)
      moreover have "cache = Some i \<Longrightarrow> info = i" for i
        using calculation(1) by (simp add: fetch_map_info_def)
      ultimately show ?thesis
        using True MapType detail h map_get by (auto simp: slot_built_def)
    next
      case False
      then obtain m entries where "smd_entries detail = AllEntries entries" "aw_map_with_entries (ae_wire E) entries = Inr m"
          "slots' = slots @ [(aw_slot_id (ae_wire E) n, MapSlot m)]" "cache' = cache"
        using assms MapType detail h
        by (cases "smd_entries detail") (auto simp: build_slot_def rpc_bind_Inr Let_def invalid_map_def map_err_Inr_conv)
      then show ?thesis using False MapType detail h by (auto simp: slot_built_def)
    qed
  qed
qed

lemma build_slots_fold:
  assumes "rpc_fold (build_slot E a D) (slots, cache) hs w = (Inr (slots', cache'), w')"
  shows "\<exists>xs. slots' = slots @ xs \<and> list_all2 (slot_built (ae_wire E) D cache') hs xs \<and> (cache \<noteq> None \<longrightarrow> cache' = cache)"
  using assms
proof (induction hs arbitrary: slots cache w)
  case (Cons h hs)
  then obtain s1 c1 w1 where step: "build_slot E a D (slots, cache) h w = (Inr (s1, c1), w1)"
      and rest: "rpc_fold (build_slot E a D) (s1, c1) hs w1 = (Inr (slots', cache'), w')"
    by (auto split: prod.splits sum.splits)
  obtain x where x: "s1 = slots @ [x]" "slot_built (ae_wire E) D c1 h x" "cache \<noteq> None \<longrightarrow> c1 = cache"
    using build_slot_step [OF step] by blast
  obtain xs where xs: "slots' = s1 @ xs" "list_all2 (slot_built (ae_wire E) D cache') hs xs" "c1 \<noteq> None \<longrightarrow> cache' = c1"
    using Cons.IH [OF rest] by blast
  have "slot_built (ae_wire E) D cache' h x" using x(2) xs(3) slot_built_cached by (cases c1) auto
  then show ?case using x xs by (intro exI [of _ "x # xs"]) auto
qed auto

section \<open>Sample operations\<close>

text \<open>
  A node that answers every request for an account with the state of an account of two slots, a map
  with one requested key and a value, and every request for map updates with one page.
\<close>

definition sample_account_wire :: account_wire where
  "sample_account_wire =
     \<lparr>aw_wire = sample_wire, aw_leaf_index_new = Inr,
      aw_sparse_from_parts = (\<lambda>m xs. Inr \<lparr>sx_empty_nodes_mask = m, sx_siblings = xs\<rparr>),
      aw_smt_proof_new = (\<lambda>p l. Inr \<lparr>sp_path = p, sp_leaf = l\<rparr>),
      aw_proof_get = (\<lambda>p k. case sp_leaf p of SingleLeaf (k', v) \<Rightarrow> if k = k' then Some v else None | _ \<Rightarrow> None),
      aw_key_hash = (\<lambda>k. k), aw_key_to_hex = (\<lambda>_. ''0x''), aw_show_nat = (\<lambda>_. ''n''),
      aw_slot_type = (\<lambda>t. if t = 0 then Inr ValueType else if t = 1 then Inr MapType else Inl ''type''),
      aw_slot_id = (\<lambda>n. SlotName (length n)), aw_storage_header_new = Inr, aw_code_read = (\<lambda>bs. Inr (Digest (length bs))),
      aw_commitment = (\<lambda>h. Digest (unat (hd_nonce h))),
      aw_witness_new = (\<lambda>i c p. Inr \<lparr>wt_id = i, wt_state_commitment = c, wt_path = p\<rparr>),
      aw_has_public_state = (\<lambda>_. True), aw_is_private = (\<lambda>_. False), aw_empty_word = Digest 0,
      aw_vault_new = (\<lambda>as. Inr \<lparr>av_root = Digest (length as), av_assets = []\<rparr>),
      aw_map_with_entries = (\<lambda>es. Inr \<lparr>sm_root = Digest 0, sm_entries = es\<rparr>), aw_storage_new = Inr,
      aw_account_new = (\<lambda>i v st code nonce seed.
        Inr \<lparr>as_id = i, as_vault = v, as_storage = st, as_code = code, as_nonce = nonce, as_seed = seed\<rparr>),
      aw_partial_map_full = (\<lambda>_. PartialStorageMap 0), aw_map_witness_new = (\<lambda>_ _. Inr (StorageMapWitness 0)),
      aw_partial_map_witnesses = (\<lambda>_. Inr (PartialStorageMap 0)), aw_partial_storage_new = (\<lambda>_ _. Inr (PartialStorage 0)),
      aw_partial_account_new = (\<lambda>i _ code _ _. Inr \<lparr>pa_id = i, pa_commitment = code\<rparr>)\<rparr>"

definition sample_account_response :: proto_account_response where
  "sample_account_response =
     \<lparr>ar_block_num = Some 3,
      ar_witness = Some \<lparr>py_witness_id = Some [0, 0], py_commitment = Some (sample_digest_msg 4),
        py_path = Some \<lparr>px_empty_nodes_mask = 0, px_siblings = []\<rparr>\<rparr>,
      ar_details = Some
        \<lparr>pz_header = Some \<lparr>ph_account_id = Some [0, 0], ph_nonce = 4, ph_vault_root = Some (sample_digest_msg 0),
           ph_storage_commitment = Some (sample_digest_msg 0), ph_code_commitment = Some (sample_digest_msg 1)\<rparr>,
         pz_storage_details = Some
           \<lparr>pk_header = Some [\<lparr>pl_slot_name = ''s'', pl_slot_type = 1, pl_commitment = Some (sample_digest_msg 0)\<rparr>],
            pk_map_details = [\<lparr>pj_slot_name = ''s'', pj_too_many_entries = False,
              pj_entries = Some (ProtoEntriesWithProofs
                [Some \<lparr>po_leaf = Some (Some (ProtoSingle \<lparr>pe_key = Some (sample_digest_msg 1), pe_value = Some (sample_digest_msg 2)\<rparr>)),
                       po_path = Some \<lparr>px_empty_nodes_mask = 0, px_siblings = []\<rparr>\<rparr>])\<rparr>]\<rparr>,
         pz_code = Some [0], pz_vault_details = Some \<lparr>pu_too_many_assets = False, pu_assets = []\<rparr>\<rparr>\<rparr>"

definition sample_account_env :: "'n account_env" where
  "sample_account_env =
     \<lparr>ae_rpc = (sample_env True)\<lparr>re_sync_storage_maps := (\<lambda>_ _ _ n. (Inr ([sample_map_msg], Some \<lparr>pg_chain_tip = 0, pg_block_num = 0\<rparr>), n))\<rparr>,
      ae_wire = sample_account_wire, ae_get_account = (\<lambda>_ _ n. (Inr sample_account_response, n))\<rparr>"

lemma sample_account_env_sel [simp]:
  "ae_wire sample_account_env = sample_account_wire" "re_wire (ae_rpc sample_account_env) = sample_wire"
  by (simp_all add: sample_account_env_def sample_env_def)

lemma sample_wire_sel:
  "wo_slot_name_new sample_wire = Inr" "wo_account_id_read sample_wire = (\<lambda>bs. Inr (AccountId (length bs)))"
  by (simp_all add: sample_wire_def)

lemmas account_conversion_defs =
  account_witness_try_from_def sparse_path_try_from_def into_domain_def account_header_try_into_def storage_details_try_from_def
  storage_header_try_into_def slot_header_try_from_def map_details_try_from_def map_proof_try_from_def smt_proof_try_from_def
  leaf_entry_try_from_def check_map_proofs_def check_key_proof_def keys_for_slot_def vault_details_try_from_def
  account_proof_new_def account_id_try_from_def

lemma sample_proof_accepted:
  "\<exists>proof. accept_account_proof sample_account_wire [] [(''s'', [Digest 1])] sample_account_response = Inr (3, proof)
    \<and> wt_id (apf_account_witness proof) = AccountId 2"
  by (simp add: accept_account_proof_def sample_account_response_def account_conversion_defs sample_account_wire_def
      sample_words sample_wire_sel)

lemma sample_account_asked: "\<exists>w'. ask_account sample_account_env request w = (Inr sample_account_response, w')"
  unfolding ask_account_def by (rule call_with_retry_ok) (simp_all add: sample_account_env_def sample_env_def)

definition sample_large_storage :: storage_details where
  "sample_large_storage =
     \<lparr>sdt_header = [(''s'', MapType, Digest 0), (''vs'', ValueType, Digest 7)],
      sdt_map_details = [\<lparr>smd_slot_name = ''s'', smd_too_many_entries = True, smd_entries = AllEntries []\<rparr>]\<rparr>"

lemma sample_maps_synced:
  "\<exists>info w'. sync_storage_maps (ae_rpc sample_account_env) 0 None a w = (Inr info, w') \<and> smi_updates info = [sample_map_update]"
proof -
  let ?E = "ae_rpc sample_account_env"
  have "\<exists>w'. call_with_retry ?E SyncStorageMapsEndpoint (re_sync_storage_maps ?E (0, None) (account_id_from sample_wire a)) w
      = (Inr ([sample_map_msg], Some \<lparr>pg_chain_tip = 0, pg_block_num = 0\<rparr>), w')"
    by (rule call_with_retry_ok) (simp_all add: sample_account_env_def sample_env_def)
  moreover have "storage_map_update_try_from sample_wire sample_map_msg = Inr sample_map_update"
    by (simp add: storage_map_update_try_from_def sample_map_msg_def sample_map_update_def sample_words)
      (simp add: sample_wire_def)
  ultimately obtain w' where "storage_map_page ?E a (0, None) w = (Inr ([sample_map_update], \<lparr>pg_chain_tip = 0, pg_block_num = 0\<rparr>), w')"
    by (auto simp: storage_map_page_def rpc_bind.simps)
  then show ?thesis
    by (simp add: sync_storage_maps_def rpc_bind.simps page_loop.simps pagination_new_def advance_def target_block_def max_iterations_def)
qed

section \<open>Properties\<close>





end
