(* ===== verification/Sqlite_Account_Writes.thy ===== *)
theory Sqlite_Account_Writes
  imports Sqlite_Accounts
begin

text \<open>
  How the operations of \<open>Sqlite_Accounts\<close> write the account tables. The three pairs of current and
  archive tables are versioned tables, so that restoring a nonce undoes a write; every delta and
  every whole state is one archived write of each pair at the nonce of the new state, together with
  an archived header. The theory also gives the invariant of the tables.
\<close>



section \<open>Values and the archive\<close>

text \<open>The three pairs of tables of an account, seen as versioned tables over account and entry.\<close>

abbreviation slot_latest :: "account_tables \<Rightarrow> account_id \<times> slot_name \<Rightarrow> (digest \<times> u8) option" where
  "slot_latest T k \<equiv> bt_get (at_latest_storage T) k"

abbreviation slot_hist :: "account_tables \<Rightarrow> u64 \<Rightarrow> account_id \<times> slot_name \<Rightarrow> (digest option \<times> u8) option" where
  "slot_hist T n k \<equiv> bt_get (at_hist_storage T) (fst k, n, snd k)"

definition slot_old :: "digest option \<times> u8 \<Rightarrow> (digest \<times> u8) option" where
  "slot_old = (\<lambda>(v, ty). map_option (\<lambda>d. (d, ty)) v)"

abbreviation entry_latest :: "account_tables \<Rightarrow> account_id \<times> slot_name \<times> digest \<Rightarrow> digest option" where
  "entry_latest T k \<equiv> bt_get (at_latest_maps T) k"

abbreviation entry_hist :: "account_tables \<Rightarrow> u64 \<Rightarrow> account_id \<times> slot_name \<times> digest \<Rightarrow> digest option option" where
  "entry_hist T n k \<equiv> bt_get (at_hist_maps T) (fst k, n, snd k)"

abbreviation asset_latest :: "account_tables \<Rightarrow> account_id \<times> digest \<Rightarrow> digest option" where
  "asset_latest T k \<equiv> bt_get (at_latest_assets T) k"

abbreviation asset_hist :: "account_tables \<Rightarrow> u64 \<Rightarrow> account_id \<times> digest \<Rightarrow> digest option option" where
  "asset_hist T n k \<equiv> bt_get (at_hist_assets T) (fst k, n, snd k)"

abbreviation rows_of :: "account_id \<Rightarrow> (account_id \<times> 'k) set" where
  "rows_of a \<equiv> {k. fst k = a}"

definition tables_wf :: "account_tables \<Rightarrow> bool" where
  "tables_wf T \<longleftrightarrow>
     bt_wf (at_latest_headers T) \<and> bt_wf (at_hist_headers T) \<and> bt_wf (at_latest_storage T) \<and> bt_wf (at_hist_storage T)
     \<and> bt_wf (at_latest_maps T) \<and> bt_wf (at_hist_maps T) \<and> bt_wf (at_latest_assets T) \<and> bt_wf (at_hist_assets T)"

text \<open>Restoring rows of one version, table by table.\<close>

definition restored_rows ::
  "account_id \<Rightarrow> ('h \<Rightarrow> 'v option) \<Rightarrow> ((account_id \<times> u64 \<times> 'k) \<times> 'h) list \<Rightarrow>
   (account_id \<times> 'k::linorder, 'v) btree_map \<Rightarrow> (account_id \<times> 'k, 'v) btree_map" where
  "restored_rows a old rows L =
     filter (\<lambda>((a', s), _). \<not> (a' = a \<and> s \<in> (\<lambda>((_, _, s), _). s) ` set (filter (\<lambda>(_, h). old h = None) rows)))
       (fold (\<lambda>((_, _, s), h) L. case old h of Some v \<Rightarrow> bt_insert (a, s) v L | None \<Rightarrow> L) rows L)"

lemma fold_restored_get:
  assumes "distinct (map fst rows)" "\<forall>x \<in> set rows. fst (fst x) = a \<and> fst (snd (fst x)) = n"
  shows "bt_get (fold (\<lambda>((_, _, s), h) L. case old h of Some v \<Rightarrow> bt_insert (a, s) v L | None \<Rightarrow> L) rows L) (b, s) =
    (if b = a then case bt_get rows (a, n, s) of
        Some h \<Rightarrow> (case old h of Some v \<Rightarrow> Some v | None \<Rightarrow> bt_get L (b, s)) | None \<Rightarrow> bt_get L (b, s)
     else bt_get L (b, s))"
  using assms
proof (induction rows arbitrary: L)
  case (Cons x rows)
  obtain s' h where x: "x = ((a, n, s'), h)" using Cons.prems(2) by (cases x) auto
  have absent: "bt_get rows (a, n, s') = None"
    using Cons.prems(1) by (simp add: x map_of_eq_None_iff)
  show ?case using Cons.prems absent by (auto simp: Cons.IH x split: option.splits)
qed simp

lemma fold_restored_wf:
  "bt_wf L \<Longrightarrow> bt_wf (fold (\<lambda>((_, _, s), h) L. case old h of Some v \<Rightarrow> bt_insert (a, s) v L | None \<Rightarrow> L) rows L)"
  by (induction rows arbitrary: L) (auto split: option.splits)

lemma restored_rows_wf: "bt_wf L \<Longrightarrow> bt_wf (restored_rows a old rows L)"
  by (simp add: restored_rows_def bt_wf_filter fold_restored_wf)

lemma restored_rows_get:
  assumes "bt_wf H"
  shows "bt_get (restored_rows a old (filter (\<lambda>((a', n', s), _). a' = a \<and> n' = n) H) L) k =
    (case bt_get H (fst k, n, snd k) of Some h \<Rightarrow> if fst k = a then old h else bt_get L k | None \<Rightarrow> bt_get L k)"
proof -
  define rows where "rows = filter (\<lambda>((a', n', s), _). a' = a \<and> n' = n) H"
  obtain b s where k: "k = (b, s)" by (cases k)
  have rows_get: "bt_get rows (a, n, s) = bt_get H (a, n, s)"
    unfolding rows_def by (subst get_filter_key' [where P = "\<lambda>(a', n', s). a' = a \<and> n' = n"]) auto
  have wf: "bt_wf rows" unfolding rows_def using assms by (rule bt_wf_filter)
  have in_rows: "\<forall>x \<in> set rows. fst (fst x) = a \<and> fst (snd (fst x)) = n" unfolding rows_def by auto
  have gone: "s \<in> (\<lambda>((_, _, s), _). s) ` set (filter (\<lambda>(_, h). old h = None) rows) \<longleftrightarrow>
      (\<exists>h. bt_get rows (a, n, s) = Some h \<and> old h = None)"
    using in_rows by (force simp: bt_get_iff_mem [OF wf])
  have "bt_get (restored_rows a old rows L) (b, s) =
      (if b = a \<and> (\<exists>h. bt_get rows (a, n, s) = Some h \<and> old h = None) then None
       else bt_get (fold (\<lambda>((_, _, s), h) L. case old h of Some v \<Rightarrow> bt_insert (a, s) v L | None \<Rightarrow> L) rows L) (b, s))"
    unfolding restored_rows_def
    by (subst get_filter_key' [where P = "\<lambda>(a', s). \<not> (a' = a \<and> s \<in> (\<lambda>((_, _, s), _). s) ` set (filter (\<lambda>(_, h). old h = None) rows))"])
      (simp_all only: gone case_prod_conv, auto)
  also have "\<dots> = (if b = a then case bt_get H (a, n, s) of Some h \<Rightarrow> old h | None \<Rightarrow> bt_get L (b, s) else bt_get L (b, s))"
    by (simp add: fold_restored_get [OF bt_wf_distinct [OF wf] in_rows] rows_get split: option.splits)
  finally show ?thesis by (simp add: k rows_def split: option.splits)
qed

lemma restore_old_values_eq:
  "restore_old_values_for_nonce a n T =
     T\<lparr>at_latest_storage := restored_rows a slot_old
          (filter (\<lambda>((a', n', _), _). a' = a \<and> n' = n) (at_hist_storage T)) (at_latest_storage T),
       at_latest_maps := restored_rows a (\<lambda>h. h)
          (filter (\<lambda>((a', n', _), _). a' = a \<and> n' = n) (at_hist_maps T)) (at_latest_maps T),
       at_latest_assets := restored_rows a (\<lambda>h. h)
          (filter (\<lambda>((a', n', _), _). a' = a \<and> n' = n) (at_hist_assets T)) (at_latest_assets T)\<rparr>"
proof -
  have slots: "fold (\<lambda>((_, _, s), (old, ty)) T. case old of Some v \<Rightarrow> put_slot a s v ty T | None \<Rightarrow> T) rows T =
      T\<lparr>at_latest_storage := fold (\<lambda>((_, _, s), h) L. case slot_old h of Some v \<Rightarrow> bt_insert (a, s) v L | None \<Rightarrow> L) rows
          (at_latest_storage T)\<rparr>" for rows :: "((account_id \<times> u64 \<times> slot_name) \<times> digest option \<times> u8) list" and T
    by (induction rows arbitrary: T) (auto simp: put_slot_def slot_old_def split: option.splits)
  have maps: "fold (\<lambda>((_, _, s, k), old) T. case old of Some v \<Rightarrow> put_map_entry a s (k, v) T | None \<Rightarrow> T) rows T =
      T\<lparr>at_latest_maps := fold (\<lambda>((_, _, s), h) L. case h of Some v \<Rightarrow> bt_insert (a, s) v L | None \<Rightarrow> L) rows
          (at_latest_maps T)\<rparr>" for rows :: "((account_id \<times> u64 \<times> slot_name \<times> digest) \<times> digest option) list" and T
    by (induction rows arbitrary: T) (auto simp: put_map_entry_def split: option.splits)
  have assets: "fold (\<lambda>((_, _, k), old) T. case old of Some v \<Rightarrow> put_asset a (k, v) T | None \<Rightarrow> T) rows T =
      T\<lparr>at_latest_assets := fold (\<lambda>((_, _, s), h) L. case h of Some v \<Rightarrow> bt_insert (a, s) v L | None \<Rightarrow> L) rows
          (at_latest_assets T)\<rparr>" for rows :: "((account_id \<times> u64 \<times> digest) \<times> digest option) list" and T
    by (induction rows arbitrary: T) (auto simp: put_asset_def split: option.splits)
  have 1: "restore_storage a n T = T\<lparr>at_latest_storage := restored_rows a slot_old
       (filter (\<lambda>((a', n', _), _). a' = a \<and> n' = n) (at_hist_storage T)) (at_latest_storage T)\<rparr>" for T
    unfolding restore_storage_def restored_rows_def Let_def slots
    by (simp add: slot_old_def case_prod_beta)
  have 2: "restore_maps a n T = T\<lparr>at_latest_maps := restored_rows a (\<lambda>h. h)
       (filter (\<lambda>((a', n', _), _). a' = a \<and> n' = n) (at_hist_maps T)) (at_latest_maps T)\<rparr>" for T
    unfolding restore_maps_def restored_rows_def Let_def maps
    by (auto intro!: filter_cong arg_cong [where f = "\<lambda>x. T\<lparr>at_latest_maps := x\<rparr>"] simp: image_iff)
  have 3: "restore_assets a n T = T\<lparr>at_latest_assets := restored_rows a (\<lambda>h. h)
       (filter (\<lambda>((a', n', _), _). a' = a \<and> n' = n) (at_hist_assets T)) (at_latest_assets T)\<rparr>" for T
    unfolding restore_assets_def restored_rows_def Let_def assets
    by (auto intro!: filter_cong arg_cong [where f = "\<lambda>x. T\<lparr>at_latest_assets := x\<rparr>"] simp: image_iff)
  show ?thesis unfolding restore_old_values_for_nonce_def 1 2 3 by simp
qed

lemma restore_keeps [simp]:
  "at_hist_storage (restore_old_values_for_nonce a n T) = at_hist_storage T"
  "at_hist_maps (restore_old_values_for_nonce a n T) = at_hist_maps T"
  "at_hist_assets (restore_old_values_for_nonce a n T) = at_hist_assets T"
  "at_hist_headers (restore_old_values_for_nonce a n T) = at_hist_headers T"
  "at_latest_headers (restore_old_values_for_nonce a n T) = at_latest_headers T"
  "at_codes (restore_old_values_for_nonce a n T) = at_codes T"
  "at_foreign_codes (restore_old_values_for_nonce a n T) = at_foreign_codes T"
  "at_addresses (restore_old_values_for_nonce a n T) = at_addresses T"
  by (simp_all add: restore_old_values_eq)

lemma restore_wf: "tables_wf T \<Longrightarrow> tables_wf (restore_old_values_for_nonce a n T)"
  by (simp add: restore_old_values_eq tables_wf_def restored_rows_wf)

interpretation slots: versioned_table tables_wf slot_latest slot_hist slot_old "rows_of a"
  "restore_old_values_for_nonce a" for a
  by unfold_locales
    (simp_all add: restore_wf, simp add: restore_old_values_eq tables_wf_def restored_rows_get split: option.splits)

interpretation entries: versioned_table tables_wf entry_latest entry_hist "\<lambda>h. h" "rows_of a"
  "restore_old_values_for_nonce a" for a
  by unfold_locales
    (simp_all add: restore_wf, simp add: restore_old_values_eq tables_wf_def restored_rows_get split: option.splits)

interpretation assets: versioned_table tables_wf asset_latest asset_hist "\<lambda>h. h" "rows_of a"
  "restore_old_values_for_nonce a" for a
  by unfold_locales
    (simp_all add: restore_wf, simp add: restore_old_values_eq tables_wf_def restored_rows_get split: option.splits)

section \<open>Deltas are archived writes\<close>

text \<open>Writes that leave a pair of tables alone.\<close>

definition same_slots :: "account_tables \<Rightarrow> account_tables \<Rightarrow> bool" where
  "same_slots T U \<longleftrightarrow> at_latest_storage U = at_latest_storage T \<and> at_hist_storage U = at_hist_storage T"

definition same_entries :: "account_tables \<Rightarrow> account_tables \<Rightarrow> bool" where
  "same_entries T U \<longleftrightarrow> at_latest_maps U = at_latest_maps T \<and> at_hist_maps U = at_hist_maps T"

definition same_assets :: "account_tables \<Rightarrow> account_tables \<Rightarrow> bool" where
  "same_assets T U \<longleftrightarrow> at_latest_assets U = at_latest_assets T \<and> at_hist_assets U = at_hist_assets T"

definition same_headers :: "account_tables \<Rightarrow> account_tables \<Rightarrow> bool" where
  "same_headers T U \<longleftrightarrow> at_latest_headers U = at_latest_headers T \<and> at_hist_headers U = at_hist_headers T
     \<and> at_codes U = at_codes T \<and> at_foreign_codes U = at_foreign_codes T \<and> at_addresses U = at_addresses T"

lemmas same_defs = same_slots_def same_entries_def same_assets_def same_headers_def

subsection \<open>Vault\<close>

lemma archive_asset_write: "archived_write asset_latest asset_hist (\<lambda>h. h) n {(a, k)} T (archive_asset a n k T)"
  by (auto simp: archived_write_def archive_asset_def fun_eq_iff prod_eq_iff)

lemma put_asset_write:
  "archived_write asset_latest asset_hist (\<lambda>h. h) n {(a, k)} T (put_asset a (k, v) (archive_asset a n k T))"
  by (rule archived_write_change [OF archive_asset_write]) (auto simp: put_asset_def)

lemma persist_vault_delta_write:
  assumes "distinct (removed @ map fst updated)"
  shows "archived_write asset_latest asset_hist (\<lambda>h. h) n (Pair a ` (set removed \<union> fst ` set updated)) T
    (persist_vault_delta a n removed updated T)"
proof -
  have assms': "distinct (map fst updated)" using assms by simp
  let ?T1 = "fold (archive_asset a n) removed T"
  let ?T2 = "?T1\<lparr>at_latest_assets :=
     filter (\<lambda>((a', k), v). \<not> (a' = a \<and> k \<in> set removed)) (at_latest_assets ?T1)\<rparr>"
  have "archived_write asset_latest asset_hist (\<lambda>h. h) n (\<Union> ((\<lambda>k. {(a, k)}) ` set removed)) T ?T1 \<and> True"
    by (rule archived_write_fold) (use assms in \<open>auto simp: archive_asset_write pairwise_def\<close>)
  then have "archived_write asset_latest asset_hist (\<lambda>h. h) n (Pair a ` set removed) T ?T1"
    by (simp add: UNION_singleton_eq_range)
  then have 1: "archived_write asset_latest asset_hist (\<lambda>h. h) n (Pair a ` set removed) T ?T2"
    by (rule archived_write_change)
      (simp_all, subst get_filter_key' [where P = "\<lambda>(a', k). \<not> (a' = a \<and> k \<in> set removed)"], auto)
  have "archived_write asset_latest asset_hist (\<lambda>h. h) n (\<Union> ((\<lambda>(k, v). {(a, k)}) ` set updated)) ?T2
      (fold (\<lambda>(k, v) T. put_asset a (k, v) (archive_asset a n k T)) updated ?T2) \<and> True"
    by (rule archived_write_fold)
      (use assms in \<open>auto simp: put_asset_write pairwise_def distinct_map dest: eq_key_imp_eq_value [OF assms']\<close>)
  moreover have "\<Union> ((\<lambda>(k, v). {(a, k)}) ` set updated) = Pair a ` fst ` set updated" by force
  ultimately have 2: "archived_write asset_latest asset_hist (\<lambda>h. h) n (Pair a ` fst ` set updated) ?T2
      (persist_vault_delta a n removed updated T)"
    by (simp add: persist_vault_delta_def Let_def)
  have "Pair a ` set removed \<inter> Pair a ` fst ` set updated = {}" using assms by auto
  from archived_write_join [OF 1 2 this] show ?thesis by (simp add: image_Un)
qed

lemma persist_vault_delta_keeps:
  "same_slots T (persist_vault_delta a n removed updated T)"
  "same_entries T (persist_vault_delta a n removed updated T)"
  "same_headers T (persist_vault_delta a n removed updated T)"
  "tables_wf T \<Longrightarrow> tables_wf (persist_vault_delta a n removed updated T)"
proof -
  let ?T1 = "fold (archive_asset a n) removed T"
  have 1: "same_slots T ?T1" "same_entries T ?T1" "same_headers T ?T1" "tables_wf T \<Longrightarrow> tables_wf ?T1"
    by (rule fold_keeps; simp add: same_defs archive_asset_def tables_wf_def)+
  let ?T2 = "?T1\<lparr>at_latest_assets :=
     filter (\<lambda>((a', k), v). \<not> (a' = a \<and> k \<in> set removed)) (at_latest_assets ?T1)\<rparr>"
  have 2: "same_slots T ?T2" "same_entries T ?T2" "same_headers T ?T2" "tables_wf T \<Longrightarrow> tables_wf ?T2"
    using 1 by (simp_all add: same_defs tables_wf_def bt_wf_filter)
  let ?f = "\<lambda>(k, v) T. put_asset a (k, v) (archive_asset a n k T)"
  have "same_slots T (fold ?f updated ?T2)" "same_entries T (fold ?f updated ?T2)"
    "same_headers T (fold ?f updated ?T2)" "tables_wf T \<Longrightarrow> tables_wf (fold ?f updated ?T2)"
    using 2 by - (rule fold_keeps; auto simp: same_defs archive_asset_def put_asset_def tables_wf_def)+
  then show "same_slots T (persist_vault_delta a n removed updated T)"
    "same_entries T (persist_vault_delta a n removed updated T)"
    "same_headers T (persist_vault_delta a n removed updated T)"
    "tables_wf T \<Longrightarrow> tables_wf (persist_vault_delta a n removed updated T)"
    by (simp_all add: persist_vault_delta_def Let_def)
qed

subsection \<open>Storage\<close>

definition map_entry_step :: "'f smt_ops \<Rightarrow> account_id \<Rightarrow> u64 \<Rightarrow> slot_name \<Rightarrow> digest \<times> digest \<Rightarrow> account_tables \<Rightarrow> account_tables" where
  "map_entry_step S a n s = (\<lambda>(k, v) T.
     let T1 = T\<lparr>at_hist_maps := bt_insert (a, n, s, k) (bt_get (at_latest_maps T) (a, s, k)) (at_hist_maps T)\<rparr>
     in if v = smt_empty_word S then T1\<lparr>at_latest_maps := bt_remove (a, s, k) (at_latest_maps T1)\<rparr>
        else put_map_entry a s (k, v) T1)"

lemma write_map_entry_delta_eq: "write_map_entry_delta S a n s es T = fold (map_entry_step S a n s) es T"
  by (simp add: write_map_entry_delta_def map_entry_step_def)

lemma map_entry_step_write:
  "archived_write entry_latest entry_hist (\<lambda>h. h) n {(a, s, fst e)} T (map_entry_step S a n s e T)"
proof -
  obtain k v where e: "e = (k, v)" by (cases e)
  show ?thesis
    unfolding e by (auto simp: archived_write_def map_entry_step_def put_map_entry_def Let_def fun_eq_iff prod_eq_iff)
qed

lemma write_map_entry_delta_write:
  assumes "distinct (map fst es)"
  shows "archived_write entry_latest entry_hist (\<lambda>h. h) n ((\<lambda>e. (a, s, fst e)) ` set es) T (write_map_entry_delta S a n s es T)"
proof -
  have "archived_write entry_latest entry_hist (\<lambda>h. h) n (\<Union> ((\<lambda>e. {(a, s, fst e)}) ` set es)) T
      (fold (map_entry_step S a n s) es T) \<and> True"
    by (rule archived_write_fold)
      (use assms in \<open>auto simp: map_entry_step_write pairwise_def distinct_map inj_on_def\<close>)
  moreover have "\<Union> ((\<lambda>e. {(a, s, fst e)}) ` set es) = (\<lambda>e. (a, s, fst e)) ` set es" by auto
  ultimately show ?thesis by (simp add: write_map_entry_delta_eq)
qed

lemma write_map_entry_delta_keeps:
  "same_slots T (write_map_entry_delta S a n s es T)"
  "same_assets T (write_map_entry_delta S a n s es T)"
  "same_headers T (write_map_entry_delta S a n s es T)"
  "tables_wf T \<Longrightarrow> tables_wf (write_map_entry_delta S a n s es T)"
  unfolding write_map_entry_delta_eq
  by (rule fold_keeps; auto simp: same_defs tables_wf_def map_entry_step_def put_map_entry_def Let_def)+

definition slot_step ::
  "'f smt_ops \<Rightarrow> account_id \<Rightarrow> u64 \<Rightarrow> (slot_name, (digest \<times> digest) list) btree_map \<Rightarrow>
   slot_name \<times> digest \<times> slot_type \<Rightarrow> account_tables \<Rightarrow> account_tables" where
  "slot_step S a n delta_map_entries = (\<lambda>(s, (v, ty)) T.
     let old_slot_value = map_option fst (bt_get (at_latest_storage T) (a, s));
         T1 = T\<lparr>at_hist_storage := bt_insert (a, n, s) (old_slot_value, slot_type_u8 ty) (at_hist_storage T)\<rparr>;
         T2 = put_slot a s v (slot_type_u8 ty) T1
     in case bt_get delta_map_entries s of
          Some changed_entries \<Rightarrow> write_map_entry_delta S a n s changed_entries T2
        | None \<Rightarrow> T2)"

lemma write_storage_delta_eq:
  "write_storage_delta S a n slots delta T = fold (slot_step S a n (bt_from_iter (dl_maps delta))) slots T"
  by (simp add: write_storage_delta_def slot_step_def Let_def)

definition types_fit :: "account_id \<Rightarrow> (slot_name \<times> digest \<times> slot_type) list \<Rightarrow> account_tables \<Rightarrow> bool" where
  "types_fit a slots T \<longleftrightarrow>
     (\<forall>s v ty old. (s, (v, ty)) \<in> set slots \<longrightarrow> bt_get (at_latest_storage T) (a, s) = Some old \<longrightarrow>
        snd old = slot_type_u8 ty)"

lemma slot_step_storage:
  "at_latest_storage (slot_step S a n E (s, (v, ty)) T) = bt_insert (a, s) (v, slot_type_u8 ty) (at_latest_storage T)"
  "at_hist_storage (slot_step S a n E (s, (v, ty)) T) =
     bt_insert (a, n, s) (map_option fst (bt_get (at_latest_storage T) (a, s)), slot_type_u8 ty) (at_hist_storage T)"
  using write_map_entry_delta_keeps(1) [of "put_slot a s v (slot_type_u8 ty)
      (T\<lparr>at_hist_storage := bt_insert (a, n, s) (map_option fst (bt_get (at_latest_storage T) (a, s)), slot_type_u8 ty)
        (at_hist_storage T)\<rparr>)" S a n s]
  by (auto simp: slot_step_def Let_def same_slots_def put_slot_def split: option.splits)

lemma slot_step_write:
  assumes "types_fit a [x] T"
  shows "archived_write slot_latest slot_hist slot_old n {(a, fst x)} T (slot_step S a n E x T)"
proof -
  obtain s v ty where x: "x = (s, (v, ty))" by (cases x)
  have "slot_old (map_option fst (slot_latest T (a, s)), slot_type_u8 ty) = slot_latest T (a, s)"
    using assms by (cases "slot_latest T (a, s)") (auto simp: slot_old_def types_fit_def x)
  then show ?thesis
    by (auto simp: archived_write_def x slot_step_storage fun_eq_iff prod_eq_iff)
qed

lemma slot_step_entries:
  assumes "\<And>es. bt_get E (fst x) = Some es \<Longrightarrow> distinct (map fst es)"
  shows "archived_write entry_latest entry_hist (\<lambda>h. h) n
    {(a, fst x, k) | k es. bt_get E (fst x) = Some es \<and> k \<in> fst ` set es} T (slot_step S a n E x T)"
proof -
  obtain s v ty where x: "x = (s, (v, ty))" by (cases x)
  let ?T2 = "put_slot a s v (slot_type_u8 ty)
      (T\<lparr>at_hist_storage := bt_insert (a, n, s) (map_option fst (bt_get (at_latest_storage T) (a, s)), slot_type_u8 ty)
        (at_hist_storage T)\<rparr>)"
  have same: "at_latest_maps ?T2 = at_latest_maps T" "at_hist_maps ?T2 = at_hist_maps T" by (simp_all add: put_slot_def)
  show ?thesis
  proof (cases "bt_get E s")
    case None
    then show ?thesis using same by (simp add: x slot_step_def Let_def archived_write_def)
  next
    case (Some es)
    have "archived_write entry_latest entry_hist (\<lambda>h. h) n ((\<lambda>e. (a, s, fst e)) ` set es) ?T2
        (write_map_entry_delta S a n s es ?T2)"
      by (rule write_map_entry_delta_write) (use assms Some in \<open>simp add: x\<close>)
    then have "archived_write entry_latest entry_hist (\<lambda>h. h) n ((\<lambda>e. (a, s, fst e)) ` set es) T
        (write_map_entry_delta S a n s es ?T2)"
      by (simp add: archived_write_def same)
    moreover have "{(a, fst x, k) | k es. bt_get E (fst x) = Some es \<and> k \<in> fst ` set es} = (\<lambda>e. (a, s, fst e)) ` set es"
      using Some by (auto simp: x)
    ultimately show ?thesis using Some by (simp add: x slot_step_def Let_def)
  qed
qed

lemma slot_step_keeps:
  "same_assets T (slot_step S a n E x T)" "same_headers T (slot_step S a n E x T)"
  "tables_wf T \<Longrightarrow> tables_wf (slot_step S a n E x T)"
proof -
  obtain s v ty where x: "x = (s, (v, ty))" by (cases x)
  let ?T2 = "put_slot a s v (slot_type_u8 ty)
      (T\<lparr>at_hist_storage := bt_insert (a, n, s) (map_option fst (bt_get (at_latest_storage T) (a, s)), slot_type_u8 ty)
        (at_hist_storage T)\<rparr>)"
  have T2: "same_assets T ?T2" "same_headers T ?T2" "tables_wf T \<Longrightarrow> tables_wf ?T2"
    by (auto simp: same_defs tables_wf_def put_slot_def)
  note keeps = write_map_entry_delta_keeps [of ?T2 S a n s]
  show "same_assets T (slot_step S a n E x T)" "same_headers T (slot_step S a n E x T)"
    "tables_wf T \<Longrightarrow> tables_wf (slot_step S a n E x T)"
    using T2 keeps by (auto simp: x slot_step_def Let_def same_defs split: option.splits)
qed

lemma write_storage_delta_writes:
  assumes "distinct (map fst slots)" "types_fit a slots T"
    and "\<And>s es. (s, es) \<in> set (dl_maps delta) \<Longrightarrow> distinct (map fst es)"
  shows "\<exists>K \<subseteq> rows_of a. archived_write slot_latest slot_hist slot_old n K T (write_storage_delta S a n slots delta T)"
    and "\<exists>K \<subseteq> rows_of a. archived_write entry_latest entry_hist (\<lambda>h. h) n K T (write_storage_delta S a n slots delta T)"
proof -
  let ?E = "bt_from_iter (dl_maps delta)"
  have xs: "distinct slots" "\<And>x y. x \<in> set slots \<Longrightarrow> y \<in> set slots \<Longrightarrow> fst x = fst y \<Longrightarrow> x = y"
    using assms(1) by (auto simp: distinct_map inj_on_def)
  have fit_step: "types_fit a slots (slot_step S a n ?E x U)" if "types_fit a slots U" "x \<in> set slots" for x U
  proof -
    obtain s v ty where x: "x = (s, (v, ty))" by (cases x)
    have uniq: "\<forall>v' ty'. (s, (v', ty')) \<in> set slots \<longrightarrow> ty' = ty"
      using xs(2) [OF _ that(2)] by (auto simp: x)
    show ?thesis using that(1) uniq
      by (auto simp: types_fit_def x slot_step_storage split: if_splits)
  qed
  have "archived_write slot_latest slot_hist slot_old n (\<Union> ((\<lambda>x. {(a, fst x)}) ` set slots)) T
      (fold (slot_step S a n ?E) slots T) \<and> types_fit a slots (fold (slot_step S a n ?E) slots T)"
  proof (rule archived_write_fold)
    fix x U assume "types_fit a slots U" "x \<in> set slots"
    then show "archived_write slot_latest slot_hist slot_old n {(a, fst x)} U (slot_step S a n ?E x U)
        \<and> types_fit a slots (slot_step S a n ?E x U)"
      by (intro conjI slot_step_write fit_step) (auto simp: types_fit_def)
  next
    show "pairwise (\<lambda>x y. {(a, fst x)} \<inter> {(a, fst y)} = {}) (set slots)"
      unfolding pairwise_def using xs(2) by blast
  qed (use xs(1) assms(2) in simp_all)
  then have slots: "archived_write slot_latest slot_hist slot_old n (\<Union> ((\<lambda>x. {(a, fst x)}) ` set slots)) T
      (write_storage_delta S a n slots delta T)"
    unfolding write_storage_delta_eq by (rule conjunct1)
  show "\<exists>K \<subseteq> rows_of a. archived_write slot_latest slot_hist slot_old n K T (write_storage_delta S a n slots delta T)"
    by (rule exI [where x = "\<Union> ((\<lambda>x. {(a, fst x)}) ` set slots)"]) (use slots in auto)
  have entries: "distinct (map fst es)" if "bt_get ?E s = Some es" for s es
    using that assms(3) by (auto simp: bt_get_from_iter dest: map_of_SomeD)
  let ?keys = "\<lambda>x. {(a, fst x, k) | k es. bt_get ?E (fst x) = Some es \<and> k \<in> fst ` set es}"
  have "archived_write entry_latest entry_hist (\<lambda>h. h) n (\<Union> (?keys ` set slots)) T
      (fold (slot_step S a n ?E) slots T) \<and> True"
  proof (rule archived_write_fold)
    fix x U
    show "archived_write entry_latest entry_hist (\<lambda>h. h) n (?keys x) U (slot_step S a n ?E x U) \<and> True"
      by (intro conjI slot_step_entries TrueI) (rule entries)
  next
    show "pairwise (\<lambda>x y. ?keys x \<inter> ?keys y = {}) (set slots)"
      unfolding pairwise_def
    proof (intro ballI impI)
      fix x y assume "x \<in> set slots" "y \<in> set slots" "x \<noteq> y"
      then have "fst x \<noteq> fst y" using xs(2) by blast
      then show "?keys x \<inter> ?keys y = {}" by auto
    qed
  qed (use xs in simp_all)
  then have entries: "archived_write entry_latest entry_hist (\<lambda>h. h) n (\<Union> (?keys ` set slots)) T
      (write_storage_delta S a n slots delta T)"
    unfolding write_storage_delta_eq by (rule conjunct1)
  show "\<exists>K \<subseteq> rows_of a. archived_write entry_latest entry_hist (\<lambda>h. h) n K T (write_storage_delta S a n slots delta T)"
    by (rule exI [where x = "\<Union> (?keys ` set slots)"]) (use entries in auto)
qed

lemma write_storage_delta_keeps:
  "same_assets T (write_storage_delta S a n slots delta T)" "same_headers T (write_storage_delta S a n slots delta T)"
  "tables_wf T \<Longrightarrow> tables_wf (write_storage_delta S a n slots delta T)"
proof -
  show "same_assets T (write_storage_delta S a n slots delta T)"
    unfolding write_storage_delta_eq
    by (rule fold_keeps [where P = "same_assets T"]) (simp_all add: same_assets_def slot_step_keeps(1) [unfolded same_assets_def])
  show "same_headers T (write_storage_delta S a n slots delta T)"
    unfolding write_storage_delta_eq
    by (rule fold_keeps [where P = "same_headers T"]) (simp_all add: same_headers_def slot_step_keeps(2) [unfolded same_headers_def])
  show "tables_wf T \<Longrightarrow> tables_wf (write_storage_delta S a n slots delta T)"
    unfolding write_storage_delta_eq by (rule fold_keeps) (auto intro: slot_step_keeps)
qed

subsection \<open>Whole states\<close>

lemma fold_archive_get:
  assumes "distinct (map fst rows)" "\<forall>x \<in> set rows. fst (fst x) = a"
  shows "bt_get (fold (\<lambda>((_, s), v). bt_insert (a, n, s) (f v)) rows H) (b, m, s) =
    (if b = a \<and> m = n then case bt_get rows (a, s) of Some v \<Rightarrow> Some (f v) | None \<Rightarrow> bt_get H (b, m, s)
     else bt_get H (b, m, s))"
  using assms
proof (induction rows arbitrary: H)
  case (Cons x rows)
  obtain s' v where x: "x = ((a, s'), v)" using Cons.prems(2) by (cases x) auto
  have absent: "bt_get rows (a, s') = None" using Cons.prems(1) by (simp add: x map_of_eq_None_iff)
  show ?case using Cons.prems absent by (auto simp: Cons.IH x split: option.splits)
qed simp

lemma fold_mark_get:
  assumes "distinct (map fst rows)" "\<forall>x \<in> set rows. fst (fst x) = a"
  shows "bt_get (fold (\<lambda>((_, s), v). bt_or_insert (a, n, s) (f v)) rows H) (b, m, s) =
    (if b = a \<and> m = n \<and> bt_get H (b, m, s) = None then map_option f (bt_get rows (a, s)) else bt_get H (b, m, s))"
  using assms
proof (induction rows arbitrary: H)
  case (Cons x rows)
  obtain s' v where x: "x = ((a, s'), v)" using Cons.prems(2) by (cases x) auto
  have absent: "bt_get rows (a, s') = None" using Cons.prems(1) by (simp add: x map_of_eq_None_iff)
  show ?case using Cons.prems absent by (auto simp: Cons.IH x split: option.splits)
qed auto

lemma account_rows:
  fixes a :: account_id
  assumes "bt_wf L"
  defines "rows \<equiv> filter (\<lambda>((a', _), _). a' = a) L"
  shows "distinct (map fst rows)" "\<forall>x \<in> set rows. fst (fst x) = a" "bt_get rows (a, s) = bt_get L (a, s)"
proof -
  show "distinct (map fst rows)" unfolding rows_def by (intro bt_wf_distinct bt_wf_filter assms)
  show "\<forall>x \<in> set rows. fst (fst x) = a" unfolding rows_def by auto
  show "bt_get rows (a, s) = bt_get L (a, s)"
    unfolding rows_def by (subst get_filter_key' [where P = "\<lambda>(a', s). a' = a"]) auto
qed

text \<open>
  A table pair whose current rows are archived, replaced by others, and marked where they are new:
  an archived write of every row that exists before or after.
\<close>

lemma replaced_rows_write:
  fixes a :: account_id and n :: u64
  assumes "bt_wf (lt T)" "bt_wf (lt V)" and f: "\<And>v. old (f v) = Some v" and g: "\<And>v. old (g v) = None"
    and fresh: "\<And>s. bt_get (ht T) (a, n, s) = None"
    and others: "\<And>b s. b \<noteq> a \<Longrightarrow> bt_get (lt V) (b, s) = bt_get (lt T) (b, s)"
    and ht: "ht V = fold (\<lambda>((_, s), v). bt_or_insert (a, n, s) (g v)) (filter (\<lambda>((a', _), _). a' = a) (lt V))
       (fold (\<lambda>((_, s), v). bt_insert (a, n, s) (f v)) (filter (\<lambda>((a', _), _). a' = a) (lt T)) (ht T))"
  shows "archived_write (\<lambda>T. bt_get (lt T)) (\<lambda>T n k. bt_get (ht T) (fst k, n, snd k)) old n
    {k. fst k = a \<and> (bt_get (lt T) k \<noteq> None \<or> bt_get (lt V) k \<noteq> None)} T V"
proof -
  have ht_get: "bt_get (ht V) (b, m, s) =
      (if b = a \<and> m = n then case bt_get (lt T) (a, s) of Some v \<Rightarrow> Some (f v) | None \<Rightarrow> map_option g (bt_get (lt V) (a, s))
       else bt_get (ht T) (b, m, s))" for b m s
    unfolding ht fold_mark_get [OF account_rows(1,2) [OF assms(2)]] fold_archive_get [OF account_rows(1,2) [OF assms(1)]]
    by (auto simp: account_rows(3) assms(1,2) fresh split: option.splits)
  show ?thesis
    unfolding archived_write_def
    by (auto simp: ht_get f g others fresh fun_eq_iff split: option.splits)
qed

definition state_written :: "account_id \<Rightarrow> u64 \<Rightarrow> account_state \<Rightarrow> account_tables \<Rightarrow> account_tables" where
  "state_written a n acc T =
     mark_new a n (insert_assets a (av_assets (as_vault acc))
       (insert_storage_slots a (as_storage acc) (clear_latest a (archive_all a n T))))"

text \<open>What inserting rows of one account leaves alone.\<close>

definition only_latest_of :: "account_id \<Rightarrow> account_tables \<Rightarrow> account_tables \<Rightarrow> bool" where
  "only_latest_of a T U \<longleftrightarrow>
     at_hist_storage U = at_hist_storage T \<and> at_hist_maps U = at_hist_maps T \<and> at_hist_assets U = at_hist_assets T
     \<and> same_headers T U \<and> (tables_wf T \<longrightarrow> tables_wf U)
     \<and> (\<forall>b s. b \<noteq> a \<longrightarrow> bt_get (at_latest_storage U) (b, s) = bt_get (at_latest_storage T) (b, s))
     \<and> (\<forall>b s. b \<noteq> a \<longrightarrow> bt_get (at_latest_maps U) (b, s) = bt_get (at_latest_maps T) (b, s))
     \<and> (\<forall>b s. b \<noteq> a \<longrightarrow> bt_get (at_latest_assets U) (b, s) = bt_get (at_latest_assets T) (b, s))"

lemma only_latest_of_refl: "only_latest_of a T T"
  by (simp add: only_latest_of_def same_headers_def)

lemma only_latest_of_trans: "only_latest_of a T U \<Longrightarrow> only_latest_of a U V \<Longrightarrow> only_latest_of a T V"
  by (simp add: only_latest_of_def same_headers_def)

lemma only_latest_of_puts:
  "only_latest_of a T (put_slot a s v ty T)" "only_latest_of a T (put_map_entry a s e T)" "only_latest_of a T (put_asset a e' T)"
  by (cases e, cases e', simp add: only_latest_of_def put_slot_def same_headers_def tables_wf_def)
    (cases e, simp add: only_latest_of_def put_map_entry_def same_headers_def tables_wf_def,
     cases e', simp add: only_latest_of_def put_asset_def same_headers_def tables_wf_def)

lemma only_latest_of_fold:
  "(\<And>x T. only_latest_of a T (f x T)) \<Longrightarrow> only_latest_of a T (fold f xs T)"
  by (induction xs arbitrary: T) (auto intro: only_latest_of_refl only_latest_of_trans)

lemma only_latest_of_inserts:
  "only_latest_of a T (insert_storage_slots a slots T)" "only_latest_of a T (insert_assets a es T)"
proof -
  have step: "only_latest_of a T (let T1 = put_slot a s (slot_value slot) (slot_type_u8 (slot_type_of slot)) T
      in case slot of MapSlot m \<Rightarrow> fold (put_map_entry a s) (sm_entries m) T1 | ValueSlot _ \<Rightarrow> T1)" for s slot T
    by (cases slot)
      (auto simp: Let_def intro: only_latest_of_puts only_latest_of_trans [OF only_latest_of_puts(1) only_latest_of_fold])
  show "only_latest_of a T (insert_storage_slots a slots T)"
    unfolding insert_storage_slots_def by (rule only_latest_of_fold) (simp add: step split: prod.splits)
  show "only_latest_of a T (insert_assets a es T)"
    unfolding insert_assets_def by (rule only_latest_of_fold) (rule only_latest_of_puts)
qed

lemma other_account_rows: "b \<noteq> a \<Longrightarrow> bt_get (filter (\<lambda>((a', _), _). a' \<noteq> a) L) (b, s) = bt_get L (b, s)"
  by (subst get_filter_key' [where P = "\<lambda>(a', s). a' \<noteq> a"]) auto

lemma clear_latest_of: "only_latest_of a T (clear_latest a T)"
  by (simp add: only_latest_of_def clear_latest_def same_headers_def tables_wf_def bt_wf_filter other_account_rows)

lemma archive_mark_latest [simp]:
  "at_latest_storage (archive_all a n T) = at_latest_storage T" "at_latest_storage (mark_new a n T) = at_latest_storage T"
  "at_latest_maps (archive_all a n T) = at_latest_maps T" "at_latest_maps (mark_new a n T) = at_latest_maps T"
  "at_latest_assets (archive_all a n T) = at_latest_assets T" "at_latest_assets (mark_new a n T) = at_latest_assets T"
  by (simp_all add: archive_all_def mark_new_def)

lemma state_written_parts:
  fixes a n acc T
  defines "U \<equiv> archive_all a n T"
  defines "V \<equiv> insert_assets a (av_assets (as_vault acc)) (insert_storage_slots a (as_storage acc) (clear_latest a U))"
  shows "state_written a n acc T = mark_new a n V" "only_latest_of a U V"
proof -
  show "state_written a n acc T = mark_new a n V" by (simp add: state_written_def V_def U_def)
  show "only_latest_of a U V"
    unfolding V_def
    by (rule only_latest_of_trans [OF clear_latest_of])
      (rule only_latest_of_trans [OF only_latest_of_inserts(1) only_latest_of_inserts(2)])
qed

lemma archive_mark_keeps:
  "same_headers T (archive_all a n T)" "tables_wf T \<Longrightarrow> tables_wf (archive_all a n T)"
  "same_headers T (mark_new a n T)" "tables_wf T \<Longrightarrow> tables_wf (mark_new a n T)"
  by (simp_all add: same_headers_def tables_wf_def archive_all_def mark_new_def case_prod_beta' fold_insert_wf fold_or_insert_wf)

lemma state_written_keeps:
  "same_headers T (state_written a n acc T)" "tables_wf T \<Longrightarrow> tables_wf (state_written a n acc T)"
  using state_written_parts [where a = a and n = n and acc = acc and T = T] archive_mark_keeps(1,2) [of T a n]
    archive_mark_keeps(3,4) [of _ a n]
  by (simp_all add: only_latest_of_def same_headers_def)

lemma state_written_writes:
  assumes "tables_wf T"
  shows "(\<And>s. bt_get (at_hist_storage T) (a, n, s) = None) \<Longrightarrow>
      \<exists>K \<subseteq> rows_of a. archived_write slot_latest slot_hist slot_old n K T (state_written a n acc T)"
    and "(\<And>s. bt_get (at_hist_maps T) (a, n, s) = None) \<Longrightarrow>
      \<exists>K \<subseteq> rows_of a. archived_write entry_latest entry_hist (\<lambda>h. h) n K T (state_written a n acc T)"
    and "(\<And>s. bt_get (at_hist_assets T) (a, n, s) = None) \<Longrightarrow>
      \<exists>K \<subseteq> rows_of a. archived_write asset_latest asset_hist (\<lambda>h. h) n K T (state_written a n acc T)"
proof -
  obtain V where parts: "state_written a n acc T = mark_new a n V" "only_latest_of a (archive_all a n T) V"
    using state_written_parts by blast
  let ?W = "mark_new a n V"
  have wfT: "bt_wf (at_latest_storage T)" "bt_wf (at_latest_maps T)" "bt_wf (at_latest_assets T)"
    using assms by (simp_all add: tables_wf_def)
  have wfW: "bt_wf (at_latest_storage ?W)" "bt_wf (at_latest_maps ?W)" "bt_wf (at_latest_assets ?W)"
    using state_written_keeps(2) [OF assms, of a n acc] unfolding parts(1) tables_wf_def by blast+
  have others: "b \<noteq> a \<Longrightarrow> bt_get (at_latest_storage ?W) (b, s) = bt_get (at_latest_storage T) (b, s)"
    "b \<noteq> a \<Longrightarrow> bt_get (at_latest_maps ?W) (b, e) = bt_get (at_latest_maps T) (b, e)"
    "b \<noteq> a \<Longrightarrow> bt_get (at_latest_assets ?W) (b, k) = bt_get (at_latest_assets T) (b, k)" for b s e k
    using parts(2) by (cases e, simp_all add: only_latest_of_def)+
  have hist: "at_hist_storage V = at_hist_storage (archive_all a n T)" "at_hist_maps V = at_hist_maps (archive_all a n T)"
    "at_hist_assets V = at_hist_assets (archive_all a n T)"
    using parts(2) by (simp_all add: only_latest_of_def)
  show "\<exists>K \<subseteq> rows_of a. archived_write slot_latest slot_hist slot_old n K T (state_written a n acc T)"
    if fresh: "\<And>s. bt_get (at_hist_storage T) (a, n, s) = None"
  proof -
    have "archived_write (\<lambda>T. bt_get (at_latest_storage T)) (\<lambda>T n k. bt_get (at_hist_storage T) (fst k, n, snd k)) slot_old n
        {k. fst k = a \<and> (slot_latest T k \<noteq> None \<or> slot_latest ?W k \<noteq> None)} T ?W"
      by (rule replaced_rows_write [where lt = at_latest_storage and ht = at_hist_storage and T = T and V = ?W and
              f = "\<lambda>(v, ty). (Some v, ty)" and g = "\<lambda>(v, ty). (None, ty)", OF wfT(1) wfW(1) _ _ fresh others(1)])
        (auto simp: slot_old_def mark_new_def hist, simp add: archive_all_def case_prod_beta')
    then show ?thesis unfolding parts(1) by (rule archived_writeI) auto
  qed
  show "\<exists>K \<subseteq> rows_of a. archived_write entry_latest entry_hist (\<lambda>h. h) n K T (state_written a n acc T)"
    if fresh: "\<And>s. bt_get (at_hist_maps T) (a, n, s) = None"
  proof -
    have "archived_write (\<lambda>T. bt_get (at_latest_maps T)) (\<lambda>T n k. bt_get (at_hist_maps T) (fst k, n, snd k)) (\<lambda>h. h) n
        {k. fst k = a \<and> (entry_latest T k \<noteq> None \<or> entry_latest ?W k \<noteq> None)} T ?W"
      by (rule replaced_rows_write [where lt = at_latest_maps and ht = at_hist_maps and T = T and V = ?W and
              f = Some and g = "\<lambda>_. None", OF wfT(2) wfW(2) _ _ fresh others(2)])
        (simp_all add: mark_new_def hist, simp add: archive_all_def case_prod_beta')
    then show ?thesis unfolding parts(1) by (rule archived_writeI) auto
  qed
  show "\<exists>K \<subseteq> rows_of a. archived_write asset_latest asset_hist (\<lambda>h. h) n K T (state_written a n acc T)"
    if fresh: "\<And>s. bt_get (at_hist_assets T) (a, n, s) = None"
  proof -
    have "archived_write (\<lambda>T. bt_get (at_latest_assets T)) (\<lambda>T n k. bt_get (at_hist_assets T) (fst k, n, snd k)) (\<lambda>h. h) n
        {k. fst k = a \<and> (asset_latest T k \<noteq> None \<or> asset_latest ?W k \<noteq> None)} T ?W"
      by (rule replaced_rows_write [where lt = at_latest_assets and ht = at_hist_assets and T = T and V = ?W and
              f = Some and g = "\<lambda>_. None", OF wfT(3) wfW(3) _ _ fresh others(3)])
        (simp_all add: mark_new_def hist, simp add: archive_all_def case_prod_beta')
    then show ?thesis unfolding parts(1) by (rule archived_writeI) auto
  qed
qed

section \<open>Headers\<close>

definition within_history :: "account_tables \<Rightarrow> account_id \<Rightarrow> u64 \<Rightarrow> bool" where
  "within_history T a n \<longleftrightarrow> (\<exists>row. bt_get (at_latest_headers T) a = Some row \<and> n \<le> hd_nonce (hw_header row))"

text \<open>
  The invariant of the account tables: rows are keyed by their own identifiers and commitments, and
  nothing is archived under a nonce above that of the account's latest state.
\<close>

definition tables_inv :: "account_ops \<Rightarrow> account_tables \<Rightarrow> bool" where
  "tables_inv K T \<longleftrightarrow> tables_wf T
     \<and> (\<forall>i row. bt_get (at_latest_headers T) i = Some row \<longrightarrow>
          hd_id (hw_header row) = i \<and> hw_commitment row = ko_commitment K (hw_header row))
     \<and> (\<forall>c row n. bt_get (at_hist_headers T) c = Some (row, n) \<longrightarrow>
          hw_commitment row = c \<and> hw_commitment row = ko_commitment K (hw_header row)
          \<and> hd_nonce (hw_header row) < n \<and> within_history T (hd_id (hw_header row)) n)
     \<and> (\<forall>a n s. bt_get (at_hist_storage T) (a, n, s) \<noteq> None \<longrightarrow> within_history T a n)
     \<and> (\<forall>a n s. bt_get (at_hist_maps T) (a, n, s) \<noteq> None \<longrightarrow> within_history T a n)
     \<and> (\<forall>a n s. bt_get (at_hist_assets T) (a, n, s) \<noteq> None \<longrightarrow> within_history T a n)"

definition new_header_row :: "account_ops \<Rightarrow> acct_header \<Rightarrow> header_row" where
  "new_header_row K h = \<lparr>hw_header = h, hw_commitment = ko_commitment K h, hw_seed = None, hw_locked = False\<rparr>"

text \<open>One write of an account: what it does to every table.\<close>

definition account_written :: "account_ops \<Rightarrow> account_id \<Rightarrow> header_row \<Rightarrow> acct_header \<Rightarrow> account_tables \<Rightarrow> account_tables \<Rightarrow> bool" where
  "account_written K a row h T U \<longleftrightarrow>
     (\<exists>J \<subseteq> rows_of a. archived_write slot_latest slot_hist slot_old (hd_nonce h) J T U)
     \<and> (\<exists>J \<subseteq> rows_of a. archived_write entry_latest entry_hist (\<lambda>h. h) (hd_nonce h) J T U)
     \<and> (\<exists>J \<subseteq> rows_of a. archived_write asset_latest asset_hist (\<lambda>h. h) (hd_nonce h) J T U)
     \<and> tables_wf U \<and> at_codes U = at_codes T \<and> at_foreign_codes U = at_foreign_codes T \<and> at_addresses U = at_addresses T
     \<and> bt_get (at_codes T) (hd_code_commitment (hw_header row)) \<noteq> None
     \<and> (\<forall>i. bt_get (at_latest_headers U) i = (if i = a then Some (new_header_row K h) else bt_get (at_latest_headers T) i))
     \<and> (\<forall>c. bt_get (at_hist_headers U) c = (if c = hw_commitment row then Some (row, hd_nonce h) else bt_get (at_hist_headers T) c))"

lemma filter_commitment_get:
  assumes "tables_inv K T" "inj (ko_commitment K)" "i \<noteq> hd_id h"
  shows "bt_get (filter (\<lambda>(i, r). hw_commitment r \<noteq> ko_commitment K h) (at_latest_headers T)) i = bt_get (at_latest_headers T) i"
proof -
  have "bt_wf (at_latest_headers T)" using assms(1) by (simp add: tables_inv_def tables_wf_def)
  moreover have "hw_commitment r \<noteq> ko_commitment K h" if "bt_get (at_latest_headers T) i = Some r" for r
    using that assms by (auto simp: tables_inv_def dest: injD)
  ultimately show ?thesis by (auto simp: bt_get_filter split: option.splits)
qed

text \<open>Archiving the latest header and writing a new one.\<close>

lemma insert_account_header_written:
  assumes inv: "tables_inv K T" "inj (ko_commitment K)" and row: "bt_get (at_latest_headers T) (hd_id h) = Some row"
    and run: "insert_account_header K C h None (Some (hw_header row)) T' = Inr U" and same: "same_headers T T'"
    and wf: "tables_wf T'"
  shows "same_slots T' U \<and> same_entries T' U \<and> same_assets T' U \<and> tables_wf U
    \<and> at_codes U = at_codes T \<and> at_foreign_codes U = at_foreign_codes T \<and> at_addresses U = at_addresses T
    \<and> bt_get (at_codes T) (hd_code_commitment (hw_header row)) \<noteq> None
    \<and> (\<forall>i. bt_get (at_latest_headers U) i = (if i = hd_id h then Some (new_header_row K h) else bt_get (at_latest_headers T) i))
    \<and> (\<forall>c. bt_get (at_hist_headers U) c = (if c = hw_commitment row then Some (row, hd_nonce h) else bt_get (at_hist_headers T) c))"
proof -
  have row_eq: "\<lparr>hw_header = hw_header row, hw_commitment = ko_commitment K (hw_header row),
      hw_seed = hw_seed row, hw_locked = hw_locked row\<rparr> = row" and id: "hd_id (hw_header row) = hd_id h"
    using inv(1) row by (simp_all add: tables_inv_def)
  obtain U1 where 1: "insert_hist_header C row (hd_nonce h) T' = Inr U1"
    and 2: "insert_latest_header C (new_header_row K h) U1 = Inr U"
    using run row same row_eq by (auto simp: insert_account_header_def id same_headers_def new_header_row_def and_then_Inr_conv)
  have U1: "U1 = T'\<lparr>at_hist_headers := bt_insert (hw_commitment row) (row, hd_nonce h) (at_hist_headers T')\<rparr>"
    and code: "bt_get (at_codes T') (hd_code_commitment (hw_header row)) \<noteq> None"
    using 1 by (auto simp: insert_hist_header_def split: if_splits)
  have U: "U = U1\<lparr>at_latest_headers := bt_insert (hd_id h) (new_header_row K h)
      (filter (\<lambda>(i, r). hw_commitment r \<noteq> ko_commitment K h) (at_latest_headers U1))\<rparr>"
    using 2 by (auto simp: insert_latest_header_def new_header_row_def split: if_splits)
  show ?thesis
    using code same wf filter_commitment_get [OF inv]
    by (simp add: U U1 same_defs tables_wf_def bt_wf_filter)
qed

section \<open>Account writes\<close>

text \<open>
  A delta as the protocol produces it: each vault key and each map key at most once, and slots of the
  type they have in the account.
\<close>

definition delta_fits :: "account_id \<Rightarrow> account_delta \<Rightarrow> account_tables \<Rightarrow> bool" where
  "delta_fits a delta T \<longleftrightarrow>
     distinct (map fst (dl_fungible delta) @ map fst (dl_non_fungible delta))
     \<and> (\<forall>(s, es) \<in> set (dl_maps delta). distinct (map fst es))
     \<and> (\<forall>((a', s), (v, ty)) \<in> set (at_latest_storage T). a' = a \<longrightarrow>
          (if s \<in> fst ` set (dl_maps delta) then ty = slot_type_u8 MapType
           else s \<in> fst ` set (dl_values delta) \<longrightarrow> ty = slot_type_u8 ValueType))"

lemma delta_fits_type:
  assumes "delta_fits a delta T" "((a, s), (v, ty)) \<in> set (at_latest_storage T)"
  shows "s \<in> fst ` set (dl_maps delta) \<Longrightarrow> ty = slot_type_u8 MapType"
    and "s \<notin> fst ` set (dl_maps delta) \<Longrightarrow> s \<in> fst ` set (dl_values delta) \<Longrightarrow> ty = slot_type_u8 ValueType"
  using bspec [OF conjunct2 [OF conjunct2 [OF assms(1) [unfolded delta_fits_def]]] assms(2)] by simp_all

lemma fbind_Inr: "fbind m k F = (Inr y, F') \<longleftrightarrow> (\<exists>x F1. m F = (Inr x, F1) \<and> k x F1 = (Inr y, F'))"
  by (auto simp: fbind_def split: prod.splits sum.splits)

lemma fpure_Inr [simp]: "fpure r F = (Inr y, F') \<longleftrightarrow> r = Inr y \<and> F' = F"
  by (auto simp: fpure_def)

definition vault_keys_ok :: "digest set \<Rightarrow> (digest, digest) btree_map \<times> digest list \<Rightarrow> bool" where
  "vault_keys_ok K = (\<lambda>(updated, removed).
     bt_wf updated \<and> distinct removed \<and> fst ` set updated \<union> set removed \<subseteq> K \<and> fst ` set updated \<inter> set removed = {})"

lemma fungible_steps_keys:
  assumes "try_fold (fungible_step K) (assets, updated, removed) ds = Inr (assets', updated', removed')"
    and "vault_keys_ok J (updated, removed)" and "distinct (map fst ds)" and "J \<inter> fst ` set ds = {}"
  shows "vault_keys_ok (J \<union> fst ` set ds) (updated', removed')"
  using assms
proof (induction ds arbitrary: assets updated removed J)
  case (Cons d ds)
  obtain k x where d: "d = (k, x)" by (cases d)
  from Cons.prems(1) obtain assets1 updated1 removed1 where
    step: "fungible_step K (assets, updated, removed) (k, x) = Inr (assets1, updated1, removed1)"
    and rest: "try_fold (fungible_step K) (assets1, updated1, removed1) ds = Inr (assets', updated', removed')"
    by (auto simp: d and_then_Inr_conv split: sum.splits)
  have "(\<exists>w. updated1 = bt_insert k w updated) \<and> removed1 = removed \<or> updated1 = updated \<and> removed1 = removed @ [k]"
    using step by (auto simp: fungible_step_def and_then_Inr_conv split: if_splits)
  moreover have "fst ` set updated \<subseteq> J" "set removed \<subseteq> J" "k \<notin> J"
    using Cons.prems(2,4) by (auto simp: vault_keys_ok_def d)
  ultimately have "vault_keys_ok (insert k J) (updated1, removed1)"
  proof (elim disjE conjE exE)
    fix w assume "updated1 = bt_insert k w updated" "removed1 = removed"
      "fst ` set updated \<subseteq> J" "set removed \<subseteq> J" "k \<notin> J"
    then show ?thesis using Cons.prems(2) by (simp add: vault_keys_ok_def) blast
  next
    assume "updated1 = updated" "removed1 = removed @ [k]"
      "fst ` set updated \<subseteq> J" "set removed \<subseteq> J" "k \<notin> J"
    then show ?thesis using Cons.prems(2) by (simp add: vault_keys_ok_def) blast
  qed
  from Cons.IH [OF rest this] show ?case using Cons.prems(3,4) by (simp add: d)
qed simp

lemma fold_insert_keys:
  "bt_wf m \<Longrightarrow> bt_wf (fold (\<lambda>(k, v, _). bt_insert k v) xs m)
     \<and> fst ` set (fold (\<lambda>(k, v, _). bt_insert k v) xs m) = fst ` set m \<union> fst ` set xs"
  by (induction xs arbitrary: m) (auto split: prod.splits)

lemma apply_account_vault_delta_Inr:
  assumes "apply_account_vault_delta S K a init final assets delta T F = (Inr U, F')"
    and keys: "distinct (map fst (dl_fungible delta) @ map fst (dl_non_fungible delta))"
  shows "\<exists>removed updated. distinct (removed @ map fst updated) \<and> U = persist_vault_delta a (hd_nonce final) removed updated T"
proof -
  let ?added = "filter (\<lambda>(_, _, added). added) (dl_non_fungible delta)"
  let ?gone = "filter (\<lambda>(_, _, added). \<not> added) (dl_non_fungible delta)"
  from assms(1) obtain r F1 where
    run: "try_fold (fungible_step K) (assets, [], []) (dl_fungible delta) = Inr r"
    and U0: "(case r of (_, updated_assets, removed_vault_keys) \<Rightarrow>
        let updated = fold (\<lambda>(k, v, _). bt_insert k v) ?added updated_assets;
            removed = removed_vault_keys @ map fst ?gone;
            T1 = persist_vault_delta a (hd_nonce final) removed updated T
        in fbind (lift_forest (update_asset_nodes S (hd_vault_root init) updated removed)) (\<lambda>new_vault_root.
             if new_vault_root \<noteq> hd_vault_root final
             then fpure (Inl (MerkleStoreError (ko_conflicting_roots K (hd_vault_root final) new_vault_root)))
             else fpure (Inr T1))) F1 = (Inr U, F')"
    unfolding apply_account_vault_delta_def fbind_Inr fpure_Inr by (elim exE conjE) (rule that; assumption)
  obtain assets' updated0 removed0 where r: "r = (assets', updated0, removed0)" by (cases r)
  have U: "U = persist_vault_delta a (hd_nonce final) (removed0 @ map fst ?gone)
       (fold (\<lambda>(k, v, _). bt_insert k v) ?added updated0) T"
    using U0 unfolding r Let_def prod.case fbind_Inr by (auto split: if_splits)
  note run = run [unfolded r]
  have ok: "vault_keys_ok ({} \<union> fst ` set (dl_fungible delta)) (updated0, removed0)"
    by (rule fungible_steps_keys [OF run]) (use keys in \<open>auto simp: vault_keys_ok_def\<close>)
  have upd: "bt_wf (fold (\<lambda>(k, v, _). bt_insert k v) ?added updated0)"
    "fst ` set (fold (\<lambda>(k, v, _). bt_insert k v) ?added updated0) = fst ` set updated0 \<union> fst ` set ?added"
    using fold_insert_keys [of updated0 ?added] ok by (auto simp: vault_keys_ok_def)
  have nf: "distinct (map fst (dl_non_fungible delta))" using keys by simp
  then have gone: "distinct (map fst ?gone)" "fst ` set ?gone \<inter> fst ` set ?added = {}"
    by (auto simp: distinct_map_filter dest: eq_key_imp_eq_value)
  have sub: "fst ` set ?gone \<subseteq> fst ` set (dl_non_fungible delta)" "fst ` set ?added \<subseteq> fst ` set (dl_non_fungible delta)"
    "fst ` set (dl_fungible delta) \<inter> fst ` set (dl_non_fungible delta) = {}"
    using keys by auto
  have "distinct ((removed0 @ map fst ?gone) @ map fst (fold (\<lambda>(k, v, _). bt_insert k v) ?added updated0))"
  proof -
    have apart: "R \<subseteq> D \<Longrightarrow> P \<subseteq> D \<Longrightarrow> G \<subseteq> N \<Longrightarrow> A \<subseteq> N \<Longrightarrow> D \<inter> N = {} \<Longrightarrow> G \<inter> A = {} \<Longrightarrow> P \<inter> R = {} \<Longrightarrow>
        R \<inter> G = {} \<and> R \<inter> (P \<union> A) = {} \<and> G \<inter> (P \<union> A) = {}" for R D P G N A :: "digest set"
      by blast
    have "set removed0 \<inter> fst ` set ?gone = {} \<and> set removed0 \<inter> (fst ` set updated0 \<union> fst ` set ?added) = {}
        \<and> fst ` set ?gone \<inter> (fst ` set updated0 \<union> fst ` set ?added) = {}"
      by (rule apart [OF _ _ sub gone(2)]) (use ok in \<open>simp_all add: vault_keys_ok_def\<close>)
    then show ?thesis using ok gone(1) bt_wf_distinct [OF upd(1)]
      by (simp add: vault_keys_ok_def upd(2) Int_Un_distrib del: set_filter)
  qed
  with U show ?thesis by blast
qed

lemma storage_delta_types:
  assumes "fold_forest (\<lambda>updated_slots (s, entries).
         fbind (lift_forest (update_storage_map_nodes S (old_map_root K roots s) entries)) (\<lambda>new_root.
         fpure (Inr (bt_insert s (new_root, MapType) updated_slots)))) slots ms F = (Inr slots', F')"
    and "bt_wf slots"
  shows "bt_wf slots' \<and> (\<forall>s. map_option snd (bt_get slots' s) =
     (if s \<in> fst ` set ms then Some MapType else map_option snd (bt_get slots s)))"
  using assms
proof (induction ms arbitrary: slots F)
  case (Cons m ms)
  obtain s0 es where m: "m = (s0, es)" by (cases m)
  from Cons.prems(1) obtain new_root F1 where
    rest: "fold_forest (\<lambda>updated_slots (s, entries).
         fbind (lift_forest (update_storage_map_nodes S (old_map_root K roots s) entries)) (\<lambda>new_root.
         fpure (Inr (bt_insert s (new_root, MapType) updated_slots)))) (bt_insert s0 (new_root, MapType) slots) ms F1
       = (Inr slots', F')"
    by (simp only: fold_forest.simps m prod.case fbind_Inr fpure_Inr) blast
  from Cons.IH [OF rest bt_wf_insert [OF Cons.prems(2)]] show ?case by (auto simp: m)
qed simp

lemma apply_account_storage_delta_Inr:
  assumes "apply_account_storage_delta S K roots delta F = (Inr slots, F')" and "delta_fits a delta T" and "bt_wf (at_latest_storage T)"
  shows "bt_wf slots \<and> types_fit a slots T"
proof -
  have types: "bt_wf slots" "map_option snd (bt_get slots s) =
     (if s \<in> fst ` set (dl_maps delta) then Some MapType
      else map_option snd (bt_get (bt_from_iter (map (\<lambda>(s, v). (s, (v, ValueType))) (dl_values delta))) s))" for s
    using storage_delta_types [OF assms(1) [unfolded apply_account_storage_delta_def]] by auto
  have "snd old = slot_type_u8 ty" if "(s, (v, ty)) \<in> set slots" and old: "bt_get (at_latest_storage T) (a, s) = Some old" for s v ty old
  proof -
    have "bt_get slots s = Some (v, ty)" using that(1) bt_get_iff_mem [OF types(1)] by blast
    then have ty: "map_option snd (bt_get slots s) = Some ty" by simp
    have mem: "((a, s), (fst old, snd old)) \<in> set (at_latest_storage T)" using old bt_get_iff_mem [OF assms(3)] by simp
    show ?thesis
    proof (cases "s \<in> fst ` set (dl_maps delta)")
      case True
      then show ?thesis using ty types(2) [of s] delta_fits_type(1) [OF assms(2) mem] by simp
    next
      case False
      then obtain w where "map_of (rev (map (\<lambda>(s, v). (s, (v, ValueType))) (dl_values delta))) s = Some (w, ty)"
        using ty types(2) [of s] by (auto simp: bt_get_from_iter)
      then have "(s, (w, ty)) \<in> set (map (\<lambda>(s, v). (s, (v, ValueType))) (dl_values delta))"
        by (auto dest: map_of_SomeD)
      then have "ty = ValueType" "s \<in> fst ` set (dl_values delta)" by force+
      then show ?thesis using False delta_fits_type(2) [OF assms(2) mem] by simp
    qed
  qed
  then show ?thesis using types(1) by (simp add: types_fit_def)
qed

lemma apply_account_delta_Inr:
  assumes "apply_account_delta S K C init final assets roots delta T F = (Inr U, F')"
  obtains T1 T2 slots F1 F2 F3 where
    "insert_account_header K C final None (Some init) T = Inr T1"
    "apply_account_vault_delta S K (hd_id final) init final assets delta T1 F = (Inr T2, F1)"
    "apply_account_storage_delta S K roots delta F2 = (Inr slots, F3)"
    "U = write_storage_delta S (hd_id final) (hd_nonce final) slots delta T2"
proof -
  from assms obtain T1 T2 F1 where
    1: "insert_account_header K C final None (Some init) T = Inr T1"
    and 2: "apply_account_vault_delta S K (hd_id final) init final assets delta T1 F = (Inr T2, F1)"
    and 3: "(case get_roots F1 (hd_id init) of
        None \<Rightarrow> (Inl (StoreAccountDataNotFound (hd_id init)), F1)
      | Some roots' \<Rightarrow>
          fbind (apply_account_storage_delta S K roots delta) (\<lambda>updated_storage_slots F.
            (Inr (write_storage_delta S (hd_id final) (hd_nonce final) updated_storage_slots delta T2),
             stage_roots (hd_id final) (fold (update_map_root K roots) updated_storage_slots
               (case roots' of [] \<Rightarrow> [] | _ # rs \<Rightarrow> hd_vault_root final # rs)) F)) F1) = (Inr U, F')"
    unfolding apply_account_delta_def Let_def fbind_Inr fpure_Inr by (elim exE conjE) (rule that; simp)
  obtain slots F2 where "apply_account_storage_delta S K roots delta F1 = (Inr slots, F2)"
    "U = write_storage_delta S (hd_id final) (hd_nonce final) slots delta T2"
    using 3 by (auto simp: fbind_Inr split: option.splits)
  with 1 2 show thesis by (rule that)
qed

lemma apply_account_delta_written:
  assumes inv: "tables_inv K T" "inj (ko_commitment K)" and row: "bt_get (at_latest_headers T) (hd_id final) = Some row"
    and fits: "delta_fits (hd_id final) delta T"
    and run: "apply_account_delta S K C (hw_header row) final assets roots delta T F = (Inr U, F')"
  shows "account_written K (hd_id final) row final T U"
proof -
  let ?a = "hd_id final" and ?n = "hd_nonce final"
  obtain T1 T2 slots F1 F2 F3 where
    1: "insert_account_header K C final None (Some (hw_header row)) T = Inr T1"
    and 2: "apply_account_vault_delta S K ?a (hw_header row) final assets delta T1 F = (Inr T2, F1)"
    and 3: "apply_account_storage_delta S K roots delta F2 = (Inr slots, F3)"
    and U: "U = write_storage_delta S ?a ?n slots delta T2"
    by (rule apply_account_delta_Inr [OF run])
  have wf: "tables_wf T" using inv by (simp add: tables_inv_def)
  have hdr: "same_slots T T1" "same_entries T T1" "same_assets T T1" "tables_wf T1"
    and fields: "at_codes T1 = at_codes T" "at_foreign_codes T1 = at_foreign_codes T" "at_addresses T1 = at_addresses T"
      "bt_get (at_codes T) (hd_code_commitment (hw_header row)) \<noteq> None"
      "\<And>i. bt_get (at_latest_headers T1) i = (if i = ?a then Some (new_header_row K final) else bt_get (at_latest_headers T) i)"
      "\<And>c. bt_get (at_hist_headers T1) c = (if c = hw_commitment row then Some (row, ?n) else bt_get (at_hist_headers T) c)"
    using insert_account_header_written [OF inv row 1 _ wf] by (auto simp: same_headers_def)
  obtain removed updated where dist: "distinct (removed @ map fst updated)"
    and T2: "T2 = persist_vault_delta ?a ?n removed updated T1"
    using apply_account_vault_delta_Inr [OF 2] fits by (auto simp: delta_fits_def)
  note vault = persist_vault_delta_keeps [of T1 ?a ?n removed updated, folded T2]
  have slots: "bt_wf slots" "types_fit ?a slots T2"
    using apply_account_storage_delta_Inr [OF 3 fits] wf hdr(1) vault(1)
    by (simp_all add: tables_wf_def types_fit_def same_slots_def)
  have es: "\<And>s es. (s, es) \<in> set (dl_maps delta) \<Longrightarrow> distinct (map fst es)"
    using fits by (auto simp: delta_fits_def)
  note store = write_storage_delta_keeps [of T2 S ?a ?n slots delta, folded U]
  have writes: "\<exists>J \<subseteq> rows_of ?a. archived_write slot_latest slot_hist slot_old ?n J T2 U"
    "\<exists>J \<subseteq> rows_of ?a. archived_write entry_latest entry_hist (\<lambda>h. h) ?n J T2 U"
    unfolding U by (rule write_storage_delta_writes [OF bt_wf_distinct [OF slots(1)] slots(2)]; fact es)+
  have "\<exists>J \<subseteq> rows_of ?a. archived_write slot_latest slot_hist slot_old ?n J T U"
    by (rule archived_write_ex_cong [OF writes(1)]) (use hdr(1) vault(1) in \<open>simp_all add: same_slots_def\<close>)
  moreover have "\<exists>J \<subseteq> rows_of ?a. archived_write entry_latest entry_hist (\<lambda>h. h) ?n J T U"
    by (rule archived_write_ex_cong [OF writes(2)]) (use hdr(2) vault(2) in \<open>simp_all add: same_entries_def\<close>)
  moreover have "\<exists>J \<subseteq> rows_of ?a. archived_write asset_latest asset_hist (\<lambda>h. h) ?n J T U"
  proof (rule archived_writeI)
    show "archived_write asset_latest asset_hist (\<lambda>h. h) ?n (Pair ?a ` (set removed \<union> fst ` set updated)) T U"
      by (rule archived_write_cong [OF persist_vault_delta_write [OF dist, of ?n ?a T1, folded T2]])
        (use hdr(3) store(1) in \<open>simp_all add: same_assets_def\<close>)
  qed auto
  moreover have "tables_wf U" using store(3) vault(4) hdr(4) by blast
  ultimately show ?thesis using fields store(2) vault(3)
    unfolding account_written_def same_headers_def by simp
qed

lemma update_account_state_written:
  assumes inv: "tables_inv K T" "inj (ko_commitment K)" and row: "bt_get (at_latest_headers T) (as_id acc) = Some row"
    and newer: "hd_nonce (hw_header row) < as_nonce acc"
    and run: "update_account_state S K C acc T F = (Inr U, F')"
  shows "account_written K (as_id acc) row (header_of_account K acc) T U"
proof -
  let ?a = "as_id acc" and ?n = "as_nonce acc" and ?h = "header_of_account K acc"
  have h: "hd_id ?h = ?a" "hd_nonce ?h = ?n" by (simp_all add: header_of_account_def)
  have wf: "tables_wf T" using inv by (simp add: tables_inv_def)
  obtain old where old: "get_account_header C ?a T = Inr old"
    and ins: "insert_account_header K C ?h None (map_option fst old) (state_written ?a ?n acc T) = Inr U"
    using run unfolding update_account_state_def Let_def fbind_Inr fpure_Inr state_written_def by blast
  have "map_option fst old = Some (hw_header row)"
    using old row by (auto simp: get_account_header_def parse_accounts_def and_then_Inr_conv)
  note ins = ins [unfolded this]
  have fresh: "\<not> within_history T ?a ?n" using row newer by (auto simp: within_history_def)
  then have none: "\<And>s. bt_get (at_hist_storage T) (?a, ?n, s) = None" "\<And>s. bt_get (at_hist_maps T) (?a, ?n, s) = None"
    "\<And>s. bt_get (at_hist_assets T) (?a, ?n, s) = None"
    using inv(1) unfolding tables_inv_def by blast+
  note hdr = insert_account_header_written [OF inv row [folded h(1)] ins state_written_keeps(1) state_written_keeps(2) [OF wf], unfolded h]
  note writes = state_written_writes [OF wf, of ?a ?n acc]
  have "\<exists>J \<subseteq> rows_of ?a. archived_write slot_latest slot_hist slot_old ?n J T U"
    by (rule archived_write_ex_cong [OF writes(1) [OF none(1)]]) (use hdr in \<open>simp_all add: same_slots_def\<close>)
  moreover have "\<exists>J \<subseteq> rows_of ?a. archived_write entry_latest entry_hist (\<lambda>h. h) ?n J T U"
    by (rule archived_write_ex_cong [OF writes(2) [OF none(2)]]) (use hdr in \<open>simp_all add: same_entries_def\<close>)
  moreover have "\<exists>J \<subseteq> rows_of ?a. archived_write asset_latest asset_hist (\<lambda>h. h) ?n J T U"
    by (rule archived_write_ex_cong [OF writes(3) [OF none(3)]]) (use hdr in \<open>simp_all add: same_assets_def\<close>)
  ultimately show ?thesis using hdr unfolding account_written_def h by simp
qed

end
