(* ===== verification/Sqlite_Account_History.thy ===== *)
theory Sqlite_Account_History
  imports Sqlite_Account_Writes
begin

text \<open>
  Histories of an account in the SQLite store: sequences of deltas and whole states written at
  increasing nonces, what such a sequence leaves in the archive, and the run of
  \<open>undo_account_state\<close> over it, also from tables whose older archive was pruned.
\<close>

section \<open>Histories of an account\<close>

text \<open>
  Any sequence of writes to one account at increasing nonces: deltas of local transactions and whole
  states from the network. The forest may change in any way between them.
\<close>

inductive account_history ::
  "'f smt_ops \<Rightarrow> account_ops \<Rightarrow> sql_codecs \<Rightarrow> account_id \<Rightarrow> acct_header list \<Rightarrow> account_tables \<Rightarrow> account_tables \<Rightarrow> bool"
  for S K C a where
  history_start: "account_history S K C a [] T T"
| history_delta: "account_history S K C a hs T T1 \<Longrightarrow> bt_get (at_latest_headers T1) a = Some row \<Longrightarrow>
     hd_id final = a \<Longrightarrow> hd_nonce (hw_header row) < hd_nonce final \<Longrightarrow> delta_fits a delta T1 \<Longrightarrow>
     apply_account_delta S K C (hw_header row) final assets roots delta T1 F = (Inr T2, F') \<Longrightarrow>
     account_history S K C a (hs @ [final]) T T2"
| history_state: "account_history S K C a hs T T1 \<Longrightarrow> bt_get (at_latest_headers T1) a = Some row \<Longrightarrow>
     as_id acc = a \<Longrightarrow> hd_nonce (hw_header row) < as_nonce acc \<Longrightarrow>
     update_account_state S K C acc T1 F = (Inr T2, F') \<Longrightarrow>
     account_history S K C a (hs @ [header_of_account K acc]) T T2"

lemma account_written_inv:
  assumes inv: "tables_inv K T" and w: "account_written K a row h T U"
    and row: "bt_get (at_latest_headers T) a = Some row" and newer: "hd_nonce (hw_header row) < hd_nonce h" and id: "hd_id h = a"
  shows "tables_inv K U"
proof -
  have latest: "bt_get (at_latest_headers U) i = (if i = a then Some (new_header_row K h) else bt_get (at_latest_headers T) i)"
    and hist: "bt_get (at_hist_headers U) c = (if c = hw_commitment row then Some (row, hd_nonce h) else bt_get (at_hist_headers T) c)"
    for i c using w by (simp_all add: account_written_def)
  have keep: "within_history T b n \<Longrightarrow> within_history U b n" for b n
    using row newer by (auto simp: within_history_def latest new_header_row_def)
  have new: "within_history U a (hd_nonce h)" by (simp add: within_history_def latest new_header_row_def)
  have rowD: "hd_id (hw_header row) = a" "hw_commitment row = ko_commitment K (hw_header row)"
    using inv row by (auto simp: tables_inv_def)
  have archived: "within_history U b n"
    if wr: "\<exists>J \<subseteq> rows_of a. archived_write l (\<lambda>T n k. bt_get (ht T) (fst k, n, snd k)) old (hd_nonce h) J T U"
      and old: "\<And>b n s. bt_get (ht T) (b, n, s) \<noteq> None \<Longrightarrow> within_history T b n" and some: "bt_get (ht U) (b, n, s) \<noteq> None"
    for ht :: "account_tables \<Rightarrow> (account_id \<times> u64 \<times> 'k, 'h) btree_map" and l :: "account_tables \<Rightarrow> account_id \<times> 'k \<Rightarrow> 'v option"
      and old b n s
  proof -
    obtain J where J: "J \<subseteq> rows_of a" "archived_write l (\<lambda>T n k. bt_get (ht T) (fst k, n, snd k)) old (hd_nonce h) J T U"
      using wr by (elim exE conjE)
    show ?thesis
    proof (cases "n = hd_nonce h \<and> (b, s) \<in> J")
      case True
      then show ?thesis using J(1) new by auto
    next
      case False
      then have "bt_get (ht U) (b, n, s) = bt_get (ht T) (b, n, s)"
        using archived_write_elsewhere [OF J(2), where k = "(b, s)" and m = n] by simp
      then show ?thesis using old [of b n s] some keep by simp
    qed
  qed
  have inv_hist: "bt_get (at_hist_headers T) c = Some (r, n) \<Longrightarrow>
      hw_commitment r = c \<and> hw_commitment r = ko_commitment K (hw_header r)
      \<and> hd_nonce (hw_header r) < n \<and> within_history T (hd_id (hw_header r)) n" for c r n
    using inv unfolding tables_inv_def by blast
  have inv_slots: "bt_get (at_hist_storage T) (b, n, s) \<noteq> None \<Longrightarrow> within_history T b n" for b n s
    using inv unfolding tables_inv_def by blast
  have inv_entries: "bt_get (at_hist_maps T) (b, n, s) \<noteq> None \<Longrightarrow> within_history T b n" for b n s
    using inv unfolding tables_inv_def by blast
  have inv_assets: "bt_get (at_hist_assets T) (b, n, s) \<noteq> None \<Longrightarrow> within_history T b n" for b n s
    using inv unfolding tables_inv_def by blast
  have ws: "\<exists>J \<subseteq> rows_of a. archived_write slot_latest slot_hist slot_old (hd_nonce h) J T U"
    "\<exists>J \<subseteq> rows_of a. archived_write entry_latest entry_hist (\<lambda>h. h) (hd_nonce h) J T U"
    "\<exists>J \<subseteq> rows_of a. archived_write asset_latest asset_hist (\<lambda>h. h) (hd_nonce h) J T U"
    using w unfolding account_written_def by blast+
  have "\<forall>i row. bt_get (at_latest_headers U) i = Some row \<longrightarrow>
      hd_id (hw_header row) = i \<and> hw_commitment row = ko_commitment K (hw_header row)"
    using inv id by (auto simp: tables_inv_def latest new_header_row_def)
  moreover have "\<forall>c r n. bt_get (at_hist_headers U) c = Some (r, n) \<longrightarrow>
      hw_commitment r = c \<and> hw_commitment r = ko_commitment K (hw_header r)
      \<and> hd_nonce (hw_header r) < n \<and> within_history U (hd_id (hw_header r)) n"
  proof (intro allI impI)
    fix c r n assume found: "bt_get (at_hist_headers U) c = Some (r, n)"
    show "hw_commitment r = c \<and> hw_commitment r = ko_commitment K (hw_header r)
        \<and> hd_nonce (hw_header r) < n \<and> within_history U (hd_id (hw_header r)) n"
    proof (cases "c = hw_commitment row")
      case True
      then have "r = row" "n = hd_nonce h" using found hist [of c] by simp_all
      then show ?thesis using True new newer rowD by simp
    next
      case False
      then have "bt_get (at_hist_headers T) c = Some (r, n)" using found hist [of c] by simp
      from inv_hist [OF this] show ?thesis by (elim conjE) (intro conjI keep; assumption)
    qed
  qed
  moreover have "\<forall>b n s. bt_get (at_hist_storage U) (b, n, s) \<noteq> None \<longrightarrow> within_history U b n"
    by (intro allI impI) (rule archived [where ht = at_hist_storage, OF ws(1) inv_slots])
  moreover have "\<forall>b n s. bt_get (at_hist_maps U) (b, n, s) \<noteq> None \<longrightarrow> within_history U b n"
    by (intro allI impI) (rule archived [where ht = at_hist_maps, OF ws(2) inv_entries])
  moreover have "\<forall>b n s. bt_get (at_hist_assets U) (b, n, s) \<noteq> None \<longrightarrow> within_history U b n"
    by (intro allI impI) (rule archived [where ht = at_hist_assets, OF ws(3) inv_assets])
  moreover have "tables_wf U" using w by (simp add: account_written_def)
  ultimately show ?thesis unfolding tables_inv_def by (intro conjI)
qed

lemma history_written:
  assumes "account_history S K C a hs T T'" "tables_inv K T" "inj (ko_commitment K)"
  shows "tables_inv K T' \<and> (hs \<noteq> [] \<longrightarrow> (\<exists>T1 row. account_history S K C a (butlast hs) T T1 \<and> tables_inv K T1
       \<and> bt_get (at_latest_headers T1) a = Some row \<and> hd_id (last hs) = a
       \<and> hd_nonce (hw_header row) < hd_nonce (last hs) \<and> account_written K a row (last hs) T1 T'))"
  using assms(1,2)
proof (induction rule: account_history.induct)
  case (history_delta hs T T1 row final delta assets roots F T2 F')
  have inv: "tables_inv K T1" using history_delta by blast
  have w: "account_written K a row final T1 T2"
    using apply_account_delta_written [OF inv assms(3) _ _ history_delta.hyps(6)] history_delta.hyps by simp
  have "tables_inv K T2" by (rule account_written_inv [OF inv w]) (use history_delta.hyps in auto)
  then show ?case using history_delta.hyps inv w by auto
next
  case (history_state hs T T1 row acc F T2 F')
  have inv: "tables_inv K T1" using history_state by blast
  have w: "account_written K a row (header_of_account K acc) T1 T2"
    using update_account_state_written [OF inv assms(3) _ _ history_state.hyps(5)] history_state.hyps by simp
  have h: "hd_id (header_of_account K acc) = a" "hd_nonce (header_of_account K acc) = as_nonce acc"
    using history_state.hyps(3) by (simp_all add: header_of_account_def)
  have "tables_inv K T2" by (rule account_written_inv [OF inv w]) (use history_state.hyps h in auto)
  then show ?case using history_state.hyps inv w h by auto
qed auto

text \<open>The rows a history archives, each under the nonce of the state that replaced it.\<close>

definition archived_rows :: "account_ops \<Rightarrow> header_row \<Rightarrow> acct_header list \<Rightarrow> (header_row \<times> u64) list" where
  "archived_rows K row0 hs = zip (row0 # map (new_header_row K) (butlast hs)) (map hd_nonce hs)"

lemma archived_rows_snoc:
  "archived_rows K row0 (hs @ [h]) =
     archived_rows K row0 hs @ [(if hs = [] then row0 else new_header_row K (last hs), hd_nonce h)]"
proof (cases "hs = []")
  case False
  then have "row0 # map (new_header_row K) hs = (row0 # map (new_header_row K) (butlast hs)) @ [new_header_row K (last hs)]"
    by (simp flip: list.map(2) map_append add: append_butlast_last_id) (metis append_butlast_last_id list.map(1) list.map(2) map_append)
  then show ?thesis
    using False zip_append [of "row0 # map (new_header_row K) (butlast hs)" "map hd_nonce hs"
        "[new_header_row K (last hs)]" "[hd_nonce h]"]
    by (simp add: archived_rows_def)
qed (simp add: archived_rows_def)

definition history_effect :: "account_ops \<Rightarrow> account_id \<Rightarrow> acct_header list \<Rightarrow> account_tables \<Rightarrow> account_tables \<Rightarrow> bool" where
  "history_effect K a hs T T' \<longleftrightarrow>
     versions slot_latest slot_hist slot_old (rows_of a) (map hd_nonce hs) T T'
     \<and> versions entry_latest entry_hist (\<lambda>h. h) (rows_of a) (map hd_nonce hs) T T'
     \<and> versions asset_latest asset_hist (\<lambda>h. h) (rows_of a) (map hd_nonce hs) T T'
     \<and> at_codes T' = at_codes T \<and> at_foreign_codes T' = at_foreign_codes T \<and> at_addresses T' = at_addresses T
     \<and> sorted_wrt (<) (map hd_nonce hs) \<and> (\<forall>h \<in> set hs. hd_id h = a)
     \<and> (hs \<noteq> [] \<longrightarrow> (\<exists>row0. bt_get (at_latest_headers T) a = Some row0
          \<and> bt_get (at_codes T) (hd_code_commitment (hw_header row0)) \<noteq> None
          \<and> (\<forall>h \<in> set hs. hd_nonce (hw_header row0) < hd_nonce h)
          \<and> (\<forall>i. bt_get (at_latest_headers T') i =
               (if i = a then Some (new_header_row K (last hs)) else bt_get (at_latest_headers T) i))
          \<and> (\<forall>c r n. bt_get (at_hist_headers T') c = Some (r, n) \<longleftrightarrow>
               bt_get (at_hist_headers T) c = Some (r, n) \<or> (r, n) \<in> set (archived_rows K row0 hs) \<and> c = hw_commitment r)))"

lemma fresh_versions:
  assumes "tables_inv K T" "bt_get (at_latest_headers T) a = Some row" "hd_nonce (hw_header row) < n"
  shows "bt_get (at_hist_storage T) (a, n, s) = None" "bt_get (at_hist_maps T) (a, n, e) = None"
    "bt_get (at_hist_assets T) (a, n, k) = None"
proof -
  have "\<not> within_history T a n" using assms(2,3) by (auto simp: within_history_def)
  then show "bt_get (at_hist_storage T) (a, n, s) = None" "bt_get (at_hist_maps T) (a, n, e) = None"
    "bt_get (at_hist_assets T) (a, n, k) = None"
    using assms(1) unfolding tables_inv_def by blast+
qed

lemma versions_extend:
  "versions latest hist old R ns T U \<Longrightarrow> \<exists>J \<subseteq> R. archived_write latest hist old n J U V \<Longrightarrow>
     \<forall>k \<in> R. hist U n k = None \<Longrightarrow> n \<notin> set ns \<Longrightarrow> versions latest hist old R (ns @ [n]) T V"
  by (elim exE conjE) (rule versions_snoc)

lemma latest_not_archived:
  assumes inv: "tables_inv K T" "inj (ko_commitment K)" and row: "bt_get (at_latest_headers T) a = Some row"
  shows "bt_get (at_hist_headers T) (hw_commitment row) = None"
proof (rule ccontr)
  assume "bt_get (at_hist_headers T) (hw_commitment row) \<noteq> None"
  then obtain r n where "bt_get (at_hist_headers T) (hw_commitment row) = Some (r, n)" by auto
  then have r: "ko_commitment K (hw_header r) = hw_commitment row" "hd_nonce (hw_header r) < n"
    "within_history T (hd_id (hw_header r)) n"
    using inv(1) unfolding tables_inv_def by metis+
  have rowD: "hd_id (hw_header row) = a" "hw_commitment row = ko_commitment K (hw_header row)"
    using inv(1) row unfolding tables_inv_def by blast+
  have "hw_header r = hw_header row" using r(1) rowD(2) injD [OF inv(2)] by simp
  then show False using r(2,3) row rowD(1) by (auto simp: within_history_def)
qed

lemma sorted_last_max: "sorted_wrt (<) (map f hs) \<Longrightarrow> h \<in> set hs \<Longrightarrow> f h \<le> (f (last hs) :: 'a :: linorder)"
proof (induction hs rule: rev_induct)
  case (snoc x hs)
  then show ?case by (auto simp: sorted_wrt_append)
qed simp

lemma history_has_effect:
  assumes "account_history S K C a hs T T'" and inv: "tables_inv K T" "inj (ko_commitment K)"
  shows "history_effect K a hs T T'"
  using assms(1)
proof (induction hs arbitrary: T' rule: rev_induct)
  case Nil
  then have "T' = T" by (auto elim: account_history.cases)
  then show ?case by (simp add: history_effect_def versions_Nil)
next
  case (snoc h hs)
  obtain T1 row where prev: "account_history S K C a hs T T1" and inv1: "tables_inv K T1"
    and row: "bt_get (at_latest_headers T1) a = Some row" and id: "hd_id h = a"
    and newer: "hd_nonce (hw_header row) < hd_nonce h" and w: "account_written K a row h T1 T'"
    using history_written [OF snoc.prems inv] by auto
  have IH: "history_effect K a hs T T1" by (rule snoc.IH [OF prev])
  note fresh = fresh_versions [OF inv1 row newer]
  have latest: "bt_get (at_latest_headers T') i = (if i = a then Some (new_header_row K h) else bt_get (at_latest_headers T1) i)"
    and hist: "bt_get (at_hist_headers T') c = (if c = hw_commitment row then Some (row, hd_nonce h) else bt_get (at_hist_headers T1) c)"
    for i c using w by (simp_all add: account_written_def)
  have hs: "sorted_wrt (<) (map hd_nonce hs)" "\<forall>h \<in> set hs. hd_id h = a"
    and vs: "versions slot_latest slot_hist slot_old (rows_of a) (map hd_nonce hs) T T1"
      "versions entry_latest entry_hist (\<lambda>h. h) (rows_of a) (map hd_nonce hs) T T1"
      "versions asset_latest asset_hist (\<lambda>h. h) (rows_of a) (map hd_nonce hs) T T1"
    and same: "at_codes T1 = at_codes T" "at_foreign_codes T1 = at_foreign_codes T" "at_addresses T1 = at_addresses T"
    using IH unfolding history_effect_def by blast+
  obtain row0 where row0: "bt_get (at_latest_headers T) a = Some row0"
      "row = (if hs = [] then row0 else new_header_row K (last hs))"
      "bt_get (at_codes T) (hd_code_commitment (hw_header row0)) \<noteq> None"
      "\<forall>h \<in> set hs. hd_nonce (hw_header row0) < hd_nonce h"
    and others: "\<And>i. i \<noteq> a \<Longrightarrow> bt_get (at_latest_headers T1) i = bt_get (at_latest_headers T) i"
    and hist1: "\<And>c r n. bt_get (at_hist_headers T1) c = Some (r, n) \<longleftrightarrow>
        bt_get (at_hist_headers T) c = Some (r, n) \<or> (r, n) \<in> set (archived_rows K row0 hs) \<and> c = hw_commitment r"
  proof (cases "hs = []")
    case True
    then have "T1 = T" using prev by (auto elim: account_history.cases)
    then show thesis using True row w by (intro that [of row]) (auto simp: archived_rows_def account_written_def)
  next
    case False
    then obtain r0 where "bt_get (at_latest_headers T) a = Some r0"
      "bt_get (at_codes T) (hd_code_commitment (hw_header r0)) \<noteq> None"
      "\<forall>h \<in> set hs. hd_nonce (hw_header r0) < hd_nonce h"
      "\<And>i. bt_get (at_latest_headers T1) i = (if i = a then Some (new_header_row K (last hs)) else bt_get (at_latest_headers T) i)"
      "\<And>c r n. bt_get (at_hist_headers T1) c = Some (r, n) \<longleftrightarrow>
        bt_get (at_hist_headers T) c = Some (r, n) \<or> (r, n) \<in> set (archived_rows K r0 hs) \<and> c = hw_commitment r"
      using IH unfolding history_effect_def by blast
    then show thesis using False row by (intro that [of r0]) auto
  qed
  have below: "hd_nonce h' < hd_nonce h" if "h' \<in> set hs" for h'
    using sorted_last_max [OF hs(1) that] row0(2) newer that
    by (cases "hs = []") (simp_all add: new_header_row_def)
  have low0: "hd_nonce (hw_header row0) < hd_nonce h"
  proof (cases "hs = []")
    case False
    then have "last hs \<in> set hs" by simp
    then show ?thesis using row0(4) below less_trans by blast
  qed (use row0(2) newer in simp)
  have unarchived: "bt_get (at_hist_headers T1) (hw_commitment row) = None"
    by (rule latest_not_archived [OF inv1 inv(2) row])
  have hist': "bt_get (at_hist_headers T') c = Some (r, n) \<longleftrightarrow>
      bt_get (at_hist_headers T) c = Some (r, n) \<or> (r, n) \<in> set (archived_rows K row0 (hs @ [h])) \<and> c = hw_commitment r" for c r n
  proof -
    have "bt_get (at_hist_headers T') c = Some (r, n) \<longleftrightarrow>
        bt_get (at_hist_headers T1) c = Some (r, n) \<or> r = row \<and> n = hd_nonce h \<and> c = hw_commitment r"
      using unarchived hist [of c] by (cases "c = hw_commitment row") auto
    then show ?thesis using hist1 by (auto simp: archived_rows_snoc row0(2))
  qed
  have nfresh: "hd_nonce h \<notin> set (map hd_nonce hs)" by (auto dest: below simp del: not_less)
  have ws: "\<exists>J \<subseteq> rows_of a. archived_write slot_latest slot_hist slot_old (hd_nonce h) J T1 T'"
    "\<exists>J \<subseteq> rows_of a. archived_write entry_latest entry_hist (\<lambda>h. h) (hd_nonce h) J T1 T'"
    "\<exists>J \<subseteq> rows_of a. archived_write asset_latest asset_hist (\<lambda>h. h) (hd_nonce h) J T1 T'"
    using w unfolding account_written_def by blast+
  have new: "versions slot_latest slot_hist slot_old (rows_of a) (map hd_nonce hs @ [hd_nonce h]) T T'"
    "versions entry_latest entry_hist (\<lambda>h. h) (rows_of a) (map hd_nonce hs @ [hd_nonce h]) T T'"
    "versions asset_latest asset_hist (\<lambda>h. h) (rows_of a) (map hd_nonce hs @ [hd_nonce h]) T T'"
    by (rule versions_extend [OF vs(1) ws(1) _ nfresh], simp add: fresh)
      (rule versions_extend [OF vs(2) ws(2) _ nfresh], simp add: fresh,
       rule versions_extend [OF vs(3) ws(3) _ nfresh], simp add: fresh)
  show ?case
    unfolding history_effect_def
  proof (intro conjI impI exI [of _ row0])
    show "at_codes T' = at_codes T" "at_foreign_codes T' = at_foreign_codes T" "at_addresses T' = at_addresses T"
      using w same by (simp_all add: account_written_def)
    show "sorted_wrt (<) (map hd_nonce (hs @ [h]))" using hs(1) below by (simp add: sorted_wrt_append)
    show "\<forall>i. bt_get (at_latest_headers T') i =
        (if i = a then Some (new_header_row K (last (hs @ [h]))) else bt_get (at_latest_headers T) i)"
      using latest others by simp
  qed (use new hs(2) id row0 low0 hist' in auto)
qed

section \<open>Undoing a history\<close>

lemma singleton_rows:
  assumes "bt_wf m" "\<And>y. y \<in> set (filter P m) \<longleftrightarrow> y = x"
  shows "filter P m = [x]"
proof -
  have "distinct (filter P m)" using bt_wf_distinct [OF bt_wf_filter [OF assms(1), of P]] by (simp add: distinct_map)
  moreover have "set (filter P m) = {x}" using assms(2) by auto
  ultimately show ?thesis by (cases "filter P m"; cases "tl (filter P m)") auto
qed

lemma group_single:
  assumes "\<forall>p \<in> set ps. fst p = a" "ps \<noteq> []"
  shows "fold (\<lambda>(a, n). bt_upsert a (\<lambda>ns. ns @ [n]) [n]) ps [] = [(a, map snd ps)]"
proof -
  have grow: "fold (\<lambda>(a, n). bt_upsert a (\<lambda>ns. ns @ [n]) [n]) qs [(a, xs)] = [(a, xs @ map snd qs)]"
    if "\<forall>p \<in> set qs. fst p = a" for qs xs
    using that by (induction qs arbitrary: xs) (auto simp: bt_upsert_def bt_modify_def)
  show ?thesis using assms grow [of "tl ps" "[snd (hd ps)]"] by (cases ps) (auto simp: bt_upsert_def)
qed

lemma sorted_list_of_strict: "sorted_wrt (<) (xs :: 'a :: linorder list) \<Longrightarrow> set ys = set xs \<Longrightarrow> sorted_list_of_set (set ys) = xs"
  by (simp add: strict_sorted_iff sorted_list_of_set.idem_if_sorted_distinct)

lemma archived_rows_mem:
  assumes "(r, n) \<in> set (archived_rows K row0 hs)"
  shows "n \<in> hd_nonce ` set hs" "r = row0 \<or> (\<exists>h \<in> set (butlast hs). r = new_header_row K h)"
  using set_zip_rightD [OF assms [unfolded archived_rows_def]] set_zip_leftD [OF assms [unfolded archived_rows_def]] by auto

lemma butlast_or_last: "h \<in> set hs \<Longrightarrow> h \<in> set (butlast hs) \<or> h = last hs"
  by (cases hs rule: rev_cases) auto

lemma archived_rows_cover: "h \<in> set (butlast hs) \<Longrightarrow> \<exists>n \<in> hd_nonce ` set hs. (new_header_row K h, n) \<in> set (archived_rows K row0 hs)"
proof (induction hs rule: rev_induct)
  case (snoc x hs)
  then have h: "h \<in> set (butlast hs) \<or> h = last hs" and ne: "hs \<noteq> []" using butlast_or_last [of h hs] by auto
  from h show ?case
  proof
    assume "h \<in> set (butlast hs)"
    then show ?thesis using snoc.IH by (auto simp: archived_rows_snoc)
  qed (use ne in \<open>auto simp: archived_rows_snoc\<close>)
qed simp

lemma archived_rows_first: "hs \<noteq> [] \<Longrightarrow> (row0, hd_nonce (hd hs)) \<in> set (archived_rows K row0 hs)"
  by (cases hs) (auto simp: archived_rows_def)

lemma archived_rows_at_first:
  assumes "sorted_wrt (<) (map hd_nonce hs)" "(r, hd_nonce (hd hs)) \<in> set (archived_rows K row0 hs)"
  shows "r = row0"
proof (cases hs)
  case (Cons h hs')
  have "hd_nonce h \<notin> set (map hd_nonce hs')" using assms(1) Cons by auto
  then show ?thesis using assms(2) Cons by (auto simp: archived_rows_def dest: set_zip_rightD)
qed (use assms in \<open>simp add: archived_rows_def\<close>)

lemma discarded_nonces_history:
  assumes eff: "history_effect K a hs T T'" and "hs \<noteq> []" and inv: "tables_inv K T'" "inj (ko_commitment K)"
    and U: "at_latest_headers U = at_latest_headers T'" "bt_wf (at_hist_headers U)"
      "\<And>c r n. bt_get (at_hist_headers U) c = Some (r, n) \<Longrightarrow> bt_get (at_hist_headers T') c = Some (r, n)"
      "\<And>c r n. bt_get (at_hist_headers T') c = Some (r, n) \<Longrightarrow> hd_id (hw_header r) = a \<Longrightarrow> n \<in> hd_nonce ` set hs \<Longrightarrow>
         bt_get (at_hist_headers U) c = Some (r, n)"
    and cs: "set cs = ko_commitment K ` set hs"
  shows "discarded_nonces cs U = [(a, rev (map hd_nonce hs))]"
proof -
  obtain row0 where last: "bt_get (at_latest_headers T') a = Some (new_header_row K (last hs))"
    and hist: "\<And>c r n. bt_get (at_hist_headers T') c = Some (r, n) \<longleftrightarrow>
        bt_get (at_hist_headers T) c = Some (r, n) \<or> (r, n) \<in> set (archived_rows K row0 hs) \<and> c = hw_commitment r"
    using eff \<open>hs \<noteq> []\<close> unfolding history_effect_def by auto
  have hs: "\<forall>h \<in> set hs. hd_id h = a" "sorted_wrt (<) (map hd_nonce hs)" using eff by (simp_all add: history_effect_def)
  have wfL: "bt_wf (at_latest_headers U)" using inv(1) U(1) by (simp add: tables_inv_def tables_wf_def)
  define L where "L = filter (\<lambda>(a, row). hw_commitment row \<in> set cs) (at_latest_headers U)"
  define H where "H = filter (\<lambda>(c, _). c \<in> set cs) (at_hist_headers U)"
  define ps where "ps = map (\<lambda>(a, row). (a, hd_nonce (hw_header row))) L
     @ map (\<lambda>(c, (row, n)). (hd_id (hw_header row), hd_nonce (hw_header row))) H"
  have in_hs: "h \<in> set hs" if "ko_commitment K h \<in> set cs" for h
    using that cs injD [OF inv(2)] by blast
  have L: "p = a \<and> hw_header row \<in> set hs" if "(p, row) \<in> set L" for p row
  proof -
    have "bt_get (at_latest_headers T') p = Some row" "hw_commitment row \<in> set cs"
      using that bt_get_iff_mem [OF wfL] U(1) by (auto simp: L_def)
    then have "hd_id (hw_header row) = p" "ko_commitment K (hw_header row) \<in> set cs"
      using inv(1) unfolding tables_inv_def by metis+
    then show ?thesis using in_hs hs(1) by auto
  qed
  have H: "hw_header row \<in> set hs" if "(c, (row, n)) \<in> set H" for c row n
  proof -
    have "bt_get (at_hist_headers T') c = Some (row, n)" "c \<in> set cs"
      using that bt_get_iff_mem [OF U(2)] U(3) by (auto simp: H_def)
    then have "ko_commitment K (hw_header row) \<in> set cs" using inv(1) unfolding tables_inv_def by metis
    then show ?thesis by (rule in_hs)
  qed
  have fst: "\<forall>p \<in> set ps. fst p = a" using L H hs(1) by (fastforce simp: ps_def)
  have lastL: "(a, new_header_row K (last hs)) \<in> set L"
    using last bt_get_iff_mem [OF wfL] U(1) cs \<open>hs \<noteq> []\<close> by (auto simp: L_def new_header_row_def)
  have "set (map snd ps) = set (map hd_nonce hs)"
  proof (rule set_eqI, rule iffI)
    fix n assume "n \<in> set (map snd ps)"
    then show "n \<in> set (map hd_nonce hs)" using L H by (fastforce simp: ps_def)
  next
    fix n assume "n \<in> set (map hd_nonce hs)"
    then obtain h where h: "h \<in> set hs" "n = hd_nonce h" by auto
    show "n \<in> set (map snd ps)"
    proof (cases "h \<in> set (butlast hs)")
      case True
      then obtain m where m: "m \<in> hd_nonce ` set hs" "(new_header_row K h, m) \<in> set (archived_rows K row0 hs)"
        using archived_rows_cover by blast
      then have "bt_get (at_hist_headers U) (ko_commitment K h) = Some (new_header_row K h, m)"
        using U(4) hist hs(1) h(1) by (simp add: new_header_row_def)
      then have "(ko_commitment K h, (new_header_row K h, m)) \<in> set H"
        using bt_get_iff_mem [OF U(2)] cs h(1) by (auto simp: H_def)
      then show ?thesis using h(2) by (force simp: ps_def new_header_row_def)
    next
      case False
      then have "h = last hs" using butlast_or_last [OF h(1)] by blast
      then show ?thesis using lastL h(2) by (force simp: ps_def new_header_row_def)
    qed
  qed
  then have nonces: "sorted_list_of_set (set (map snd ps)) = map hd_nonce hs" by (rule sorted_list_of_strict [OF hs(2)])
  have "ps \<noteq> []" using lastL by (auto simp: ps_def)
  then have "discarded_nonces cs U = map (\<lambda>(a, ns). (a, rev (sorted_list_of_set (set ns)))) [(a, map snd ps)]"
    unfolding discarded_nonces_def Let_def L_def [symmetric] H_def [symmetric] ps_def [symmetric]
    by (simp add: group_single [OF fst])
  then show ?thesis using nonces by simp
qed

text \<open>
  The tables an undo may start from: those at the end of the history, except that the archive may
  have lost rows of versions before it.
\<close>

definition undoable :: "account_id \<Rightarrow> u64 set \<Rightarrow> account_tables \<Rightarrow> account_tables \<Rightarrow> bool" where
  "undoable a ns T' U \<longleftrightarrow> tables_wf U
     \<and> at_latest_headers U = at_latest_headers T' \<and> at_latest_storage U = at_latest_storage T'
     \<and> at_latest_maps U = at_latest_maps T' \<and> at_latest_assets U = at_latest_assets T'
     \<and> (\<forall>n \<in> ns. (\<forall>s. bt_get (at_hist_storage U) (a, n, s) = bt_get (at_hist_storage T') (a, n, s))
          \<and> (\<forall>s. bt_get (at_hist_maps U) (a, n, s) = bt_get (at_hist_maps T') (a, n, s))
          \<and> (\<forall>s. bt_get (at_hist_assets U) (a, n, s) = bt_get (at_hist_assets T') (a, n, s)))
     \<and> (\<forall>c r n. bt_get (at_hist_headers U) c = Some (r, n) \<longrightarrow> bt_get (at_hist_headers T') c = Some (r, n))
     \<and> (\<forall>c r n. bt_get (at_hist_headers T') c = Some (r, n) \<longrightarrow> hd_id (hw_header r) = a \<longrightarrow> n \<in> ns \<longrightarrow>
          bt_get (at_hist_headers U) c = Some (r, n)
          \<and> (bt_get (at_codes T') (hd_code_commitment (hw_header r)) \<noteq> None \<longrightarrow>
               bt_get (at_codes U) (hd_code_commitment (hw_header r)) \<noteq> None))"

lemma undoableD:
  assumes "undoable a ns T' U"
  shows "tables_wf U" "at_latest_headers U = at_latest_headers T'" "at_latest_storage U = at_latest_storage T'"
    "at_latest_maps U = at_latest_maps T'" "at_latest_assets U = at_latest_assets T'"
    "n \<in> ns \<Longrightarrow> bt_get (at_hist_storage U) (a, n, s) = bt_get (at_hist_storage T') (a, n, s)"
    "n \<in> ns \<Longrightarrow> bt_get (at_hist_maps U) (a, n, e) = bt_get (at_hist_maps T') (a, n, e)"
    "n \<in> ns \<Longrightarrow> bt_get (at_hist_assets U) (a, n, k) = bt_get (at_hist_assets T') (a, n, k)"
    "bt_get (at_hist_headers U) c = Some (r, m) \<Longrightarrow> bt_get (at_hist_headers T') c = Some (r, m)"
    "bt_get (at_hist_headers T') c = Some (r, m) \<Longrightarrow> hd_id (hw_header r) = a \<Longrightarrow> m \<in> ns \<Longrightarrow>
       bt_get (at_hist_headers U) c = Some (r, m)"
    "bt_get (at_hist_headers T') c = Some (r, m) \<Longrightarrow> hd_id (hw_header r) = a \<Longrightarrow> m \<in> ns \<Longrightarrow>
       bt_get (at_codes T') (hd_code_commitment (hw_header r)) \<noteq> None \<Longrightarrow>
       bt_get (at_codes U) (hd_code_commitment (hw_header r)) \<noteq> None"
  using assms unfolding undoable_def by blast+

lemma history_effectD:
  assumes "history_effect K a hs T T'"
  shows "versions slot_latest slot_hist slot_old (rows_of a) (map hd_nonce hs) T T'"
    "versions entry_latest entry_hist (\<lambda>h. h) (rows_of a) (map hd_nonce hs) T T'"
    "versions asset_latest asset_hist (\<lambda>h. h) (rows_of a) (map hd_nonce hs) T T'"
    "at_codes T' = at_codes T" "at_foreign_codes T' = at_foreign_codes T" "at_addresses T' = at_addresses T"
    "sorted_wrt (<) (map hd_nonce hs)"
  using assms unfolding history_effect_def by blast+

lemma undoable_refl: "tables_wf T' \<Longrightarrow> undoable a ns T' T'"
  by (simp add: undoable_def)

lemma fold_restore_keeps:
  "at_hist_storage (fold (restore_old_values_for_nonce a) ns T) = at_hist_storage T"
  "at_hist_maps (fold (restore_old_values_for_nonce a) ns T) = at_hist_maps T"
  "at_hist_assets (fold (restore_old_values_for_nonce a) ns T) = at_hist_assets T"
  "at_hist_headers (fold (restore_old_values_for_nonce a) ns T) = at_hist_headers T"
  "at_latest_headers (fold (restore_old_values_for_nonce a) ns T) = at_latest_headers T"
  "at_codes (fold (restore_old_values_for_nonce a) ns T) = at_codes T"
  "at_foreign_codes (fold (restore_old_values_for_nonce a) ns T) = at_foreign_codes T"
  "at_addresses (fold (restore_old_values_for_nonce a) ns T) = at_addresses T"
  by (induction ns arbitrary: T) simp_all

lemma restore_history:
  assumes eff: "history_effect K a hs T T'" and "tables_wf T" and U: "undoable a (hd_nonce ` set hs) T' U"
  shows "fold (restore_old_values_for_nonce a) (rev (map hd_nonce hs)) U =
    U\<lparr>at_latest_storage := at_latest_storage T, at_latest_maps := at_latest_maps T, at_latest_assets := at_latest_assets T\<rparr>"
    (is "?R = _")
proof -
  have wf: "tables_wf U" by (rule undoableD(1) [OF U])
  have 1: "tables_wf ?R \<and> slot_latest ?R = slot_latest T \<and> slot_hist ?R = slot_hist U"
    by (rule slots.restore_run [OF history_effectD(1) [OF eff] wf]) (auto simp: undoableD(3) [OF U] undoableD(6) [OF U])
  have 2: "tables_wf ?R \<and> entry_latest ?R = entry_latest T \<and> entry_hist ?R = entry_hist U"
    by (rule entries.restore_run [OF history_effectD(2) [OF eff] wf]) (auto simp: undoableD(4) [OF U] undoableD(7) [OF U])
  have 3: "tables_wf ?R \<and> asset_latest ?R = asset_latest T \<and> asset_hist ?R = asset_hist U"
    by (rule assets.restore_run [OF history_effectD(3) [OF eff] wf]) (auto simp: undoableD(5) [OF U] undoableD(8) [OF U])
  have "at_latest_storage ?R = at_latest_storage T"
    by (rule bt.iter_unique) (use 1 assms(2) in \<open>simp_all add: tables_wf_def\<close>)
  moreover have "at_latest_maps ?R = at_latest_maps T"
    by (rule bt.iter_unique) (use 2 assms(2) in \<open>simp_all add: tables_wf_def\<close>)
  moreover have "at_latest_assets ?R = at_latest_assets T"
    by (rule bt.iter_unique) (use 3 assms(2) in \<open>simp_all add: tables_wf_def\<close>)
  ultimately show ?thesis by (simp add: fold_restore_keeps)
qed

lemma undo_history_nonces:
  assumes eff: "history_effect K a hs T T'" "hs \<noteq> []" and inv: "tables_inv K T" "tables_inv K T'" "inj (ko_commitment K)"
    and U: "undoable a (hd_nonce ` set hs) T' U"
  shows "undo_account_nonces C a (rev (map hd_nonce hs)) U =
    Inr (delete_archived a (rev (map hd_nonce hs))
      (U\<lparr>at_latest_storage := at_latest_storage T, at_latest_maps := at_latest_maps T,
        at_latest_assets := at_latest_assets T, at_latest_headers := at_latest_headers T\<rparr>))"
proof -
  obtain row0 where row0: "bt_get (at_latest_headers T) a = Some row0"
      "bt_get (at_codes T) (hd_code_commitment (hw_header row0)) \<noteq> None"
      "\<forall>h \<in> set hs. hd_nonce (hw_header row0) < hd_nonce h"
    and latest: "\<And>i. bt_get (at_latest_headers T') i =
        (if i = a then Some (new_header_row K (last hs)) else bt_get (at_latest_headers T) i)"
    and hist: "\<And>c r n. bt_get (at_hist_headers T') c = Some (r, n) \<longleftrightarrow>
        bt_get (at_hist_headers T) c = Some (r, n) \<or> (r, n) \<in> set (archived_rows K row0 hs) \<and> c = hw_commitment r"
    and sorted: "sorted_wrt (<) (map hd_nonce hs)" and codes: "at_codes T' = at_codes T"
    using eff unfolding history_effect_def by blast
  let ?ns = "map hd_nonce hs" and ?n = "hd_nonce (hd hs)"
  have n: "last (rev ?ns) = ?n" "?n \<in> hd_nonce ` set hs" using eff(2) by (simp_all add: last_rev hd_map)
  have row0D: "hd_id (hw_header row0) = a" "hw_commitment row0 = ko_commitment K (hw_header row0)"
    using inv(1) row0(1) unfolding tables_inv_def by blast+
  have wf: "bt_wf (at_hist_headers U)" "bt_wf (at_latest_headers T)" "bt_wf (at_latest_headers U)"
    using undoableD(1) [OF U] inv(1) by (simp_all add: tables_inv_def tables_wf_def)
  have histU: "\<And>c r m. bt_get (at_hist_headers U) c = Some (r, m) \<Longrightarrow> bt_get (at_hist_headers T') c = Some (r, m)"
    by (rule undoableD(9) [OF U])
  have first: "bt_get (at_hist_headers T') (hw_commitment row0) = Some (row0, ?n)"
    using hist archived_rows_first [OF eff(2)] by blast
  have first_U: "bt_get (at_hist_headers U) (hw_commitment row0) = Some (row0, ?n)"
    "bt_get (at_codes U) (hd_code_commitment (hw_header row0)) \<noteq> None"
    using undoableD(10,11) [OF U first row0D(1) n(2)] row0(2) codes by simp_all
  have "filter (\<lambda>(_, (row, n)). hd_id (hw_header row) = a \<and> n = ?n) (at_hist_headers U) = [(hw_commitment row0, (row0, ?n))]"
  proof (rule singleton_rows [OF wf(1)])
    fix y
    show "y \<in> set (filter (\<lambda>(_, (row, n)). hd_id (hw_header row) = a \<and> n = ?n) (at_hist_headers U))
        \<longleftrightarrow> y = (hw_commitment row0, (row0, ?n))"
    proof
      assume mem: "y \<in> set (filter (\<lambda>(_, (row, n)). hd_id (hw_header row) = a \<and> n = ?n) (at_hist_headers U))"
      obtain c r m where "y = (c, (r, m))" by (metis surj_pair)
      then have y: "y = (c, (r, ?n))" "hd_id (hw_header r) = a" "bt_get (at_hist_headers U) c = Some (r, ?n)"
        using mem bt_get_iff_mem [OF wf(1)] by auto
      have "bt_get (at_hist_headers T) c \<noteq> Some (r, ?n)"
      proof
        assume "bt_get (at_hist_headers T) c = Some (r, ?n)"
        then have "within_history T a ?n" using inv(1) y(2) unfolding tables_inv_def by metis
        then show False using row0(1,3) n(2) by (auto simp: within_history_def)
      qed
      then have "(r, ?n) \<in> set (archived_rows K row0 hs)" "c = hw_commitment r" using histU [OF y(3)] hist by blast+
      moreover from this(1) have "r = row0" by (rule archived_rows_at_first [OF sorted])
      ultimately show "y = (hw_commitment row0, (row0, ?n))" using y(1) by simp
    next
      assume "y = (hw_commitment row0, (row0, ?n))"
      then show "y \<in> set (filter (\<lambda>(_, (row, n)). hd_id (hw_header row) = a \<and> n = ?n) (at_hist_headers U))"
        using first_U(1) bt_get_iff_mem [OF wf(1)] row0D(1) by simp
    qed
  qed
  moreover have restored: "at_latest_headers T =
      bt_insert a row0 (filter (\<lambda>(i, r). hw_commitment r \<noteq> hw_commitment row0) (at_latest_headers U))"
  proof (rule bt.iter_unique [OF wf(2)])
    show "bt_get (at_latest_headers T) =
        bt_get (bt_insert a row0 (filter (\<lambda>(i, r). hw_commitment r \<noteq> hw_commitment row0) (at_latest_headers U)))"
      using filter_commitment_get [OF inv(2,3), of _ "hw_header row0"] latest row0(1) row0D
      by (intro ext) (simp add: undoableD(2) [OF U])
  qed (simp add: bt_wf_filter wf(3))
  have "tables_wf T" using inv(1) by (simp add: tables_inv_def)
  note restore = restore_history [OF eff(1) this U]
  show ?thesis
    using calculation first_U(2) row0D(1)
    unfolding undo_account_nonces_def Let_def n(1) restore
    by (simp add: insert_latest_header_def restored)
qed

lemma undo_history:
  assumes hist: "account_history S K C a hs T T'" "hs \<noteq> []" and inv: "tables_inv K T" "inj (ko_commitment K)"
    and U: "undoable a (hd_nonce ` set hs) T' U" and ds: "snd ` set ds = ko_commitment K ` set hs"
  shows "fst (undo_account_state S C ds U F) =
    Inr (delete_archived a (rev (map hd_nonce hs))
      (U\<lparr>at_latest_storage := at_latest_storage T, at_latest_maps := at_latest_maps T,
        at_latest_assets := at_latest_assets T, at_latest_headers := at_latest_headers T\<rparr>))"
proof -
  have eff: "history_effect K a hs T T'" by (rule history_has_effect [OF hist(1) inv])
  have inv': "tables_inv K T'" using history_written [OF hist(1) inv] by blast
  have "discarded_nonces (map snd ds) U = [(a, rev (map hd_nonce hs))]"
    by (rule discarded_nonces_history [OF eff hist(2) inv' inv(2) undoableD(2) [OF U] _ undoableD(9) [OF U] undoableD(10) [OF U]])
      (use undoableD(1) [OF U] ds in \<open>auto simp: tables_wf_def\<close>)
  moreover have "ds \<noteq> []" using ds hist(2) by auto
  ultimately show ?thesis
    by (simp add: undo_account_state_def fbind_def fpure_def undo_history_nonces [OF eff hist(2) inv(1) inv' inv(2) U])
qed

lemma archive_after_history:
  fixes ht :: "account_tables \<Rightarrow> (account_id \<times> u64 \<times> 'k :: linorder, 'h) btree_map"
  assumes "versions latest (\<lambda>T n k. bt_get (ht T) (fst k, n, snd k)) old (rows_of a) ns T T'" "bt_wf (ht T)" "bt_wf (ht T')"
  shows "filter (\<lambda>((a', n, _), _). \<not> (a' = a \<and> n \<in> set (rev ns))) (ht T') = ht T"
proof (rule bt.iter_unique)
  show "bt_get (filter (\<lambda>((a', n, _), _). \<not> (a' = a \<and> n \<in> set (rev ns))) (ht T')) = bt_get (ht T)"
  proof
    fix k :: "account_id \<times> u64 \<times> 'k"
    obtain b n s where k: "k = (b, n, s)" by (cases k)
    show "bt_get (filter (\<lambda>((a', n, _), _). \<not> (a' = a \<and> n \<in> set (rev ns))) (ht T')) k = bt_get (ht T) k"
      using versions_archive [OF assms(1), where m = n and k = "(b, s)"]
      unfolding k by (subst get_filter_key' [where P = "\<lambda>(a', n, s). \<not> (a' = a \<and> n \<in> set (rev ns))"]) (auto split: if_splits)
  qed
qed (use assms in \<open>simp_all add: bt_wf_filter\<close>)

lemma undone_tables:
  assumes eff: "history_effect K a hs T T'" "hs \<noteq> []" and inv: "tables_inv K T" "tables_inv K T'"
  shows "delete_archived a (rev (map hd_nonce hs))
      (T'\<lparr>at_latest_storage := at_latest_storage T, at_latest_maps := at_latest_maps T,
        at_latest_assets := at_latest_assets T, at_latest_headers := at_latest_headers T\<rparr>) = T"
proof -
  obtain row0 where row0: "bt_get (at_latest_headers T) a = Some row0" "\<forall>h \<in> set hs. hd_nonce (hw_header row0) < hd_nonce h"
    and hist: "\<And>c r n. bt_get (at_hist_headers T') c = Some (r, n) \<longleftrightarrow>
        bt_get (at_hist_headers T) c = Some (r, n) \<or> (r, n) \<in> set (archived_rows K row0 hs) \<and> c = hw_commitment r"
    using eff unfolding history_effect_def by blast
  have hs: "\<forall>h \<in> set hs. hd_id h = a" using eff(1) by (simp add: history_effect_def)
  have row0D: "hd_id (hw_header row0) = a" using inv(1) row0(1) unfolding tables_inv_def by blast
  have wf: "tables_wf T" "tables_wf T'" using inv by (simp_all add: tables_inv_def)
  have gone: "hd_id (hw_header r) = a \<and> n \<in> set (rev (map hd_nonce hs))" if "(r, n) \<in> set (archived_rows K row0 hs)" for r n
    using archived_rows_mem [OF that] row0D hs by (auto simp: new_header_row_def dest: in_set_butlastD)
  have kept: "\<not> (hd_id (hw_header r) = a \<and> n \<in> set (rev (map hd_nonce hs)))" if "bt_get (at_hist_headers T) c = Some (r, n)" for c r n
  proof
    assume "hd_id (hw_header r) = a \<and> n \<in> set (rev (map hd_nonce hs))"
    moreover have "within_history T (hd_id (hw_header r)) n" using inv(1) that unfolding tables_inv_def by blast
    ultimately show False using row0 by (auto simp: within_history_def)
  qed
  have "filter (\<lambda>(_, (row, n)). \<not> (hd_id (hw_header row) = a \<and> n \<in> set (rev (map hd_nonce hs)))) (at_hist_headers T') = at_hist_headers T"
  proof (rule bt.iter_unique)
    show "bt_get (filter (\<lambda>(_, (row, n)). \<not> (hd_id (hw_header row) = a \<and> n \<in> set (rev (map hd_nonce hs)))) (at_hist_headers T'))
        = bt_get (at_hist_headers T)"
    proof
      fix c
      have wf': "bt_wf (at_hist_headers T')" using wf(2) by (simp add: tables_wf_def)
      show "bt_get (filter (\<lambda>(_, (row, n)). \<not> (hd_id (hw_header row) = a \<and> n \<in> set (rev (map hd_nonce hs)))) (at_hist_headers T')) c
          = bt_get (at_hist_headers T) c"
      proof (cases "bt_get (at_hist_headers T') c")
        case None
        then have "bt_get (at_hist_headers T) c = None" using hist by (metis option.exhaust surj_pair)
        then show ?thesis using None by (simp add: bt_get_filter [OF wf'])
      next
        case (Some y)
        obtain r n where y: "y = (r, n)" by (cases y)
        show ?thesis
        proof (cases "bt_get (at_hist_headers T) c = Some (r, n)")
          case True
          then show ?thesis using Some y kept by (simp add: bt_get_filter [OF wf'])
        next
          case False
          then have "(r, n) \<in> set (archived_rows K row0 hs)" using Some y hist by blast
          moreover have "bt_get (at_hist_headers T) c = None" using False Some y hist by (metis option.exhaust surj_pair option.inject)
          ultimately show ?thesis using Some y gone by (simp add: bt_get_filter [OF wf'])
        qed
      qed
    qed
  qed (use wf in \<open>simp_all add: tables_wf_def bt_wf_filter\<close>)
  moreover have "filter (\<lambda>((a', n, _), _). \<not> (a' = a \<and> n \<in> set (rev (map hd_nonce hs)))) (at_hist_storage T') = at_hist_storage T"
    by (rule archive_after_history [where ht = at_hist_storage, OF history_effectD(1) [OF eff(1)]])
      (use wf in \<open>simp_all add: tables_wf_def\<close>)
  moreover have "filter (\<lambda>((a', n, _), _). \<not> (a' = a \<and> n \<in> set (rev (map hd_nonce hs)))) (at_hist_maps T') = at_hist_maps T"
    by (rule archive_after_history [where ht = at_hist_maps, OF history_effectD(2) [OF eff(1)]])
      (use wf in \<open>simp_all add: tables_wf_def\<close>)
  moreover have "filter (\<lambda>((a', n, _), _). \<not> (a' = a \<and> n \<in> set (rev (map hd_nonce hs)))) (at_hist_assets T') = at_hist_assets T"
    by (rule archive_after_history [where ht = at_hist_assets, OF history_effectD(3) [OF eff(1)]])
      (use wf in \<open>simp_all add: tables_wf_def\<close>)
  ultimately show ?thesis
    using history_effectD(4,5,6) [OF eff(1)]
    unfolding delete_archived_def by (intro account_tables.equality) simp_all
qed

end
