(* ===== verification/Sqlite_Account_Undo.thy ===== *)
theory Sqlite_Account_Undo
  imports Sqlite_Account_History "HOL-Library.Countable"
begin

text \<open>
  Undoing, pruning and locking accounts in the SQLite store: what a pruning removes and counts, that
  it leaves what a discard needs, that locks cannot be lost by a discard, and what a discard does to
  the forest of an account that was reopened.
\<close>

section \<open>Pruning\<close>

lemma code_referenced_cong [simp]: "code_referenced c (T\<lparr>at_codes := m\<rparr>) = code_referenced c T"
  by (simp add: code_referenced_def)

lemma length_bt_remove: "bt_wf m \<Longrightarrow> length (bt_remove k m) + (if bt_get m k = None then 0 else 1) = length m"
proof (induction m)
  case (Cons x m)
  obtain k' v where x: "x = (k', v)" by (cases x)
  have "bt_get m k' = None" and wf: "bt_wf m" using Cons.prems by (force simp: x bt_wf_Cons map_of_eq_None_iff)+
  then show ?case using Cons.IH [OF wf] by (auto simp: x bt_remove_def)
qed (simp add: bt_remove_def)

lemma fold_delete_code:
  assumes "bt_wf (at_codes T)"
  shows "fold delete_code cs (T, n) =
    (T\<lparr>at_codes := filter (\<lambda>(c, _). c \<notin> set cs \<or> code_referenced c T) (at_codes T)\<rparr>,
     n + length (filter (\<lambda>(c, _). \<not> (c \<notin> set cs \<or> code_referenced c T)) (at_codes T)))"
  using assms
proof (induction cs arbitrary: T n)
  case Nil
  then show ?case by (simp add: case_prod_beta')
next
  case (Cons c cs)
  show ?case
  proof (cases "code_referenced c T")
    case True
    then have "delete_code c (T, n) = (T, n)" by (simp add: delete_code_def)
    moreover have "(c' \<notin> set (c # cs) \<or> code_referenced c' T) = (c' \<notin> set cs \<or> code_referenced c' T)" for c'
      using True by auto
    ultimately show ?thesis using Cons by simp
  next
    case False
    let ?T = "T\<lparr>at_codes := bt_remove c (at_codes T)\<rparr>"
    have step: "delete_code c (T, n) = (?T, n + (if bt_get (at_codes T) c = None then 0 else 1))"
      using False by (simp add: delete_code_def)
    have keep: "filter (\<lambda>(c', _). c' \<notin> set cs \<or> code_referenced c' T) (bt_remove c (at_codes T)) =
        filter (\<lambda>(c', _). c' \<notin> set (c # cs) \<or> code_referenced c' T) (at_codes T)"
      using False by (auto simp: bt_remove_def intro!: filter_cong)
    have len: "length (filter P m) + length (filter (\<lambda>x. \<not> P x) m) = length m" for P :: "digest \<times> bytes \<Rightarrow> bool" and m
      by (induction m) auto
    show ?thesis
      using Cons.IH [of ?T] Cons.prems step keep length_bt_remove [OF Cons.prems, of c]
        len [of "\<lambda>(c', _). c' \<notin> set (c # cs) \<or> code_referenced c' T" "at_codes T"]
        len [of "\<lambda>(c', _). c' \<notin> set cs \<or> code_referenced c' T" "bt_remove c (at_codes T)"]
      by (simp add: case_prod_beta')
  qed
qed

text \<open>The tables without the rows an account had archived up to a nonce, read as signed columns.\<close>

definition pruned_rows :: "account_id \<Rightarrow> u64 \<Rightarrow> account_tables \<Rightarrow> account_tables" where
  "pruned_rows a m T =
     T\<lparr>at_hist_headers := filter (\<lambda>(_, (row, n)). \<not> (hd_id (hw_header row) = a \<and> n <=s m)) (at_hist_headers T),
       at_hist_storage := filter (\<lambda>((a', n, _), _). \<not> (a' = a \<and> n <=s m)) (at_hist_storage T),
       at_hist_maps := filter (\<lambda>((a', n, _), _). \<not> (a' = a \<and> n <=s m)) (at_hist_maps T),
       at_hist_assets := filter (\<lambda>((a', n, _), _). \<not> (a' = a \<and> n <=s m)) (at_hist_assets T)\<rparr>"

definition table_rows :: "account_tables \<Rightarrow> nat" where
  "table_rows T = length (at_codes T) + length (at_hist_headers T) + length (at_hist_storage T)
     + length (at_hist_maps T) + length (at_hist_assets T)"

lemma prune_account_history_eq:
  fixes a m
  assumes "bt_wf (at_codes T)"
  defines "P \<equiv> pruned_rows a m T"
  defines "cs \<equiv> (\<lambda>(_, (row, _)). hd_code_commitment (hw_header row)) `
       set (filter (\<lambda>(_, (row, n)). hd_id (hw_header row) = a \<and> n <=s m) (at_hist_headers T))"
  shows "prune_account_history a m T =
    (P\<lparr>at_codes := filter (\<lambda>(c, _). c \<notin> cs \<or> code_referenced c P) (at_codes T)\<rparr>,
     table_rows T - table_rows (P\<lparr>at_codes := filter (\<lambda>(c, _). c \<notin> cs \<or> code_referenced c P) (at_codes T)\<rparr>))"
proof -
  have codes: "at_codes P = at_codes T" by (simp add: P_def pruned_rows_def)
  have fold: "fold delete_code (remdups (map (\<lambda>(_, (row, _)). hd_code_commitment (hw_header row))
       (filter (\<lambda>(_, (row, n)). hd_id (hw_header row) = a \<and> n <=s m) (at_hist_headers T)))) (P, k) =
    (P\<lparr>at_codes := filter (\<lambda>(c, _). c \<notin> cs \<or> code_referenced c P) (at_codes T)\<rparr>,
     k + length (filter (\<lambda>(c, _). \<not> (c \<notin> cs \<or> code_referenced c P)) (at_codes T)))" for k
    using fold_delete_code [of P] assms(1) unfolding codes by (simp add: cs_def)
  have headers: "length (filter (\<lambda>(_, (row, n)). hd_id (hw_header row) = a \<and> n <=s m) xs)
      + length (filter (\<lambda>(_, (row, n)). \<not> (hd_id (hw_header row) = a \<and> n <=s m)) xs) = length xs" for xs :: "(digest \<times> header_row \<times> u64) list"
    by (induction xs) auto
  have rows: "length (filter (\<lambda>((a', n, _), _). a' = a \<and> n <=s m) xs)
      + length (filter (\<lambda>((a', n, _), _). \<not> (a' = a \<and> n <=s m)) xs) = length xs" for xs :: "((account_id \<times> u64 \<times> 'x) \<times> 'y) list"
    by (induction xs) auto
  have codes_split: "length (filter (\<lambda>(c, _). Q c) xs) + length (filter (\<lambda>(c, _). \<not> Q c) xs) = length xs"
    for Q and xs :: "(digest \<times> bytes) list"
    by (induction xs) auto
  show ?thesis
    unfolding prune_account_history_def Let_def
    using fold headers [of "at_hist_headers T"] rows [of "at_hist_storage T"] rows [of "at_hist_maps T"] rows [of "at_hist_assets T"]
      codes_split [of "\<lambda>c. c \<notin> cs \<or> code_referenced c P" "at_codes T"]
    by (simp add: P_def [unfolded pruned_rows_def, symmetric] table_rows_def) (simp add: P_def pruned_rows_def)
qed

lemma prune_undoable:
  assumes "tables_wf T'" "bt_wf (at_codes T')" "\<forall>n \<in> ns. m <s n"
  shows "undoable a ns T' (fst (prune_account_history a m T'))"
proof -
  have later: "\<not> n <=s m" if "n \<in> ns" for n using assms(3) that by (auto simp: word_sless_alt word_sle_eq)
  let ?P = "pruned_rows a m T'"
  have wf: "tables_wf ?P" using assms(1) by (simp add: tables_wf_def pruned_rows_def bt_wf_filter)
  have hist: "bt_get (at_hist_storage ?P) (a, n, s) = bt_get (at_hist_storage T') (a, n, s)"
    "bt_get (at_hist_maps ?P) (a, n, e) = bt_get (at_hist_maps T') (a, n, e)"
    "bt_get (at_hist_assets ?P) (a, n, k) = bt_get (at_hist_assets T') (a, n, k)" if "n \<in> ns" for n s e k
    using later [OF that] unfolding pruned_rows_def
    by (simp_all, (subst get_filter_key' [where P = "\<lambda>(a', n, s). \<not> (a' = a \<and> n <=s m)"], auto)+)
  have wfh: "bt_wf (at_hist_headers T')" using assms(1) by (simp add: tables_wf_def)
  have headers: "bt_get (at_hist_headers ?P) c = (case bt_get (at_hist_headers T') c of
      Some (r, n) \<Rightarrow> if hd_id (hw_header r) = a \<and> n <=s m then None else Some (r, n) | None \<Rightarrow> None)" for c
    by (simp add: pruned_rows_def bt_get_filter [OF wfh] split: option.splits)
  have code: "code_referenced (hd_code_commitment (hw_header r)) ?P" if "bt_get (at_hist_headers ?P) c = Some (r, n)" for c r n
    using that map_of_SomeD unfolding code_referenced_def list_ex_iff by (intro disjI2 disjI1) force
  show ?thesis
    unfolding prune_account_history_eq [OF assms(2)] fst_conv
  proof (unfold undoable_def, intro conjI ballI allI impI)
    let ?Q = "?P\<lparr>at_codes := filter (\<lambda>(c, _). c \<notin> (\<lambda>(_, (row, _)). hd_code_commitment (hw_header row)) `
       set (filter (\<lambda>(_, (row, n)). hd_id (hw_header row) = a \<and> n <=s m) (at_hist_headers T')) \<or> code_referenced c ?P) (at_codes T')\<rparr>"
    show "tables_wf ?Q" using wf by (simp add: tables_wf_def)
    fix c r n assume r: "bt_get (at_hist_headers T') c = Some (r, n)" "hd_id (hw_header r) = a" "n \<in> ns"
    show kept: "bt_get (at_hist_headers ?Q) c = Some (r, n)" using r later by (simp add: headers)
    assume "bt_get (at_codes T') (hd_code_commitment (hw_header r)) \<noteq> None"
    then show "bt_get (at_codes ?Q) (hd_code_commitment (hw_header r)) \<noteq> None"
      using code [of c r n] kept by (simp add: get_filter_key)
  qed (use hist in \<open>auto simp: bt_get_filter [OF wfh] pruned_rows_def split: option.splits if_splits\<close>)
qed

section \<open>Locks\<close>

definition account_locked :: "account_id \<Rightarrow> account_tables \<Rightarrow> bool" where
  "account_locked a T \<longleftrightarrow> (\<forall>i row. (i, row) \<in> set (at_latest_headers T) \<longrightarrow> i = a \<longrightarrow> hw_locked row)
     \<and> (\<forall>c row n. (c, (row, n)) \<in> set (at_hist_headers T) \<longrightarrow> hd_id (hw_header row) = a \<longrightarrow> hw_locked row)"

lemma mem_bt_insert: "(k', v') \<in> set (bt_insert k v m) \<Longrightarrow> k' = k \<and> v' = v \<or> (k', v') \<in> set m"
  by (induction m) (auto split: if_splits)

lemma locked_restore: "account_locked a (fold (restore_old_values_for_nonce b) ns T) = account_locked a T"
  by (simp add: account_locked_def fold_restore_keeps)

lemma locked_delete: "account_locked a T \<Longrightarrow> account_locked a (delete_archived b ns T)"
  by (auto simp: account_locked_def delete_archived_def)

lemma locked_insert:
  assumes "account_locked a T" "insert_latest_header C row T = Inr U" "hd_id (hw_header row) = a \<Longrightarrow> hw_locked row"
  shows "account_locked a U"
proof -
  have U: "U = T\<lparr>at_latest_headers := bt_insert (hd_id (hw_header row)) row
      (filter (\<lambda>(i, r). hw_commitment r \<noteq> hw_commitment row) (at_latest_headers T))\<rparr>"
    using assms(2) by (simp add: insert_latest_header_def split: if_splits)
  have "hw_locked r" if "(a, r) \<in> set (at_latest_headers U)" for r
    using mem_bt_insert [OF that [unfolded U, simplified]] assms(1,3) by (auto simp: account_locked_def)
  then show ?thesis using assms(1) by (auto simp: account_locked_def U)
qed

lemma locked_inserts:
  assumes "account_locked a T" "try_fold (\<lambda>T row. insert_latest_header C row T) T rows = Inr U"
    "\<forall>row \<in> set rows. hd_id (hw_header row) = a \<longrightarrow> hw_locked row"
  shows "account_locked a U"
  using assms(2,1,3)
proof (induction rows arbitrary: T)
  case (Cons row rows)
  then obtain T1 where T1: "insert_latest_header C row T = Inr T1"
      "try_fold (\<lambda>T row. insert_latest_header C row T) T1 rows = Inr U"
    by (auto simp: and_then_Inr_conv)
  have "account_locked a T1" by (rule locked_insert [OF Cons.prems(2) T1(1)]) (use Cons.prems(3) in simp)
  then show ?case by (rule Cons.IH [OF T1(2)]) (use Cons.prems(3) in simp)
qed simp

lemma locked_undo_nonces:
  assumes "account_locked a T" "undo_account_nonces C b ns T = Inr U"
  shows "account_locked a U"
proof -
  let ?T1 = "fold (restore_old_values_for_nonce b) ns T"
  let ?rows = "map (\<lambda>(_, (row, _)). row)
     (filter (\<lambda>(_, (row, n)). hd_id (hw_header row) = b \<and> n = last ns) (at_hist_headers ?T1))"
  have T1: "account_locked a ?T1" using assms(1) by (simp add: locked_restore)
  have rows: "\<forall>row \<in> set ?rows. hd_id (hw_header row) = a \<longrightarrow> hw_locked row"
    using T1 unfolding account_locked_def by fastforce
  obtain T2 where T2: "(if ?rows \<noteq> [] then try_fold (\<lambda>T row. insert_latest_header C row T) ?T1 ?rows else Inr (delete_account b ?T1)) = Inr T2"
    and U: "U = delete_archived b ns T2"
    using assms(2) unfolding undo_account_nonces_def Let_def and_then_Inr_conv by blast
  have "account_locked a T2"
  proof (cases "?rows = []")
    case True
    then have "T2 = delete_account b ?T1" using T2 by simp
    then show ?thesis using T1 by (auto simp: account_locked_def delete_account_def bt_remove_def)
  next
    case False
    then have "try_fold (\<lambda>T row. insert_latest_header C row T) ?T1 ?rows = Inr T2" using T2 by simp
    then show ?thesis by (rule locked_inserts [OF T1 _ rows])
  qed
  then show ?thesis unfolding U by (rule locked_delete)
qed

lemma locked_undo:
  assumes "account_locked a T" "fst (undo_account_state S C ds T F) = Inr U"
  shows "account_locked a U"
proof (cases "ds = []")
  case False
  then have "try_fold (\<lambda>T (a, nonces). undo_account_nonces C a nonces T) T (discarded_nonces (map snd ds) T) = Inr U"
    using assms(2) by (auto simp: undo_account_state_def fbind_def fpure_def split: sum.splits)
  then show ?thesis
    by (rule try_fold_invariant [where I = "account_locked a"]) (use assms(1) locked_undo_nonces in auto)
qed (use assms in \<open>simp add: undo_account_state_def fpure_def\<close>)

section \<open>An account and its next state\<close>

definition sample_account_ops :: account_ops where
  "sample_account_ops =
     \<lparr>ko_commitment = (\<lambda>h. Digest (list_encode [account_id_raw (hd_id h), unat (hd_nonce h),
          digest_raw (hd_vault_root h), digest_raw (hd_storage_commitment h), digest_raw (hd_code_commitment h)])),
      ko_storage_commitment = (\<lambda>slots. Digest (length slots)),
      ko_fungible_new = (\<lambda>_ n. Inr n), ko_fungible_add = (\<lambda>m n. Inr (m + n)), ko_fungible_sub = (\<lambda>m n. Inr (m - n)),
      ko_fungible_word = (\<lambda>_ n. Digest (unat n)), ko_asset_amount = (\<lambda>_ v. Inr (Some (of_nat (digest_raw v)))),
      ko_default_map_root = Digest 0, ko_conflicting_roots = (\<lambda>_ _. ''conflicting roots''),
      ko_code = sample_digest, ko_address = sample_via address_raw Address sample_nat,
      ko_address_tag = (\<lambda>x. of_nat (address_raw x)), ko_show_slot_type = (\<lambda>_. ''slot type''),
      ko_code_error = (\<lambda>_. ''code''), ko_vault_new = (\<lambda>es. Inr \<lparr>av_root = Digest (length es), av_assets = es\<rparr>),
      ko_map_new = \<lparr>sm_root = Digest 0, sm_entries = []\<rparr>,
      ko_map_insert = (\<lambda>m k v. Inr \<lparr>sm_root = Digest (digest_raw (sm_root m) + 1), sm_entries = (k, v) # sm_entries m\<rparr>),
      ko_storage_new = Inr, ko_storage_header = Inr, ko_slot_not_map = (\<lambda>_. ''not a map''), ko_untracked_key = (\<lambda>_. False)\<rparr>"

lemma sample_commitment_inj: "inj (ko_commitment sample_account_ops)"
  by (rule injI) (auto simp: sample_account_ops_def word_unat_eq_iff
      intro!: acct_header.equality account_id.expand digest.expand)

definition sample_row :: header_row where
  "sample_row = new_header_row sample_account_ops
     \<lparr>hd_id = AccountId 4, hd_nonce = 1, hd_vault_root = Digest 1, hd_storage_commitment = Digest 1, hd_code_commitment = Digest 9\<rparr>"

definition sample_tables :: account_tables where
  "sample_tables = account_tables_new
     \<lparr>at_codes := [(Digest 9, [9])], at_latest_headers := [(AccountId 4, sample_row)],
      at_latest_storage := [((AccountId 4, SlotName 0), (Digest 3, 0))],
      at_latest_assets := [((AccountId 4, Digest 5), Digest 6)]\<rparr>"

definition sample_state :: account_state where
  "sample_state =
     \<lparr>as_id = AccountId 4, as_vault = \<lparr>av_root = Digest 2, av_assets = [(Digest 5, Digest 7), (Digest 8, Digest 1)]\<rparr>,
      as_storage = [(SlotName 0, ValueSlot (Digest 4))], as_code = Digest 9, as_nonce = 2, as_seed = None\<rparr>"

lemma sample_tables_inv: "tables_inv sample_account_ops sample_tables"
  by (simp add: tables_inv_def tables_wf_def sample_tables_def account_tables_new_def bt_wf_def sample_row_def new_header_row_def)

lemma sample_state_ids:
  "as_id sample_state = AccountId 4" "as_nonce sample_state = 2" "as_code sample_state = Digest 9"
  by (simp_all add: sample_state_def)

lemma sample_latest:
  "bt_get (at_latest_headers sample_tables) (AccountId 4) = Some sample_row"
  "bt_get (at_codes sample_tables) (Digest 9) = Some [9]"
  "hd_id (hw_header sample_row) = AccountId 4" "hd_nonce (hw_header sample_row) = 1"
  "hd_code_commitment (hw_header sample_row) = Digest 9" "hw_seed sample_row = None"
  by (simp_all add: sample_tables_def sample_row_def new_header_row_def)

lemma sample_header: "get_account_header sample_sql (AccountId 4) sample_tables = Inr (Some (hw_header sample_row, StatusTracked))"
  by (simp add: get_account_header_def sample_latest parse_accounts_def sample_row_def new_header_row_def)

lemma sample_update:
  "\<exists>T' F'. update_account_state sample_smt_ops sample_account_ops sample_sql sample_state sample_tables
     (smt_forest_new {}) = (Inr T', F') \<and> get_roots F' (AccountId 4) \<noteq> None \<and> sf_pending_old_roots F' = []"
proof -
  have "\<exists>F'. insert_and_register_account_state sample_smt_ops (AccountId 4) (as_vault sample_state)
      (map snd (as_storage sample_state)) (smt_forest_new {}) = Inr F'
      \<and> get_roots F' (AccountId 4) \<noteq> None \<and> sf_pending_old_roots F' = []"
    by (simp add: get_roots_def insert_and_register_account_state_def insert_account_state_def insert_storage_map_nodes_def
        insert_asset_nodes_def insert_entries_def storage_maps_def sample_state_def sample_smt_ops_def
        replace_roots_def smt_forest_new_def map_filter_simps)
  then show ?thesis
    using state_written_keeps(1) [of sample_tables "AccountId 4" 2 sample_state]
    unfolding update_account_state_def Let_def state_written_def [symmetric]
    by (auto simp: fbind_def fpure_def lift_forest_def sample_header sample_state_ids sample_latest
        insert_account_header_def insert_hist_header_def insert_latest_header_def
        header_of_account_def same_headers_def)
qed

lemma insert_entries_account_roots: "insert_entries S root es F = Inr (r, F') \<Longrightarrow> sf_account_roots F' = sf_account_roots F"
  by (auto simp: insert_entries_def and_then_Inr_conv split: if_splits)

lemma lift_forest_Inr: "lift_forest m F = (Inr x, F') \<longleftrightarrow> m F = Inr (x, F')"
  by (auto simp: lift_forest_def split: sum.splits prod.splits)

lemma vault_delta_keeps_roots:
  assumes "apply_account_vault_delta S K a init final assets delta T F = (Inr U, F')"
  shows "sf_account_roots F' = sf_account_roots F"
proof -
  obtain root updated removed F1 where
    "update_asset_nodes S (hd_vault_root init) updated removed F = Inr (root, F1)" "F' = F1"
    using assms
    by (auto simp: apply_account_vault_delta_def fbind_Inr Let_def lift_forest_Inr case_prod_beta' split: if_splits)
  then show ?thesis by (auto simp: update_asset_nodes_def dest: insert_entries_account_roots)
qed

section \<open>Properties\<close>

lemma history_undone:
  assumes "tables_inv K T" "inj (ko_commitment K)" and hist: "account_history S K C a hs T T'" "hs \<noteq> []"
    and "snd ` set ds = ko_commitment K ` set hs"
  shows "fst (undo_account_state S C ds T' F) = Inr T"
proof -
  have inv': "tables_inv K T'" using history_written [OF hist(1) assms(1,2)] by blast
  have eff: "history_effect K a hs T T'" by (rule history_has_effect [OF hist(1) assms(1,2)])
  have "undoable a (hd_nonce ` set hs) T' T'" by (rule undoable_refl) (use inv' in \<open>simp add: tables_inv_def\<close>)
  from undo_history [OF hist assms(1,2) this assms(5)] show ?thesis
    by (simp add: undone_tables [OF eff hist(2) assms(1) inv'])
qed

text \<open>
  C2. Discarding undoes any history of an account: after a sequence of local deltas and whole
  states from the network at increasing nonces, discarding exactly those states gives back every
  table as it was before the first of them, archive included.
\<close>

theorem undo_restores_accounts:
  assumes "tables_inv K T" "inj (ko_commitment K)" and hist: "account_history S K C a hs T T'" "hs \<noteq> []"
    and "snd ` set ds = ko_commitment K ` set hs"
  shows "fst (undo_account_state S C ds T' F) = Inr T"
  by (rule history_undone [OF assms])

lemma sample_history:
  assumes "update_account_state sample_smt_ops sample_account_ops sample_sql sample_state sample_tables F = (Inr T', F')"
  shows "account_history sample_smt_ops sample_account_ops sample_sql (AccountId 4)
    [header_of_account sample_account_ops sample_state] sample_tables T'"
proof -
  have "account_history sample_smt_ops sample_account_ops sample_sql (AccountId 4)
    ([] @ [header_of_account sample_account_ops sample_state]) sample_tables T'"
    by (rule history_state [OF history_start sample_latest(1) _ _ assms]) (simp_all add: sample_state_ids sample_latest)
  then show ?thesis by simp
qed

theorem undo_restores_accounts_witness:
  "\<exists>T' F'. update_account_state sample_smt_ops sample_account_ops sample_sql sample_state sample_tables
     (smt_forest_new {}) = (Inr T', F')
   \<and> fst (undo_account_state sample_smt_ops sample_sql
       [(AccountId 4, ko_commitment sample_account_ops (header_of_account sample_account_ops sample_state))] T' F') = Inr sample_tables"
proof -
  obtain T' F' where upd: "update_account_state sample_smt_ops sample_account_ops sample_sql sample_state sample_tables
     (smt_forest_new {}) = (Inr T', F')" using sample_update by blast
  have "fst (undo_account_state sample_smt_ops sample_sql
       [(AccountId 4, ko_commitment sample_account_ops (header_of_account sample_account_ops sample_state))] T' F') = Inr sample_tables"
    by (rule undo_restores_accounts [OF sample_tables_inv sample_commitment_inj sample_history [OF upd]]) simp_all
  then show ?thesis using upd by blast
qed

text \<open>
  Pruning does not take away what a discard needs: when the history of an account is pruned up
  to a nonce below those of its last states, discarding these states still succeeds and every
  latest table is what it was before them.
\<close>

lemma undo_after_prune:
  assumes "tables_inv K T" "inj (ko_commitment K)" "bt_wf (at_codes T)"
    and hist: "account_history S K C a hs T T'" "hs \<noteq> []"
    and "snd ` set ds = ko_commitment K ` set hs" and "\<forall>h \<in> set hs. m <s hd_nonce h"
  shows "\<exists>U. fst (undo_account_state S C ds (fst (prune_account_history a m T')) F) = Inr U
    \<and> at_latest_headers U = at_latest_headers T \<and> at_latest_storage U = at_latest_storage T
    \<and> at_latest_maps U = at_latest_maps T \<and> at_latest_assets U = at_latest_assets T"
proof -
  have inv': "tables_inv K T'" using history_written [OF hist(1) assms(1,2)] by blast
  have eff: "history_effect K a hs T T'" by (rule history_has_effect [OF hist(1) assms(1,2)])
  have "undoable a (hd_nonce ` set hs) T' (fst (prune_account_history a m T'))"
    by (rule prune_undoable) (use inv' assms history_effectD(4) [OF eff] in \<open>auto simp: tables_inv_def\<close>)
  from undo_history [OF hist assms(1,2) this assms(6)] show ?thesis
    by (simp add: delete_archived_def)
qed

lemma undo_after_prune_witness:
  "\<exists>T' F' U. update_account_state sample_smt_ops sample_account_ops sample_sql sample_state sample_tables
     (smt_forest_new {}) = (Inr T', F')
   \<and> fst (undo_account_state sample_smt_ops sample_sql
       [(AccountId 4, ko_commitment sample_account_ops (header_of_account sample_account_ops sample_state))]
       (fst (prune_account_history (AccountId 4) 1 T')) F') = Inr U
   \<and> at_latest_assets U = [((AccountId 4, Digest 5), Digest 6)]"
proof -
  obtain T' F' where upd: "update_account_state sample_smt_ops sample_account_ops sample_sql sample_state sample_tables
     (smt_forest_new {}) = (Inr T', F')" using sample_update by blast
  have "\<exists>U. fst (undo_account_state sample_smt_ops sample_sql
       [(AccountId 4, ko_commitment sample_account_ops (header_of_account sample_account_ops sample_state))]
       (fst (prune_account_history (AccountId 4) 1 T')) F') = Inr U
    \<and> at_latest_headers U = at_latest_headers sample_tables \<and> at_latest_storage U = at_latest_storage sample_tables
    \<and> at_latest_maps U = at_latest_maps sample_tables \<and> at_latest_assets U = at_latest_assets sample_tables"
    by (rule undo_after_prune [OF sample_tables_inv sample_commitment_inj _ sample_history [OF upd]])
      (simp_all add: sample_tables_def bt_wf_def header_of_account_def sample_state_def word_sless_alt)
  then show ?thesis using upd by (auto simp: sample_tables_def)
qed



text \<open>
  C40. Discarding a state of an account that has no stacked old roots, as after reopening the
  database, leaves the account without roots in the forest although its tables were restored: the
  next delta of the account then fails.
\<close>

theorem undo_without_stack_loses_roots:
  assumes "bt_get (sf_pending_old_roots F) a = None" "undo_account_state S C [(a, c)] T F = (Inr U, F')" "hd_id init = a"
  shows "get_roots F' a = None \<and> (\<exists>e F''. apply_account_delta S K C init final assets roots delta U F' = (Inl e, F''))"
proof -
  have "F' = discard_roots S a F"
    using assms(2) by (auto simp: undo_account_state_def fbind_def fpure_def split: sum.splits)
  then have none: "get_roots F' a = None"
    by (simp add: get_roots_def discard_roots_def assms(1) Let_def split: option.splits)
  show ?thesis
  proof (intro conjI none, cases "apply_account_delta S K C init final assets roots delta U F'")
    case (Pair r F'')
    have "\<exists>e. r = Inl e"
    proof (cases r)
      case (Inr U')
      then have "apply_account_delta S K C init final assets roots delta U F' = (Inr U', F'')" using Pair by simp
      then obtain T1 T2 F1 where "apply_account_vault_delta S K (hd_id final) init final assets delta T1 F' = (Inr T2, F1)"
          "get_roots F1 a \<noteq> None"
        using assms(3) unfolding apply_account_delta_def Let_def fbind_Inr fpure_Inr
        by (auto split: option.splits)
      then show ?thesis using none vault_delta_keeps_roots by (metis get_roots_def)
    qed simp
    then show "\<exists>e F''. apply_account_delta S K C init final assets roots delta U F' = (Inl e, F'')" using Pair by blast
  qed
qed

theorem undo_without_stack_loses_roots_witness:
  "\<exists>T' F' U F2 e F3. update_account_state sample_smt_ops sample_account_ops sample_sql sample_state sample_tables
     (smt_forest_new {}) = (Inr T', F') \<and> get_roots F' (AccountId 4) \<noteq> None
   \<and> undo_account_state sample_smt_ops sample_sql
       [(AccountId 4, ko_commitment sample_account_ops (header_of_account sample_account_ops sample_state))] T' F' = (Inr U, F2)
   \<and> apply_account_delta sample_smt_ops sample_account_ops sample_sql (hw_header sample_row)
       (header_of_account sample_account_ops sample_state) [] []
       \<lparr>dl_fungible = [], dl_non_fungible = [], dl_values = [], dl_maps = []\<rparr> U F2 = (Inl e, F3)"
proof -
  obtain T' F' where upd: "update_account_state sample_smt_ops sample_account_ops sample_sql sample_state sample_tables
     (smt_forest_new {}) = (Inr T', F')" and F': "get_roots F' (AccountId 4) \<noteq> None" "sf_pending_old_roots F' = []"
    using sample_update by blast
  let ?ds = "[(AccountId 4, ko_commitment sample_account_ops (header_of_account sample_account_ops sample_state))]"
  have "fst (undo_account_state sample_smt_ops sample_sql ?ds T' F') = Inr sample_tables"
    by (rule history_undone [OF sample_tables_inv sample_commitment_inj sample_history [OF upd]]) simp_all
  then obtain F2 where undo: "undo_account_state sample_smt_ops sample_sql ?ds T' F' = (Inr sample_tables, F2)"
    by (metis prod.collapse)
  have "bt_get (sf_pending_old_roots F') (AccountId 4) = None" by (simp add: F'(2))
  from undo_without_stack_loses_roots [OF this undo sample_latest(3)] show ?thesis
    using upd F'(1) undo by blast
qed

end
