(* ===== verification/Sqlite_Notes.thy ===== *)
theory Sqlite_Notes
  imports Sqlite_Database Note_Update_Tracker Transaction_Request "HOL-Library.Product_Lexorder"
begin

text \<open>
  The notes of the SQLite store (\<^verbatim>\<open>sqlite-store/src/note/mod.rs\<close>, \<^verbatim>\<open>note/filters.rs\<close>): rows and their
  decoding, the queries of each filter, note scripts, and the application of a tracker's updates.
  The theory gives the invariant of the note tables, what a lookup returns after each operation, and
  the interface a sync relies on: applying the updates of a tracker leaves in the store exactly what
  the tracker holds. What the queries return is in \<open>Sqlite_Note_Queries\<close>.
\<close>

section \<open>Rows of notes\<close>

record serialized_input_note =
  si_id :: note_id
  si_assets :: bytes
  si_serial_number :: bytes
  si_inputs :: bytes
  si_script_root :: digest
  si_script :: bytes
  si_nullifier :: nullifier
  si_state_discriminant :: u8
  si_state :: bytes
  si_created_at :: u64
  si_consumed_block_height :: "u32 option"
  si_consumed_tx_order :: "u32 option"
  si_consumer_account_id :: "account_id option"

definition serialize_input_note :: "protocol \<Rightarrow> sql_codecs \<Rightarrow> input_note_record \<Rightarrow> serialized_input_note" where
  "serialize_input_note P C r =
     (let recipient = nd_recipient (inr_details r)
      in \<lparr>si_id = inr_id P r,
          si_assets = fst (sc_assets C) (nd_assets (inr_details r)),
          si_serial_number = fst (c_word (sc_base C)) (rc_serial_num recipient),
          si_inputs = fst (sc_storage C) (rc_storage_commitment recipient),
          si_script_root = rc_script_root recipient,
          si_script = fst (sc_script C) (rc_script_root recipient),
          si_nullifier = inr_nullifier P r,
          si_state_discriminant = discriminant (inr_state r),
          si_state = input_note_state_write (sc_base C) (inr_state r),
          si_created_at = (case inr_created_at r of None \<Rightarrow> 0 | Some t \<Rightarrow> t),
          si_consumed_block_height = consumed_block_height (inr_state r),
          si_consumed_tx_order = consumed_tx_order (inr_state r),
          si_consumer_account_id = inr_consumer_account r\<rparr>)"

text \<open>The row inserted for a note, with the integer bound for its creation time.\<close>

definition input_row :: "serialized_input_note \<Rightarrow> int \<Rightarrow> input_note_row" where
  "input_row s created_at =
     \<lparr>ir_assets = si_assets s, ir_serial_number = si_serial_number s, ir_inputs = si_inputs s,
      ir_script_root = si_script_root s, ir_nullifier = si_nullifier s,
      ir_state_discriminant = si_state_discriminant s, ir_state = si_state s, ir_created_at = created_at,
      ir_consumed_block_height = si_consumed_block_height s, ir_consumed_tx_order = si_consumed_tx_order s,
      ir_consumer_account_id = si_consumer_account_id s\<rparr>"

definition insert_script_row :: "digest \<Rightarrow> bytes \<Rightarrow> database \<Rightarrow> database" where
  "insert_script_row root script D = D\<lparr>db_notes_scripts := bt_insert root script (db_notes_scripts D)\<rparr>"

definition insert_input_row :: "note_id \<Rightarrow> input_note_row \<Rightarrow> database \<Rightarrow> database" where
  "insert_input_row i row D = D\<lparr>db_input_notes := bt_insert i row (db_input_notes D)\<rparr>"

definition upsert_input_note_tx ::
  "protocol \<Rightarrow> sql_codecs \<Rightarrow> input_note_record \<Rightarrow> database \<Rightarrow> store_error + database" where
  "upsert_input_note_tx P C r D =
     (let s = serialize_input_note P C r;
          D1 = insert_script_row (si_script_root s) (si_script s) D
      in and_then (into_store_error (sc_show C) (bind_u64 (si_created_at s)))
           (\<lambda>created_at. Inr (insert_input_row (si_id s) (input_row s created_at) D1)))"

definition set_block_header_has_client_notes :: "block_number \<Rightarrow> bool \<Rightarrow> database \<Rightarrow> database" where
  "set_block_header_has_client_notes block_num has_client_notes D =
     D\<lparr>db_block_headers :=
         bt_modify block_num (\<lambda>row. if \<not> br_has_client_notes row
                                    then row\<lparr>br_has_client_notes := has_client_notes\<rparr> else row)
           (db_block_headers D)\<rparr>"

definition upsert_input_notes ::
  "protocol \<Rightarrow> sql_codecs \<Rightarrow> input_note_record list \<Rightarrow> database \<Rightarrow> store_error + database" where
  "upsert_input_notes P C rs D =
     try_fold (\<lambda>D r.
         and_then (upsert_input_note_tx P C r D) (\<lambda>D1.
           case inr_inclusion_proof r of
             Some proof \<Rightarrow> Inr (set_block_header_has_client_notes (ip_block_num proof) True D1)
           | None \<Rightarrow> Inr D1)) D rs"

text \<open>A row joined with its script; a missing script is a \<open>NULL\<close> that cannot be read as bytes.\<close>

definition join_script :: "sql_codecs \<Rightarrow> database \<Rightarrow> input_note_row \<Rightarrow> store_error + bytes" where
  "join_script C D row =
     into_store_error (sc_show C)
       (ok_or (InvalidColumnType 3) (bt_get (db_notes_scripts D) (ir_script_root row)))"

definition parse_input_note ::
  "sql_codecs \<Rightarrow> input_note_row \<Rightarrow> bytes \<Rightarrow> u64 \<Rightarrow> store_error + input_note_record" where
  "parse_input_note C row script created_at =
     and_then (read_from_bytes (sc_assets C) (ir_assets row)) (\<lambda>assets.
     and_then (read_from_bytes (c_word (sc_base C)) (ir_serial_number row)) (\<lambda>serial_number.
     and_then (read_from_bytes (sc_script C) script) (\<lambda>script.
     and_then (read_from_bytes (sc_storage C) (ir_inputs row)) (\<lambda>inputs.
     and_then (read_from_bytes (input_state_codec C) (ir_state row)) (\<lambda>state.
     Inr (input_note_record_new
       \<lparr>nd_assets = assets,
        nd_recipient = \<lparr>rc_serial_num = serial_number, rc_script_root = script, rc_storage_commitment = inputs\<rparr>\<rparr>
       (Some created_at) state))))))"

definition read_input_row :: "sql_codecs \<Rightarrow> database \<Rightarrow> input_note_row \<Rightarrow> store_error + input_note_record" where
  "read_input_row C D row =
     and_then (join_script C D row) (\<lambda>script.
     and_then (into_store_error (sc_show C) (column_u64 5 (ir_created_at row)))
       (parse_input_note C row script))"

definition serialize_output_note :: "protocol \<Rightarrow> sql_codecs \<Rightarrow> output_note_record \<Rightarrow> note_id \<times> output_note_row" where
  "serialize_output_note P C r =
     (onr_id P r,
      \<lparr>or_recipient_digest = onr_recipient_digest r, or_assets = fst (sc_assets C) (onr_assets r),
       or_metadata = fst (c_metadata (sc_base C)) (onr_metadata r), or_nullifier = onr_nullifier P r,
       or_expected_height = onr_expected_height r,
       or_state_discriminant = output_discriminant (onr_state r),
       or_state = output_note_state_write (sc_base C) (onr_state r)\<rparr>)"

definition parse_output_note :: "sql_codecs \<Rightarrow> output_note_row \<Rightarrow> store_error + output_note_record" where
  "parse_output_note C row =
     and_then (read_from_bytes (sc_assets C) (or_assets row)) (\<lambda>assets.
     and_then (read_from_bytes (c_metadata (sc_base C)) (or_metadata row)) (\<lambda>metadata.
     and_then (read_from_bytes (output_state_codec C) (or_state row)) (\<lambda>state.
     Inr (output_note_record_new (or_recipient_digest row) assets metadata state (or_expected_height row)))))"

section \<open>Filters\<close>

datatype note_filter =
    FilterAll
  | FilterCommitted
  | FilterConsumed
  | FilterExpected
  | FilterList "note_id list"
  | FilterNullifiers "nullifier list"
  | FilterProcessing
  | FilterUnique note_id
  | FilterUnspent
  | FilterUnverified

fun input_notes_condition :: "note_filter \<Rightarrow> note_id \<times> input_note_row \<Rightarrow> bool" where
  "input_notes_condition FilterAll (i, row) \<longleftrightarrow> True"
| "input_notes_condition FilterCommitted (i, row) \<longleftrightarrow> ir_state_discriminant row = 2"
| "input_notes_condition FilterConsumed (i, row) \<longleftrightarrow> ir_state_discriminant row \<in> {6, 7, 8}"
| "input_notes_condition FilterExpected (i, row) \<longleftrightarrow> ir_state_discriminant row = 0"
| "input_notes_condition FilterProcessing (i, row) \<longleftrightarrow> ir_state_discriminant row \<in> {4, 5}"
| "input_notes_condition (FilterUnique note_id) (i, row) \<longleftrightarrow> i \<in> set [note_id]"
| "input_notes_condition (FilterList note_ids) (i, row) \<longleftrightarrow> i \<in> set note_ids"
| "input_notes_condition (FilterNullifiers nullifiers) (i, row) \<longleftrightarrow> ir_nullifier row \<in> set nullifiers"
| "input_notes_condition FilterUnverified (i, row) \<longleftrightarrow> ir_state_discriminant row = 1"
| "input_notes_condition FilterUnspent (i, row) \<longleftrightarrow> ir_state_discriminant row \<in> {0, 4, 5, 1, 2}"

fun output_notes_condition :: "note_filter \<Rightarrow> note_id \<times> output_note_row \<Rightarrow> bool" where
  "output_notes_condition FilterAll (i, row) \<longleftrightarrow> True"
| "output_notes_condition FilterCommitted (i, row) \<longleftrightarrow> or_state_discriminant row \<in> {2, 3}"
| "output_notes_condition FilterConsumed (i, row) \<longleftrightarrow> or_state_discriminant row = 4"
| "output_notes_condition FilterExpected (i, row) \<longleftrightarrow> or_state_discriminant row \<in> {0, 1}"
| "output_notes_condition FilterProcessing (i, row) \<longleftrightarrow> False"
| "output_notes_condition FilterUnverified (i, row) \<longleftrightarrow> False"
| "output_notes_condition (FilterUnique note_id) (i, row) \<longleftrightarrow> i \<in> set [note_id]"
| "output_notes_condition (FilterList note_ids) (i, row) \<longleftrightarrow> i \<in> set note_ids"
| "output_notes_condition (FilterNullifiers nullifiers) (i, row) \<longleftrightarrow> or_nullifier row \<in> Some ` set nullifiers"
| "output_notes_condition FilterUnspent (i, row) \<longleftrightarrow> or_state_discriminant row \<in> {0, 1, 2, 3}"

text \<open>
  The order of consumed notes: by height, then by position with missing positions last, then by
  identifier. In ascending order SQLite puts \<open>NULL\<close> first.
\<close>

definition nullable :: "u32 option \<Rightarrow> nat \<times> nat" where
  "nullable x = (case x of None \<Rightarrow> (0, 0) | Some h \<Rightarrow> (1, unat h))"

definition consumed_key :: "note_id \<times> input_note_row \<Rightarrow> (nat \<times> nat) \<times> bool \<times> (nat \<times> nat) \<times> note_id" where
  "consumed_key = (\<lambda>(i, row).
     (nullable (ir_consumed_block_height row), ir_consumed_tx_order row = None,
      nullable (ir_consumed_tx_order row), i))"

definition get_input_notes :: "sql_codecs \<Rightarrow> note_filter \<Rightarrow> database \<Rightarrow> store_error + input_note_record list" where
  "get_input_notes C flt D =
     (let rows = filter (input_notes_condition flt) (db_input_notes D);
          ordered = (if flt = FilterConsumed then sort_key consumed_key rows else rows)
      in try_map (\<lambda>(i, row). read_input_row C D row) ordered)"

definition get_output_notes :: "sql_codecs \<Rightarrow> note_filter \<Rightarrow> database \<Rightarrow> store_error + output_note_record list" where
  "get_output_notes C flt D =
     try_map (\<lambda>(i, row). parse_output_note C row) (filter (output_notes_condition flt) (db_output_notes D))"

definition offset_condition ::
  "note_filter \<Rightarrow> account_id \<Rightarrow> block_number option \<Rightarrow> block_number option \<Rightarrow> note_id \<times> input_note_row \<Rightarrow> bool" where
  "offset_condition flt consumer block_start block_end = (\<lambda>(i, row).
     input_notes_condition flt (i, row)
     \<and> ir_consumer_account_id row = Some consumer
     \<and> ir_consumed_tx_order row \<noteq> None
     \<and> (case block_start of None \<Rightarrow> True
        | Some s \<Rightarrow> (case ir_consumed_block_height row of None \<Rightarrow> False | Some h \<Rightarrow> s \<le> h))
     \<and> (case block_end of None \<Rightarrow> True
        | Some e \<Rightarrow> (case ir_consumed_block_height row of None \<Rightarrow> False | Some h \<Rightarrow> h \<le> e)))"

definition offset_key :: "note_id \<times> input_note_row \<Rightarrow> (nat \<times> nat) \<times> (nat \<times> nat) \<times> note_id" where
  "offset_key = (\<lambda>(i, row). (nullable (ir_consumed_block_height row), nullable (ir_consumed_tx_order row), i))"

definition get_input_note_by_offset ::
  "sql_codecs \<Rightarrow> note_filter \<Rightarrow> account_id \<Rightarrow> block_number option \<Rightarrow> block_number option \<Rightarrow> u32 \<Rightarrow> database \<Rightarrow>
   store_error + input_note_record option" where
  "get_input_note_by_offset C flt consumer block_start block_end offset D =
     (let rows = sort_key offset_key
                   (filter (offset_condition flt consumer block_start block_end) (db_input_notes D))
      in case take 1 (drop (unat offset) rows) of
           [] \<Rightarrow> Inr None
         | (i, row) # _ \<Rightarrow> and_then (read_input_row C D row) (\<lambda>r. Inr (Some r)))"

definition get_unspent_input_note_nullifiers :: "database \<Rightarrow> nullifier list" where
  "get_unspent_input_note_nullifiers D =
     map (\<lambda>(i, row). ir_nullifier row)
       (filter (\<lambda>(i, row). ir_state_discriminant row \<notin> {6, 7, 8}) (db_input_notes D))"

section \<open>Note scripts\<close>

definition upsert_note_script_tx :: "sql_codecs \<Rightarrow> note_script \<Rightarrow> database \<Rightarrow> database" where
  "upsert_note_script_tx C s D = insert_script_row (script_root s) (fst (sc_script C) (script_root s)) D"

definition upsert_note_scripts :: "sql_codecs \<Rightarrow> note_script list \<Rightarrow> database \<Rightarrow> database" where
  "upsert_note_scripts C scripts D = fold (upsert_note_script_tx C) scripts D"

definition get_note_script ::
  "(digest \<Rightarrow> string) \<Rightarrow> sql_codecs \<Rightarrow> digest \<Rightarrow> database \<Rightarrow> store_error + note_script" where
  "get_note_script to_hex C root D =
     and_then (ok_or (NoteScriptNotFound (to_hex root)) (bt_get (db_notes_scripts D) root)) (\<lambda>bytes.
     and_then (read_from_bytes (sc_script C) bytes) (\<lambda>r. Inr (NoteScript r)))"

section \<open>Applying note updates\<close>

text \<open>Statements take at most 999 parameters, so rows are inserted in batches.\<close>

definition batch_upsert_scripts :: "(digest, bytes) btree_map \<Rightarrow> database \<Rightarrow> database" where
  "batch_upsert_scripts scripts D =
     fold (fold (\<lambda>(root, script). insert_script_row root script)) (chunks_of 200 scripts) D"

definition batch_insert_input_notes :: "serialized_input_note list \<Rightarrow> database \<Rightarrow> database" where
  "batch_insert_input_notes ns D =
     fold (fold (\<lambda>s. insert_input_row (si_id s) (input_row s (sint (si_created_at s))))) (chunks_of 50 ns) D"

definition set_input_state :: "sql_codecs \<Rightarrow> input_note_record \<Rightarrow> input_note_row \<Rightarrow> input_note_row" where
  "set_input_state C r row =
     row\<lparr>ir_state_discriminant := discriminant (inr_state r),
         ir_state := input_note_state_write (sc_base C) (inr_state r),
         ir_consumed_block_height := consumed_block_height (inr_state r),
         ir_consumed_tx_order := consumed_tx_order (inr_state r),
         ir_consumer_account_id := inr_consumer_account r\<rparr>"

definition update_input_note_state ::
  "protocol \<Rightarrow> sql_codecs \<Rightarrow> input_note_record \<Rightarrow> database \<Rightarrow> database" where
  "update_input_note_state P C r D =
     D\<lparr>db_input_notes := bt_modify (inr_id P r) (set_input_state C r) (db_input_notes D)\<rparr>"

definition insert_output_row :: "note_id \<Rightarrow> output_note_row \<Rightarrow> database \<Rightarrow> database" where
  "insert_output_row i row D = D\<lparr>db_output_notes := bt_insert i row (db_output_notes D)\<rparr>"

definition batch_insert_output_notes :: "(note_id \<times> output_note_row) list \<Rightarrow> database \<Rightarrow> database" where
  "batch_insert_output_notes ns D =
     fold (fold (\<lambda>(i, row). insert_output_row i row)) (chunks_of 80 ns) D"

definition set_output_state :: "sql_codecs \<Rightarrow> output_note_record \<Rightarrow> output_note_row \<Rightarrow> output_note_row" where
  "set_output_state C r row =
     row\<lparr>or_state_discriminant := output_discriminant (onr_state r),
         or_state := output_note_state_write (sc_base C) (onr_state r)\<rparr>"

definition update_output_note_state ::
  "protocol \<Rightarrow> sql_codecs \<Rightarrow> output_note_record \<Rightarrow> database \<Rightarrow> database" where
  "update_output_note_state P C r D =
     D\<lparr>db_output_notes := bt_modify (onr_id P r) (set_output_state C r) (db_output_notes D)\<rparr>"

definition apply_note_updates_tx ::
  "protocol \<Rightarrow> sql_codecs \<Rightarrow> note_update_tracker \<Rightarrow> database \<Rightarrow> database" where
  "apply_note_updates_tx P C N D =
     (let ins = updated_input_notes N;
          input_inserts = map (\<lambda>u. serialize_input_note P C (inu_note u)) (filter (\<lambda>u. inu_update_type u = UpdateInsert) ins);
          input_updates = map inu_note (filter (\<lambda>u. inu_update_type u = UpdateUpdate) ins);
          scripts = bt_from_iter (map (\<lambda>s. (si_script_root s, si_script s)) input_inserts);
          outs = updated_output_notes N;
          output_inserts = map (\<lambda>u. serialize_output_note P C (onu_note u)) (filter (\<lambda>u. onu_update_type u = UpdateInsert) outs);
          output_updates = map onu_note (filter (\<lambda>u. onu_update_type u = UpdateUpdate) outs);
          D1 = fold (update_input_note_state P C) input_updates
                 (batch_insert_input_notes input_inserts (batch_upsert_scripts scripts D))
      in fold (update_output_note_state P C) output_updates (batch_insert_output_notes output_inserts D1))"

section \<open>The records of the store\<close>

text \<open>
  A record can be stored when its creation time fits in a signed column; a missing creation time is
  read back as zero.
\<close>

definition storable :: "input_note_record \<Rightarrow> bool" where
  "storable r \<longleftrightarrow> (case inr_created_at r of None \<Rightarrow> True | Some t \<Rightarrow> unat t < 2 ^ 63)"

definition stored_record :: "input_note_record \<Rightarrow> input_note_record" where
  "stored_record r = r\<lparr>inr_created_at := Some (case inr_created_at r of None \<Rightarrow> 0 | Some t \<Rightarrow> t)\<rparr>"

definition row_of_record :: "protocol \<Rightarrow> sql_codecs \<Rightarrow> input_note_record \<Rightarrow> input_note_row" where
  "row_of_record P C r =
     (let s = serialize_input_note P C r in input_row s (sint (si_created_at s)))"

text \<open>Every row belongs to a record with the row's key, and its script is there, under its root.\<close>

definition input_rows_ok :: "protocol \<Rightarrow> sql_codecs \<Rightarrow> database \<Rightarrow> bool" where
  "input_rows_ok P C D \<longleftrightarrow>
     (\<forall>i row. bt_get (db_input_notes D) i = Some row \<longrightarrow>
        (\<exists>r. inr_id P r = i \<and> storable r \<and> row = row_of_record P C r
           \<and> bt_get (db_notes_scripts D) (ir_script_root row) = Some (fst (sc_script C) (ir_script_root row))))"

definition scripts_ok :: "sql_codecs \<Rightarrow> database \<Rightarrow> bool" where
  "scripts_ok C D \<longleftrightarrow> (\<forall>root bs. bt_get (db_notes_scripts D) root = Some bs \<longrightarrow> bs = fst (sc_script C) root)"

definition output_rows_ok :: "protocol \<Rightarrow> sql_codecs \<Rightarrow> database \<Rightarrow> bool" where
  "output_rows_ok P C D \<longleftrightarrow>
     (\<forall>i row. bt_get (db_output_notes D) i = Some row \<longrightarrow> (\<exists>r. serialize_output_note P C r = (i, row)))"

definition note_tables_inv :: "protocol \<Rightarrow> sql_codecs \<Rightarrow> database \<Rightarrow> bool" where
  "note_tables_inv P C D \<longleftrightarrow>
     bt_wf (db_input_notes D) \<and> bt_wf (db_output_notes D) \<and> bt_wf (db_notes_scripts D)
     \<and> input_rows_ok P C D \<and> output_rows_ok P C D \<and> scripts_ok C D"

text \<open>What the store returns for one key.\<close>

definition stored_input :: "sql_codecs \<Rightarrow> database \<Rightarrow> note_id \<Rightarrow> input_note_record option" where
  "stored_input C D i =
     (case bt_get (db_input_notes D) i of
        None \<Rightarrow> None
      | Some row \<Rightarrow> (case read_input_row C D row of Inl _ \<Rightarrow> None | Inr r \<Rightarrow> Some r))"

definition stored_output :: "sql_codecs \<Rightarrow> database \<Rightarrow> note_id \<Rightarrow> output_note_record option" where
  "stored_output C D i =
     (case bt_get (db_output_notes D) i of
        None \<Rightarrow> None
      | Some row \<Rightarrow> (case parse_output_note C row of Inl _ \<Rightarrow> None | Inr r \<Rightarrow> Some r))"

text \<open>Which tables each row operation touches.\<close>

lemma row_ops_sel [simp]:
  "db_input_notes (insert_script_row a b D) = db_input_notes D"
  "db_notes_scripts (insert_script_row a b D) = bt_insert a b (db_notes_scripts D)"
  "db_output_notes (insert_script_row a b D) = db_output_notes D"
  "db_input_notes (insert_input_row i row D) = bt_insert i row (db_input_notes D)"
  "db_notes_scripts (insert_input_row i row D) = db_notes_scripts D"
  "db_output_notes (insert_input_row i row D) = db_output_notes D"
  "db_input_notes (update_input_note_state P C r D) = bt_modify (inr_id P r) (set_input_state C r) (db_input_notes D)"
  "db_output_notes (update_input_note_state P C r D) = db_output_notes D"
  "db_notes_scripts (update_input_note_state P C r D) = db_notes_scripts D"
  "db_output_notes (insert_output_row j row' D) = bt_insert j row' (db_output_notes D)"
  "db_input_notes (insert_output_row j row' D) = db_input_notes D"
  "db_notes_scripts (insert_output_row j row' D) = db_notes_scripts D"
  "db_output_notes (update_output_note_state P C q D) = bt_modify (onr_id P q) (set_output_state C q) (db_output_notes D)"
  "db_input_notes (update_output_note_state P C q D) = db_input_notes D"
  "db_notes_scripts (update_output_note_state P C q D) = db_notes_scripts D"
  "db_input_notes (set_block_header_has_client_notes n f D) = db_input_notes D"
  "db_output_notes (set_block_header_has_client_notes n f D) = db_output_notes D"
  "db_notes_scripts (set_block_header_has_client_notes n f D) = db_notes_scripts D"
  by (simp_all add: insert_script_row_def insert_input_row_def update_input_note_state_def insert_output_row_def
      update_output_note_state_def set_block_header_has_client_notes_def)

lemmas row_defs = row_of_record_def input_row_def serialize_input_note_def Let_def

lemma storable_column:
  assumes "storable r"
  shows "column_u64 i (sint (si_created_at (serialize_input_note P C r)))
    = Inr (case inr_created_at r of None \<Rightarrow> 0 | Some t \<Rightarrow> t)"
  using assms
  by (auto simp: storable_def serialize_input_note_def Let_def sint_small_u64 [simplified] column_u64_def split: option.splits)

lemma storable_bind:
  "bind_u64 (si_created_at (serialize_input_note P C r)) =
     (if storable r then Inr (sint (si_created_at (serialize_input_note P C r))) else Inl ToSqlConversionFailure)"
  by (auto simp: storable_def serialize_input_note_def Let_def sint_small_u64 [simplified] bind_u64_def split: option.splits)

lemma row_script_root [simp]: "ir_script_root (row_of_record P C r) = rc_script_root (nd_recipient (inr_details r))"
  by (simp add: row_defs)

text \<open>The round trip of a row.\<close>

lemma read_row_of_record:
  assumes "sql_codecs_ok C" and "storable r"
    and "bt_get (db_notes_scripts D) (ir_script_root (row_of_record P C r))
      = Some (fst (sc_script C) (ir_script_root (row_of_record P C r)))"
  shows "read_input_row C D (row_of_record P C r) = Inr (stored_record r)"
proof -
  let ?row = "row_of_record P C r"
  have "column_u64 5 (ir_created_at ?row) = Inr (case inr_created_at r of None \<Rightarrow> 0 | Some t \<Rightarrow> t)"
    using storable_column [OF assms(2), of 5 P C] by (simp add: row_of_record_def input_row_def Let_def)
  moreover have "join_script C D ?row = Inr (fst (sc_script C) (ir_script_root ?row))"
    using assms(3) by (simp add: join_script_def)
  moreover have "read_from_bytes (input_state_codec C) (input_note_state_write (sc_base C) (inr_state r)) = Inr (inr_state r)"
    using read_from_bytes_ok [of "input_state_codec C" "inr_state r"] assms(1) by simp
  ultimately show ?thesis
    using assms(1)
    by (simp add: read_input_row_def parse_input_note_def row_of_record_def input_row_def
        serialize_input_note_def Let_def input_note_record_new_def stored_record_def)
qed

lemma parse_serialized_output:
  assumes "sql_codecs_ok C" and "serialize_output_note P C r = (i, row)"
  shows "parse_output_note C row = Inr r" "onr_id P r = i"
proof -
  have "read_from_bytes (output_state_codec C) (output_note_state_write (sc_base C) (onr_state r)) = Inr (onr_state r)"
    using read_from_bytes_ok [of "output_state_codec C" "onr_state r"] assms(1) by simp
  then show "parse_output_note C row = Inr r" "onr_id P r = i"
    using assms by (auto simp: serialize_output_note_def parse_output_note_def output_note_record_new_def)
qed


lemma stored_input_row:
  assumes "sql_codecs_ok C" "note_tables_inv P C D" "storable r"
    and "bt_get (db_input_notes D) i = Some (row_of_record P C r)"
  shows "stored_input C D i = Some (stored_record r)"
proof -
  have "bt_get (db_notes_scripts D) (ir_script_root (row_of_record P C r))
      = Some (fst (sc_script C) (ir_script_root (row_of_record P C r)))"
    using assms(2,4) unfolding note_tables_inv_def input_rows_ok_def by blast
  then show ?thesis
    using read_row_of_record [OF assms(1,3)] assms(4) by (simp add: stored_input_def)
qed

text \<open>Under the invariant a key is absent, or holds the row of a record that is read back.\<close>

lemma stored_input_cases:
  assumes "sql_codecs_ok C" "note_tables_inv P C D"
  obtains (absent) "bt_get (db_input_notes D) i = None" "stored_input C D i = None"
  | (row) r where "inr_id P r = i" "storable r" "bt_get (db_input_notes D) i = Some (row_of_record P C r)"
      "stored_input C D i = Some (stored_record r)"
proof (cases "bt_get (db_input_notes D) i")
  case None
  then show ?thesis by (intro absent) (simp_all add: stored_input_def)
next
  case (Some row)
  then obtain r where "inr_id P r = i" "storable r" "row = row_of_record P C r"
    using assms(2) unfolding note_tables_inv_def input_rows_ok_def by blast
  then show ?thesis using Some stored_input_row [OF assms] that(2) by simp
qed

section \<open>Lookups after each operation\<close>

lemma set_input_state_row: "set_input_state C r (row_of_record P C r0) = row_of_record P C (r0\<lparr>inr_state := inr_state r\<rparr>)"
  by (simp add: row_defs set_input_state_def inr_id_def inr_nullifier_def inr_consumer_account_def)

lemma set_input_state_script [simp]: "ir_script_root (set_input_state C r row) = ir_script_root row"
  by (simp add: set_input_state_def)

lemma state_update_keeps [simp]:
  "inr_id P (r\<lparr>inr_state := st\<rparr>) = inr_id P r" "storable (r\<lparr>inr_state := st\<rparr>) = storable r"
  "stored_record (r\<lparr>inr_state := st\<rparr>) = (stored_record r)\<lparr>inr_state := st\<rparr>"
  "inr_id P (stored_record r) = inr_id P r"
  by (simp_all add: inr_id_def storable_def stored_record_def)

text \<open>Database operations that only insert rows keep the invariant.\<close>

lemma insert_script_row_inv:
  "note_tables_inv P C D \<Longrightarrow> note_tables_inv P C (insert_script_row root (fst (sc_script C) root) D)"
  unfolding note_tables_inv_def input_rows_ok_def output_rows_ok_def scripts_ok_def by auto

lemma insert_input_row_inv:
  assumes "note_tables_inv P C D" "storable r"
    and "bt_get (db_notes_scripts D) (rc_script_root (nd_recipient (inr_details r))) \<noteq> None"
  shows "note_tables_inv P C (insert_input_row (inr_id P r) (row_of_record P C r) D)"
proof -
  have "bt_get (db_notes_scripts D) (ir_script_root (row_of_record P C r))
      = Some (fst (sc_script C) (ir_script_root (row_of_record P C r)))"
    using assms(1,3) unfolding note_tables_inv_def scripts_ok_def by fastforce
  then have "input_rows_ok P C (insert_input_row (inr_id P r) (row_of_record P C r) D)"
    using assms(1,2) unfolding note_tables_inv_def input_rows_ok_def row_ops_sel bt_get_insert
    by (metis option.inject)
  then show ?thesis using assms(1)
    by (simp add: note_tables_inv_def output_rows_ok_def scripts_ok_def)
qed

lemma update_input_note_state_inv:
  assumes "note_tables_inv P C D"
  shows "note_tables_inv P C (update_input_note_state P C r D)"
proof -
  have "input_rows_ok P C (update_input_note_state P C r D)"
    unfolding input_rows_ok_def
  proof (intro allI impI)
    fix i row assume "bt_get (db_input_notes (update_input_note_state P C r D)) i = Some row"
    then obtain row0 where row0: "bt_get (db_input_notes D) i = Some row0"
      and ch: "row = row0 \<or> row = set_input_state C r row0"
      by (auto split: if_splits)
    obtain r0 where r0: "inr_id P r0 = i" "storable r0" "row0 = row_of_record P C r0"
      "bt_get (db_notes_scripts D) (ir_script_root row0) = Some (fst (sc_script C) (ir_script_root row0))"
      using assms row0 unfolding note_tables_inv_def input_rows_ok_def by blast
    from ch show "\<exists>r'. inr_id P r' = i \<and> storable r' \<and> row = row_of_record P C r'
        \<and> bt_get (db_notes_scripts (update_input_note_state P C r D)) (ir_script_root row)
          = Some (fst (sc_script C) (ir_script_root row))"
    proof
      assume "row = row0"
      then show ?thesis using r0 by auto
    next
      assume row: "row = set_input_state C r row0"
      then have "row = row_of_record P C (r0\<lparr>inr_state := inr_state r\<rparr>)"
        by (simp add: r0(3) set_input_state_row)
      then show ?thesis using r0 row
        by (intro exI [of _ "r0\<lparr>inr_state := inr_state r\<rparr>"]) simp
    qed
  qed
  then show ?thesis using assms
    by (auto simp: note_tables_inv_def output_rows_ok_def scripts_ok_def)
qed

text \<open>A lookup depends on the row and on the scripts only.\<close>

lemma stored_input_cong:
  "db_notes_scripts D' = db_notes_scripts D \<Longrightarrow> bt_get (db_input_notes D') i = bt_get (db_input_notes D) i \<Longrightarrow>
   stored_input C D' i = stored_input C D i"
  by (simp add: stored_input_def read_input_row_def join_script_def split: option.split)

lemma stored_input_insert_script:
  assumes "sql_codecs_ok C" "note_tables_inv P C D"
  shows "stored_input C (insert_script_row root (fst (sc_script C) root) D) i = stored_input C D i"
  using assms
proof (cases rule: stored_input_cases [where i = i])
  case absent
  then show ?thesis by (simp add: stored_input_def)
next
  case (row r)
  then show ?thesis
    using stored_input_row [OF assms(1) insert_script_row_inv [OF assms(2)] row(2)] by simp
qed

lemma stored_input_insert_row:
  assumes "sql_codecs_ok C" "note_tables_inv P C D" "storable r"
    and script: "bt_get (db_notes_scripts D) (rc_script_root (nd_recipient (inr_details r))) \<noteq> None"
  shows "stored_input C (insert_input_row (inr_id P r) (row_of_record P C r) D) i =
    (if i = inr_id P r then Some (stored_record r) else stored_input C D i)"
proof (cases "i = inr_id P r")
  case True
  then show ?thesis
    using stored_input_row [OF assms(1) insert_input_row_inv [OF assms(2,3) script] assms(3)] by simp
next
  case False
  then show ?thesis by (simp, intro stored_input_cong) simp_all
qed

lemma stored_input_update_state:
  assumes "sql_codecs_ok C" "note_tables_inv P C D"
  shows "stored_input C (update_input_note_state P C r D) i =
    (if i = inr_id P r then map_option (\<lambda>x. x\<lparr>inr_state := inr_state r\<rparr>) (stored_input C D i)
     else stored_input C D i)"
  using assms
proof (cases rule: stored_input_cases [where i = i])
  case absent
  then have "stored_input C (update_input_note_state P C r D) i = None" by (auto simp: stored_input_def)
  with absent show ?thesis by auto
next
  case (row r0)
  show ?thesis
  proof (cases "i = inr_id P r")
    case True
    have "bt_get (db_input_notes (update_input_note_state P C r D)) i
        = Some (row_of_record P C (r0\<lparr>inr_state := inr_state r\<rparr>))"
      using row(3) True by (simp add: set_input_state_row)
    then show ?thesis
      using stored_input_row [OF assms(1) update_input_note_state_inv [OF assms(2)], of "r0\<lparr>inr_state := inr_state r\<rparr>"]
        row(2,4) True by simp
  next
    case False
    then show ?thesis by (simp, intro stored_input_cong) simp_all
  qed
qed

section \<open>Output rows\<close>

lemma stored_output_cases:
  assumes "sql_codecs_ok C" "note_tables_inv P C D"
  obtains (absent) "bt_get (db_output_notes D) i = None" "stored_output C D i = None"
  | (row) r where "onr_id P r = i" "bt_get (db_output_notes D) i = Some (snd (serialize_output_note P C r))"
      "stored_output C D i = Some r"
proof (cases "bt_get (db_output_notes D) i")
  case None
  then show ?thesis by (intro absent) (simp_all add: stored_output_def)
next
  case (Some row)
  then obtain r where "serialize_output_note P C r = (i, row)"
    using assms(2) unfolding note_tables_inv_def output_rows_ok_def by blast
  then show ?thesis using Some parse_serialized_output [OF assms(1), of P r i row] that(2) [of r]
    by (simp add: stored_output_def)
qed

lemma stored_output_row:
  assumes "sql_codecs_ok C" and "bt_get (db_output_notes D) (onr_id P r) = Some (snd (serialize_output_note P C r))"
  shows "stored_output C D (onr_id P r) = Some r"
  using assms parse_serialized_output(1) [OF assms(1), of P r "fst (serialize_output_note P C r)" "snd (serialize_output_note P C r)"]
  by (simp add: stored_output_def)

lemma insert_output_row_inv:
  "note_tables_inv P C D \<Longrightarrow> note_tables_inv P C (insert_output_row (onr_id P r) (snd (serialize_output_note P C r)) D)"
  by (auto simp: note_tables_inv_def input_rows_ok_def scripts_ok_def output_rows_ok_def serialize_output_note_def)

lemma set_output_state_row:
  assumes "onr_recipient r = onr_recipient r0"
  shows "set_output_state C r (snd (serialize_output_note P C r0))
    = snd (serialize_output_note P C (r0\<lparr>onr_state := onr_state r\<rparr>))"
  using assms
  by (simp add: set_output_state_def serialize_output_note_def onr_nullifier_def onr_recipient_def split: option.splits)

lemma onr_id_state [simp]: "onr_id P (r\<lparr>onr_state := st\<rparr>) = onr_id P r"
  by (simp add: onr_id_def)

text \<open>An update of an output note replaces its state only, so it must agree with the stored recipient.\<close>

definition output_update_fits :: "protocol \<Rightarrow> sql_codecs \<Rightarrow> output_note_record \<Rightarrow> database \<Rightarrow> bool" where
  "output_update_fits P C r D \<longleftrightarrow>
     (case stored_output C D (onr_id P r) of None \<Rightarrow> True | Some r0 \<Rightarrow> onr_recipient r0 = onr_recipient r)"

lemma update_output_row:
  assumes "sql_codecs_ok C" "note_tables_inv P C D" "output_update_fits P C r D"
  shows "stored_output C (update_output_note_state P C r D) i =
      (if i = onr_id P r then map_option (\<lambda>x. x\<lparr>onr_state := onr_state r\<rparr>) (stored_output C D i)
       else stored_output C D i)"
    and "note_tables_inv P C (update_output_note_state P C r D)"
proof -
  have row: "(bt_get (db_output_notes D) (onr_id P r) = None \<and> stored_output C D (onr_id P r) = None)
      \<or> (\<exists>r0. onr_id P r0 = onr_id P r \<and> onr_recipient r0 = onr_recipient r
           \<and> bt_get (db_output_notes D) (onr_id P r) = Some (snd (serialize_output_note P C r0))
           \<and> stored_output C D (onr_id P r) = Some r0)"
    using assms(1,2)
    by (cases rule: stored_output_cases [where i = "onr_id P r"])
      (use assms(3) in \<open>auto simp: output_update_fits_def\<close>)
  show "stored_output C (update_output_note_state P C r D) i =
      (if i = onr_id P r then map_option (\<lambda>x. x\<lparr>onr_state := onr_state r\<rparr>) (stored_output C D i)
       else stored_output C D i)"
  proof (cases "i = onr_id P r")
    case True
    from row show ?thesis
    proof (elim disjE exE conjE)
      fix r0 assume r0: "onr_id P r0 = onr_id P r" "onr_recipient r0 = onr_recipient r"
        "bt_get (db_output_notes D) (onr_id P r) = Some (snd (serialize_output_note P C r0))"
        "stored_output C D (onr_id P r) = Some r0"
      then have "stored_output C (update_output_note_state P C r D) (onr_id P (r0\<lparr>onr_state := onr_state r\<rparr>))
          = Some (r0\<lparr>onr_state := onr_state r\<rparr>)"
        by (intro stored_output_row [OF assms(1)]) (simp add: set_output_state_row)
      then show ?thesis using r0 True by simp
    qed (auto simp: True stored_output_def)
  next
    case False
    then show ?thesis by (simp add: stored_output_def)
  qed
  have "output_rows_ok P C (update_output_note_state P C r D)"
    unfolding output_rows_ok_def
  proof (intro allI impI)
    fix i row' assume row': "bt_get (db_output_notes (update_output_note_state P C r D)) i = Some row'"
    show "\<exists>r'. serialize_output_note P C r' = (i, row')"
    proof (cases "i = onr_id P r")
      case True
      then obtain r0 where "onr_id P r0 = i" "onr_recipient r0 = onr_recipient r"
        "bt_get (db_output_notes D) i = Some (snd (serialize_output_note P C r0))"
        using row row' by auto
      then have "serialize_output_note P C (r0\<lparr>onr_state := onr_state r\<rparr>) = (i, row')"
        using row' True set_output_state_row [of r r0 C P]
        by (simp add: prod_eq_iff) (simp add: serialize_output_note_def onr_id_def)
      then show ?thesis ..
    next
      case False
      then show ?thesis
        using row' assms(2) unfolding note_tables_inv_def output_rows_ok_def by simp
    qed
  qed
  then show "note_tables_inv P C (update_output_note_state P C r D)"
    using assms(2) by (simp add: note_tables_inv_def input_rows_ok_def scripts_ok_def)
qed

section \<open>Interpretations\<close>

interpretation script_rows: keyed_table "\<lambda>D. sql_codecs_ok C \<and> note_tables_inv P C D"
    "\<lambda>(root, bs) D. bs = fst (sc_script C) root" "\<lambda>(root, bs). insert_script_row root bs" fst
    "\<lambda>D. bt_get (db_notes_scripts D)" "\<lambda>(root, bs) _. Some bs" for P C
  by unfold_locales (auto simp: insert_script_row_inv)

interpretation input_inserts: keyed_table "\<lambda>D. sql_codecs_ok C \<and> note_tables_inv P C D"
    "\<lambda>r D. storable r \<and> bt_get (db_notes_scripts D) (rc_script_root (nd_recipient (inr_details r))) \<noteq> None"
    "\<lambda>r. insert_input_row (inr_id P r) (row_of_record P C r)" "inr_id P"
    "stored_input C" "\<lambda>r _. Some (stored_record r)" for P C
  by unfold_locales (auto simp: stored_input_insert_row intro: insert_input_row_inv)

interpretation input_updates: keyed_table "\<lambda>D. sql_codecs_ok C \<and> note_tables_inv P C D" "\<lambda>r D. True"
    "update_input_note_state P C" "inr_id P" "stored_input C"
    "\<lambda>r. map_option (\<lambda>x. x\<lparr>inr_state := inr_state r\<rparr>)" for P C
  by unfold_locales (auto simp: stored_input_update_state update_input_note_state_inv)

interpretation output_inserts: keyed_table "\<lambda>D. sql_codecs_ok C \<and> note_tables_inv P C D" "\<lambda>r D. True"
    "\<lambda>r. insert_output_row (onr_id P r) (snd (serialize_output_note P C r))" "onr_id P" "stored_output C" "\<lambda>r _. Some r" for P C
proof unfold_locales
  fix d r i assume "sql_codecs_ok C \<and> note_tables_inv P C d"
  then show "stored_output C (insert_output_row (onr_id P r) (snd (serialize_output_note P C r)) d) i =
    (if i = onr_id P r then Some r else stored_output C d i)"
    using stored_output_row [of C "insert_output_row (onr_id P r) (snd (serialize_output_note P C r)) d" P r]
    by (auto simp: stored_output_def)
qed (auto simp: insert_output_row_inv)

interpretation output_updates: keyed_table "\<lambda>D. sql_codecs_ok C \<and> note_tables_inv P C D" "output_update_fits P C"
    "update_output_note_state P C" "onr_id P" "stored_output C"
    "\<lambda>r. map_option (\<lambda>x. x\<lparr>onr_state := onr_state r\<rparr>)" for P C
proof unfold_locales
  fix d x y assume a: "sql_codecs_ok C \<and> note_tables_inv P C d" "output_update_fits P C x d" "output_update_fits P C y d"
  then show "output_update_fits P C y (update_output_note_state P C x d)"
    by (auto simp: output_update_fits_def update_output_row(1) onr_recipient_def split: option.splits)
qed (auto simp: update_output_row)

lemma batch_upsert_scripts_eq: "batch_upsert_scripts scripts D = fold (\<lambda>(root, bs). insert_script_row root bs) scripts D"
  by (simp add: batch_upsert_scripts_def fold_chunks_of)

lemma batch_insert_input_notes_eq:
  "batch_insert_input_notes (map (serialize_input_note P C) rs) D =
     fold (\<lambda>r. insert_input_row (inr_id P r) (row_of_record P C r)) rs D"
proof -
  have "insert_input_row (inr_id P r) (row_of_record P C r)
      = (\<lambda>s. insert_input_row (si_id s) (input_row s (sint (si_created_at s)))) (serialize_input_note P C r)" for r
    by (simp add: row_of_record_def Let_def) (simp add: serialize_input_note_def Let_def)
  then show ?thesis
    by (simp add: batch_insert_input_notes_def fold_chunks_of fold_map comp_def)
qed

lemma batch_insert_output_notes_eq:
  "batch_insert_output_notes (map (serialize_output_note P C) rs) D =
     fold (\<lambda>r. insert_output_row (onr_id P r) (snd (serialize_output_note P C r))) rs D"
proof -
  have "insert_output_row (onr_id P r) (snd (serialize_output_note P C r))
      = (\<lambda>(i, row). insert_output_row i row) (serialize_output_note P C r)" for r
    by (simp add: serialize_output_note_def)
  then show ?thesis
    by (simp add: batch_insert_output_notes_def fold_chunks_of fold_map comp_def)
qed

text \<open>The scripts collected from the inserted notes are exactly their roots, each with its encoding.\<close>

lemma scripts_from_inserts:
  fixes P C rs
  defines "scripts \<equiv> bt_from_iter (map (\<lambda>s. (si_script_root s, si_script s)) (map (serialize_input_note P C) rs))"
  shows "\<forall>p \<in> set scripts. snd p = fst (sc_script C) (fst p)"
    and "fst ` set scripts = (\<lambda>r. rc_script_root (nd_recipient (inr_details r))) ` set rs"
proof -
  let ?xs = "map (\<lambda>s. (si_script_root s, si_script s)) (map (serialize_input_note P C) rs)"
  have wf: "bt_wf scripts" by (simp add: scripts_def)
  have pairs: "set ?xs = (\<lambda>r. (rc_script_root (nd_recipient (inr_details r)),
      fst (sc_script C) (rc_script_root (nd_recipient (inr_details r))))) ` set rs"
    by (auto simp: serialize_input_note_def Let_def)
  have get: "bt_get scripts k = map_of (rev ?xs) k" for k
    by (simp add: scripts_def bt_get_from_iter)
  show "\<forall>p \<in> set scripts. snd p = fst (sc_script C) (fst p)"
  proof
    fix p assume "p \<in> set scripts"
    then have "bt_get scripts (fst p) = Some (snd p)"
      using bt_get_iff_mem [OF wf, of "fst p" "snd p"] by simp
    then have "p \<in> set ?xs" using map_of_SomeD [of "rev ?xs" "fst p" "snd p"] get by simp
    then show "snd p = fst (sc_script C) (fst p)" unfolding pairs by auto
  qed
  have "k \<in> fst ` set scripts \<longleftrightarrow> k \<in> fst ` set ?xs" for k
    using bt_get_keys [of scripts k] get [of k] by (auto simp: map_of_eq_None_iff)
  then have "fst ` set scripts = fst ` set ?xs" by blast
  then show "fst ` set scripts = (\<lambda>r. rc_script_root (nd_recipient (inr_details r))) ` set rs"
    unfolding pairs by (simp add: image_image)
qed

text \<open>What the updates of a tracker say about each note.\<close>

abbreviation tracked_inputs_with :: "note_update_type \<Rightarrow> note_update_tracker \<Rightarrow> input_note_record list" where
  "tracked_inputs_with t N \<equiv> map inu_note (filter (\<lambda>u. inu_update_type u = t) (updated_input_notes N))"

abbreviation tracked_outputs_with :: "note_update_type \<Rightarrow> note_update_tracker \<Rightarrow> output_note_record list" where
  "tracked_outputs_with t N \<equiv> map onu_note (filter (\<lambda>u. onu_update_type u = t) (updated_output_notes N))"

lemma tracked_inputs_at:
  assumes "tracker_inv P N" and "t \<noteq> UpdateNone"
  shows "filter (\<lambda>r. inr_id P r = i) (tracked_inputs_with t N) =
    (case bt_get (nut_input_notes N) i of
       None \<Rightarrow> [] | Some u \<Rightarrow> if inu_update_type u = t then [inu_note u] else [])"
proof -
  have kind: "(inu_update_type u = UpdateInsert \<or> inu_update_type u = UpdateUpdate) \<and> inu_update_type u = t \<and> X
      \<longleftrightarrow> inu_update_type u = t \<and> X" for u X
    using assms(2) by (cases t) auto
  have wf: "bt_wf (nut_input_notes N)" and keys: "\<forall>p \<in> set (nut_input_notes N). inr_id P (inu_note (snd p)) = fst p"
    using assms(1) bt_get_iff_mem unfolding tracker_inv_def input_index_inv_def by fastforce+
  have "filter (\<lambda>u. inu_update_type u = t \<and> inr_id P (inu_note u) = i) (bt_values (nut_input_notes N)) =
      (case bt_get (nut_input_notes N) i of None \<Rightarrow> [] | Some u \<Rightarrow> if inu_update_type u = t then [u] else [])"
    using filter_bt_values [OF wf keys, of "\<lambda>u. inu_update_type u = t" i] .
  moreover have "filter (\<lambda>r. inr_id P r = i) (tracked_inputs_with t N) =
      map inu_note (filter (\<lambda>u. inu_update_type u = t \<and> inr_id P (inu_note u) = i) (bt_values (nut_input_notes N)))"
    by (simp add: updated_input_notes_def filter_map comp_def kind)
  ultimately show ?thesis by (auto split: option.splits)
qed

lemma tracked_outputs_at:
  assumes "tracker_inv P N" and "t \<noteq> UpdateNone"
  shows "filter (\<lambda>r. onr_id P r = i) (tracked_outputs_with t N) =
    (case bt_get (nut_output_notes N) i of
       None \<Rightarrow> [] | Some u \<Rightarrow> if onu_update_type u = t then [onu_note u] else [])"
proof -
  have kind: "(onu_update_type u = UpdateInsert \<or> onu_update_type u = UpdateUpdate) \<and> onu_update_type u = t \<and> X
      \<longleftrightarrow> onu_update_type u = t \<and> X" for u X
    using assms(2) by (cases t) auto
  have wf: "bt_wf (nut_output_notes N)" and keys: "\<forall>p \<in> set (nut_output_notes N). onr_id P (onu_note (snd p)) = fst p"
    using assms(1) bt_get_iff_mem unfolding tracker_inv_def output_index_inv_def by fastforce+
  have "filter (\<lambda>u. onu_update_type u = t \<and> onr_id P (onu_note u) = i) (bt_values (nut_output_notes N)) =
      (case bt_get (nut_output_notes N) i of None \<Rightarrow> [] | Some u \<Rightarrow> if onu_update_type u = t then [u] else [])"
    using filter_bt_values [OF wf keys, of "\<lambda>u. onu_update_type u = t" i] .
  moreover have "filter (\<lambda>r. onr_id P r = i) (tracked_outputs_with t N) =
      map onu_note (filter (\<lambda>u. onu_update_type u = t \<and> onr_id P (onu_note u) = i) (bt_values (nut_output_notes N)))"
    by (simp add: updated_output_notes_def filter_map comp_def kind)
  ultimately show ?thesis by (auto split: option.splits)
qed

text \<open>The four phases, on records.\<close>

lemma apply_note_updates_phases:
  "apply_note_updates_tx P C N D =
     fold (update_output_note_state P C) (tracked_outputs_with UpdateUpdate N)
      (fold (\<lambda>r. insert_output_row (onr_id P r) (snd (serialize_output_note P C r))) (tracked_outputs_with UpdateInsert N)
       (fold (update_input_note_state P C) (tracked_inputs_with UpdateUpdate N)
        (fold (\<lambda>r. insert_input_row (inr_id P r) (row_of_record P C r)) (tracked_inputs_with UpdateInsert N)
         (fold (\<lambda>(root, bs). insert_script_row root bs)
           (bt_from_iter (map (\<lambda>s. (si_script_root s, si_script s))
             (map (serialize_input_note P C) (tracked_inputs_with UpdateInsert N)))) D))))"
  using batch_insert_input_notes_eq [of P C "tracked_inputs_with UpdateInsert N"]
    batch_insert_output_notes_eq [of P C "tracked_outputs_with UpdateInsert N"]
  by (simp add: apply_note_updates_tx_def Let_def batch_upsert_scripts_eq comp_def)


lemma outputs_keep_inputs:
  "stored_input C (fold (update_output_note_state P C) xs D) i = stored_input C D i"
  "stored_input C (fold (\<lambda>r. insert_output_row (onr_id P r) (snd (serialize_output_note P C r))) ys D) i = stored_input C D i"
proof -
  have "db_input_notes (fold (update_output_note_state P C) xs D) = db_input_notes D
      \<and> db_notes_scripts (fold (update_output_note_state P C) xs D) = db_notes_scripts D"
    by (induction xs arbitrary: D) simp_all
  then show "stored_input C (fold (update_output_note_state P C) xs D) i = stored_input C D i"
    by (intro stored_input_cong) simp_all
  let ?f = "\<lambda>r. insert_output_row (onr_id P r) (snd (serialize_output_note P C r))"
  have "db_input_notes (fold ?f ys D) = db_input_notes D \<and> db_notes_scripts (fold ?f ys D) = db_notes_scripts D"
    by (induction ys arbitrary: D) simp_all
  then show "stored_input C (fold ?f ys D) i = stored_input C D i"
    by (intro stored_input_cong) simp_all
qed

lemma inputs_keep_outputs:
  "db_output_notes (fold (update_input_note_state P C) xs D) = db_output_notes D"
  "db_output_notes (fold (\<lambda>r. insert_input_row (inr_id P r) (row_of_record P C r)) ys D) = db_output_notes D"
  "db_output_notes (fold (\<lambda>(root, bs). insert_script_row root bs) zs D) = db_output_notes D"
proof -
  show "db_output_notes (fold (update_input_note_state P C) xs D) = db_output_notes D"
    by (induction xs arbitrary: D) simp_all
  show "db_output_notes (fold (\<lambda>r. insert_input_row (inr_id P r) (row_of_record P C r)) ys D) = db_output_notes D"
    by (induction ys arbitrary: D) simp_all
  show "db_output_notes (fold (\<lambda>(root, bs). insert_script_row root bs) zs D) = db_output_notes D"
    by (induction zs arbitrary: D) (simp_all add: case_prod_beta)
qed

lemma stored_output_cong: "db_output_notes D' = db_output_notes D \<Longrightarrow> stored_output C D' i = stored_output C D i"
  by (simp add: stored_output_def)

definition updates_fit :: "protocol \<Rightarrow> sql_codecs \<Rightarrow> note_update_tracker \<Rightarrow> database \<Rightarrow> bool" where
  "updates_fit P C N D \<longleftrightarrow>
     (\<forall>i u. bt_get (nut_input_notes N) i = Some u \<and> inu_update_type u = UpdateInsert \<longrightarrow> storable (inu_note u))
     \<and> (\<forall>i u. bt_get (nut_output_notes N) i = Some u \<and> onu_update_type u = UpdateUpdate \<longrightarrow>
          output_update_fits P C (onu_note u) D)"

text \<open>
  The abstract effect on one note: nothing for an unchanged note, the whole record for a new one,
  the state for an updated one.
\<close>

definition input_effect :: "note_update_tracker \<Rightarrow> note_id \<Rightarrow> input_note_record option \<Rightarrow> input_note_record option" where
  "input_effect N i stored =
     (case bt_get (nut_input_notes N) i of
        None \<Rightarrow> stored
      | Some u \<Rightarrow> (case inu_update_type u of
            UpdateNone \<Rightarrow> stored
          | UpdateInsert \<Rightarrow> Some (stored_record (inu_note u))
          | UpdateUpdate \<Rightarrow> map_option (\<lambda>r. r\<lparr>inr_state := inr_state (inu_note u)\<rparr>) stored))"

definition output_effect :: "note_update_tracker \<Rightarrow> note_id \<Rightarrow> output_note_record option \<Rightarrow> output_note_record option" where
  "output_effect N i stored =
     (case bt_get (nut_output_notes N) i of
        None \<Rightarrow> stored
      | Some u \<Rightarrow> (case onu_update_type u of
            UpdateNone \<Rightarrow> stored
          | UpdateInsert \<Rightarrow> Some (onu_note u)
          | UpdateUpdate \<Rightarrow> map_option (\<lambda>r. r\<lparr>onr_state := onr_state (onu_note u)\<rparr>) stored))"

lemma tracked_inputs_mem:
  assumes "tracker_inv P N" "r \<in> set (tracked_inputs_with t N)"
  shows "\<exists>u. bt_get (nut_input_notes N) (inr_id P r) = Some u \<and> inu_note u = r \<and> inu_update_type u = t"
proof -
  obtain i u where u: "(i, u) \<in> set (nut_input_notes N)" "inu_note u = r" "inu_update_type u = t"
    using assms(2) by (auto simp: updated_input_notes_def)
  have wf: "bt_wf (nut_input_notes N)" and inv: "input_index_inv P (nut_input_notes N) (nut_input_by_nullifier N)"
    using assms(1) by (simp_all add: tracker_inv_def)
  have get: "bt_get (nut_input_notes N) i = Some u"
    using u(1) bt_get_iff_mem [OF wf] by blast
  then have "inr_id P r = i"
    using inv u(2) unfolding input_index_inv_def by blast
  then show ?thesis using u get by auto
qed

lemma tracked_outputs_mem:
  assumes "tracker_inv P N" "r \<in> set (tracked_outputs_with t N)"
  shows "\<exists>u. bt_get (nut_output_notes N) (onr_id P r) = Some u \<and> onu_note u = r \<and> onu_update_type u = t"
proof -
  obtain i u where u: "(i, u) \<in> set (nut_output_notes N)" "onu_note u = r" "onu_update_type u = t"
    using assms(2) by (auto simp: updated_output_notes_def)
  have wf: "bt_wf (nut_output_notes N)" and inv: "output_index_inv P (nut_output_notes N) (nut_output_by_nullifier N)"
    using assms(1) by (simp_all add: tracker_inv_def)
  have get: "bt_get (nut_output_notes N) i = Some u"
    using u(1) bt_get_iff_mem [OF wf] by blast
  then have "onr_id P r = i"
    using inv u(2) unfolding output_index_inv_def by blast
  then show ?thesis using u get by auto
qed

lemma fold_scripts_stored:
  assumes "sql_codecs_ok C" "note_tables_inv P C D" "\<forall>p \<in> set xs. snd p = fst (sc_script C) (fst p)"
  shows "stored_input C (fold (\<lambda>(root, bs). insert_script_row root bs) xs D) i = stored_input C D i"
  using assms
proof (induction xs arbitrary: D)
  case (Cons p xs)
  then show ?case
    by (simp add: case_prod_beta insert_script_row_inv stored_input_insert_script)
qed simp

text \<open>Inserting scripts, then notes: every note is there, whatever was stored under its id.\<close>

lemma insert_inputs_effect:
  fixes P C D and rs :: "input_note_record list"
  defines "scripts \<equiv> bt_from_iter (map (\<lambda>s. (si_script_root s, si_script s)) (map (serialize_input_note P C) rs))"
  defines "D1 \<equiv> fold (\<lambda>(root, bs). insert_script_row root bs) scripts D"
  defines "D2 \<equiv> fold (\<lambda>r. insert_input_row (inr_id P r) (row_of_record P C r)) rs D1"
  assumes ok: "sql_codecs_ok C" and inv: "note_tables_inv P C D" and st: "\<forall>r \<in> set rs. storable r"
  shows "sql_codecs_ok C \<and> note_tables_inv P C D2"
    and "stored_input C D2 i = fold (\<lambda>r _. Some (stored_record r)) (filter (\<lambda>r. inr_id P r = i) rs) (stored_input C D i)"
proof -
  have base: "sql_codecs_ok C \<and> note_tables_inv P C D" using ok inv by simp
  have s1: "\<forall>x \<in> set scripts. (\<lambda>(root, bs) D. bs = fst (sc_script C) root) x D"
    using scripts_from_inserts(1) [of P C rs] by (simp add: scripts_def case_prod_beta)
  have p1: "sql_codecs_ok C \<and> note_tables_inv P C D1"
    using script_rows.fold_steps [OF base s1] by (simp add: D1_def)
  have in1: "stored_input C D1 i = stored_input C D i"
    unfolding D1_def scripts_def by (rule fold_scripts_stored [OF ok inv scripts_from_inserts(1)])
  have s2: "\<forall>r \<in> set rs. storable r \<and> bt_get (db_notes_scripts D1) (rc_script_root (nd_recipient (inr_details r))) \<noteq> None"
  proof (intro ballI conjI)
    fix r assume r: "r \<in> set rs"
    let ?root = "rc_script_root (nd_recipient (inr_details r))"
    show "storable r" using st r by blast
    have "?root \<in> fst ` set scripts" using scripts_from_inserts(2) [of P C rs] r by (simp add: scripts_def)
    then show "bt_get (db_notes_scripts D1) ?root \<noteq> None"
      using script_rows.fold_steps [OF base s1] fold_const_Some [OF filter_key_nonempty] by (simp add: D1_def)
  qed
  show "sql_codecs_ok C \<and> note_tables_inv P C D2"
    and "stored_input C D2 i = fold (\<lambda>r _. Some (stored_record r)) (filter (\<lambda>r. inr_id P r = i) rs) (stored_input C D i)"
    using input_inserts.fold_steps [OF p1 s2] unfolding D2_def in1 [symmetric] by blast+
qed

text \<open>
  The store implements the abstract effect of a tracker's updates, and keeps its invariant.
\<close>

lemma apply_note_updates_effect:
  assumes ok: "sql_codecs_ok C" and inv: "note_tables_inv P C D" and tr: "tracker_inv P N" and fit: "updates_fit P C N D"
  shows "note_tables_inv P C (apply_note_updates_tx P C N D)"
    and "stored_input C (apply_note_updates_tx P C N D) i = input_effect N i (stored_input C D i)"
    and "stored_output C (apply_note_updates_tx P C N D) i = output_effect N i (stored_output C D i)"
proof -
  let ?ins = "tracked_inputs_with UpdateInsert N" and ?upd = "tracked_inputs_with UpdateUpdate N"
  let ?oins = "tracked_outputs_with UpdateInsert N" and ?oupd = "tracked_outputs_with UpdateUpdate N"
  define D2 where "D2 = fold (\<lambda>r. insert_input_row (inr_id P r) (row_of_record P C r)) ?ins
    (fold (\<lambda>(root, bs). insert_script_row root bs)
      (bt_from_iter (map (\<lambda>s. (si_script_root s, si_script s)) (map (serialize_input_note P C) ?ins))) D)"
  define D3 where "D3 = fold (update_input_note_state P C) ?upd D2"
  define D4 where "D4 = fold (\<lambda>r. insert_output_row (onr_id P r) (snd (serialize_output_note P C r))) ?oins D3"
  have final: "apply_note_updates_tx P C N D = fold (update_output_note_state P C) ?oupd D4"
    by (simp only: apply_note_updates_phases D2_def D3_def D4_def)
  have "\<forall>r \<in> set ?ins. storable r"
    using tracked_inputs_mem [OF tr] fit unfolding updates_fit_def by blast
  note phase2 = insert_inputs_effect [OF ok inv this, folded D2_def]
  note phase3 = input_updates.fold_steps [OF phase2(1), of ?upd, folded D3_def, simplified]
  have p3: "sql_codecs_ok C \<and> note_tables_inv P C D3" using phase3 by blast
  have "db_output_notes D3 = db_output_notes D" by (simp add: D3_def D2_def inputs_keep_outputs)
  note out3 = stored_output_cong [OF this]
  note phase4 = output_inserts.fold_steps [OF p3, of ?oins, folded D4_def, simplified]
  have p4: "sql_codecs_ok C \<and> note_tables_inv P C D4" using phase4 by blast
  have s5: "\<forall>r \<in> set ?oupd. output_update_fits P C r D4"
  proof
    fix r assume r: "r \<in> set ?oupd"
    then obtain u where u: "bt_get (nut_output_notes N) (onr_id P r) = Some u" "onu_note u = r" "onu_update_type u = UpdateUpdate"
      using tracked_outputs_mem [OF tr] by blast
    then have "filter (\<lambda>q. onr_id P q = onr_id P r) ?oins = []"
      using tracked_outputs_at [OF tr, of UpdateInsert "onr_id P r"] by simp
    then have "stored_output C D4 (onr_id P r) = stored_output C D (onr_id P r)"
      using phase4 out3 by simp
    moreover have "output_update_fits P C r D" using u fit unfolding updates_fit_def by blast
    ultimately show "output_update_fits P C r D4" by (simp add: output_update_fits_def)
  qed
  note phase5 = output_updates.fold_steps [OF p4 s5]
  show "note_tables_inv P C (apply_note_updates_tx P C N D)" using phase5 final by simp
  show "stored_input C (apply_note_updates_tx P C N D) i = input_effect N i (stored_input C D i)"
    using phase2(2) phase3 tracked_inputs_at [OF tr, of UpdateInsert i] tracked_inputs_at [OF tr, of UpdateUpdate i]
    by (auto simp: final D4_def outputs_keep_inputs input_effect_def split: option.splits note_update_type.splits)
  show "stored_output C (apply_note_updates_tx P C N D) i = output_effect N i (stored_output C D i)"
    using phase4 phase5 out3 tracked_outputs_at [OF tr, of UpdateInsert i] tracked_outputs_at [OF tr, of UpdateUpdate i]
    by (auto simp: final output_effect_def split: option.splits note_update_type.splits)
qed

text \<open>Creation times of the tracked notes fit the column if those of the notes handed in do.\<close>

definition notes_storable :: "note_update_tracker \<Rightarrow> bool" where
  "notes_storable N \<longleftrightarrow> (\<forall>i u. bt_get (nut_input_notes N) i = Some u \<longrightarrow> storable (inu_note u))"

lemma storable_origin: "inr_origin r' = inr_origin r \<Longrightarrow> storable r' = storable r"
  by (simp add: inr_origin_def storable_def)

lemma notes_storable_modify:
  assumes "notes_storable N" "\<And>u. bt_get (nut_input_notes N) i = Some u \<Longrightarrow> inr_origin (g u) = inr_origin (inu_note u)"
  shows "notes_storable (N\<lparr>nut_input_notes := bt_modify i (\<lambda>u. inu_inner_mut u (g u)) (nut_input_notes N)\<rparr>)"
proof -
  have "storable (g u)" if "bt_get (nut_input_notes N) i = Some u" for u
    using storable_origin [OF assms(2) [OF that]] assms(1) that by (simp add: notes_storable_def)
  then show ?thesis using assms(1) by (auto simp: notes_storable_def inu_inner_mut_def)
qed

lemma notes_storable_halves:
  "notes_storable N \<Longrightarrow> commit_input_note P N cn hdr = Inr (b, N') \<Longrightarrow> notes_storable N'"
  "notes_storable N \<Longrightarrow> commit_output_note N cn = Inr N' \<Longrightarrow> notes_storable N'"
  "notes_storable N \<Longrightarrow> nullify_input_note P N upd txs = Inr N' \<Longrightarrow> notes_storable N'"
  "notes_storable N \<Longrightarrow> nullify_output_note P N upd = Inr N' \<Longrightarrow> notes_storable N'"
     apply (auto simp: tracker_op_defs and_then_Inr_conv inr_set_consumed_tx_order_def split: option.splits
      intro!: notes_storable_modify dest!: transition_origin nullified_record_origin) [3]
    apply (auto simp: inr_origin_def notes_storable_def tracker_op_defs and_then_Inr_conv split: option.splits)
  done

fun event_storable :: "note_tracker_event \<Rightarrow> bool" where
  "event_storable (NewPublicNote r _) = storable r"
| "event_storable _ = True"

lemma notes_storable_step:
  assumes "notes_storable N" "event_storable ev" "note_tracker_step P N ev = Inr N'"
  shows "notes_storable N'"
proof (cases ev)
  case (NewPublicNote r hdr)
  then obtain c r' where r': "inr_block_header_received P r hdr = Inr (c, r')" "N' = insert_input_note P UpdateInsert r' N"
    using assms(3) by (auto simp: apply_new_public_note_def and_then_Inr_conv)
  have "storable r'" using storable_origin [OF transition_origin(2) [OF r'(1)]] assms(2) NewPublicNote by simp
  then show ?thesis using assms(1) by (auto simp: r'(2) notes_storable_def insert_input_note_def)
next
  case (NoteCommitted cn hdr)
  with assms show ?thesis
    by (auto simp: apply_committed_note_state_transitions_def and_then_Inr_conv intro: notes_storable_halves)
next
  case (NoteNullified upd txs)
  with assms show ?thesis
    by (auto simp: apply_nullifiers_state_transitions_def and_then_Inr_conv intro: notes_storable_halves)
next
  case (NullifiersOrdered nfs)
  then have "extend_nullifiers N nfs = Inr N'" using assms(3) by simp
  then show ?thesis unfolding extend_nullifiers_def
    by (rule try_fold_invariant)
      (use assms(1) in \<open>auto simp: extend_nullifier_def Let_def notes_storable_def split: if_splits\<close>)
qed

lemma notes_storable_run:
  assumes "try_fold (note_tracker_step P) N evs = Inr N'" "notes_storable N" "\<forall>ev \<in> set evs. event_storable ev"
  shows "notes_storable N'"
  using assms(1,2) by (rule try_fold_invariant) (use assms(3) in \<open>auto intro: notes_storable_step\<close>)

lemma state_of_origin: "inr_origin q = inr_origin r \<Longrightarrow> r\<lparr>inr_state := inr_state q\<rparr> = q"
  by (simp add: inr_origin_def)

lemma stored_record_id: "inr_created_at r \<noteq> None \<Longrightarrow> stored_record r = r"
  by (auto simp: stored_record_def)

lemma state_of_identity: "onr_origin q = onr_origin r \<Longrightarrow> r\<lparr>onr_state := onr_state q\<rparr> = q"
  by (simp add: onr_origin_def output_note_identity_def)

section \<open>The store interface of a sync\<close>

locale note_store =
  fixes P :: protocol
    and inv :: "'d \<Rightarrow> bool"
    and input_at :: "'d \<Rightarrow> note_id \<Rightarrow> input_note_record option"
    and output_at :: "'d \<Rightarrow> note_id \<Rightarrow> output_note_record option"
    and apply_updates :: "note_update_tracker \<Rightarrow> 'd \<Rightarrow> 'd"
  assumes input_apply: "inv d \<Longrightarrow> tracker_inv P N \<Longrightarrow> notes_storable N \<Longrightarrow>
      \<forall>i u r. bt_get (nut_output_notes N) i = Some u \<and> onu_update_type u = UpdateUpdate \<and> output_at d i = Some r \<longrightarrow>
         onr_recipient r = onr_recipient (onu_note u) \<Longrightarrow>
      input_at (apply_updates N d) j = input_effect N j (input_at d j)
      \<and> output_at (apply_updates N d) j = output_effect N j (output_at d j) \<and> inv (apply_updates N d)"
    and created: "inv d \<Longrightarrow> input_at d i = Some r \<Longrightarrow> inr_created_at r \<noteq> None \<and> storable r"
begin

text \<open>
  A tracker loaded from the store and run through the events of a sync, then applied: the store
  returns for every tracked note what the tracker holds, and what it returned before for the others.
\<close>

lemma tracked_notes_reach_store:
  assumes inv: "inv d" and binds: "nullifier_binds_id P"
    and ins: "\<forall>r \<in> set ins. input_at d (inr_id P r) = Some r"
    and outs: "\<forall>r \<in> set outs. output_at d (onr_id P r) = Some r"
    and run: "try_fold (note_tracker_step P) (note_tracker_new P ins outs) evs = Inr N"
    and events: "\<forall>ev \<in> set evs. event_storable ev"
  shows "inv (apply_updates N d)"
    and "input_at (apply_updates N d) i =
      (case bt_get (nut_input_notes N) i of None \<Rightarrow> input_at d i | Some u \<Rightarrow> Some (stored_record (inu_note u)))"
    and "output_at (apply_updates N d) i =
      (case bt_get (nut_output_notes N) i of None \<Rightarrow> output_at d i | Some u \<Rightarrow> Some (onu_note u))"
proof -
  let ?N0 = "note_tracker_new P ins outs"
  have tr: "tracker_inv P N"
    using run by (rule try_fold_invariant) (use binds tracker_inv_new tracker_inv_step in blast)+
  have in0: "inu_update_type u = UpdateNone \<and> input_at d j = Some (inu_note u)"
    if "bt_get (nut_input_notes ?N0) j = Some u" for j u
    using note_tracker_new_input [OF that] ins by auto
  have out0: "onu_update_type u = UpdateNone \<and> output_at d j = Some (onu_note u)"
    if "bt_get (nut_output_notes ?N0) j = Some u" for j u
    using note_tracker_new_output [OF that] outs by auto
  have "notes_storable ?N0" using in0 created [OF inv] unfolding notes_storable_def by blast
  then have st: "notes_storable N" using notes_storable_run [OF run _ events] by blast
  have in1: "\<exists>r. input_at d j = Some r \<and> inr_origin (inu_note u) = inr_origin r
      \<and> (inu_update_type u = UpdateNone \<longrightarrow> r = inu_note u)"
    if "bt_get (nut_input_notes N) j = Some u" "inu_update_type u \<noteq> UpdateInsert" for j u
    using descends_run [OF run] keeps_notes_run [OF run] in0 that unfolding descends_def keeps_notes_def by metis
  have out1: "\<exists>r. output_at d j = Some r \<and> onr_origin (onu_note u) = onr_origin r
      \<and> (onu_update_type u = UpdateNone \<longrightarrow> r = onu_note u)"
    if "bt_get (nut_output_notes N) j = Some u" "onu_update_type u \<noteq> UpdateInsert" for j u
    using descends_run [OF run] keeps_notes_run [OF run] out0 that unfolding descends_def keeps_notes_def by metis
  have "\<forall>j u r. bt_get (nut_output_notes N) j = Some u \<and> onu_update_type u = UpdateUpdate \<and> output_at d j = Some r
      \<longrightarrow> onr_recipient r = onr_recipient (onu_note u)"
    using out1 by (fastforce simp: onr_origin_def output_note_identity_def)
  note effect = input_apply [OF inv tr st this, of i]
  show "inv (apply_updates N d)" using effect by blast
  show "input_at (apply_updates N d) i =
      (case bt_get (nut_input_notes N) i of None \<Rightarrow> input_at d i | Some u \<Rightarrow> Some (stored_record (inu_note u)))"
  proof (cases "bt_get (nut_input_notes N) i")
    case (Some u)
    then show ?thesis
      using effect in1 [OF Some] created [OF inv, of i] state_of_origin stored_record_id
      by (cases "inu_update_type u") (auto simp: input_effect_def inr_origin_def)
  qed (use effect in \<open>simp add: input_effect_def\<close>)
  show "output_at (apply_updates N d) i =
      (case bt_get (nut_output_notes N) i of None \<Rightarrow> output_at d i | Some u \<Rightarrow> Some (onu_note u))"
  proof (cases "bt_get (nut_output_notes N) i")
    case (Some u)
    then show ?thesis
      using effect out1 [OF Some] state_of_identity
      by (cases "onu_update_type u") (auto simp: output_effect_def)
  qed (use effect in \<open>simp add: output_effect_def\<close>)
qed

end

interpretation sqlite: note_store P "\<lambda>D. sql_codecs_ok C \<and> note_tables_inv P C D" "stored_input C" "stored_output C"
    "apply_note_updates_tx P C" for P C
proof unfold_locales
  fix d N j
  assume a: "sql_codecs_ok C \<and> note_tables_inv P C d" "tracker_inv P N" "notes_storable N"
    and b: "\<forall>i u r. bt_get (nut_output_notes N) i = Some u \<and> onu_update_type u = UpdateUpdate
      \<and> stored_output C d i = Some r \<longrightarrow> onr_recipient r = onr_recipient (onu_note u)"
  have ids: "onr_id P (onu_note u) = i" if "bt_get (nut_output_notes N) i = Some u" for i u
    using a(2) that unfolding tracker_inv_def output_index_inv_def by blast
  have "updates_fit P C N d"
    using a(3) b ids unfolding updates_fit_def notes_storable_def output_update_fits_def
    by (auto split: option.splits)
  then show "stored_input C (apply_note_updates_tx P C N d) j = input_effect N j (stored_input C d j)
    \<and> stored_output C (apply_note_updates_tx P C N d) j = output_effect N j (stored_output C d j)
    \<and> sql_codecs_ok C \<and> note_tables_inv P C (apply_note_updates_tx P C N d)"
    using apply_note_updates_effect a by blast
next
  fix d i r assume a: "sql_codecs_ok C \<and> note_tables_inv P C d" "stored_input C d i = Some r"
  then have ok: "sql_codecs_ok C" "note_tables_inv P C d" by auto
  from ok show "inr_created_at r \<noteq> None \<and> storable r"
    by (cases rule: stored_input_cases [where i = i])
      (use a(2) in \<open>auto simp: stored_record_def storable_def split: option.splits\<close>)
qed

end
