(* ===== verification/Sqlite_Chain.thy ===== *)
theory Sqlite_Chain
  imports Sqlite_Notes State_Sync Rpc_Conversions "HOL-Library.Char_ord"
begin

text \<open>
  Chain data of the SQLite store (\<^verbatim>\<open>sqlite-store/src/chain_data.rs\<close>): block headers with their peaks
  and the flag for client notes, authentication nodes, the sync height, pruning, the settings table
  (\<^verbatim>\<open>db_management/utils.rs\<close>), and the default methods of the store interface over them
  (\<^verbatim>\<open>store/mod.rs\<close>): a header by number, the current partial MMR, the transport cursor and the limits.
  The lemmas show which header and flag a sequence of insertions leaves, and that pruning changes
  neither what later reads may ask for nor the partial MMR.
\<close>

section \<open>Block headers\<close>

datatype block_relevance = HasNotes | Irrelevant

fun relevance_to_bool :: "block_relevance \<Rightarrow> bool" where
  "relevance_to_bool HasNotes = True"
| "relevance_to_bool Irrelevant = False"

definition relevance_from_bool :: "bool \<Rightarrow> block_relevance" where
  "relevance_from_bool has_notes = (if has_notes then HasNotes else Irrelevant)"

definition serialize_block_header :: "sql_codecs \<Rightarrow> block_header \<Rightarrow> mmr_peaks \<Rightarrow> bool \<Rightarrow> block_header_row" where
  "serialize_block_header C hdr peaks has_client_notes =
     \<lparr>br_header = fst (sc_header C) hdr, br_peaks = fst (c_word_list (sc_base C)) peaks,
      br_has_client_notes = has_client_notes\<rparr>"

definition insert_block_header_tx ::
  "sql_codecs \<Rightarrow> block_header \<Rightarrow> mmr_peaks \<Rightarrow> bool \<Rightarrow> database \<Rightarrow> database" where
  "insert_block_header_tx C hdr peaks has_client_notes D =
     set_block_header_has_client_notes (bh_block_num hdr) has_client_notes
       (D\<lparr>db_block_headers := bt_or_insert (bh_block_num hdr) (serialize_block_header C hdr peaks has_client_notes)
            (db_block_headers D)\<rparr>)"

definition parse_block_header :: "sql_codecs \<Rightarrow> block_header_row \<Rightarrow> store_error + block_header \<times> block_relevance" where
  "parse_block_header C row =
     and_then (read_from_bytes (sc_header C) (br_header row)) (\<lambda>hdr.
     Inr (hdr, relevance_from_bool (br_has_client_notes row)))"

definition get_block_headers ::
  "sql_codecs \<Rightarrow> block_number set \<Rightarrow> database \<Rightarrow> store_error + (block_header \<times> block_relevance) list" where
  "get_block_headers C block_numbers D =
     try_map (\<lambda>(n, row). parse_block_header C row) (filter (\<lambda>(n, _). n \<in> block_numbers) (db_block_headers D))"

definition get_block_header_by_num ::
  "sql_codecs \<Rightarrow> block_number \<Rightarrow> database \<Rightarrow> store_error + (block_header \<times> block_relevance) option" where
  "get_block_header_by_num C n D =
     and_then (get_block_headers C {n} D) (\<lambda>hs. Inr (if hs = [] then None else Some (last hs)))"

definition get_tracked_block_headers :: "sql_codecs \<Rightarrow> database \<Rightarrow> store_error + block_header list" where
  "get_tracked_block_headers C D =
     try_map (\<lambda>(n, row). and_then (parse_block_header C row) (\<lambda>(hdr, _). Inr hdr))
       (filter (\<lambda>(_, row). br_has_client_notes row) (db_block_headers D))"

definition get_tracked_block_header_numbers :: "database \<Rightarrow> nat list" where
  "get_tracked_block_header_numbers D =
     sorted_list_of_set (set (map (\<lambda>(n, _). unat n) (filter (\<lambda>(_, row). br_has_client_notes row) (db_block_headers D))))"

definition prune_irrelevant_blocks :: "database \<Rightarrow> database" where
  "prune_irrelevant_blocks D =
     (case db_state_sync D of
        [] \<Rightarrow> D
      | sync_height # _ \<Rightarrow>
          D\<lparr>db_block_headers :=
              filter (\<lambda>(n, row). \<not> (\<not> br_has_client_notes row \<and> 0 < n \<and> n < sync_height)) (db_block_headers D)\<rparr>)"

section \<open>Sync height\<close>

definition get_sync_height :: "database \<Rightarrow> store_error + block_number" where
  "get_sync_height D =
     (case db_state_sync D of
        [] \<Rightarrow> Inl (StorePanicked ''state sync block number exists'')
      | n # _ \<Rightarrow> Inr n)"

definition advance_sync_height :: "block_number \<Rightarrow> database \<Rightarrow> database" where
  "advance_sync_height n D = D\<lparr>db_state_sync := map (\<lambda>h. if h < n then n else h) (db_state_sync D)\<rparr>"

section \<open>Authentication nodes\<close>

text \<open>
  What the crypto crate computes over a forest, given by its number of leaves: checked peaks, the
  largest in-order index, whether it ends in a single leaf, and partial MMRs from peaks and parts.
\<close>

record 'm chain_ops =
  ch_peaks_new :: "nat \<Rightarrow> digest list \<Rightarrow> message + nat \<times> mmr_peaks"
  ch_rightmost :: "nat \<Rightarrow> nat"
  ch_has_single_leaf_tree :: "nat \<Rightarrow> bool"
  ch_from_peaks :: "nat \<times> mmr_peaks \<Rightarrow> 'm"
  ch_from_parts :: "nat \<times> mmr_peaks \<Rightarrow> (nat, digest) btree_map \<Rightarrow> nat list \<Rightarrow> message + 'm"

datatype partial_blockchain_filter = AllNodes | NodeList "nat list" | NodeForest nat

definition node_column :: "nat \<Rightarrow> store_error + int" where
  "node_column i = (if i < 2 ^ 63 then Inr (int i) else Inl (StorePanicked ''id is a valid i64''))"

definition insert_partial_blockchain_node :: "database \<Rightarrow> nat \<times> digest \<Rightarrow> store_error + database" where
  "insert_partial_blockchain_node D = (\<lambda>(i, node).
     and_then (node_column i) (\<lambda>c. Inr (D\<lparr>db_blockchain_nodes := bt_or_insert c node (db_blockchain_nodes D)\<rparr>)))"

definition insert_partial_blockchain_nodes_tx :: "auth_nodes \<Rightarrow> database \<Rightarrow> store_error + database" where
  "insert_partial_blockchain_nodes_tx nodes D = try_fold insert_partial_blockchain_node D nodes"

definition parse_partial_blockchain_nodes :: "sql_codecs \<Rightarrow> int \<times> digest \<Rightarrow> store_error + nat \<times> digest" where
  "parse_partial_blockchain_nodes C = (\<lambda>(c, node).
     and_then (into_store_error (sc_show C) (column_u64 0 c)) (\<lambda>i.
     if i = 0 then Inl (StorePanicked ''called Option::unwrap() on a None value'') else Inr (unat i, node)))"

definition query_partial_blockchain_nodes ::
  "sql_codecs \<Rightarrow> (int \<Rightarrow> bool) \<Rightarrow> database \<Rightarrow> store_error + (nat, digest) btree_map" where
  "query_partial_blockchain_nodes C cond D =
     and_then (try_map (parse_partial_blockchain_nodes C) (filter (\<lambda>(c, _). cond c) (db_blockchain_nodes D)))
       (\<lambda>nodes. Inr (bt_from_iter nodes))"

fun get_partial_blockchain_nodes ::
  "sql_codecs \<Rightarrow> 'm chain_ops \<Rightarrow> partial_blockchain_filter \<Rightarrow> database \<Rightarrow> store_error + (nat, digest) btree_map" where
  "get_partial_blockchain_nodes C H AllNodes D = query_partial_blockchain_nodes C (\<lambda>_. True) D"
| "get_partial_blockchain_nodes C H (NodeList ids) D =
     (if ids = [] then Inr []
      else and_then (try_map node_column ids) (\<lambda>cs. query_partial_blockchain_nodes C (\<lambda>c. c \<in> set cs) D))"
| "get_partial_blockchain_nodes C H (NodeForest forest) D =
     (if forest = 0 then Inr []
      else and_then (node_column (ch_rightmost H forest)) (\<lambda>max_index.
             query_partial_blockchain_nodes C (\<lambda>c. c \<le> max_index) D))"

definition parse_partial_blockchain_peaks ::
  "sql_codecs \<Rightarrow> 'm chain_ops \<Rightarrow> block_number \<Rightarrow> bytes \<Rightarrow> store_error + nat \<times> mmr_peaks" where
  "parse_partial_blockchain_peaks C H forest bs =
     and_then (read_from_bytes (c_word_list (sc_base C)) bs) (\<lambda>nodes.
     map_err MmrError (ch_peaks_new H (unat forest) nodes))"

definition get_partial_blockchain_peaks_by_block_num ::
  "sql_codecs \<Rightarrow> 'm chain_ops \<Rightarrow> block_number \<Rightarrow> database \<Rightarrow> store_error + nat \<times> mmr_peaks" where
  "get_partial_blockchain_peaks_by_block_num C H n D =
     (case bt_get (db_block_headers D) n of
        Some row \<Rightarrow> parse_partial_blockchain_peaks C H n (br_peaks row)
      | None \<Rightarrow> map_err MmrError (ch_peaks_new H 0 []))"

definition get_current_partial_mmr ::
  "protocol \<Rightarrow> 'm mmr_ops \<Rightarrow> sql_codecs \<Rightarrow> 'm chain_ops \<Rightarrow> database \<Rightarrow> store_error + 'm" where
  "get_current_partial_mmr P M C H D =
     and_then (get_sync_height D) (\<lambda>current_block_num.
     and_then (get_partial_blockchain_peaks_by_block_num C H current_block_num D) (\<lambda>current_peaks.
     and_then (get_block_header_by_num C current_block_num D) (\<lambda>found.
     and_then (ok_or (StoreBlockHeaderNotFound current_block_num) found) (\<lambda>(current_block, relevance).
     let has_client_notes = relevance_to_bool relevance;
         (_, mmr) = mmr_add M (ch_from_peaks H current_peaks) (header_commitment P current_block) has_client_notes;
         forest = mmr_num_leaves M mmr;
         tracked = get_tracked_block_header_numbers D;
         tracked_leaves = (if has_client_notes \<and> ch_has_single_leaf_tree H forest
                           then sorted_list_of_set (insert (forest - 1) (set tracked)) else tracked)
     in and_then (get_partial_blockchain_nodes C H (NodeForest forest) D) (\<lambda>tracked_nodes.
        map_err MmrError (ch_from_parts H (forest, mmr_peaks_of M mmr) tracked_nodes tracked_leaves))))))"

section \<open>Settings\<close>

type_synonym settings = "(string, bytes) btree_map"

definition get_setting :: "string \<Rightarrow> settings \<Rightarrow> bytes option" where
  "get_setting key T = bt_get T key"

definition set_setting :: "string \<Rightarrow> bytes \<Rightarrow> settings \<Rightarrow> settings" where
  "set_setting key v T = bt_insert key v T"

definition remove_setting :: "string \<Rightarrow> settings \<Rightarrow> settings" where
  "remove_setting key T = bt_remove key T"

definition list_setting_keys :: "settings \<Rightarrow> string list" where
  "list_setting_keys T = map fst T"

definition to_be_bytes :: "u64 \<Rightarrow> bytes" where
  "to_be_bytes x = map (\<lambda>i. word_of_nat (unat x div 256 ^ i)) [7, 6, 5, 4, 3, 2, 1, 0]"

definition from_be_bytes :: "bytes \<Rightarrow> u64" where
  "from_be_bytes bs = word_of_nat (foldl (\<lambda>acc b. 256 * acc + unat b) 0 bs)"

definition cursor_setting :: string where
  "cursor_setting = ''note_transport_cursor''"

definition limits_setting :: string where
  "limits_setting = ''rpc_limits''"

text \<open>The cursor is created when it is first read, so reading it may change the settings.\<close>

definition get_note_transport_cursor :: "settings \<Rightarrow> (store_error + u64) \<times> settings" where
  "get_note_transport_cursor T =
     (let (cursor_bytes, T1) =
            (case get_setting cursor_setting T of
               Some bs \<Rightarrow> (bs, T)
             | None \<Rightarrow> (to_be_bytes 0, set_setting cursor_setting (to_be_bytes 0) T))
      in (if length cursor_bytes = 8 then Inr (from_be_bytes cursor_bytes)
          else Inl (ParsingError ''could not convert slice to array''), T1))"

definition update_note_transport_cursor :: "u64 \<Rightarrow> settings \<Rightarrow> settings" where
  "update_note_transport_cursor cursor T = set_setting cursor_setting (to_be_bytes cursor) T"

definition rpc_limits_write :: "u32 codec \<Rightarrow> rpc_limits \<Rightarrow> bytes" where
  "rpc_limits_write c l =
     fst c (rl_note_ids_limit l) @ fst c (rl_nullifiers_limit l) @ fst c (rl_account_ids_limit l) @ fst c (rl_note_tags_limit l)"

definition rpc_limits_read :: "u32 codec \<Rightarrow> rpc_limits reader" where
  "rpc_limits_read c bs =
     and_then (snd c bs) (\<lambda>(note_ids, bs).
     and_then (snd c bs) (\<lambda>(nullifiers, bs).
     and_then (snd c bs) (\<lambda>(account_ids, bs).
     and_then (snd c bs) (\<lambda>(note_tags, bs).
     Inr (\<lparr>rl_note_ids_limit = note_ids, rl_nullifiers_limit = nullifiers,
           rl_account_ids_limit = account_ids, rl_note_tags_limit = note_tags\<rparr>, bs)))))"

definition stored_rpc_limits :: "u32 codec \<Rightarrow> settings \<Rightarrow> store_error + rpc_limits option" where
  "stored_rpc_limits c T =
     (case get_setting limits_setting T of
        None \<Rightarrow> Inr None
      | Some bs \<Rightarrow> and_then (read_from_bytes (rpc_limits_write c, rpc_limits_read c) bs) (\<lambda>limits. Inr (Some limits)))"

definition store_rpc_limits :: "u32 codec \<Rightarrow> rpc_limits \<Rightarrow> settings \<Rightarrow> settings" where
  "store_rpc_limits c limits T = set_setting limits_setting (rpc_limits_write c limits) T"

section \<open>Facts about settings\<close>

lemma rpc_limits_codec_ok: "codec_ok c \<Longrightarrow> codec_ok (rpc_limits_write c, rpc_limits_read c)"
  by (simp add: codec_ok_def rpc_limits_write_def rpc_limits_read_def)

lemma be_bytes_roundtrip: "from_be_bytes (to_be_bytes x) = x"
proof -
  define a where "a i = unat x div 256 ^ i" for i
  have low: "256 * a j + a i mod 256 = a i" if "j = Suc i" for i j
    unfolding that by (simp add: a_def power_Suc2 div_mult2_eq mult_div_mod_eq del: power_Suc)
  have "unat x < 256 ^ 8" using unsigned_less [where w = x] by simp
  then have top: "a 7 mod 256 = a 7" by (simp add: a_def less_mult_imp_div_less)
  have byte: "unat (word_of_nat (unat x div 256 ^ i) :: 8 word) = a i mod 256" for i
    by (simp add: a_def unat_of_nat)
  have steps: "256 * a 7 + a 6 mod 256 = a 6" "256 * a 6 + a 5 mod 256 = a 5" "256 * a 5 + a 4 mod 256 = a 4"
    "256 * a 4 + a 3 mod 256 = a 3" "256 * a 3 + a 2 mod 256 = a 2" "256 * a 2 + a 1 mod 256 = a 1" "256 * a 1 + a 0 mod 256 = a 0"
    by (rule low, simp)+
  have "foldl (\<lambda>acc b. 256 * acc + unat b) 0 (to_be_bytes x) = a 0"
    unfolding to_be_bytes_def by (simp only: list.map foldl_Cons foldl_Nil byte mult_0_right add_0 top steps)
  then show ?thesis by (simp add: from_be_bytes_def a_def)
qed

text \<open>What is written to the settings is read back, and the cursor and the limits do not disturb each other.\<close>

lemma settings_read_back:
  assumes "codec_ok c"
  shows "fst (get_note_transport_cursor (update_note_transport_cursor cursor T)) = Inr cursor"
    "stored_rpc_limits c (store_rpc_limits c limits T) = Inr (Some limits)"
    "stored_rpc_limits c (snd (get_note_transport_cursor T)) = stored_rpc_limits c T"
    "stored_rpc_limits c (update_note_transport_cursor cursor T) = stored_rpc_limits c T"
proof -
  have "length (to_be_bytes cursor) = 8" by (simp add: to_be_bytes_def)
  then show "fst (get_note_transport_cursor (update_note_transport_cursor cursor T)) = Inr cursor"
    by (simp add: get_note_transport_cursor_def update_note_transport_cursor_def get_setting_def set_setting_def
        be_bytes_roundtrip)
  show "stored_rpc_limits c (store_rpc_limits c limits T) = Inr (Some limits)"
    using rpc_limits_codec_ok [OF assms]
    by (simp add: stored_rpc_limits_def store_rpc_limits_def get_setting_def set_setting_def codec_ok_empty [where c = "(rpc_limits_write c, rpc_limits_read c)", simplified] read_from_bytes_def)
  have "limits_setting \<noteq> cursor_setting" by (simp add: limits_setting_def cursor_setting_def)
  then show "stored_rpc_limits c (snd (get_note_transport_cursor T)) = stored_rpc_limits c T"
    "stored_rpc_limits c (update_note_transport_cursor cursor T) = stored_rpc_limits c T"
    by (auto simp: stored_rpc_limits_def get_note_transport_cursor_def update_note_transport_cursor_def get_setting_def
        set_setting_def split: option.splits)
qed

section \<open>Facts about headers\<close>

definition flagged :: "bool \<Rightarrow> block_header_row \<Rightarrow> block_header_row" where
  "flagged f row = row\<lparr>br_has_client_notes := br_has_client_notes row \<or> f\<rparr>"

lemma insert_block_header_get:
  "bt_get (db_block_headers (insert_block_header_tx C hdr peaks f D)) n =
     (if n = bh_block_num hdr
      then Some (case bt_get (db_block_headers D) n of
                   None \<Rightarrow> serialize_block_header C hdr peaks f | Some row \<Rightarrow> flagged f row)
      else bt_get (db_block_headers D) n)"
  by (auto simp: insert_block_header_tx_def set_block_header_has_client_notes_def flagged_def serialize_block_header_def
      split: option.splits)

lemma insert_block_header_wf:
  "bt_wf (db_block_headers D) \<Longrightarrow> bt_wf (db_block_headers (insert_block_header_tx C hdr peaks f D))"
  by (simp add: insert_block_header_tx_def set_block_header_has_client_notes_def)

definition insert_block_headers ::
  "sql_codecs \<Rightarrow> (block_header \<times> bool \<times> mmr_peaks) list \<Rightarrow> database \<Rightarrow> database" where
  "insert_block_headers C blocks D = fold (\<lambda>(hdr, f, peaks). insert_block_header_tx C hdr peaks f) blocks D"

lemma insert_block_headers_wf:
  "bt_wf (db_block_headers D) \<Longrightarrow> bt_wf (db_block_headers (insert_block_headers C blocks D))"
  unfolding insert_block_headers_def by (induction blocks arbitrary: D) (auto simp: insert_block_header_wf)

lemma single_row: "bt_wf m \<Longrightarrow> filter (\<lambda>(k', _). k' = k) m = (case bt_get m k of None \<Rightarrow> [] | Some v \<Rightarrow> [(k, v)])"
proof (induction m)
  case (Cons x m)
  obtain k' v where x: "x = (k', v)" by (cases x)
  have "bt_get m k' = None" and wf: "bt_wf m" using Cons.prems by (force simp: x bt_wf_Cons map_of_eq_None_iff)+
  then show ?case using Cons.IH [OF wf] by (auto simp: x split: option.splits)
qed simp

lemma get_block_header_by_num_row:
  assumes "bt_wf (db_block_headers D)"
  shows "get_block_header_by_num C n D =
    (case bt_get (db_block_headers D) n of
       None \<Rightarrow> Inr None | Some row \<Rightarrow> and_then (parse_block_header C row) (\<lambda>h. Inr (Some h)))"
proof (cases "bt_get (db_block_headers D) n")
  case None
  then show ?thesis
    using single_row [OF assms, of n] by (simp add: get_block_header_by_num_def get_block_headers_def)
next
  case (Some row)
  then show ?thesis
    using single_row [OF assms, of n]
    by (cases "parse_block_header C row") (simp_all add: get_block_header_by_num_def get_block_headers_def)
qed

definition relevant_in :: "block_number \<Rightarrow> (block_header \<times> bool \<times> mmr_peaks) list \<Rightarrow> bool" where
  "relevant_in n blocks = list_ex (\<lambda>(hdr, f, _). bh_block_num hdr = n \<and> f) blocks"

lemma relevant_in_simps [simp]:
  "relevant_in n [] = False"
  "relevant_in n ((hdr, f, peaks) # blocks) = (bh_block_num hdr = n \<and> f \<or> relevant_in n blocks)"
  by (simp_all add: relevant_in_def)

lemma flagged_flagged [simp]: "flagged f (flagged g row) = flagged (g \<or> f) row" "flagged False row = row"
  by (simp_all add: flagged_def disj_assoc)

lemma flagged_serialized [simp]:
  "flagged f (serialize_block_header C hdr peaks g) = serialize_block_header C hdr peaks (g \<or> f)"
  by (simp add: flagged_def serialize_block_header_def)

lemma insert_block_headers_get:
  "bt_get (db_block_headers (insert_block_headers C blocks D)) n =
     (case bt_get (db_block_headers D) n of
        Some row \<Rightarrow> Some (flagged (relevant_in n blocks) row)
      | None \<Rightarrow> (case filter (\<lambda>(hdr, _). bh_block_num hdr = n) blocks of
                   [] \<Rightarrow> None
                 | (hdr, f, peaks) # _ \<Rightarrow> Some (serialize_block_header C hdr peaks (relevant_in n blocks))))"
proof (induction blocks arbitrary: D)
  case Nil
  then show ?case by (simp add: insert_block_headers_def split: option.splits)
next
  case (Cons b blocks)
  obtain hdr f peaks where b: "b = (hdr, f, peaks)" by (cases b)
  have "insert_block_headers C (b # blocks) D = insert_block_headers C blocks (insert_block_header_tx C hdr peaks f D)"
    by (simp add: insert_block_headers_def b)
  then show ?case
    unfolding b by (auto simp: Cons.IH insert_block_header_get split: option.splits list.splits)
qed

section \<open>Facts about pruning\<close>

lemma prune_headers_get:
  assumes "bt_wf (db_block_headers D)" "db_state_sync D = h # hs"
  shows "bt_get (db_block_headers (prune_irrelevant_blocks D)) n =
    (case bt_get (db_block_headers D) n of
       None \<Rightarrow> None | Some row \<Rightarrow> if \<not> br_has_client_notes row \<and> 0 < n \<and> n < h then None else Some row)"
  using assms by (simp add: prune_irrelevant_blocks_def bt_get_filter split: option.splits)

lemma prune_keeps:
  "db_state_sync (prune_irrelevant_blocks D) = db_state_sync D"
  "db_blockchain_nodes (prune_irrelevant_blocks D) = db_blockchain_nodes D"
  "bt_wf (db_block_headers D) \<Longrightarrow> bt_wf (db_block_headers (prune_irrelevant_blocks D))"
  "filter (\<lambda>(_, row). br_has_client_notes row) (db_block_headers (prune_irrelevant_blocks D)) =
     filter (\<lambda>(_, row). br_has_client_notes row) (db_block_headers D)"
  by (auto simp: prune_irrelevant_blocks_def bt_wf_filter intro!: filter_cong split: list.splits)

lemma query_nodes_cong:
  "db_blockchain_nodes D' = db_blockchain_nodes D \<Longrightarrow> get_partial_blockchain_nodes C H filt D' = get_partial_blockchain_nodes C H filt D"
  by (cases filt) (simp_all add: query_partial_blockchain_nodes_def cong: if_cong)

section \<open>A chain of two blocks\<close>

definition sample_chain_ops :: "nat chain_ops" where
  "sample_chain_ops =
     \<lparr>ch_peaks_new = (\<lambda>n peaks. Inr (n, peaks)), ch_rightmost = (\<lambda>n. 2 * n), ch_has_single_leaf_tree = odd,
      ch_from_peaks = fst, ch_from_parts = (\<lambda>(n, _) _ _. Inr n)\<rparr>"

definition sample_chain :: database where
  "sample_chain = insert_block_headers sample_sql
     [(sample_header, False, []), (sample_header\<lparr>bh_block_num := 9\<rparr>, True, [Digest 1])]
     (advance_sync_height 9 database_new)"

lemma sample_chain_wf: "bt_wf (db_block_headers sample_chain)" "db_state_sync sample_chain = [9]"
proof -
  show "bt_wf (db_block_headers sample_chain)"
    unfolding sample_chain_def
    by (rule insert_block_headers_wf) (simp add: advance_sync_height_def database_new_def)
  show "db_state_sync sample_chain = [9]"
    by (simp add: sample_chain_def insert_block_headers_def insert_block_header_tx_def
        set_block_header_has_client_notes_def advance_sync_height_def database_new_def)
qed

section \<open>Properties\<close>

text \<open>
  The first header stored for a block stays, and its relevance only grows: after any sequence of
  insertions into a store that does not have the block, a read by number gives the first header
  inserted for it, relevant exactly when one of the insertions said so.
\<close>

lemma stored_headers_first_win:
  assumes "sql_codecs_ok C" "bt_wf (db_block_headers D)" "bt_get (db_block_headers D) n = None"
  shows "get_block_header_by_num C n (insert_block_headers C blocks D) =
    Inr (case filter (\<lambda>(hdr, _). bh_block_num hdr = n) blocks of
           [] \<Rightarrow> None
         | (hdr, _) # _ \<Rightarrow> Some (hdr, if \<exists>(hdr, f, peaks) \<in> set blocks. bh_block_num hdr = n \<and> f then HasNotes else Irrelevant))"
proof -
  have "relevant_in n blocks \<longleftrightarrow> (\<exists>(hdr, f, peaks) \<in> set blocks. bh_block_num hdr = n \<and> f)"
    by (auto simp: relevant_in_def list_ex_iff)
  then show ?thesis
    using assms(1,3)
    by (simp add: get_block_header_by_num_row [OF insert_block_headers_wf [OF assms(2)]] insert_block_headers_get
        parse_block_header_def serialize_block_header_def relevance_from_bool_def split: list.splits)
qed

lemma stored_headers_first_win_witness:
  "get_block_header_by_num sample_sql 7 (insert_block_headers sample_sql
     [(sample_header, False, []), (sample_header\<lparr>bh_note_root := Digest 5\<rparr>, True, [])] database_new) =
   Inr (Some (sample_header, HasNotes))"
proof -
  have "bt_wf (db_block_headers database_new)" "bt_get (db_block_headers database_new) 7 = None"
    by (simp_all add: database_new_def)
  from stored_headers_first_win [OF sample_sql_ok this] show ?thesis by (simp add: sample_header_def)
qed

text \<open>
  C35. Pruning blocks drops exactly the headers without client notes strictly between the genesis block
  and the sync height, and the partial MMR the client builds from the store is the same as before.
\<close>

theorem pruning_keeps_partial_mmr:
  assumes "bt_wf (db_block_headers D)" "db_state_sync D = [h]"
  shows "get_current_partial_mmr P M C H (prune_irrelevant_blocks D) = get_current_partial_mmr P M C H D
    \<and> (\<forall>n. bt_get (db_block_headers (prune_irrelevant_blocks D)) n =
         (case bt_get (db_block_headers D) n of
            None \<Rightarrow> None
          | Some row \<Rightarrow> if \<not> br_has_client_notes row \<and> 0 < n \<and> n < h then None else Some row))"
proof
  have at: "bt_get (db_block_headers (prune_irrelevant_blocks D)) h = bt_get (db_block_headers D) h"
    by (simp add: prune_headers_get [OF assms] split: option.splits)
  have "get_block_header_by_num C h (prune_irrelevant_blocks D) = get_block_header_by_num C h D"
    by (simp add: get_block_header_by_num_row assms(1) prune_keeps(3) at)
  moreover have "get_partial_blockchain_peaks_by_block_num C H h (prune_irrelevant_blocks D) =
      get_partial_blockchain_peaks_by_block_num C H h D"
    by (simp add: get_partial_blockchain_peaks_by_block_num_def at)
  moreover have "get_sync_height (prune_irrelevant_blocks D) = get_sync_height D" "get_sync_height D = Inr h"
    by (simp_all add: get_sync_height_def prune_keeps(1) assms(2))
  moreover have "get_tracked_block_header_numbers (prune_irrelevant_blocks D) = get_tracked_block_header_numbers D"
    by (simp add: get_tracked_block_header_numbers_def prune_keeps(4))
  ultimately show "get_current_partial_mmr P M C H (prune_irrelevant_blocks D) = get_current_partial_mmr P M C H D"
    by (simp add: get_current_partial_mmr_def query_nodes_cong [OF prune_keeps(2)])
qed (simp add: prune_headers_get [OF assms])

theorem pruning_keeps_partial_mmr_witness:
  "get_current_partial_mmr sample_protocol sample_mmr_ops sample_sql sample_chain_ops (prune_irrelevant_blocks sample_chain) =
     get_current_partial_mmr sample_protocol sample_mmr_ops sample_sql sample_chain_ops sample_chain
   \<and> bt_get (db_block_headers sample_chain) 7 \<noteq> None
   \<and> bt_get (db_block_headers (prune_irrelevant_blocks sample_chain)) 7 = None"
proof -
  have row: "bt_get (db_block_headers sample_chain) 7 = Some (serialize_block_header sample_sql sample_header [] False)"
    unfolding sample_chain_def insert_block_headers_get
    by (simp add: advance_sync_height_def database_new_def sample_header_def)
  show ?thesis
    using pruning_keeps_partial_mmr [OF sample_chain_wf, of sample_protocol sample_mmr_ops sample_sql sample_chain_ops]
    by (simp add: row serialize_block_header_def)
qed

end
