(* ===== verification/Sqlite_Transactions.thy ===== *)
theory Sqlite_Transactions
  imports Sqlite_Chain
begin

text \<open>
  The tables of tracked tags (\<^verbatim>\<open>sqlite-store/src/sync.rs\<close>) and of transactions
  (\<^verbatim>\<open>sqlite-store/src/transaction.rs\<close>, with the queries of \<^verbatim>\<open>TransactionFilter\<close> in
  \<^verbatim>\<open>store/mod.rs\<close>). The lemmas show that stored records and tags read back, which transactions each
  filter returns, and what adding and removing tags leaves.
\<close>

section \<open>Tags\<close>

definition tag_row :: "sql_codecs \<Rightarrow> note_tag_record \<Rightarrow> bytes \<times> bytes" where
  "tag_row C t = (fst (sc_tag C) (tag_tag t), fst (tag_source_codec C) (tag_source t))"

definition add_note_tag_tx :: "sql_codecs \<Rightarrow> note_tag_record \<Rightarrow> database \<Rightarrow> database" where
  "add_note_tag_tx C t D = D\<lparr>db_tags := db_tags D @ [tag_row C t]\<rparr>"

definition remove_note_tag_tx :: "sql_codecs \<Rightarrow> note_tag_record \<Rightarrow> database \<Rightarrow> nat \<times> database" where
  "remove_note_tag_tx C t D =
     (length (filter (\<lambda>r. r = tag_row C t) (db_tags D)),
      D\<lparr>db_tags := filter (\<lambda>r. r \<noteq> tag_row C t) (db_tags D)\<rparr>)"

definition get_note_tags :: "sql_codecs \<Rightarrow> database \<Rightarrow> store_error + note_tag_record list" where
  "get_note_tags C D =
     try_map (\<lambda>(tag, source).
         and_then (read_from_bytes (sc_tag C) tag) (\<lambda>t.
         and_then (read_from_bytes (tag_source_codec C) source) (\<lambda>s.
         Inr \<lparr>tag_tag = t, tag_source = s\<rparr>))) (db_tags D)"

definition get_unique_note_tags :: "sql_codecs \<Rightarrow> database \<Rightarrow> store_error + note_tag list" where
  "get_unique_note_tags C D =
     and_then (try_map (read_from_bytes (sc_tag C)) (remdups (map fst (db_tags D)))) (\<lambda>tags.
     Inr (sorted_list_of_set (set tags)))"

definition add_note_tag :: "sql_codecs \<Rightarrow> note_tag_record \<Rightarrow> database \<Rightarrow> store_error + bool \<times> database" where
  "add_note_tag C t D =
     and_then (get_note_tags C D) (\<lambda>tags.
     if t \<in> set tags then Inr (False, D) else Inr (True, add_note_tag_tx C t D))"

definition remove_note_tag :: "sql_codecs \<Rightarrow> note_tag_record \<Rightarrow> database \<Rightarrow> nat \<times> database" where
  "remove_note_tag C t D = remove_note_tag_tx C t D"

section \<open>Transactions\<close>

text \<open>A script is identified by its root, which is also the key of its row.\<close>

definition serialize_transaction_data :: "sql_codecs \<Rightarrow> transaction_record \<Rightarrow> transaction_row" where
  "serialize_transaction_data C t =
     \<lparr>xr_details = transaction_details_write (sc_base C) (tr_details t),
      xr_script_root = map_option (fst (c_word (sc_base C))) (tr_script t),
      xr_block_num = td_block_num (tr_details t),
      xr_status_variant = variant_as_u8 (status_variant (tr_status t)),
      xr_status = transaction_status_write (sc_base C) (tr_status t)\<rparr>"

definition upsert_transaction_record :: "sql_codecs \<Rightarrow> transaction_record \<Rightarrow> database \<Rightarrow> database" where
  "upsert_transaction_record C t D =
     (let row = serialize_transaction_data C t;
          D1 = (case (tr_script t, xr_script_root row) of
                  (Some script, Some root) \<Rightarrow>
                    D\<lparr>db_transaction_scripts := bt_or_insert root (fst (sc_tx_script C) script) (db_transaction_scripts D)\<rparr>
                | _ \<Rightarrow> D)
      in D1\<lparr>db_transactions := bt_insert (tr_id t) row (db_transactions D1)\<rparr>)"

definition parse_transaction ::
  "sql_codecs \<Rightarrow> transaction_id \<Rightarrow> bytes option \<Rightarrow> transaction_row \<Rightarrow> store_error + transaction_record" where
  "parse_transaction C i tx_script row =
     and_then (case tx_script of
         None \<Rightarrow> Inr None
       | Some bs \<Rightarrow> and_then (read_from_bytes (sc_tx_script C) bs) (\<lambda>s. Inr (Some s))) (\<lambda>script.
     and_then (read_from_bytes (transaction_details_write (sc_base C), transaction_details_read (sc_base C)) (xr_details row)) (\<lambda>details.
     and_then (read_from_bytes (transaction_status_write (sc_base C), transaction_status_read (sc_base C)) (xr_status row)) (\<lambda>status.
     Inr \<lparr>tr_id = i, tr_details = details, tr_script = script, tr_status = status\<rparr>)))"

datatype transaction_filter =
    TransactionsAll
  | TransactionsUncommitted
  | TransactionsIds "transaction_id list"
  | TransactionsExpiredBefore block_number

fun transaction_condition :: "transaction_filter \<Rightarrow> transaction_id \<Rightarrow> transaction_row \<Rightarrow> bool" where
  "transaction_condition TransactionsAll i row \<longleftrightarrow> True"
| "transaction_condition TransactionsUncommitted i row \<longleftrightarrow> xr_status_variant row = variant_as_u8 PendingVariant"
| "transaction_condition (TransactionsIds ids) i row \<longleftrightarrow> i \<in> set ids"
| "transaction_condition (TransactionsExpiredBefore n) i row \<longleftrightarrow>
     xr_block_num row < n \<and> xr_status_variant row \<noteq> variant_as_u8 DiscardedVariant
     \<and> xr_status_variant row \<noteq> variant_as_u8 CommittedVariant"

definition join_transaction_script :: "database \<Rightarrow> transaction_row \<Rightarrow> bytes option" where
  "join_transaction_script D row =
     (case xr_script_root row of None \<Rightarrow> None | Some root \<Rightarrow> bt_get (db_transaction_scripts D) root)"

definition get_transactions ::
  "sql_codecs \<Rightarrow> transaction_filter \<Rightarrow> database \<Rightarrow> store_error + transaction_record list" where
  "get_transactions C flt D =
     try_map (\<lambda>(i, row). parse_transaction C i (join_transaction_script D row) row)
       (filter (\<lambda>(i, row). transaction_condition flt i row) (db_transactions D))"

section \<open>The transactions of the store\<close>

text \<open>
  The table as the records it encodes: a row per record, encoded, with its script present.
\<close>

definition transactions_stored :: "sql_codecs \<Rightarrow> tx_tracker \<Rightarrow> database \<Rightarrow> bool" where
  "transactions_stored C m D \<longleftrightarrow> bt_wf m \<and> (\<forall>i t. bt_get m i = Some t \<longrightarrow> tr_id t = i)
     \<and> db_transactions D = map (\<lambda>(i, t). (i, serialize_transaction_data C t)) m
     \<and> bt_wf (db_transaction_scripts D)
     \<and> (\<forall>i t s. bt_get m i = Some t \<longrightarrow> tr_script t = Some s \<longrightarrow>
          bt_get (db_transaction_scripts D) (fst (c_word (sc_base C)) s) = Some (fst (sc_tx_script C) s))
     \<and> (\<forall>s bs. bt_get (db_transaction_scripts D) (fst (c_word (sc_base C)) s) = Some bs \<longrightarrow> bs = fst (sc_tx_script C) s)"

fun transaction_matches :: "transaction_filter \<Rightarrow> transaction_record \<Rightarrow> bool" where
  "transaction_matches TransactionsAll t \<longleftrightarrow> True"
| "transaction_matches TransactionsUncommitted t \<longleftrightarrow> tr_status t = TxPending"
| "transaction_matches (TransactionsIds ids) t \<longleftrightarrow> tr_id t \<in> set ids"
| "transaction_matches (TransactionsExpiredBefore n) t \<longleftrightarrow> td_block_num (tr_details t) < n \<and> tr_status t = TxPending"

lemma status_variant_u8:
  "variant_as_u8 (status_variant s) = 0 \<longleftrightarrow> s = TxPending"
  "variant_as_u8 (status_variant s) \<noteq> 2 \<and> variant_as_u8 (status_variant s) \<noteq> 1 \<longleftrightarrow> s = TxPending"
  by (cases s; simp)+

lemma transaction_condition_matches:
  "tr_id t = i \<Longrightarrow> transaction_condition flt i (serialize_transaction_data C t) = transaction_matches flt t"
  by (cases flt) (simp_all add: serialize_transaction_data_def status_variant_u8)

lemma map_bt_insert: "map (\<lambda>(k, v). (k, f v)) (bt_insert k v m) = bt_insert k (f v) (map (\<lambda>(k, v). (k, f v)) m)"
  by (induction m) auto

lemma parse_serialized_transaction:
  assumes "sql_codecs_ok C" "tr_id t = i"
  shows "parse_transaction C i (map_option (fst (sc_tx_script C)) (tr_script t)) (serialize_transaction_data C t) = Inr t"
  using assms(1) sql_codecs_okD(1) [OF assms(1)] unfolding assms(2) [symmetric]
  by (cases "tr_script t") (simp_all add: parse_transaction_def serialize_transaction_data_def
      read_from_bytes_ok [where c = "(transaction_details_write (sc_base C), transaction_details_read (sc_base C))", simplified]
      read_from_bytes_ok [where c = "(transaction_status_write (sc_base C), transaction_status_read (sc_base C))", simplified])

lemma try_map_map: "try_map f (map g xs) = try_map (\<lambda>x. f (g x)) xs"
  by (induction xs) simp_all

lemma upsert_transaction_stored:
  assumes "sql_codecs_ok C" "transactions_stored C m D"
  shows "transactions_stored C (bt_insert (tr_id t) t m) (upsert_transaction_record C t D)"
proof -
  let ?w = "fst (c_word (sc_base C))" and ?D = "upsert_transaction_record C t D"
  have inj: "?w s = ?w s' \<longleftrightarrow> s = s'" for s s'
    by (rule codec_ok_inj [OF sql_codecs_okD(8) [OF assms(1)]])
  have m: "bt_wf m" "\<And>i t. bt_get m i = Some t \<Longrightarrow> tr_id t = i"
    and rows: "db_transactions D = map (\<lambda>(i, t). (i, serialize_transaction_data C t)) m"
    and wf: "bt_wf (db_transaction_scripts D)"
    and kept: "\<And>i t s. bt_get m i = Some t \<Longrightarrow> tr_script t = Some s \<Longrightarrow>
      bt_get (db_transaction_scripts D) (?w s) = Some (fst (sc_tx_script C) s)"
    and enc: "\<And>s bs. bt_get (db_transaction_scripts D) (?w s) = Some bs \<Longrightarrow> bs = fst (sc_tx_script C) s"
    using assms(2) unfolding transactions_stored_def by blast+
  have scripts: "db_transaction_scripts ?D = (case tr_script t of
      None \<Rightarrow> db_transaction_scripts D | Some s \<Rightarrow> bt_or_insert (?w s) (fst (sc_tx_script C) s) (db_transaction_scripts D))"
    by (simp add: upsert_transaction_record_def Let_def serialize_transaction_data_def split: option.splits)
  have get: "bt_get (db_transaction_scripts ?D) (?w s) =
      (if tr_script t = Some s then Some (fst (sc_tx_script C) s) else bt_get (db_transaction_scripts D) (?w s))" for s
    using enc [of s] by (auto simp: scripts inj split: option.splits)
  have "db_transactions ?D = map (\<lambda>(i, t). (i, serialize_transaction_data C t)) (bt_insert (tr_id t) t m)"
    by (simp add: map_bt_insert rows upsert_transaction_record_def Let_def split: option.splits)
  moreover have "bt_wf (db_transaction_scripts ?D)" using wf by (simp add: scripts split: option.splits)
  moreover have "bt_wf (bt_insert (tr_id t) t m)" using m(1) by simp
  moreover have "\<forall>i u. bt_get (bt_insert (tr_id t) t m) i = Some u \<longrightarrow> tr_id u = i" using m(2) by auto
  moreover have "\<forall>i u s. bt_get (bt_insert (tr_id t) t m) i = Some u \<longrightarrow> tr_script u = Some s \<longrightarrow>
      bt_get (db_transaction_scripts ?D) (?w s) = Some (fst (sc_tx_script C) s)"
  proof (intro allI impI)
    fix i u s assume u: "bt_get (bt_insert (tr_id t) t m) i = Some u" "tr_script u = Some s"
    show "bt_get (db_transaction_scripts ?D) (?w s) = Some (fst (sc_tx_script C) s)"
    proof (cases "i = tr_id t")
      case True
      then have "tr_script t = Some s" using u by simp
      then show ?thesis by (simp add: get)
    next
      case False
      then show ?thesis using u(1) kept [OF _ u(2), of i] by (simp add: get)
    qed
  qed
  moreover have "\<forall>s bs. bt_get (db_transaction_scripts ?D) (?w s) = Some bs \<longrightarrow> bs = fst (sc_tx_script C) s"
    unfolding get using enc by (simp split: if_splits)
  ultimately show ?thesis unfolding transactions_stored_def by (intro conjI)
qed

lemma upsert_transactions_stored:
  assumes "sql_codecs_ok C" "transactions_stored C m D"
  shows "transactions_stored C (fold (\<lambda>t. bt_insert (tr_id t) t) ts m) (fold (upsert_transaction_record C) ts D)"
  using assms(2) by (induction ts arbitrary: m D) (simp_all add: upsert_transaction_stored [OF assms(1)])

lemma get_transactions_stored:
  assumes "sql_codecs_ok C" "transactions_stored C m D"
  shows "get_transactions C flt D = Inr (filter (transaction_matches flt) (bt_values m))"
proof -
  have m: "bt_wf m" "\<And>i t. bt_get m i = Some t \<Longrightarrow> tr_id t = i"
    and rows: "db_transactions D = map (\<lambda>(i, t). (i, serialize_transaction_data C t)) m"
    and kept: "\<And>i t s. bt_get m i = Some t \<Longrightarrow> tr_script t = Some s \<Longrightarrow>
      bt_get (db_transaction_scripts D) (fst (c_word (sc_base C)) s) = Some (fst (sc_tx_script C) s)"
    using assms(2) unfolding transactions_stored_def by blast+
  have mem: "bt_get m i = Some t" if "(i, t) \<in> set m" for i t
    using that m(1) by (simp add: bt_wf_def map_of_is_SomeI strict_sorted_iff)
  have "filter (\<lambda>(i, row). transaction_condition flt i row) (db_transactions D) =
      map (\<lambda>(i, t). (i, serialize_transaction_data C t)) (filter (\<lambda>(i, t). transaction_matches flt t) m)"
    unfolding rows filter_map
    by (intro arg_cong [where f = "map _"] filter_cong) (auto simp: transaction_condition_matches dest!: mem m(2))
  moreover have "parse_transaction C i (join_transaction_script D (serialize_transaction_data C t)) (serialize_transaction_data C t) = Inr t"
    if "(i, t) \<in> set m" for i t
  proof -
    have "join_transaction_script D (serialize_transaction_data C t) = map_option (fst (sc_tx_script C)) (tr_script t)"
      using kept [OF mem [OF that]]
      by (simp add: join_transaction_script_def) (simp add: serialize_transaction_data_def split: option.split)
    then show ?thesis using parse_serialized_transaction [OF assms(1) m(2) [OF mem [OF that]]] by simp
  qed
  ultimately have "get_transactions C flt D = Inr (map snd (filter (\<lambda>(i, t). transaction_matches flt t) m))"
    unfolding get_transactions_def by (simp only: try_map_map) (rule try_map_ok, auto)
  moreover have "map snd (filter (\<lambda>(i, t). transaction_matches flt t) m) = filter (transaction_matches flt) (bt_values m)"
    by (simp add: filter_map comp_def case_prod_beta')
  ultimately show ?thesis by simp
qed

section \<open>The tags of the store\<close>

definition tags_stored :: "sql_codecs \<Rightarrow> note_tag_record list \<Rightarrow> database \<Rightarrow> bool" where
  "tags_stored C ts D \<longleftrightarrow> db_tags D = map (tag_row C) ts"

lemma tag_row_inj: "sql_codecs_ok C \<Longrightarrow> tag_row C s = tag_row C t \<longleftrightarrow> s = t"
  using codec_ok_inj [OF sql_codecs_okD(6), of C] codec_ok_inj [OF sql_codecs_okD(11), of C]
  by (auto simp: tag_row_def intro: note_tag_record.equality)

lemma get_note_tags_stored:
  assumes "sql_codecs_ok C" "tags_stored C ts D"
  shows "get_note_tags C D = Inr ts"
proof -
  have "try_map (\<lambda>(tag, source).
         and_then (read_from_bytes (sc_tag C) tag) (\<lambda>t.
         and_then (read_from_bytes (tag_source_codec C) source) (\<lambda>s.
         Inr \<lparr>tag_tag = t, tag_source = s\<rparr>))) (map (tag_row C) ts) = Inr (map (\<lambda>t. t) ts)"
    unfolding try_map_map
    by (rule try_map_ok) (simp add: tag_row_def read_from_bytes_ok [OF sql_codecs_okD(6) [OF assms(1)]]
        read_from_bytes_ok [OF sql_codecs_okD(11) [OF assms(1)], unfolded fst_conv])
  then show ?thesis using assms(2) by (simp add: get_note_tags_def tags_stored_def)
qed

lemma add_tag_stored: "tags_stored C ts D \<Longrightarrow> tags_stored C (ts @ [t]) (add_note_tag_tx C t D)"
  by (simp add: tags_stored_def add_note_tag_tx_def)

lemma add_tags_stored: "tags_stored C ts D \<Longrightarrow> tags_stored C (ts @ new) (fold (add_note_tag_tx C) new D)"
proof (induction new arbitrary: ts D)
  case (Cons t new)
  from Cons.IH [OF add_tag_stored [OF Cons.prems]] show ?case by simp
qed simp

lemma remove_tag_stored:
  assumes "sql_codecs_ok C" "tags_stored C ts D"
  shows "remove_note_tag_tx C t D =
    (length (filter (\<lambda>s. s = t) ts), D\<lparr>db_tags := map (tag_row C) (filter (\<lambda>s. s \<noteq> t) ts)\<rparr>)"
  using assms(2) by (simp add: remove_note_tag_tx_def tags_stored_def filter_map comp_def tag_row_inj [OF assms(1)])

lemma remove_tags_stored:
  assumes "sql_codecs_ok C" "tags_stored C ts D"
  shows "tags_stored C (filter (\<lambda>s. s \<notin> set gone) ts) (fold (\<lambda>t D. snd (remove_note_tag_tx C t D)) gone D)"
  using assms(2)
proof (induction gone arbitrary: ts D)
  case (Cons t gone)
  have "tags_stored C (filter (\<lambda>s. s \<noteq> t) ts) (snd (remove_note_tag_tx C t D))"
    by (simp add: remove_tag_stored [OF assms(1) Cons.prems] tags_stored_def)
  from Cons.IH [OF this] show ?case by (simp add: conj_commute)
qed simp

text \<open>Adding reports whether the tag is new and adds it at most once; removing takes away every copy.\<close>

lemma add_note_tag_stored:
  assumes "sql_codecs_ok C" "tags_stored C ts D"
  shows "\<exists>D'. add_note_tag C t D = Inr (t \<notin> set ts, D') \<and> tags_stored C (if t \<in> set ts then ts else ts @ [t]) D'"
  using assms(2) add_tag_stored [OF assms(2)] by (simp add: add_note_tag_def get_note_tags_stored [OF assms])

section \<open>Properties\<close>

text \<open>
  C34. Stored transactions read back: after any sequence of upserts into a consistent table, every
  filter returns exactly the latest record of each transaction that matches it, decoded, in
  identifier order; pending ones for the uncommitted filter, and pending ones executed before the
  given block for the filter of expired transactions.
\<close>

theorem transaction_queries_exact:
  assumes "sql_codecs_ok C" "transactions_stored C m D"
  shows "get_transactions C flt (fold (upsert_transaction_record C) ts D) =
    Inr (filter (transaction_matches flt) (bt_values (fold (\<lambda>t. bt_insert (tr_id t) t) ts m)))"
  by (rule get_transactions_stored [OF assms(1) upsert_transactions_stored [OF assms]])

theorem transaction_queries_exact_witness:
  "get_transactions sample_sql TransactionsUncommitted
     (fold (upsert_transaction_record sample_sql) [sample_transaction, sample_transaction\<lparr>tr_status := TxDiscarded Stale\<rparr>] database_new) = Inr []
   \<and> get_transactions sample_sql TransactionsUncommitted (fold (upsert_transaction_record sample_sql) [sample_transaction] database_new) =
     Inr [sample_transaction]"
proof -
  have "transactions_stored sample_sql [] database_new" by (simp add: transactions_stored_def database_new_def)
  note exact = transaction_queries_exact [OF sample_sql_ok this]
  show ?thesis unfolding exact by (simp add: sample_transaction_def)
qed

end
