(* ===== verification/Sqlite_Note_Queries.thy ===== *)
theory Sqlite_Note_Queries
  imports Sqlite_Notes
begin

text \<open>
  What the note queries of the SQLite store return: the meaning of each filter on records, the
  orders of consumed notes, the enumeration by offset, and the upsert of imported notes; then the
  properties of the note tables, from synced notes reaching the store to the two notions of unspent.
\<close>

section \<open>What the filters select\<close>

definition stored_inputs :: "sql_codecs \<Rightarrow> database \<Rightarrow> input_note_record list" where
  "stored_inputs C D = map (\<lambda>(i, row). the (stored_input C D i)) (db_input_notes D)"

definition stored_outputs :: "sql_codecs \<Rightarrow> database \<Rightarrow> output_note_record list" where
  "stored_outputs C D = map (\<lambda>(i, row). the (stored_output C D i)) (db_output_notes D)"

text \<open>The meaning of a filter, on records.\<close>

fun input_filter :: "protocol \<Rightarrow> note_filter \<Rightarrow> input_note_record \<Rightarrow> bool" where
  "input_filter P FilterAll r = True"
| "input_filter P FilterCommitted r = inr_is_committed r"
| "input_filter P FilterConsumed r = inr_is_consumed r"
| "input_filter P FilterExpected r = (case inr_state r of Expected _ \<Rightarrow> True | _ \<Rightarrow> False)"
| "input_filter P (FilterList ids) r = (inr_id P r \<in> set ids)"
| "input_filter P (FilterNullifiers nfs) r = (inr_nullifier P r \<in> set nfs)"
| "input_filter P FilterProcessing r = inr_is_processing r"
| "input_filter P (FilterUnique i) r = (inr_id P r = i)"
| "input_filter P FilterUnspent r =
     (\<not> inr_is_consumed r \<and> (case inr_state r of Invalid _ \<Rightarrow> False | _ \<Rightarrow> True))"
| "input_filter P FilterUnverified r = (case inr_state r of Unverified _ \<Rightarrow> True | _ \<Rightarrow> False)"

fun output_filter :: "protocol \<Rightarrow> note_filter \<Rightarrow> output_note_record \<Rightarrow> bool" where
  "output_filter P FilterAll r = True"
| "output_filter P FilterCommitted r = onr_is_committed r"
| "output_filter P FilterConsumed r = onr_is_consumed r"
| "output_filter P FilterExpected r = (\<not> onr_is_committed r \<and> \<not> onr_is_consumed r)"
| "output_filter P (FilterList ids) r = (onr_id P r \<in> set ids)"
| "output_filter P (FilterNullifiers nfs) r = (\<exists>nf \<in> set nfs. onr_nullifier P r = Some nf)"
| "output_filter P FilterProcessing r = False"
| "output_filter P (FilterUnique i) r = (onr_id P r = i)"
| "output_filter P FilterUnspent r = (\<not> onr_is_consumed r)"
| "output_filter P FilterUnverified r = False"

definition consumed_record_key :: "protocol \<Rightarrow> input_note_record \<Rightarrow> (nat \<times> nat) \<times> bool \<times> (nat \<times> nat) \<times> note_id" where
  "consumed_record_key P r =
     (nullable (consumed_block_height (inr_state r)), consumed_tx_order (inr_state r) = None,
      nullable (consumed_tx_order (inr_state r)), inr_id P r)"

definition offset_record_key :: "protocol \<Rightarrow> input_note_record \<Rightarrow> (nat \<times> nat) \<times> (nat \<times> nat) \<times> note_id" where
  "offset_record_key P r =
     (nullable (consumed_block_height (inr_state r)), nullable (consumed_tx_order (inr_state r)), inr_id P r)"

definition consumed_by ::
  "protocol \<Rightarrow> note_filter \<Rightarrow> account_id \<Rightarrow> block_number option \<Rightarrow> block_number option \<Rightarrow> input_note_record \<Rightarrow> bool" where
  "consumed_by P flt consumer block_start block_end r \<longleftrightarrow>
     input_filter P flt r \<and> inr_consumer_account r = Some consumer \<and> consumed_tx_order (inr_state r) \<noteq> None
     \<and> (\<forall>s. block_start = Some s \<longrightarrow> (\<exists>h. consumed_block_height (inr_state r) = Some h \<and> s \<le> h))
     \<and> (\<forall>e. block_end = Some e \<longrightarrow> (\<exists>h. consumed_block_height (inr_state r) = Some h \<and> h \<le> e))"

lemma stored_record_sel [simp]:
  "inr_state (stored_record r) = inr_state r" "inr_details (stored_record r) = inr_details r"
  by (simp_all add: stored_record_def)

lemma row_sel:
  "ir_state_discriminant (row_of_record P C r) = discriminant (inr_state r)"
  "ir_nullifier (row_of_record P C r) = inr_nullifier P r"
  "ir_consumed_block_height (row_of_record P C r) = consumed_block_height (inr_state r)"
  "ir_consumed_tx_order (row_of_record P C r) = consumed_tx_order (inr_state r)"
  "ir_consumer_account_id (row_of_record P C r) = inr_consumer_account r"
  by (simp_all add: row_defs)

text \<open>On a row of the store, the condition of the query is the meaning of the filter.\<close>

lemma input_condition_row:
  "input_notes_condition flt (inr_id P r, row_of_record P C r) = input_filter P flt (stored_record r)"
proof (cases flt)
  case FilterUnspent
  then show ?thesis by (cases "inr_state r") (simp_all add: row_sel inr_is_consumed_def)
next
  case FilterConsumed
  then show ?thesis by (cases "inr_state r") (simp_all add: row_sel inr_is_consumed_def)
next
  case FilterProcessing
  then show ?thesis by (cases "inr_state r") (simp_all add: row_sel inr_is_processing_def)
next
  case FilterCommitted
  then show ?thesis by (cases "inr_state r") (simp_all add: row_sel inr_is_committed_def)
next
  case FilterExpected
  then show ?thesis by (cases "inr_state r") (simp_all add: row_sel)
next
  case FilterUnverified
  then show ?thesis by (cases "inr_state r") (simp_all add: row_sel)
qed (simp_all add: row_sel inr_nullifier_def inr_id_def)

lemma output_condition_row:
  "serialize_output_note P C r = (i, row) \<Longrightarrow> output_notes_condition flt (i, row) = output_filter P flt r"
  by (cases flt; cases "onr_state r")
    (auto simp: serialize_output_note_def onr_is_committed_def onr_is_consumed_def image_iff)

lemma input_row_mem:
  assumes "sql_codecs_ok C" "note_tables_inv P C D" "x \<in> set (db_input_notes D)"
  obtains r where "x = (inr_id P r, row_of_record P C r)" "stored_input C D (fst x) = Some (stored_record r)"
    "read_input_row C D (snd x) = Inr (stored_record r)"
proof -
  obtain i row where x: "x = (i, row)" by (cases x)
  have "bt_wf (db_input_notes D)" using assms(2) by (simp add: note_tables_inv_def)
  then have "bt_get (db_input_notes D) i = Some row" using assms(3) by (simp add: x bt_get_iff_mem)
  with assms(1,2) show ?thesis
  proof (cases rule: stored_input_cases [where i = i])
    case (row r)
    then show ?thesis
      using that [of r] \<open>bt_get (db_input_notes D) i = Some row\<close>
      by (auto simp: x stored_input_def split: sum.splits)
  qed simp
qed

lemma query_rows:
  assumes ok: "sql_codecs_ok C" and inv: "note_tables_inv P C D"
    and cond: "\<And>r. p (inr_id P r, row_of_record P C r) = q (stored_record r)"
  shows "map (\<lambda>(i, row). the (stored_input C D i)) (filter p (db_input_notes D)) = filter q (stored_inputs C D)"
  unfolding stored_inputs_def
proof (rule filter_map_rows, rule ballI)
  fix x assume "x \<in> set (db_input_notes D)"
  with ok inv show "p x = q ((\<lambda>(i, row). the (stored_input C D i)) x)"
    by (rule input_row_mem) (simp add: cond)
qed

lemma read_rows:
  assumes "sql_codecs_ok C" "note_tables_inv P C D" "set xs \<subseteq> set (db_input_notes D)"
  shows "try_map (\<lambda>(i, row). read_input_row C D row) xs = Inr (map (\<lambda>(i, row). the (stored_input C D i)) xs)"
proof (rule try_map_ok)
  fix x assume "x \<in> set xs"
  then have "x \<in> set (db_input_notes D)" using assms(3) by blast
  with assms(1,2) show "(\<lambda>(i, row). read_input_row C D row) x = Inr ((\<lambda>(i, row). the (stored_input C D i)) x)"
    by (rule input_row_mem) simp
qed

lemma get_input_notes_spec:
  assumes "sql_codecs_ok C" "note_tables_inv P C D"
  shows "get_input_notes C flt D = Inr
    (if flt = FilterConsumed then sort_key (consumed_record_key P) (filter (input_filter P flt) (stored_inputs C D))
     else filter (input_filter P flt) (stored_inputs C D))"
proof -
  let ?rows = "filter (input_notes_condition flt) (db_input_notes D)"
  let ?f = "\<lambda>(i, row). the (stored_input C D i)"
  have rows: "map ?f ?rows = filter (input_filter P flt) (stored_inputs C D)"
    by (rule query_rows [OF assms]) (rule input_condition_row)
  have "map ?f (sort_key consumed_key ?rows) = sort_key (consumed_record_key P) (map ?f ?rows)"
  proof (rule map_sort_key, rule ballI)
    fix x assume "x \<in> set ?rows"
    then have "x \<in> set (db_input_notes D)" by simp
    with assms show "consumed_key x = consumed_record_key P (?f x)"
      by (rule input_row_mem) (simp add: consumed_key_def consumed_record_key_def row_sel)
  qed
  then show ?thesis
    using read_rows [OF assms, of ?rows] read_rows [OF assms, of "sort_key consumed_key ?rows"] rows
    by (auto simp: get_input_notes_def Let_def)
qed

lemma offset_condition_row:
  "offset_condition flt consumer block_start block_end (inr_id P r, row_of_record P C r)
     = consumed_by P flt consumer block_start block_end (stored_record r)"
  by (auto simp: offset_condition_def consumed_by_def input_condition_row row_sel inr_consumer_account_def
      split: option.splits)

lemma get_input_note_by_offset_spec:
  assumes "sql_codecs_ok C" "note_tables_inv P C D"
  defines "matching \<equiv> \<lambda>flt consumer block_start block_end. sort_key (offset_record_key P)
    (filter (consumed_by P flt consumer block_start block_end) (stored_inputs C D))"
  shows "get_input_note_by_offset C flt consumer block_start block_end offset D = Inr
    (if unat offset < length (matching flt consumer block_start block_end)
     then Some (matching flt consumer block_start block_end ! unat offset) else None)"
proof -
  let ?sel = "filter (offset_condition flt consumer block_start block_end) (db_input_notes D)"
  let ?rows = "sort_key offset_key ?sel"
  let ?f = "\<lambda>(i, row). the (stored_input C D i)"
  have rows: "map ?f ?rows = matching flt consumer block_start block_end"
  proof -
    have sel: "map ?f ?sel = filter (consumed_by P flt consumer block_start block_end) (stored_inputs C D)"
      by (rule query_rows [OF assms(1,2)]) (rule offset_condition_row)
    show ?thesis unfolding matching_def sel [symmetric]
  proof (rule map_sort_key, rule ballI)
    fix x assume "x \<in> set ?sel"
    then have "x \<in> set (db_input_notes D)" by simp
    with assms(1,2) show "offset_key x = offset_record_key P (?f x)"
      by (rule input_row_mem) (simp add: offset_key_def offset_record_key_def row_sel)
  qed
  qed
  show ?thesis
  proof (cases "unat offset < length ?rows")
    case True
    then have "set [?rows ! unat offset] \<subseteq> set (db_input_notes D)" using nth_mem [OF True] by auto
    from read_rows [OF assms(1,2) this]
    have "(\<lambda>(i, row). read_input_row C D row) (?rows ! unat offset) = Inr (?f (?rows ! unat offset))"
      by (simp add: and_then_Inr_conv)
    moreover have "take 1 (drop (unat offset) ?rows) = [?rows ! unat offset]"
      using True by (simp add: take_Suc hd_drop_conv_nth)
    moreover have "?f (?rows ! unat offset) = matching flt consumer block_start block_end ! unat offset"
      unfolding rows [symmetric] by (rule nth_map [OF True, symmetric])
    moreover have "unat offset < length (matching flt consumer block_start block_end)"
      using True unfolding rows [symmetric] by simp
    ultimately show ?thesis
      by (simp add: get_input_note_by_offset_def Let_def split: prod.splits)
  next
    case False
    then have "\<not> unat offset < length (matching flt consumer block_start block_end)"
      unfolding rows [symmetric] by simp
    then show ?thesis using False by (simp add: get_input_note_by_offset_def Let_def)
  qed
qed

lemma output_row_mem:
  assumes "sql_codecs_ok C" "note_tables_inv P C D" "x \<in> set (db_output_notes D)"
  obtains r where "serialize_output_note P C r = x" "stored_output C D (fst x) = Some r" "parse_output_note C (snd x) = Inr r"
proof -
  obtain i row where x: "x = (i, row)" by (cases x)
  have "bt_wf (db_output_notes D)" using assms(2) by (simp add: note_tables_inv_def)
  then have get: "bt_get (db_output_notes D) i = Some row" using assms(3) by (simp add: x bt_get_iff_mem)
  then obtain r where r: "serialize_output_note P C r = (i, row)"
    using assms(2) unfolding note_tables_inv_def output_rows_ok_def by blast
  show ?thesis
    using that [of r] r parse_serialized_output [OF assms(1) r] get by (simp add: x stored_output_def)
qed

lemma get_output_notes_spec:
  assumes "sql_codecs_ok C" "note_tables_inv P C D"
  shows "get_output_notes C flt D = Inr (filter (output_filter P flt) (stored_outputs C D))"
proof -
  let ?f = "\<lambda>(i, row). the (stored_output C D i)"
  have "try_map (\<lambda>(i, row). parse_output_note C row) (filter (output_notes_condition flt) (db_output_notes D))
      = Inr (map ?f (filter (output_notes_condition flt) (db_output_notes D)))"
  proof (rule try_map_ok)
    fix x assume "x \<in> set (filter (output_notes_condition flt) (db_output_notes D))"
    then have "x \<in> set (db_output_notes D)" by simp
    with assms show "(\<lambda>(i, row). parse_output_note C row) x = Inr (?f x)"
      by (rule output_row_mem) (auto split: prod.splits)
  qed
  moreover have "map ?f (filter (output_notes_condition flt) (db_output_notes D)) = filter (output_filter P flt) (stored_outputs C D)"
    unfolding stored_outputs_def
  proof (rule filter_map_rows, rule ballI)
    fix x assume "x \<in> set (db_output_notes D)"
    with assms show "output_notes_condition flt x = output_filter P flt (?f x)"
      by (rule output_row_mem) (auto simp: output_condition_row split: prod.splits)
  qed
  ultimately show ?thesis by (simp add: get_output_notes_def)
qed

lemma unspent_nullifiers_spec:
  assumes "sql_codecs_ok C" "note_tables_inv P C D"
  shows "get_unspent_input_note_nullifiers D = map (inr_nullifier P) (filter (\<lambda>r. \<not> inr_is_consumed r) (stored_inputs C D))"
proof -
  let ?f = "\<lambda>(i, row). the (stored_input C D i)"
  let ?c = "\<lambda>(i, row). ir_state_discriminant row \<notin> {6, 7, 8}"
  have "map ?f (filter ?c (db_input_notes D)) = filter (\<lambda>r. \<not> inr_is_consumed r) (stored_inputs C D)"
    by (rule query_rows [OF assms])
      (use input_condition_row [of FilterConsumed P] in \<open>auto simp: input_notes_condition.simps\<close>)
  moreover have "map (\<lambda>(i, row). ir_nullifier row) (filter ?c (db_input_notes D)) = map (inr_nullifier P \<circ> ?f) (filter ?c (db_input_notes D))"
  proof (rule map_cong [OF refl])
    fix x assume "x \<in> set (filter ?c (db_input_notes D))"
    then have "x \<in> set (db_input_notes D)" by simp
    with assms show "(\<lambda>(i, row). ir_nullifier row) x = (inr_nullifier P \<circ> ?f) x"
      by (rule input_row_mem) (simp add: row_sel inr_nullifier_def)
  qed
  ultimately show ?thesis by (simp add: get_unspent_input_note_nullifiers_def flip: map_map)
qed

section \<open>Upserts\<close>

definition upserted :: "protocol \<Rightarrow> sql_codecs \<Rightarrow> input_note_record \<Rightarrow> database \<Rightarrow> database" where
  "upserted P C r D =
     (let root = rc_script_root (nd_recipient (inr_details r));
          D1 = insert_input_row (inr_id P r) (row_of_record P C r) (insert_script_row root (fst (sc_script C) root) D)
      in case inr_inclusion_proof r of
           Some proof \<Rightarrow> set_block_header_has_client_notes (ip_block_num proof) True D1
         | None \<Rightarrow> D1)"

lemma set_flag_keeps [simp]:
  "note_tables_inv P C (set_block_header_has_client_notes n f D) = note_tables_inv P C D"
  "stored_input C (set_block_header_has_client_notes n f D) i = stored_input C D i"
  by (simp_all add: note_tables_inv_def input_rows_ok_def output_rows_ok_def scripts_ok_def)
    (rule stored_input_cong; simp)

interpretation upserts: keyed_table "\<lambda>D. sql_codecs_ok C \<and> note_tables_inv P C D" "\<lambda>r D. storable r"
    "upserted P C" "inr_id P" "stored_input C" "\<lambda>r _. Some (stored_record r)" for P C
proof unfold_locales
  fix d r i assume a: "sql_codecs_ok C \<and> note_tables_inv P C d" "storable r"
  let ?root = "rc_script_root (nd_recipient (inr_details r))"
  let ?d1 = "insert_script_row ?root (fst (sc_script C) ?root) d"
  have d1: "note_tables_inv P C ?d1" "bt_get (db_notes_scripts ?d1) ?root \<noteq> None"
    using a insert_script_row_inv by auto
  then show "sql_codecs_ok C \<and> note_tables_inv P C (upserted P C r d)"
    using a insert_input_row_inv by (auto simp: upserted_def Let_def split: option.split)
  show "stored_input C (upserted P C r d) i = (if i = inr_id P r then Some (stored_record r) else stored_input C d i)"
    using stored_input_insert_row [OF _ d1(1) a(2) d1(2)] a stored_input_insert_script
    by (auto simp: upserted_def Let_def split: option.split)
qed simp

lemma upsert_input_note_tx_eq:
  "upsert_input_note_tx P C r D =
     (if storable r
      then Inr (insert_input_row (inr_id P r) (row_of_record P C r)
             (insert_script_row (rc_script_root (nd_recipient (inr_details r)))
               (fst (sc_script C) (rc_script_root (nd_recipient (inr_details r)))) D))
      else Inl (DatabaseError (sc_show C ToSqlConversionFailure)))"
proof -
  have "si_id (serialize_input_note P C r) = inr_id P r"
    "si_script_root (serialize_input_note P C r) = rc_script_root (nd_recipient (inr_details r))"
    "si_script (serialize_input_note P C r) = fst (sc_script C) (rc_script_root (nd_recipient (inr_details r)))"
    by (simp_all add: serialize_input_note_def Let_def)
  then show ?thesis
    by (simp add: upsert_input_note_tx_def Let_def storable_bind row_of_record_def)
qed

lemma upsert_input_notes_eq:
  "upsert_input_notes P C rs D =
     (if \<forall>r \<in> set rs. storable r then Inr (fold (upserted P C) rs D)
      else Inl (DatabaseError (sc_show C ToSqlConversionFailure)))"
  unfolding upsert_input_notes_def
proof (induction rs arbitrary: D)
  case (Cons r rs)
  show ?case
  proof (cases "storable r")
    case True
    then have "and_then (upsert_input_note_tx P C r D) (\<lambda>D1. case inr_inclusion_proof r of
        Some proof \<Rightarrow> Inr (set_block_header_has_client_notes (ip_block_num proof) True D1) | None \<Rightarrow> Inr D1)
      = Inr (upserted P C r D)"
      by (simp add: upsert_input_note_tx_eq upserted_def Let_def split: option.split)
    then show ?thesis using Cons True by simp
  next
    case False
    then show ?thesis by (simp add: upsert_input_note_tx_eq)
  qed
qed simp

lemma set_flag_lookup:
  "bt_get (db_block_headers (set_block_header_has_client_notes m f D)) n =
     map_option (\<lambda>row. row\<lparr>br_has_client_notes := br_has_client_notes row \<or> (f \<and> n = m)\<rparr>) (bt_get (db_block_headers D) n)"
proof (cases "bt_get (db_block_headers D) n")
  case (Some row)
  moreover have "row = row\<lparr>br_has_client_notes := True\<rparr>" if "br_has_client_notes row"
    using that by (cases row) simp
  moreover have "row = row\<lparr>br_has_client_notes := False\<rparr>" if "\<not> br_has_client_notes row"
    using that by (cases row) simp
  ultimately show ?thesis by (auto simp: set_block_header_has_client_notes_def)
qed (auto simp: set_block_header_has_client_notes_def)

lemma upserted_headers:
  "bt_get (db_block_headers (fold (upserted P C) rs D)) n = map_option (\<lambda>row. row\<lparr>br_has_client_notes :=
     br_has_client_notes row \<or> list_ex (\<lambda>r. map_option ip_block_num (inr_inclusion_proof r) = Some n) rs\<rparr>)
     (bt_get (db_block_headers D) n)"
proof (induction rs arbitrary: D)
  case Nil
  then show ?case by (cases "bt_get (db_block_headers D) n") simp_all
next
  case (Cons r rs)
  have one: "bt_get (db_block_headers (upserted P C r D)) n = map_option (\<lambda>row. row\<lparr>br_has_client_notes :=
      br_has_client_notes row \<or> map_option ip_block_num (inr_inclusion_proof r) = Some n\<rparr>) (bt_get (db_block_headers D) n)"
    by (cases "inr_inclusion_proof r"; cases "bt_get (db_block_headers D) n")
      (auto simp: upserted_def Let_def set_flag_lookup insert_input_row_def insert_script_row_def eq_commute [of n])
  show ?case
    by (cases "bt_get (db_block_headers D) n") (simp_all add: Cons.IH one)
qed

section \<open>Sample values\<close>

lemma database_new_inv: "note_tables_inv P C database_new"
  by (simp add: note_tables_inv_def input_rows_ok_def output_rows_ok_def scripts_ok_def database_new_def)

definition sample_store :: database where
  "sample_store = upserted sample_protocol sample_sql sample_processing database_new"

definition sample_stored :: input_note_record where
  "sample_stored = sample_processing\<lparr>inr_created_at := Some 0\<rparr>"

lemma sample_processing_storable: "storable sample_processing" "stored_record sample_processing = sample_stored"
  "inr_id sample_protocol sample_processing = NoteId (Digest 5)" "inr_id sample_protocol sample_stored = NoteId (Digest 5)"
  by (simp_all add: storable_def stored_record_def sample_stored_def inr_id_def sample_record_defs)

lemma sample_store_ok:
  "note_tables_inv sample_protocol sample_sql sample_store"
  "stored_input sample_sql sample_store (NoteId (Digest 5)) = Some sample_stored"
  using upserts.fold_steps [of sample_sql sample_protocol database_new "[sample_processing]"]
  by (simp_all add: sample_store_def sample_sql_ok database_new_inv sample_processing_storable)

definition sample_synced :: note_update_tracker where
  "sample_synced =
     \<lparr>nut_input_notes = [(NoteId (Digest 5),
        \<lparr>inu_note = sample_stored\<lparr>inr_state := ConsumedAuthenticatedLocal
             \<lparr>ca_metadata = sample_metadata, ca_inclusion_proof = sample_proof 5,
              ca_block_note_root = Digest 100, ca_nullifier_block_height = 12,
              ca_submission_data = sample_submission, ca_consumed_tx_order = None\<rparr>\<rparr>,
         inu_update_type = UpdateUpdate\<rparr>)],
      nut_output_notes = [], nut_input_by_nullifier = [(Nullifier (Digest 5), NoteId (Digest 5))],
      nut_output_by_nullifier = [], nut_nullifier_order = []\<rparr>"

lemma sample_synced_run:
  "try_fold (note_tracker_step sample_protocol) (note_tracker_new sample_protocol [sample_stored] [])
     [NoteNullified sample_nullifier_update [sample_committed_tx]] = Inr sample_synced"
  by (simp add: apply_nullifiers_state_transitions_def tracker_op_defs nullified_record_def note_tracker_new_def
      insert_input_note_def note_tracker_default_def inr_id_def inr_nullifier_def
      sample_synced_def sample_stored_def sample_nullifier_update_def sample_committed_tx_def
      sample_transaction_def inr_consumer_transaction_id_def inr_transaction_committed_def handler_defs
      sample_record_defs get_nullifier_order_def inr_set_consumed_tx_order_def bt_modify_def inu_inner_mut_def)

section \<open>Properties\<close>

text \<open>
  C7. What a sync computes reaches the database: load the tracker from the store, run any successful
  sequence of sync events on it and write its updates in one pass of batched inserts and
  state-only updates. Then the store returns for every tracked note exactly the record the tracker
  holds (a missing creation time becomes zero), for every other note what it returned before, and
  its tables stay consistent. The same holds for output notes.
\<close>

theorem synced_notes_reach_store:
  assumes "sql_codecs_ok C" and "note_tables_inv P C D" and "nullifier_binds_id P"
    and "\<forall>r \<in> set ins. stored_input C D (inr_id P r) = Some r"
    and "\<forall>r \<in> set outs. stored_output C D (onr_id P r) = Some r"
    and "try_fold (note_tracker_step P) (note_tracker_new P ins outs) evs = Inr N"
    and "\<forall>ev \<in> set evs. event_storable ev"
  shows "note_tables_inv P C (apply_note_updates_tx P C N D)
    \<and> stored_input C (apply_note_updates_tx P C N D) i =
        (case bt_get (nut_input_notes N) i of None \<Rightarrow> stored_input C D i | Some u \<Rightarrow> Some (stored_record (inu_note u)))
    \<and> stored_output C (apply_note_updates_tx P C N D) i =
        (case bt_get (nut_output_notes N) i of None \<Rightarrow> stored_output C D i | Some u \<Rightarrow> Some (onu_note u))"
  using sqlite.tracked_notes_reach_store [where P = P and C = C and d = D, OF _ assms(3-7)] assms(1,2) by simp

theorem synced_notes_reach_store_witness:
  "note_tables_inv sample_protocol sample_sql sample_store
   \<and> stored_input sample_sql (apply_note_updates_tx sample_protocol sample_sql sample_synced sample_store)
       (NoteId (Digest 5)) = Some (inu_note (snd (hd (nut_input_notes sample_synced))))"
proof -
  have ev: "\<forall>ev \<in> set [NoteNullified sample_nullifier_update [sample_committed_tx]]. event_storable ev" by simp
  have ins: "\<forall>r \<in> set [sample_stored]. stored_input sample_sql sample_store (inr_id sample_protocol r) = Some r"
    by (simp add: sample_processing_storable sample_store_ok)
  have outs: "\<forall>r \<in> set []. stored_output sample_sql sample_store (onr_id sample_protocol r) = Some r" by simp
  show ?thesis
    using synced_notes_reach_store [OF sample_sql_ok sample_store_ok(1) sample_protocol_binds ins outs sample_synced_run ev,
        of "NoteId (Digest 5)"] sample_store_ok(1)
    by (simp add: sample_synced_def stored_record_def sample_stored_def)
qed

text \<open>
  C31. The queries return what the filters mean: a query for input notes decodes every matching row
  and returns exactly the stored records whose state, identifier or nullifier the filter names, in
  identifier order, consumed notes instead by consumption height, then by position in their block
  with unknown positions last, then by identifier; a query for output notes likewise.
\<close>

theorem note_queries_exact:
  assumes "sql_codecs_ok C" and "note_tables_inv P C D"
  shows "get_input_notes C flt D = Inr
      (if flt = FilterConsumed
       then sort_key (consumed_record_key P) (filter (input_filter P flt) (stored_inputs C D))
       else filter (input_filter P flt) (stored_inputs C D))
    \<and> get_output_notes C flt D = Inr (filter (output_filter P flt) (stored_outputs C D))"
  using get_input_notes_spec [OF assms] get_output_notes_spec [OF assms] by blast

theorem note_queries_exact_witness:
  "get_input_notes sample_sql FilterProcessing sample_store = Inr [sample_stored]
   \<and> get_input_notes sample_sql FilterConsumed sample_store = Inr []"
proof -
  have "map fst (db_input_notes sample_store) = [NoteId (Digest 5)]"
    by (simp add: sample_store_def upserted_def Let_def insert_input_row_def insert_script_row_def
        set_block_header_has_client_notes_def database_new_def sample_processing_storable split: option.split)
  then have "stored_inputs sample_sql sample_store = [sample_stored]"
    by (auto simp: stored_inputs_def sample_store_ok)
  then show ?thesis
    using note_queries_exact [OF sample_sql_ok sample_store_ok(1), of FilterProcessing]
      note_queries_exact [OF sample_sql_ok sample_store_ok(1), of FilterConsumed]
    by (simp add: sample_stored_def sample_record_defs inr_is_processing_def inr_is_consumed_def)
qed




text \<open>
  Stored notes are read back: upserting records either stores all of them, the last one given for
  an identifier winning, leaves every other note as it was and flags the blocks of the included
  ones, or, when some creation time exceeds the signed range of the column, fails and changes
  nothing.
\<close>

lemma upserted_notes_read_back:
  assumes "sql_codecs_ok C" and "note_tables_inv P C D"
  shows "(case upsert_input_notes P C rs D of
      Inl e \<Rightarrow> e = DatabaseError (sc_show C ToSqlConversionFailure) \<and> \<not> list_all storable rs
    | Inr D' \<Rightarrow> list_all storable rs \<and> note_tables_inv P C D'
        \<and> stored_input C D' i = (case filter (\<lambda>r. inr_id P r = i) rs of
             [] \<Rightarrow> stored_input C D i | xs \<Rightarrow> Some (stored_record (last xs)))
        \<and> bt_get (db_block_headers D') n = map_option (\<lambda>row. row\<lparr>br_has_client_notes :=
             br_has_client_notes row \<or> list_ex (\<lambda>r. map_option ip_block_num (inr_inclusion_proof r) = Some n) rs\<rparr>)
             (bt_get (db_block_headers D) n))"
proof (cases "\<forall>r \<in> set rs. storable r")
  case True
  have "sql_codecs_ok C \<and> note_tables_inv P C D" using assms by simp
  from upserts.fold_steps [OF this, of rs] True show ?thesis
    by (simp add: upsert_input_notes_eq list_all_iff fold_last upserted_headers split: list.split)
next
  case False
  then have "upsert_input_notes P C rs D = Inl (DatabaseError (sc_show C ToSqlConversionFailure))"
    unfolding upsert_input_notes_eq by (rule if_not_P)
  then show ?thesis using False by (simp add: list_all_iff)
qed

lemma upserted_notes_read_back_witness:
  "\<exists>D. upsert_input_notes sample_protocol sample_sql [sample_processing] database_new = Inr D
     \<and> stored_input sample_sql D (NoteId (Digest 5)) = Some sample_stored"
  using upserted_notes_read_back [OF sample_sql_ok database_new_inv, where P = sample_protocol
      and rs = "[sample_processing]" and i = "NoteId (Digest 5)"]
  by (simp add: upsert_input_notes_eq sample_processing_storable)

text \<open>
  The two notions of unspent differ: the nullifiers of unspent notes are those of all notes that
  are not consumed, notes found invalid included, while the query for unspent notes leaves invalid
  notes out.
\<close>

lemma unspent_nullifiers_include_invalid:
  assumes "sql_codecs_ok C" and "note_tables_inv P C D"
  shows "get_unspent_input_note_nullifiers D =
      map (inr_nullifier P) (filter (\<lambda>r. \<not> inr_is_consumed r) (stored_inputs C D))
    \<and> get_input_notes C FilterUnspent D = Inr (filter (\<lambda>r. \<not> inr_is_consumed r
        \<and> (case inr_state r of Invalid _ \<Rightarrow> False | _ \<Rightarrow> True)) (stored_inputs C D))"
proof -
  have "input_filter P FilterUnspent = (\<lambda>r. \<not> inr_is_consumed r \<and> (case inr_state r of Invalid _ \<Rightarrow> False | _ \<Rightarrow> True))"
    by (rule ext) simp
  then show ?thesis
    using unspent_nullifiers_spec [OF assms] get_input_notes_spec [OF assms, of FilterUnspent] by simp
qed

definition sample_invalid :: input_note_record where
  "sample_invalid = sample_stored\<lparr>inr_state := Invalid
     \<lparr>iv_metadata = sample_metadata, iv_invalid_inclusion_proof = sample_proof 5, iv_block_note_root = Digest 100\<rparr>\<rparr>"

definition sample_invalid_store :: database where
  "sample_invalid_store = upserted sample_protocol sample_sql sample_invalid database_new"

lemma sample_invalid_store_ok:
  "note_tables_inv sample_protocol sample_sql sample_invalid_store"
  "stored_inputs sample_sql sample_invalid_store = [sample_invalid]"
proof -
  have r: "storable sample_invalid" "stored_record sample_invalid = sample_invalid"
    "inr_id sample_protocol sample_invalid = NoteId (Digest 5)"
    by (simp_all add: storable_def stored_record_def sample_invalid_def sample_stored_def inr_id_def sample_record_defs)
  show "note_tables_inv sample_protocol sample_sql sample_invalid_store"
    using upserts.fold_steps [of sample_sql sample_protocol database_new "[sample_invalid]"]
    by (simp add: sample_invalid_store_def sample_sql_ok database_new_inv r)
  have "stored_input sample_sql sample_invalid_store (NoteId (Digest 5)) = Some sample_invalid"
    using upserts.fold_steps [of sample_sql sample_protocol database_new "[sample_invalid]"]
    by (simp add: sample_invalid_store_def sample_sql_ok database_new_inv r)
  moreover have "map fst (db_input_notes sample_invalid_store) = [NoteId (Digest 5)]"
    by (simp add: sample_invalid_store_def upserted_def Let_def database_new_def r split: option.split)
  ultimately show "stored_inputs sample_sql sample_invalid_store = [sample_invalid]"
    by (auto simp: stored_inputs_def)
qed

lemma unspent_nullifiers_include_invalid_witness:
  "get_unspent_input_note_nullifiers sample_invalid_store = [Nullifier (Digest 5)]
   \<and> get_input_notes sample_sql FilterUnspent sample_invalid_store = Inr []"
  using unspent_nullifiers_include_invalid [OF sample_sql_ok sample_invalid_store_ok(1)]
  by (simp add: sample_invalid_store_ok(2) sample_invalid_def sample_stored_def inr_is_consumed_def inr_nullifier_def
      sample_record_defs)

end
