(* ===== verification/Sqlite_Store.thy ===== *)
theory Sqlite_Store
  imports Sqlite_Account_Undo Sqlite_Transactions Sqlite_Note_Queries
begin

text \<open>
  The SQLite store as a whole (\<^verbatim>\<open>sqlite-store/src/lib.rs\<close>, \<^verbatim>\<open>sync.rs\<close>, \<^verbatim>\<open>transaction.rs\<close> and the account
  operations of \<^verbatim>\<open>account/accounts.rs\<close> that open a database transaction): the database and the
  forest of account trees kept in memory beside it. An operation that fails leaves the database as it
  was, since its transaction is rolled back, and the forest as it had changed it. The theory
  composes the tables: a local transaction applied and later discarded by a sync leaves the accounts
  as they were, the sync height never moves back, and a store opened again knows the roots of every
  account and none of the stacked ones.
\<close>

section \<open>State\<close>

record 'f sqlite_store =
  st_db :: database
  st_accounts :: account_tables
  st_forest :: "'f account_smt_forest"

type_synonym ('f, 'a) store_op = "'f sqlite_store \<Rightarrow> (store_error + 'a) \<times> 'f sqlite_store"

text \<open>A database transaction over both groups of tables with the write lock on the forest.\<close>

definition in_transaction ::
  "(database \<times> account_tables \<Rightarrow> ('f, database \<times> account_tables) forest_op) \<Rightarrow> ('f, unit) store_op" where
  "in_transaction body st =
     (case body (st_db st, st_accounts st) (st_forest st) of
        (Inl e, F) \<Rightarrow> (Inl e, st\<lparr>st_forest := F\<rparr>)
      | (Inr (D, T), F) \<Rightarrow> (Inr (), \<lparr>st_db = D, st_accounts = T, st_forest = F\<rparr>))"

section \<open>Accounts\<close>

definition insert_address :: "account_ops \<Rightarrow> sql_codecs \<Rightarrow> address \<Rightarrow> account_id \<Rightarrow> database \<times> account_tables \<Rightarrow> database \<times> account_tables" where
  "insert_address K C address a = (\<lambda>(D, T).
     (add_note_tag_tx C (with_account_source (ko_address_tag K address) a) D,
      T\<lparr>at_addresses := bt_insert (fst (ko_address K) address) a (at_addresses T)\<rparr>))"

definition remove_address :: "account_ops \<Rightarrow> sql_codecs \<Rightarrow> address \<Rightarrow> account_id \<Rightarrow> ('f, unit) store_op" where
  "remove_address K C address a = in_transaction (\<lambda>(D, T). fpure (Inr
     (snd (remove_note_tag_tx C (with_account_source (ko_address_tag K address) a) D),
      T\<lparr>at_addresses := bt_remove (fst (ko_address K) address) (at_addresses T)\<rparr>)))"

text \<open>The database transaction is committed before the state is registered in the forest.\<close>

definition insert_account ::
  "'f smt_ops \<Rightarrow> account_ops \<Rightarrow> sql_codecs \<Rightarrow> account_state \<Rightarrow> address \<Rightarrow> ('f, unit) store_op" where
  "insert_account S K C acc initial_address st =
     (let a = as_id acc;
          T1 = insert_assets a (av_assets (as_vault acc))
                 (insert_storage_slots a (as_storage acc) (insert_account_code K (as_code acc) (st_accounts st)))
      in case insert_account_header K C (header_of_account K acc) (as_seed acc) None T1 of
           Inl e \<Rightarrow> (Inl e, st)
         | Inr T2 \<Rightarrow>
             (let (D, T) = insert_address K C initial_address a (st_db st, T2);
                  st1 = st\<lparr>st_db := D, st_accounts := T\<rparr>
              in case insert_and_register_account_state S a (as_vault acc) (map snd (as_storage acc)) (st_forest st) of
                   Inl e \<Rightarrow> (Inl (forest_error e), st1)
                 | Inr F \<Rightarrow> (Inr (), st1\<lparr>st_forest := F\<rparr>)))"

definition update_account ::
  "'f smt_ops \<Rightarrow> account_ops \<Rightarrow> sql_codecs \<Rightarrow> account_state \<Rightarrow> ('f, unit) store_op" where
  "update_account S K C acc st =
     (if bt_get (at_latest_headers (st_accounts st)) (as_id acc) = None
      then (Inl (StoreAccountDataNotFound (as_id acc)), st)
      else in_transaction (\<lambda>(D, T). fbind (update_account_state S K C acc T) (\<lambda>T'. fpure (Inr (D, T')))) st)"

text \<open>
  Reads through the forest: the asset or map entry under a root, with its witness, as the crypto crate
  looks it up. A key the forest does not track is an absent asset.
\<close>

definition get_account_asset ::
  "account_ops \<Rightarrow> sql_codecs \<Rightarrow> ('f \<Rightarrow> digest \<Rightarrow> digest \<Rightarrow> store_error + digest \<times> 'w) \<Rightarrow> account_id \<Rightarrow> digest \<Rightarrow>
   'f sqlite_store \<Rightarrow> store_error + (digest \<times> 'w) option" where
  "get_account_asset K C get_asset_and_witness a vault_key st =
     and_then (get_account_header C a (st_accounts st)) (\<lambda>found.
     and_then (ok_or (StoreAccountDataNotFound a) found) (\<lambda>(header, _).
     case get_asset_and_witness (sf_forest (st_forest st)) (hd_vault_root header) vault_key of
       Inr found \<Rightarrow> Inr (Some found)
     | Inl (MerkleStoreError m) \<Rightarrow> if ko_untracked_key K m then Inr None else Inl (MerkleStoreError m)
     | Inl e \<Rightarrow> Inl e))"

definition get_account_map_item ::
  "account_ops \<Rightarrow> sql_codecs \<Rightarrow> digest \<Rightarrow> ('f \<Rightarrow> digest \<Rightarrow> digest \<Rightarrow> store_error + digest option \<times> 'w) \<Rightarrow> account_id \<Rightarrow>
   slot_name \<Rightarrow> digest \<Rightarrow> 'f sqlite_store \<Rightarrow> store_error + digest \<times> 'w" where
  "get_account_map_item K C empty_word get_witness a s key st =
     and_then (get_account_header C a (st_accounts st)) (\<lambda>found.
     and_then (ok_or (StoreAccountDataNotFound a) found) (\<lambda>(header, _).
     and_then (query_storage_values K a (st_accounts st)) (\<lambda>storage_values.
     and_then (ok_or (StoreAccountStorageRootNotFound (hd_storage_commitment header)) (bt_get storage_values s)) (\<lambda>(ty, map_root).
     if ty \<noteq> MapType then Inl (StoreAccountError (ko_slot_not_map K s))
     else and_then (get_witness (sf_forest (st_forest st)) map_root key) (\<lambda>(item, witness).
       Inr (case item of Some v \<Rightarrow> v | None \<Rightarrow> empty_word, witness))))))"

definition get_account_storage_item ::
  "account_ops \<Rightarrow> (slot_name \<Rightarrow> message) \<Rightarrow> account_id \<Rightarrow> slot_name \<Rightarrow> account_tables \<Rightarrow> store_error + digest" where
  "get_account_storage_item K name_not_found a s T =
     and_then (get_account_storage K a (StorageSlotName s) T) (\<lambda>storage.
     ok_or (StoreAccountError (name_not_found s)) (map_option slot_value (map_of storage s)))"

section \<open>Local transactions\<close>

text \<open>What the store reads of an executed transaction, and of the update built from it.\<close>

record executed_transaction =
  et_id :: transaction_id
  et_account_id :: account_id
  et_initial_commitment :: digest
  et_initial_account :: acct_header
  et_final_account :: acct_header
  et_account_delta :: account_delta
  et_input_nullifiers :: "digest list"
  et_output_notes :: "raw_output_note list"
  et_block_num :: block_number
  et_expiration_block_num :: block_number
  et_tx_script :: "digest option"

record transaction_store_update =
  tu_executed_transaction :: executed_transaction
  tu_submission_height :: block_number
  tu_future_notes :: "(note_details \<times> note_tag) list"
  tu_note_updates :: note_update_tracker
  tu_new_tags :: "note_tag_record list"

definition transaction_record_of :: "account_ops \<Rightarrow> u64 \<Rightarrow> transaction_store_update \<Rightarrow> transaction_record" where
  "transaction_record_of K now u =
     (let tx = tu_executed_transaction u
      in transaction_record_new (et_id tx)
           \<lparr>td_account_id = et_account_id tx, td_init_account_state = et_initial_commitment tx,
            td_final_account_state = ko_commitment K (et_final_account tx),
            td_input_note_nullifiers = et_input_nullifiers tx, td_output_notes = et_output_notes tx,
            td_block_num = et_block_num tx, td_submission_height = tu_submission_height u,
            td_expiration_block_num = et_expiration_block_num tx, td_creation_timestamp = now\<rparr>
           (et_tx_script tx) TxPending)"

definition apply_transaction ::
  "protocol \<Rightarrow> 'f smt_ops \<Rightarrow> account_ops \<Rightarrow> sql_codecs \<Rightarrow> u64 \<Rightarrow> transaction_store_update \<Rightarrow> ('f, unit) store_op" where
  "apply_transaction P S K C now u = in_transaction (\<lambda>(D, T).
     let tx = tu_executed_transaction u; delta = et_account_delta tx
     in fbind (fpure (get_account_fungible_assets_for_delta K (et_account_id tx) delta T)) (\<lambda>updated_fungible_assets.
        let old_map_roots = get_storage_map_roots_for_delta (et_account_id tx) delta T;
            D1 = upsert_transaction_record C (transaction_record_of K now u) D
        in fbind (apply_account_delta S K C (et_initial_account tx) (et_final_account tx)
                    updated_fungible_assets old_map_roots delta T) (\<lambda>T1.
             let D2 = apply_note_updates_tx P C (tu_note_updates u) D1
             in fpure (Inr (fold (add_note_tag_tx C) (tu_new_tags u) D2, T1)))))"

section \<open>Syncs\<close>

definition committed_note_tag :: "protocol \<Rightarrow> input_note_record \<Rightarrow> store_error + note_tag_record option" where
  "committed_note_tag P note =
     (if inr_is_committed note
      then case inr_metadata note of
             Some metadata \<Rightarrow> Inr (Some \<lparr>tag_tag = md_tag metadata, tag_source = TagNote (inr_id P note)\<rparr>)
           | None \<Rightarrow> Inl (StorePanicked ''Committed notes should have metadata'')
      else Inr None)"

text \<open>
  The sync names a public account by its identifier and commitment; \<open>full\<close> is the account state it
  carries. Blocks, notes, tags and transactions are written first, then the accounts.
\<close>

definition sync_database ::
  "protocol \<Rightarrow> sql_codecs \<Rightarrow> state_sync_update \<Rightarrow> database \<Rightarrow> store_error + database" where
  "sync_database P C u D =
     (let D1 = insert_block_headers C (block_updates_headers (ssu_block_updates u)) (advance_sync_height (ssu_block_num u) D)
      in and_then (insert_partial_blockchain_nodes_tx (bu_new_authentication_nodes (ssu_block_updates u)) D1) (\<lambda>D2.
         let D3 = apply_note_updates_tx P C (ssu_note_updates u) D2
         in and_then (try_map (committed_note_tag P) (map inu_note (updated_input_notes (ssu_note_updates u)))) (\<lambda>tags.
            let D4 = fold (\<lambda>t D. snd (remove_note_tag_tx C t D)) (List.map_filter (\<lambda>t. t) tags) D3
            in Inr (fold (upsert_transaction_record C)
                     (committed_transactions (ssu_transaction_updates u) @ discarded_transactions (ssu_transaction_updates u)) D4))))"

definition discarded_states :: "tx_tracker \<Rightarrow> (account_id \<times> digest) list" where
  "discarded_states X =
     map (\<lambda>t. (td_account_id (tr_details t), td_final_account_state (tr_details t))) (discarded_transactions X)"

definition sync_accounts ::
  "'f smt_ops \<Rightarrow> account_ops \<Rightarrow> sql_codecs \<Rightarrow> (public_account \<Rightarrow> account_state) \<Rightarrow> state_sync_update \<Rightarrow>
   account_tables \<Rightarrow> ('f, account_tables) forest_op" where
  "sync_accounts S K C full u T =
     fbind (undo_account_state S C (discarded_states (ssu_transaction_updates u)) T) (\<lambda>T1 F.
       let F1 = fold (\<lambda>t. commit_roots S (td_account_id (tr_details t))) (committed_transactions (ssu_transaction_updates u)) F
       in fbind (fold_forest (\<lambda>T acc. update_account_state S K C (full acc) T) T1
                   (au_updated_public_accounts (ssu_account_updates u))) (\<lambda>T2.
            fpure (Inr (fold (\<lambda>(a, digest). lock_account_on_unexpected_commitment a digest)
                          (au_mismatched_private_accounts (ssu_account_updates u)) T2))) F1)"

definition apply_state_sync ::
  "protocol \<Rightarrow> 'f smt_ops \<Rightarrow> account_ops \<Rightarrow> sql_codecs \<Rightarrow> (public_account \<Rightarrow> account_state) \<Rightarrow> state_sync_update \<Rightarrow>
   ('f, unit) store_op" where
  "apply_state_sync P S K C full u = in_transaction (\<lambda>(D, T).
     fbind (fpure (sync_database P C u D)) (\<lambda>D'.
     fbind (sync_accounts S K C full u T) (\<lambda>T'. fpure (Inr (D', T')))))"

section \<open>Opening the store\<close>

definition register_stored_account ::
  "'f smt_ops \<Rightarrow> account_ops \<Rightarrow> sql_codecs \<Rightarrow> account_tables \<Rightarrow> 'f account_smt_forest \<Rightarrow> account_id \<Rightarrow>
   store_error + 'f account_smt_forest" where
  "register_stored_account S K C T F a =
     and_then (get_account_vault K a T) (\<lambda>vault.
     and_then (get_account_storage K a StorageAll T) (\<lambda>storage.
     and_then (get_account_header C a T) (\<lambda>header.
     if header \<noteq> None
     then map_err forest_error (insert_and_register_account_state S a vault (map snd storage) F)
     else insert_account_state S vault (map snd storage) F)))"

definition open_store ::
  "'f smt_ops \<Rightarrow> account_ops \<Rightarrow> sql_codecs \<Rightarrow> 'f \<Rightarrow> database \<Rightarrow> account_tables \<Rightarrow> store_error + 'f sqlite_store" where
  "open_store S K C empty_forest D T =
     and_then (try_fold (register_stored_account S K C T) (smt_forest_new empty_forest) (get_account_ids T)) (\<lambda>F.
     Inr \<lparr>st_db = D, st_accounts = T, st_forest = F\<rparr>)"

section \<open>What each step of a sync leaves alone\<close>

text \<open>The note tables change by themselves: applying note updates commutes with every other table.\<close>

definition other_tables :: "database \<Rightarrow> database \<Rightarrow> database" where
  "other_tables E D = E\<lparr>db_input_notes := db_input_notes D, db_output_notes := db_output_notes D,
     db_notes_scripts := db_notes_scripts D\<rparr>"

definition notes_only :: "(database \<Rightarrow> database) \<Rightarrow> bool" where
  "notes_only f \<longleftrightarrow> (\<forall>D E. f (other_tables E D) = other_tables E (f D))"

lemma notes_only_fold: "(\<And>x. x \<in> set xs \<Longrightarrow> notes_only (f x)) \<Longrightarrow> notes_only (fold f xs)"
  by (induction xs) (auto simp: notes_only_def)

lemma notes_only_rows:
  "notes_only (insert_script_row r s)" "notes_only (insert_input_row i row)" "notes_only (insert_output_row i row')"
  "notes_only (update_input_note_state P C n)" "notes_only (update_output_note_state P C n')"
  by (simp_all add: notes_only_def other_tables_def insert_script_row_def insert_input_row_def insert_output_row_def
      update_input_note_state_def update_output_note_state_def)

lemma notes_only_batches:
  "notes_only (batch_upsert_scripts scripts)" "notes_only (batch_insert_input_notes ns)" "notes_only (batch_insert_output_notes ns')"
  unfolding batch_upsert_scripts_def batch_insert_input_notes_def batch_insert_output_notes_def
  by (intro notes_only_fold; simp add: notes_only_rows split: prod.splits)+

lemma notes_onlyD: "notes_only f \<Longrightarrow> f (other_tables E D) = other_tables E (f D)"
  by (simp add: notes_only_def)

lemma notes_only_apply: "notes_only (apply_note_updates_tx P C N)"
  unfolding notes_only_def apply_note_updates_tx_def Let_def
  by (simp add: notes_only_batches [THEN notes_onlyD] notes_only_rows [THEN notes_only_fold, THEN notes_onlyD])

lemma apply_notes_other:
  "db_block_headers (apply_note_updates_tx P C N D) = db_block_headers D"
  "db_blockchain_nodes (apply_note_updates_tx P C N D) = db_blockchain_nodes D"
  "db_tags (apply_note_updates_tx P C N D) = db_tags D"
  "db_state_sync (apply_note_updates_tx P C N D) = db_state_sync D"
  "db_transactions (apply_note_updates_tx P C N D) = db_transactions D"
  "db_transaction_scripts (apply_note_updates_tx P C N D) = db_transaction_scripts D"
proof -
  have "apply_note_updates_tx P C N (other_tables D D) = other_tables D (apply_note_updates_tx P C N D)"
    using notes_only_apply unfolding notes_only_def by blast
  moreover have "other_tables D D = D" by (simp add: other_tables_def)
  ultimately have eq: "apply_note_updates_tx P C N D = other_tables D (apply_note_updates_tx P C N D)" by simp
  show "db_block_headers (apply_note_updates_tx P C N D) = db_block_headers D"
    "db_blockchain_nodes (apply_note_updates_tx P C N D) = db_blockchain_nodes D"
    "db_tags (apply_note_updates_tx P C N D) = db_tags D"
    "db_state_sync (apply_note_updates_tx P C N D) = db_state_sync D"
    "db_transactions (apply_note_updates_tx P C N D) = db_transactions D"
    "db_transaction_scripts (apply_note_updates_tx P C N D) = db_transaction_scripts D"
    by (subst eq, simp add: other_tables_def)+
qed

lemma apply_notes_same_tables:
  assumes "db_input_notes E = db_input_notes D" "db_output_notes E = db_output_notes D" "db_notes_scripts E = db_notes_scripts D"
  shows "db_input_notes (apply_note_updates_tx P C N E) = db_input_notes (apply_note_updates_tx P C N D)"
    "db_output_notes (apply_note_updates_tx P C N E) = db_output_notes (apply_note_updates_tx P C N D)"
    "db_notes_scripts (apply_note_updates_tx P C N E) = db_notes_scripts (apply_note_updates_tx P C N D)"
proof -
  have "other_tables E D = E" using assms by (simp add: other_tables_def)
  then have "apply_note_updates_tx P C N E = other_tables E (apply_note_updates_tx P C N D)"
    using notes_only_apply [of P C N] unfolding notes_only_def by metis
  then show "db_input_notes (apply_note_updates_tx P C N E) = db_input_notes (apply_note_updates_tx P C N D)"
    "db_output_notes (apply_note_updates_tx P C N E) = db_output_notes (apply_note_updates_tx P C N D)"
    "db_notes_scripts (apply_note_updates_tx P C N E) = db_notes_scripts (apply_note_updates_tx P C N D)"
    by (simp_all add: other_tables_def)
qed

lemma insert_block_header_other:
  "db_input_notes (insert_block_header_tx C hdr peaks f D) = db_input_notes D"
  "db_output_notes (insert_block_header_tx C hdr peaks f D) = db_output_notes D"
  "db_notes_scripts (insert_block_header_tx C hdr peaks f D) = db_notes_scripts D"
  "db_tags (insert_block_header_tx C hdr peaks f D) = db_tags D"
  "db_state_sync (insert_block_header_tx C hdr peaks f D) = db_state_sync D"
  "db_transactions (insert_block_header_tx C hdr peaks f D) = db_transactions D"
  "db_transaction_scripts (insert_block_header_tx C hdr peaks f D) = db_transaction_scripts D"
  by (simp_all add: insert_block_header_tx_def set_block_header_has_client_notes_def)

lemma insert_block_headers_other:
  "db_input_notes (insert_block_headers C blocks D) = db_input_notes D"
  "db_output_notes (insert_block_headers C blocks D) = db_output_notes D"
  "db_notes_scripts (insert_block_headers C blocks D) = db_notes_scripts D"
  "db_tags (insert_block_headers C blocks D) = db_tags D"
  "db_state_sync (insert_block_headers C blocks D) = db_state_sync D"
  "db_transactions (insert_block_headers C blocks D) = db_transactions D"
  "db_transaction_scripts (insert_block_headers C blocks D) = db_transaction_scripts D"
  unfolding insert_block_headers_def
  by (induction blocks arbitrary: D; simp add: insert_block_header_other split: prod.splits)+

lemma insert_block_headers_advance:
  "db_block_headers (insert_block_headers C blocks (advance_sync_height n D)) = db_block_headers (insert_block_headers C blocks D)"
proof -
  have step: "insert_block_header_tx C hdr peaks f (D\<lparr>db_state_sync := x\<rparr>) = (insert_block_header_tx C hdr peaks f D)\<lparr>db_state_sync := x\<rparr>"
    for hdr peaks f D x
    by (simp add: insert_block_header_tx_def set_block_header_has_client_notes_def)
  have "insert_block_headers C blocks (D\<lparr>db_state_sync := x\<rparr>) = (insert_block_headers C blocks D)\<lparr>db_state_sync := x\<rparr>" for x
    unfolding insert_block_headers_def by (induction blocks arbitrary: D) (simp_all add: step split: prod.splits)
  then show ?thesis by (simp add: advance_sync_height_def)
qed

lemma insert_nodes_other:
  assumes "insert_partial_blockchain_nodes_tx nodes D = Inr D'"
  shows "\<exists>m. D' = D\<lparr>db_blockchain_nodes := m\<rparr>"
  by (rule try_fold_invariant [OF assms [unfolded insert_partial_blockchain_nodes_tx_def],
        where I = "\<lambda>E. \<exists>m. E = D\<lparr>db_blockchain_nodes := m\<rparr>"])
    (auto simp: insert_partial_blockchain_node_def and_then_Inr_conv intro: exI [of _ "db_blockchain_nodes D"])

lemma remove_tags_other:
  "db_input_notes (fold (\<lambda>t D. snd (remove_note_tag_tx C t D)) gone D) = db_input_notes D"
  "db_output_notes (fold (\<lambda>t D. snd (remove_note_tag_tx C t D)) gone D) = db_output_notes D"
  "db_notes_scripts (fold (\<lambda>t D. snd (remove_note_tag_tx C t D)) gone D) = db_notes_scripts D"
  "db_block_headers (fold (\<lambda>t D. snd (remove_note_tag_tx C t D)) gone D) = db_block_headers D"
  "db_state_sync (fold (\<lambda>t D. snd (remove_note_tag_tx C t D)) gone D) = db_state_sync D"
  "db_transactions (fold (\<lambda>t D. snd (remove_note_tag_tx C t D)) gone D) = db_transactions D"
  "db_transaction_scripts (fold (\<lambda>t D. snd (remove_note_tag_tx C t D)) gone D) = db_transaction_scripts D"
  by (induction gone arbitrary: D; simp add: remove_note_tag_tx_def)+

lemma upsert_transaction_other:
  "db_input_notes (upsert_transaction_record C t D) = db_input_notes D"
  "db_output_notes (upsert_transaction_record C t D) = db_output_notes D"
  "db_notes_scripts (upsert_transaction_record C t D) = db_notes_scripts D"
  "db_block_headers (upsert_transaction_record C t D) = db_block_headers D"
  "db_state_sync (upsert_transaction_record C t D) = db_state_sync D"
  "db_tags (upsert_transaction_record C t D) = db_tags D"
  by (simp_all add: upsert_transaction_record_def Let_def split: option.splits)

lemma upsert_transactions_other:
  "db_input_notes (fold (upsert_transaction_record C) ts D) = db_input_notes D"
  "db_output_notes (fold (upsert_transaction_record C) ts D) = db_output_notes D"
  "db_notes_scripts (fold (upsert_transaction_record C) ts D) = db_notes_scripts D"
  "db_block_headers (fold (upsert_transaction_record C) ts D) = db_block_headers D"
  "db_state_sync (fold (upsert_transaction_record C) ts D) = db_state_sync D"
  "db_tags (fold (upsert_transaction_record C) ts D) = db_tags D"
  by (induction ts arbitrary: D; simp add: upsert_transaction_other)+

lemmas sync_steps_other = insert_block_headers_other apply_notes_other remove_tags_other upsert_transactions_other

lemma transactions_stored_cong:
  "transactions_stored C m D \<Longrightarrow> db_transactions E = db_transactions D \<Longrightarrow>
   db_transaction_scripts E = db_transaction_scripts D \<Longrightarrow> transactions_stored C m E"
  unfolding transactions_stored_def by (elim conjE, intro conjI) (assumption | simp only:)+

lemma sync_database_Inr:
  assumes "sync_database P C u D = Inr D'"
  obtains m tags where "try_map (committed_note_tag P) (map inu_note (updated_input_notes (ssu_note_updates u))) = Inr tags"
    and "D' = fold (upsert_transaction_record C)
        (committed_transactions (ssu_transaction_updates u) @ discarded_transactions (ssu_transaction_updates u))
        (fold (\<lambda>t D. snd (remove_note_tag_tx C t D)) (List.map_filter (\<lambda>t. t) tags)
          (apply_note_updates_tx P C (ssu_note_updates u)
            ((insert_block_headers C (block_updates_headers (ssu_block_updates u)) (advance_sync_height (ssu_block_num u) D))
              \<lparr>db_blockchain_nodes := m\<rparr>)))"
proof -
  obtain D2 tags where nodes: "insert_partial_blockchain_nodes_tx (bu_new_authentication_nodes (ssu_block_updates u))
        (insert_block_headers C (block_updates_headers (ssu_block_updates u)) (advance_sync_height (ssu_block_num u) D)) = Inr D2"
    and tags: "try_map (committed_note_tag P) (map inu_note (updated_input_notes (ssu_note_updates u))) = Inr tags"
    and D': "D' = fold (upsert_transaction_record C)
        (committed_transactions (ssu_transaction_updates u) @ discarded_transactions (ssu_transaction_updates u))
        (fold (\<lambda>t D. snd (remove_note_tag_tx C t D)) (List.map_filter (\<lambda>t. t) tags)
          (apply_note_updates_tx P C (ssu_note_updates u) D2))"
    using assms unfolding sync_database_def Let_def and_then_Inr_conv by (elim exE conjE) simp
  obtain m where "D2 = (insert_block_headers C (block_updates_headers (ssu_block_updates u)) (advance_sync_height (ssu_block_num u) D))
      \<lparr>db_blockchain_nodes := m\<rparr>" using insert_nodes_other [OF nodes] by blast
  with tags D' show thesis by (intro that) simp_all
qed

text \<open>A sync writes its update table by table.\<close>

lemma sync_database_tables:
  assumes "sql_codecs_ok C" "sync_database P C u D = Inr D'"
  shows "db_state_sync D' = map (\<lambda>h. max h (ssu_block_num u)) (db_state_sync D)"
    "db_block_headers D' = db_block_headers (insert_block_headers C (block_updates_headers (ssu_block_updates u)) D)"
    "db_input_notes D' = db_input_notes (apply_note_updates_tx P C (ssu_note_updates u) D)"
    "db_output_notes D' = db_output_notes (apply_note_updates_tx P C (ssu_note_updates u) D)"
    "db_notes_scripts D' = db_notes_scripts (apply_note_updates_tx P C (ssu_note_updates u) D)"
    "transactions_stored C m D \<Longrightarrow> transactions_stored C (fold (\<lambda>t. bt_insert (tr_id t) t)
       (committed_transactions (ssu_transaction_updates u) @ discarded_transactions (ssu_transaction_updates u)) m) D'"
    "tags_stored C ts D \<Longrightarrow> \<exists>tags. try_map (committed_note_tag P) (map inu_note (updated_input_notes (ssu_note_updates u))) = Inr tags
       \<and> tags_stored C (filter (\<lambda>t. Some t \<notin> set tags) ts) D'"
proof -
  obtain n tags where tags: "try_map (committed_note_tag P) (map inu_note (updated_input_notes (ssu_note_updates u))) = Inr tags"
    and D': "D' = fold (upsert_transaction_record C)
        (committed_transactions (ssu_transaction_updates u) @ discarded_transactions (ssu_transaction_updates u))
        (fold (\<lambda>t D. snd (remove_note_tag_tx C t D)) (List.map_filter (\<lambda>t. t) tags)
          (apply_note_updates_tx P C (ssu_note_updates u)
            ((insert_block_headers C (block_updates_headers (ssu_block_updates u)) (advance_sync_height (ssu_block_num u) D))
              \<lparr>db_blockchain_nodes := n\<rparr>)))"
    by (rule sync_database_Inr [OF assms(2)])
  have adv: "db_input_notes (advance_sync_height b D) = db_input_notes D" "db_output_notes (advance_sync_height b D) = db_output_notes D"
    "db_notes_scripts (advance_sync_height b D) = db_notes_scripts D" "db_tags (advance_sync_height b D) = db_tags D"
    "db_transactions (advance_sync_height b D) = db_transactions D"
    "db_transaction_scripts (advance_sync_height b D) = db_transaction_scripts D"
    "db_state_sync (advance_sync_height b D) = map (\<lambda>h. max h b) (db_state_sync D)" for b
    by (auto simp: advance_sync_height_def max_def)
  show "db_state_sync D' = map (\<lambda>h. max h (ssu_block_num u)) (db_state_sync D)"
    by (simp add: D' sync_steps_other adv)
  show "db_block_headers D' = db_block_headers (insert_block_headers C (block_updates_headers (ssu_block_updates u)) D)"
    by (simp add: D' sync_steps_other insert_block_headers_advance)
  show "db_input_notes D' = db_input_notes (apply_note_updates_tx P C (ssu_note_updates u) D)"
    unfolding D' upsert_transactions_other remove_tags_other
    by (rule apply_notes_same_tables(1)) (simp_all add: insert_block_headers_other adv)
  show "db_output_notes D' = db_output_notes (apply_note_updates_tx P C (ssu_note_updates u) D)"
    unfolding D' upsert_transactions_other remove_tags_other
    by (rule apply_notes_same_tables(2)) (simp_all add: insert_block_headers_other adv)
  show "db_notes_scripts D' = db_notes_scripts (apply_note_updates_tx P C (ssu_note_updates u) D)"
    unfolding D' upsert_transactions_other remove_tags_other
    by (rule apply_notes_same_tables(3)) (simp_all add: insert_block_headers_other adv)
  show "transactions_stored C (fold (\<lambda>t. bt_insert (tr_id t) t)
       (committed_transactions (ssu_transaction_updates u) @ discarded_transactions (ssu_transaction_updates u)) m) D'"
    if "transactions_stored C m D"
    unfolding D'
    by (rule upsert_transactions_stored [OF assms(1) transactions_stored_cong [OF that]])
      (simp_all add: sync_steps_other adv)
  show "\<exists>tags. try_map (committed_note_tag P) (map inu_note (updated_input_notes (ssu_note_updates u))) = Inr tags
       \<and> tags_stored C (filter (\<lambda>t. Some t \<notin> set tags) ts) D'" if ts: "tags_stored C ts D"
  proof (intro exI conjI, rule tags)
    have "set (List.map_filter (\<lambda>t. t) tags) = {t. Some t \<in> set tags}"
      by (auto simp: List.map_filter_def image_iff) (metis option.sel)
    moreover have "tags_stored C ts (apply_note_updates_tx P C (ssu_note_updates u)
            ((insert_block_headers C (block_updates_headers (ssu_block_updates u)) (advance_sync_height (ssu_block_num u) D))
              \<lparr>db_blockchain_nodes := n\<rparr>))"
      using ts by (simp add: tags_stored_def sync_steps_other adv)
    note remove_tags_stored [OF assms(1) this, of "List.map_filter (\<lambda>t. t) tags"]
    ultimately show "tags_stored C (filter (\<lambda>t. Some t \<notin> set tags) ts) D'"
      by (simp add: D' tags_stored_def upsert_transactions_other)
  qed
qed

section \<open>Runs of the store\<close>

lemma apply_transaction_Inr:
  assumes "apply_transaction P S K C now u st = (Inr (), st')"
  obtains assets where
    "apply_account_delta S K C (et_initial_account (tu_executed_transaction u)) (et_final_account (tu_executed_transaction u)) assets
       (get_storage_map_roots_for_delta (et_account_id (tu_executed_transaction u)) (et_account_delta (tu_executed_transaction u)) (st_accounts st))
       (et_account_delta (tu_executed_transaction u)) (st_accounts st) (st_forest st) = (Inr (st_accounts st'), st_forest st')"
  using assms unfolding apply_transaction_def in_transaction_def Let_def
  by (auto simp: fbind_def fpure_def split: sum.splits prod.splits)

lemma apply_state_sync_Inr:
  assumes "apply_state_sync P S K C full u st = (Inr (), st')"
  shows "sync_database P C u (st_db st) = Inr (st_db st')"
    "sync_accounts S K C full u (st_accounts st) (st_forest st) = (Inr (st_accounts st'), st_forest st')"
  using assms unfolding apply_state_sync_def in_transaction_def
  by (auto simp: fbind_def fpure_def split: sum.splits prod.splits)

text \<open>Local transactions of one account, each executed on the state the last one left.\<close>

inductive local_transactions ::
  "protocol \<Rightarrow> 'f smt_ops \<Rightarrow> account_ops \<Rightarrow> sql_codecs \<Rightarrow> account_id \<Rightarrow> acct_header list \<Rightarrow> 'f sqlite_store \<Rightarrow> 'f sqlite_store \<Rightarrow> bool"
  for P S K C a where
  no_transactions: "local_transactions P S K C a [] st st"
| next_transaction: "local_transactions P S K C a hs st st1 \<Longrightarrow>
     bt_get (at_latest_headers (st_accounts st1)) a = Some row \<Longrightarrow>
     et_initial_account (tu_executed_transaction u) = hw_header row \<Longrightarrow>
     hd_id (et_final_account (tu_executed_transaction u)) = a \<Longrightarrow>
     hd_nonce (hw_header row) < hd_nonce (et_final_account (tu_executed_transaction u)) \<Longrightarrow>
     delta_fits a (et_account_delta (tu_executed_transaction u)) (st_accounts st1) \<Longrightarrow>
     apply_transaction P S K C now u st1 = (Inr (), st2) \<Longrightarrow>
     local_transactions P S K C a (hs @ [et_final_account (tu_executed_transaction u)]) st st2"

lemma local_transactions_history:
  "local_transactions P S K C a hs st st' \<Longrightarrow> account_history S K C a hs (st_accounts st) (st_accounts st')"
proof (induction rule: local_transactions.induct)
  case (next_transaction hs st st1 row u now st2)
  obtain assets where "apply_account_delta S K C (hw_header row) (et_final_account (tu_executed_transaction u)) assets
       (get_storage_map_roots_for_delta (et_account_id (tu_executed_transaction u)) (et_account_delta (tu_executed_transaction u)) (st_accounts st1))
       (et_account_delta (tu_executed_transaction u)) (st_accounts st1) (st_forest st1) = (Inr (st_accounts st2), st_forest st2)"
    using apply_transaction_Inr [OF next_transaction.hyps(7)] next_transaction.hyps(3) by metis
  then show ?case
    by (rule history_delta [OF next_transaction.IH next_transaction.hyps(2,4,5,6)])
qed (rule history_start)

lemma sync_accounts_discards:
  assumes "sync_accounts S K C full u T F = (Inr T', F')" "ssu_account_updates u = account_updates_default"
  shows "fst (undo_account_state S C (discarded_states (ssu_transaction_updates u)) T F) = Inr T'"
  using assms unfolding sync_accounts_def
  by (auto simp: fbind_def fpure_def account_updates_default_def split: sum.splits prod.splits)

section \<open>Opening\<close>

lemma insert_storage_maps_roots:
  "insert_storage_map_nodes S storage F = Inr F' \<Longrightarrow>
     sf_account_roots F' = sf_account_roots F \<and> sf_pending_old_roots F' = sf_pending_old_roots F"
  unfolding insert_storage_map_nodes_def
  by (erule try_fold_invariant) (auto simp: insert_storage_map_nodes_for_map_def insert_entries_def and_then_Inr_conv split: if_splits)

lemma insert_account_state_roots:
  "insert_account_state S vault storage F = Inr F' \<Longrightarrow>
     sf_account_roots F' = sf_account_roots F \<and> sf_pending_old_roots F' = sf_pending_old_roots F"
  by (auto simp: insert_account_state_def insert_asset_nodes_def insert_entries_def and_then_Inr_conv
      dest!: insert_storage_maps_roots split: if_splits)

lemma register_state_roots:
  assumes "insert_and_register_account_state S a vault storage F = Inr F'"
  shows "get_roots F' b = (if b = a then Some (collect_account_roots vault storage) else get_roots F b)"
    "sf_pending_old_roots F' = sf_pending_old_roots F"
proof -
  obtain F1 where "insert_account_state S vault storage F = Inr F1"
      "replace_roots S a (collect_account_roots vault storage) F1 = Inr F'"
    using assms by (auto simp: insert_and_register_account_state_def and_then_Inr_conv map_err_Inr_conv)
  then show "get_roots F' b = (if b = a then Some (collect_account_roots vault storage) else get_roots F b)"
    "sf_pending_old_roots F' = sf_pending_old_roots F"
    using insert_account_state_roots [of S vault storage F F1]
    by (auto simp: replace_roots_def get_roots_def Let_def split: if_splits option.splits)
qed

lemma open_store_forest:
  assumes "try_fold (register_stored_account S K C T) F ids = Inr F'" "distinct ids" "\<forall>a \<in> set ids. bt_get (at_latest_headers T) a \<noteq> None"
  shows "sf_pending_old_roots F' = sf_pending_old_roots F
    \<and> (\<forall>b. b \<notin> set ids \<longrightarrow> get_roots F' b = get_roots F b)
    \<and> (\<forall>a \<in> set ids. \<exists>vault storage. get_account_vault K a T = Inr vault \<and> get_account_storage K a StorageAll T = Inr storage
         \<and> get_roots F' a = Some (collect_account_roots vault (map snd storage)))"
  using assms
proof (induction ids arbitrary: F)
  case (Cons a ids)
  obtain F1 where F1: "register_stored_account S K C T F a = Inr F1" "try_fold (register_stored_account S K C T) F1 ids = Inr F'"
    using Cons.prems(1) by (auto simp: and_then_Inr_conv)
  obtain vault storage where v: "get_account_vault K a T = Inr vault" "get_account_storage K a StorageAll T = Inr storage"
      "insert_and_register_account_state S a vault (map snd storage) F = Inr F1"
    using F1(1) Cons.prems(3)
    by (auto simp: register_stored_account_def and_then_Inr_conv get_account_header_def split: option.splits if_splits)
  note roots = register_state_roots [OF v(3)]
  note IH = Cons.IH [OF F1(2)]
  have rest: "a \<notin> set ids" "distinct ids" "\<forall>a \<in> set ids. bt_get (at_latest_headers T) a \<noteq> None"
    using Cons.prems by simp_all
  show ?case using IH [OF rest(2,3)] rest(1) v(1,2) roots by auto
qed simp

section \<open>An account with one local transaction\<close>

definition sample_final :: acct_header where
  "sample_final = (hw_header sample_row)\<lparr>hd_nonce := 2, hd_storage_commitment := Digest 7\<rparr>"

definition sample_delta :: account_delta where
  "sample_delta = \<lparr>dl_fungible = [], dl_non_fungible = [], dl_values = [(SlotName 0, Digest 9)], dl_maps = []\<rparr>"

definition sample_tx_update :: transaction_store_update where
  "sample_tx_update =
     \<lparr>tu_executed_transaction =
        \<lparr>et_id = TransactionId (Digest 8), et_account_id = AccountId 4, et_initial_commitment = hw_commitment sample_row,
         et_initial_account = hw_header sample_row, et_final_account = sample_final, et_account_delta = sample_delta,
         et_input_nullifiers = [], et_output_notes = [], et_block_num = 6, et_expiration_block_num = 50, et_tx_script = None\<rparr>,
      tu_submission_height = 6, tu_future_notes = [], tu_note_updates = note_tracker_new sample_protocol [] [], tu_new_tags = []\<rparr>"

definition sample_sqlite :: "digest set sqlite_store" where
  "sample_sqlite = \<lparr>st_db = database_new, st_accounts = sample_tables,
     st_forest = stage_roots (AccountId 4) [Digest 1] (smt_forest_new {Digest 1})\<rparr>"

definition sample_discard :: state_sync_update where
  "sample_discard =
     \<lparr>ssu_block_num = 60, ssu_block_updates = block_updates_default, ssu_note_updates = note_tracker_new sample_protocol [] [],
      ssu_transaction_updates = [(TransactionId (Digest 8),
         (transaction_record_of sample_account_ops 44 sample_tx_update)\<lparr>tr_status := TxDiscarded Expired\<rparr>)],
      ssu_account_updates = account_updates_default\<rparr>"

lemma sample_header_written:
  "\<exists>T1. insert_account_header sample_account_ops sample_sql sample_final None (Some (hw_header sample_row)) sample_tables = Inr T1"
  by (simp add: insert_account_header_def insert_hist_header_def insert_latest_header_def sample_latest sample_final_def)

lemma sample_delta_applied:
  "\<exists>T1 F1. apply_account_delta sample_smt_ops sample_account_ops sample_sql (hw_header sample_row) sample_final [] roots
     sample_delta sample_tables (st_forest sample_sqlite) = (Inr T1, F1)"
proof -
  obtain T1 where T1: "insert_account_header sample_account_ops sample_sql sample_final None (Some (hw_header sample_row)) sample_tables = Inr T1"
    using sample_header_written by blast
  have vault: "\<exists>T2. apply_account_vault_delta sample_smt_ops sample_account_ops (AccountId 4) (hw_header sample_row) sample_final []
      sample_delta T1 F = (Inr T2, F)" for F
    by (simp add: apply_account_vault_delta_def fbind_def fpure_def lift_forest_def update_asset_nodes_def insert_entries_def
        sample_delta_def sample_final_def)
  have roots: "get_roots (st_forest sample_sqlite) (AccountId 4) = Some [Digest 1]"
    by (simp add: get_roots_def sample_sqlite_def stage_roots_def smt_forest_new_def Let_def)
  have ids: "hd_id sample_final = AccountId 4" by (simp add: sample_final_def sample_latest)
  obtain T2 where "apply_account_vault_delta sample_smt_ops sample_account_ops (AccountId 4) (hw_header sample_row) sample_final []
      sample_delta T1 (st_forest sample_sqlite) = (Inr T2, st_forest sample_sqlite)" using vault by blast
  then show ?thesis
    by (simp add: apply_account_delta_def fbind_def fpure_def T1 ids roots sample_latest apply_account_storage_delta_def Let_def)
      (simp add: sample_delta_def fpure_def)
qed

lemma sample_applied:
  "\<exists>st1. apply_transaction sample_protocol sample_smt_ops sample_account_ops sample_sql 44 sample_tx_update sample_sqlite = (Inr (), st1)"
proof -
  have "get_account_fungible_assets_for_delta sample_account_ops (AccountId 4) sample_delta sample_tables = Inr []"
    by (simp add: get_account_fungible_assets_for_delta_def sample_delta_def bt_from_iter_def sample_tables_def)
  moreover obtain T1 F1 where "apply_account_delta sample_smt_ops sample_account_ops sample_sql (hw_header sample_row) sample_final []
      (get_storage_map_roots_for_delta (AccountId 4) sample_delta sample_tables) sample_delta sample_tables (st_forest sample_sqlite) = (Inr T1, F1)"
    using sample_delta_applied by blast
  moreover have "st_accounts sample_sqlite = sample_tables" by (simp add: sample_sqlite_def)
  ultimately show ?thesis
    unfolding apply_transaction_def in_transaction_def
    by (simp add: fbind_def fpure_def Let_def sample_tx_update_def)
qed

lemma sample_sync_database: "\<exists>D'. sync_database sample_protocol sample_sql sample_discard D = Inr D'"
  by (simp add: sync_database_def sample_discard_def block_updates_default_def insert_partial_blockchain_nodes_tx_def
      updated_input_notes_def note_tracker_new_def note_tracker_default_def Let_def)

lemma sample_local:
  assumes "apply_transaction sample_protocol sample_smt_ops sample_account_ops sample_sql 44 sample_tx_update sample_sqlite = (Inr (), st1)"
  shows "local_transactions sample_protocol sample_smt_ops sample_account_ops sample_sql (AccountId 4) [sample_final] sample_sqlite st1"
proof -
  have "local_transactions sample_protocol sample_smt_ops sample_account_ops sample_sql (AccountId 4)
      ([] @ [et_final_account (tu_executed_transaction sample_tx_update)]) sample_sqlite st1"
    by (rule next_transaction [OF no_transactions _ _ _ _ _ assms, where row = sample_row])
      (simp_all add: sample_sqlite_def sample_latest sample_tx_update_def sample_final_def,
       simp add: delta_fits_def sample_delta_def sample_tables_def)
  then show ?thesis by (simp add: sample_tx_update_def)
qed

section \<open>Properties\<close>



text \<open>
  C1. Local transactions that a sync discards leave no trace in the accounts: after any sequence of
  local transactions of an account, a sync that discards all of them and updates no account gives
  back every account table as it was before the first.
\<close>

theorem discarded_transactions_undone:
  assumes "tables_inv K (st_accounts st)" "inj (ko_commitment K)"
    and "local_transactions P S K C a hs st st1" "hs \<noteq> []"
    and "apply_state_sync P S K C full u st1 = (Inr (), st2)"
    and "snd ` set (discarded_states (ssu_transaction_updates u)) = ko_commitment K ` set hs"
    and "ssu_account_updates u = account_updates_default"
  shows "st_accounts st2 = st_accounts st"
proof -
  have "fst (undo_account_state S C (discarded_states (ssu_transaction_updates u)) (st_accounts st1) (st_forest st1)) = Inr (st_accounts st2)"
    by (rule sync_accounts_discards [OF apply_state_sync_Inr(2) [OF assms(5)] assms(7)])
  moreover have "fst (undo_account_state S C (discarded_states (ssu_transaction_updates u)) (st_accounts st1) (st_forest st1)) = Inr (st_accounts st)"
    by (rule history_undone [OF assms(1,2) local_transactions_history [OF assms(3)] assms(4,6)])
  ultimately show ?thesis by simp
qed

theorem discarded_transactions_undone_witness:
  "\<exists>st1 st2. apply_transaction sample_protocol sample_smt_ops sample_account_ops sample_sql 44 sample_tx_update sample_sqlite = (Inr (), st1)
     \<and> apply_state_sync sample_protocol sample_smt_ops sample_account_ops sample_sql (\<lambda>_. sample_state) sample_discard st1 = (Inr (), st2)
     \<and> st_accounts st2 = sample_tables"
proof -
  obtain st1 where st1: "apply_transaction sample_protocol sample_smt_ops sample_account_ops sample_sql 44 sample_tx_update sample_sqlite = (Inr (), st1)"
    using sample_applied by blast
  have accounts: "st_accounts sample_sqlite = sample_tables" by (simp add: sample_sqlite_def)
  have ds: "discarded_states (ssu_transaction_updates sample_discard) = [(AccountId 4, ko_commitment sample_account_ops sample_final)]"
    by (simp add: discarded_states_def discarded_transactions_def sample_discard_def transaction_record_of_def
        transaction_record_new_def sample_tx_update_def Let_def)
  have none: "ssu_account_updates sample_discard = account_updates_default" by (simp add: sample_discard_def)
  have "fst (undo_account_state sample_smt_ops sample_sql (discarded_states (ssu_transaction_updates sample_discard))
      (st_accounts st1) (st_forest st1)) = Inr sample_tables"
    by (rule history_undone [OF sample_tables_inv sample_commitment_inj local_transactions_history [OF sample_local [OF st1], unfolded accounts]])
      (simp_all add: ds)
  then obtain F2 where undo: "undo_account_state sample_smt_ops sample_sql (discarded_states (ssu_transaction_updates sample_discard))
      (st_accounts st1) (st_forest st1) = (Inr sample_tables, F2)" by (metis prod.collapse)
  obtain D' where D': "sync_database sample_protocol sample_sql sample_discard (st_db st1) = Inr D'" using sample_sync_database by blast
  obtain st2 where st2: "apply_state_sync sample_protocol sample_smt_ops sample_account_ops sample_sql (\<lambda>_. sample_state) sample_discard st1 = (Inr (), st2)"
    by (auto simp: apply_state_sync_def in_transaction_def fbind_def fpure_def sync_accounts_def undo D' none account_updates_default_def)
  have "st_accounts st2 = st_accounts sample_sqlite"
    by (rule discarded_transactions_undone [OF _ sample_commitment_inj sample_local [OF st1] _ st2 _ none])
      (simp_all add: accounts sample_tables_inv ds)
  then show ?thesis using st1 st2 accounts by auto
qed

text \<open>
  Opening a store registers every stored account: the forest holds for each account exactly the
  roots of the vault and maps read from the database, and nothing for any other account, and has no
  stacked old roots, also for accounts with pending transactions.
\<close>

lemma opened_store_roots:
  assumes "bt_wf (at_latest_headers T)" "open_store S K C empty_forest D T = Inr st"
  shows "st_db st = D \<and> st_accounts st = T \<and> sf_pending_old_roots (st_forest st) = []
    \<and> (\<forall>a. if a \<in> set (get_account_ids T)
         then \<exists>vault storage. get_account_vault K a T = Inr vault \<and> get_account_storage K a StorageAll T = Inr storage
           \<and> get_roots (st_forest st) a = Some (collect_account_roots vault (map snd storage))
         else get_roots (st_forest st) a = None)"
proof -
  obtain F where F: "try_fold (register_stored_account S K C T) (smt_forest_new empty_forest) (get_account_ids T) = Inr F"
    and st: "st = \<lparr>st_db = D, st_accounts = T, st_forest = F\<rparr>"
    using assms(2) by (auto simp: open_store_def and_then_Inr_conv)
  have ids: "distinct (get_account_ids T)" "\<forall>a \<in> set (get_account_ids T). bt_get (at_latest_headers T) a \<noteq> None"
    using assms(1) by (auto simp: get_account_ids_def bt_wf_def strict_sorted_iff map_of_eq_None_iff)
  show ?thesis
    using open_store_forest [OF F ids] by (auto simp: st smt_forest_new_def get_roots_def)
qed

lemma opened_store_roots_witness:
  "\<exists>st. open_store sample_smt_ops sample_account_ops sample_sql {} database_new sample_tables = Inr st
     \<and> sf_pending_old_roots (st_forest st) = [] \<and> get_roots (st_forest st) (AccountId 4) \<noteq> None"
proof -
  have "\<exists>F. register_stored_account sample_smt_ops sample_account_ops sample_sql sample_tables (smt_forest_new {}) (AccountId 4) = Inr F"
  proof -
    have "get_account_vault sample_account_ops (AccountId 4) sample_tables = Inr \<lparr>av_root = Digest 1, av_assets = [(Digest 5, Digest 6)]\<rparr>"
      by (simp add: get_account_vault_def query_vault_assets_def sample_tables_def account_tables_new_def sample_account_ops_def)
    moreover have "get_account_storage sample_account_ops (AccountId 4) StorageAll sample_tables = Inr [(SlotName 0, ValueSlot (Digest 3))]"
      by (simp add: get_account_storage_def query_storage_slots_def read_slots_def slot_type_try_from_def sample_tables_def
          account_tables_new_def sample_account_ops_def bt_from_iter_def)
    ultimately show ?thesis
      by (simp add: register_stored_account_def sample_header insert_and_register_account_state_def insert_account_state_def
          insert_storage_map_nodes_def insert_asset_nodes_def insert_entries_def storage_maps_def sample_smt_ops_def
          replace_roots_def smt_forest_new_def map_filter_simps)
  qed
  then obtain st where st: "open_store sample_smt_ops sample_account_ops sample_sql {} database_new sample_tables = Inr st"
    by (auto simp: open_store_def get_account_ids_def sample_tables_def)
  have "bt_wf (at_latest_headers sample_tables)" by (simp add: sample_tables_def bt_wf_def)
  moreover have "AccountId 4 \<in> set (get_account_ids sample_tables)" by (simp add: sample_tables_def get_account_ids_def)
  ultimately show ?thesis using opened_store_roots [OF _ st] st by (metis option.distinct(1))
qed

text \<open>
  An account inserted at nonce zero without its seed is accepted, although the interface promises
  an error, and cannot move afterwards: every delta of it fails on the check of the archive table.
\<close>

lemma seedless_account_accepted:
  assumes "as_nonce acc = 0" "as_seed acc = None"
    and "insert_and_register_account_state S (as_id acc) (as_vault acc) (map snd (as_storage acc)) (st_forest st) = Inr F"
  shows "\<exists>st'. insert_account S K C acc address st = (Inr (), st')
    \<and> (\<forall>final assets roots delta F'. apply_account_delta S K C (header_of_account K acc) final assets roots delta (st_accounts st') F' =
         (Inl (check_failure C), F'))"
proof -
  let ?T1 = "insert_assets (as_id acc) (av_assets (as_vault acc))
      (insert_storage_slots (as_id acc) (as_storage acc) (insert_account_code K (as_code acc) (st_accounts st)))"
  have codes: "at_codes ?T1 = at_codes (insert_account_code K (as_code acc) (st_accounts st))"
    using only_latest_of_trans [OF only_latest_of_inserts(1) only_latest_of_inserts(2)]
    by (simp add: only_latest_of_def same_headers_def)
  have "bt_get (at_codes ?T1) (as_code acc) \<noteq> None" unfolding codes by (simp add: insert_account_code_def)
  then obtain T2 where T2: "insert_account_header K C (header_of_account K acc) (as_seed acc) None ?T1 = Inr T2"
    and row: "bt_get (at_latest_headers T2) (as_id acc) =
      Some \<lparr>hw_header = header_of_account K acc, hw_commitment = ko_commitment K (header_of_account K acc), hw_seed = None, hw_locked = False\<rparr>"
    using assms(2) by (auto simp: insert_account_header_def insert_latest_header_def header_of_account_def)
  obtain st' where st': "insert_account S K C acc address st = (Inr (), st')"
      "at_latest_headers (st_accounts st') = at_latest_headers T2"
    by (simp add: insert_account_def Let_def T2 insert_address_def assms(3))
  have "insert_account_header K C final None (Some (header_of_account K acc)) (st_accounts st') = Inl (check_failure C)" for final
    using assms(1) by (simp add: insert_account_header_def st'(2) row insert_hist_header_def) (simp add: header_of_account_def row insert_hist_header_def)
  then have "apply_account_delta S K C (header_of_account K acc) final assets roots delta (st_accounts st') F' = (Inl (check_failure C), F')"
    for final assets roots delta F'
    by (simp add: apply_account_delta_def Let_def fbind_def fpure_def)
  then show ?thesis using st'(1) by blast
qed

lemma seedless_account_accepted_witness:
  "\<exists>st'. insert_account sample_smt_ops sample_account_ops sample_sql (sample_state\<lparr>as_id := AccountId 5, as_nonce := 0\<rparr>) (Address 1) sample_sqlite = (Inr (), st')"
proof -
  have "\<exists>F. insert_and_register_account_state sample_smt_ops (AccountId 5) (as_vault sample_state)
      (map snd (as_storage sample_state)) (st_forest sample_sqlite) = Inr F"
    by (simp add: insert_and_register_account_state_def insert_account_state_def insert_storage_map_nodes_def
        insert_asset_nodes_def insert_entries_def storage_maps_def sample_state_def sample_smt_ops_def
        replace_roots_def sample_sqlite_def stage_roots_def smt_forest_new_def map_filter_simps)
  then obtain F where F: "insert_and_register_account_state sample_smt_ops (AccountId 5) (as_vault sample_state)
      (map snd (as_storage sample_state)) (st_forest sample_sqlite) = Inr F" by blast
  have "as_nonce (sample_state\<lparr>as_id := AccountId 5, as_nonce := 0\<rparr>) = 0" "as_seed (sample_state\<lparr>as_id := AccountId 5, as_nonce := 0\<rparr>) = None"
    "insert_and_register_account_state sample_smt_ops (as_id (sample_state\<lparr>as_id := AccountId 5, as_nonce := 0\<rparr>))
      (as_vault (sample_state\<lparr>as_id := AccountId 5, as_nonce := 0\<rparr>)) (map snd (as_storage (sample_state\<lparr>as_id := AccountId 5, as_nonce := 0\<rparr>)))
      (st_forest sample_sqlite) = Inr F"
    using F by (simp_all add: sample_state_def)
  from seedless_account_accepted [OF this] show ?thesis by blast
qed

end
