(* ===== verification/Client_Api.thy ===== *)
theory Client_Api
  imports Account_Proofs Note_Screener Sqlite_Store
begin

text \<open>
  The client (\<^verbatim>\<open>lib.rs\<close>, \<^verbatim>\<open>account/mod.rs\<close>, \<^verbatim>\<open>sync/tag.rs\<close>, \<^verbatim>\<open>sync/block_header.rs\<close>): its limits, the
  tags and accounts it is asked to track, and the blocks it authenticates on request. An operation
  returns its result with the client afterwards, on failure too: only what one call to the store does
  is undone with it, not what an operation of the client did before. The node's answers are a
  parameter; the answers the node client keeps, the limits and the genesis commitment, are state.
\<close>

section \<open>The client\<close>

text \<open>The methods of \<open>NodeRpcClient\<close> the client calls beside those of a sync.\<close>

record client_node = node_api +
  rpc_limits_of_node :: "rpc_error + rpc_limits"
  rpc_network_id :: "rpc_error + network_id"
  rpc_account_details :: "account_id \<Rightarrow> rpc_error + fetched_account"
  rpc_block_header_by_number :: "block_number option \<Rightarrow> bool \<Rightarrow> rpc_error + block_header \<times> digest list option"
  rpc_notes_by_id :: "note_id list \<Rightarrow> rpc_error + fetched_note list"
  rpc_nullifier_commit_heights ::
    "nullifier list \<Rightarrow> block_number \<Rightarrow> rpc_error + (nullifier, block_number option) btree_map"

text \<open>The note transport network: notes for tags after a cursor.\<close>

record note_info =
  ni_note_id :: note_id
  ni_metadata :: note_metadata
  ni_details_bytes :: bytes

record note_transport =
  tp_fetch_notes :: "note_tag list \<Rightarrow> u64 \<Rightarrow> message + note_info list \<times> u64"
  tp_show_error :: "deserialization_error \<Rightarrow> message"

text \<open>
  What the protocol and crypto crates compute: whether an account is new, addresses, the depth of the
  tree of a forest that holds a leaf, and the in-order indices of nodes.
\<close>

record protocol_ops =
  po_is_new :: "account_state \<Rightarrow> bool"
  po_address_new :: "account_id \<Rightarrow> address"
  po_address_encode :: "network_id \<Rightarrow> address \<Rightarrow> string"
  po_tree_depth :: "nat \<Rightarrow> nat \<Rightarrow> nat option"
  po_leaf_index :: "nat \<Rightarrow> nat"
  po_sibling :: "nat \<Rightarrow> nat"
  po_parent :: "nat \<Rightarrow> nat"

record ('f, 'm) client_env =
  ce_protocol :: protocol
  ce_protocol_ops :: protocol_ops
  ce_smt :: "'f smt_ops"
  ce_accounts :: account_ops
  ce_codecs :: sql_codecs
  ce_u32 :: "u32 codec"
  ce_mmr :: "'m mmr_ops"
  ce_chain :: "'m chain_ops"
  ce_rpc_api :: client_node
  ce_note_transport_api :: "note_transport option"
  ce_checker :: consumption_checker
  ce_tx_discard_delta :: "u32 option"
  ce_public_state :: "public_account \<Rightarrow> account_state"
  ce_now :: u64

record 'f client =
  cl_store :: "'f sqlite_store"
  cl_settings :: settings
  cl_rpc_limits :: "rpc_limits option"
  cl_genesis_commitment :: "digest option"

type_synonym ('f, 'a) client_op = "'f client \<Rightarrow> (client_error + 'a) \<times> 'f client"

section \<open>Composing operations\<close>

definition cpure :: "client_error + 'a \<Rightarrow> ('f, 'a) client_op" where
  "cpure r c = (r, c)"

definition cbind :: "('f, 'a) client_op \<Rightarrow> ('a \<Rightarrow> ('f, 'b) client_op) \<Rightarrow> ('f, 'b) client_op" where
  "cbind m k c = (case m c of (Inl e, c') \<Rightarrow> (Inl e, c') | (Inr x, c') \<Rightarrow> k x c')"

fun cfold :: "('s \<Rightarrow> 'x \<Rightarrow> ('f, 's) client_op) \<Rightarrow> 's \<Rightarrow> 'x list \<Rightarrow> ('f, 's) client_op" where
  "cfold step s [] = cpure (Inr s)"
| "cfold step s (x # xs) = cbind (step s x) (\<lambda>s'. cfold step s' xs)"

abbreviation client_db :: "'f client \<Rightarrow> database" where
  "client_db c \<equiv> st_db (cl_store c)"

abbreviation client_tables :: "'f client \<Rightarrow> account_tables" where
  "client_tables c \<equiv> st_accounts (cl_store c)"

text \<open>Reading from the database, writing to it, and any other operation of the store.\<close>

definition read_db :: "(database \<Rightarrow> store_error + 'a) \<Rightarrow> ('f, 'a) client_op" where
  "read_db f c = (map_err StoreError (f (client_db c)), c)"

definition read_tables :: "(account_tables \<Rightarrow> store_error + 'a) \<Rightarrow> ('f, 'a) client_op" where
  "read_tables f c = (map_err StoreError (f (client_tables c)), c)"

definition write_db :: "(database \<Rightarrow> store_error + 'a \<times> database) \<Rightarrow> ('f, 'a) client_op" where
  "write_db f c =
     (case f (client_db c) of
        Inl e \<Rightarrow> (Inl (StoreError e), c)
      | Inr (x, D) \<Rightarrow> (Inr x, c\<lparr>cl_store := (cl_store c)\<lparr>st_db := D\<rparr>\<rparr>))"

definition on_store :: "('f, 'a) store_op \<Rightarrow> ('f, 'a) client_op" where
  "on_store f c = (case f (cl_store c) of (r, st) \<Rightarrow> (map_err StoreError r, c\<lparr>cl_store := st\<rparr>))"

definition ask_node :: "rpc_error + 'a \<Rightarrow> ('f, 'a) client_op" where
  "ask_node answer = cpure (map_err RpcError answer)"

section \<open>Limits\<close>

text \<open>The node client keeps the limits it fetched.\<close>

definition fetch_rpc_limits :: "('f, 'm) client_env \<Rightarrow> ('f, rpc_limits) client_op" where
  "fetch_rpc_limits E c =
     (case cl_rpc_limits c of
        Some limits \<Rightarrow> (Inr limits, c)
      | None \<Rightarrow> cbind (ask_node (rpc_limits_of_node (ce_rpc_api E)))
                  (\<lambda>limits c. (Inr limits, c\<lparr>cl_rpc_limits := Some limits\<rparr>)) c)"

definition check_note_tag_limit :: "('f, 'm) client_env \<Rightarrow> ('f, unit) client_op" where
  "check_note_tag_limit E =
     cbind (fetch_rpc_limits E) (\<lambda>limits.
     cbind (read_db (Sqlite_Transactions.get_unique_note_tags (ce_codecs E))) (\<lambda>tags.
     cpure (if length tags \<ge> unat (rl_note_tags_limit limits)
            then Inl (NoteTagsLimitExceeded (rl_note_tags_limit limits)) else Inr ())))"

definition check_account_limit :: "('f, 'm) client_env \<Rightarrow> ('f, unit) client_op" where
  "check_account_limit E =
     cbind (fetch_rpc_limits E) (\<lambda>limits.
     cbind (read_tables (\<lambda>T. Inr (Sqlite_Accounts.get_account_ids T))) (\<lambda>ids.
     cpure (if length ids \<ge> unat (rl_account_ids_limit limits)
            then Inl (AccountsLimitExceeded (rl_account_ids_limit limits)) else Inr ())))"

definition ensure_rpc_limits_in_place :: "('f, 'm) client_env \<Rightarrow> ('f, unit) client_op" where
  "ensure_rpc_limits_in_place E c =
     (if cl_rpc_limits c \<noteq> None then (Inr (), c)
      else cbind (fetch_rpc_limits E) (\<lambda>limits c.
             (Inr (), c\<lparr>cl_settings := store_rpc_limits (ce_u32 E) limits (cl_settings c)\<rparr>)) c)"

section \<open>Tags\<close>

definition insert_note_tag :: "('f, 'm) client_env \<Rightarrow> note_tag_record \<Rightarrow> ('f, bool) client_op" where
  "insert_note_tag E tag_record =
     cbind (check_note_tag_limit E) (\<lambda>_. write_db (add_note_tag (ce_codecs E) tag_record))"

definition client_add_note_tag :: "('f, 'm) client_env \<Rightarrow> note_tag \<Rightarrow> ('f, unit) client_op" where
  "client_add_note_tag E tag =
     cbind (insert_note_tag E \<lparr>tag_tag = tag, tag_source = TagUser\<rparr>) (\<lambda>_. cpure (Inr ()))"

definition client_remove_note_tag :: "('f, 'm) client_env \<Rightarrow> note_tag \<Rightarrow> ('f, unit) client_op" where
  "client_remove_note_tag E tag =
     cbind (write_db (\<lambda>D. Inr (remove_note_tag (ce_codecs E) \<lparr>tag_tag = tag, tag_source = TagUser\<rparr> D)))
       (\<lambda>_. cpure (Inr ()))"

section \<open>Accounts\<close>

definition add_untracked_account :: "('f, 'm) client_env \<Rightarrow> account_state \<Rightarrow> ('f, unit) client_op" where
  "add_untracked_account E acc =
     cbind (check_account_limit E) (\<lambda>_.
     cbind (check_note_tag_limit E) (\<lambda>_.
     let default_address = po_address_new (ce_protocol_ops E) (as_id acc);
         note_tag_record = with_account_source (ko_address_tag (ce_accounts E) default_address) (as_id acc)
     in cbind (write_db (add_note_tag (ce_codecs E) note_tag_record)) (\<lambda>_.
        on_store (insert_account (ce_smt E) (ce_accounts E) (ce_codecs E) acc default_address))))"

definition overwrite_account ::
  "('f, 'm) client_env \<Rightarrow> account_state \<Rightarrow> bool \<Rightarrow> account_state \<times> account_status \<Rightarrow> ('f, unit) client_op" where
  "overwrite_account E acc overwrite = (\<lambda>(tracked, status).
     if \<not> overwrite then cpure (Inl (AccountAlreadyTracked (as_id acc)))
     else if as_nonce tracked > as_nonce acc then cpure (Inl AccountNonceTooLow)
     else
       cbind (if status_is_locked status
              then cbind (ask_node (rpc_account_details (ce_rpc_api E) (as_id acc))) (\<lambda>fetched.
                     cpure (if fetched_commitment fetched \<noteq> ko_commitment (ce_accounts E) (header_of_account (ce_accounts E) acc)
                            then Inl (AccountCommitmentMismatch (fetched_commitment fetched)) else Inr ()))
              else cpure (Inr ())) (\<lambda>_.
       on_store (update_account (ce_smt E) (ce_accounts E) (ce_codecs E) acc)))"

definition add_account :: "('f, 'm) client_env \<Rightarrow> account_state \<Rightarrow> bool \<Rightarrow> ('f, unit) client_op" where
  "add_account E acc overwrite =
     (if po_is_new (ce_protocol_ops E) acc \<and> as_seed acc = None then cpure (Inl AddNewAccountWithoutSeed)
      else cbind (read_tables (get_account (ce_accounts E) (ce_codecs E) (as_id acc))) (\<lambda>tracked_account.
             case tracked_account of
               None \<Rightarrow> add_untracked_account E acc
             | Some tracked \<Rightarrow> overwrite_account E acc overwrite tracked))"

definition import_account_by_id :: "('f, 'm) client_env \<Rightarrow> account_id \<Rightarrow> ('f, unit) client_op" where
  "import_account_by_id E a =
     cbind (cpure (map_err (\<lambda>err. case rpc_endpoint_error err of
                Some (EndpointGetAccount AccountAccountNotFound) \<Rightarrow> AccountNotFoundOnChain a
              | _ \<Rightarrow> RpcError err) (rpc_account_details (ce_rpc_api E) a))) (\<lambda>fetched.
       case fetched of
         FetchedPrivateAccount _ _ \<Rightarrow> cpure (Inl (AccountIsPrivate a))
       | FetchedPublicAccount acc _ \<Rightarrow> add_account E acc True)"

definition add_address :: "('f, 'm) client_env \<Rightarrow> address \<Rightarrow> account_id \<Rightarrow> ('f, unit) client_op" where
  "add_address E address a =
     cbind (ask_node (rpc_network_id (ce_rpc_api E))) (\<lambda>network_id.
     let address_bech32 = po_address_encode (ce_protocol_ops E) network_id address
     in cbind (read_tables (get_account_addresses (ce_accounts E) a)) (\<lambda>addresses.
        if address \<in> set addresses then cpure (Inl (AddressAlreadyTracked address_bech32))
        else cbind (read_tables (get_account (ce_accounts E) (ce_codecs E) a)) (\<lambda>tracked_account.
          case tracked_account of
            None \<Rightarrow> cpure (Inl (AccountDataNotFound a))
          | Some _ \<Rightarrow>
              let derived_note_tag = ko_address_tag (ce_accounts E) address
              in cbind (read_db (get_note_tags (ce_codecs E))) (\<lambda>tags.
                 if with_account_source derived_note_tag a \<in> set tags
                 then cpure (Inl (NoteTagDerivedAddressAlreadyTracked address_bech32 derived_note_tag))
                 else cbind (check_note_tag_limit E) (\<lambda>_.
                        on_store (in_transaction (\<lambda>DT. fpure (Inr
                          (insert_address (ce_accounts E) (ce_codecs E) address a DT)))))))))"

definition client_remove_address :: "('f, 'm) client_env \<Rightarrow> address \<Rightarrow> account_id \<Rightarrow> ('f, unit) client_op" where
  "client_remove_address E address a = on_store (remove_address (ce_accounts E) (ce_codecs E) address a)"

definition client_get_account :: "('f, 'm) client_env \<Rightarrow> account_id \<Rightarrow> ('f, account_state option) client_op" where
  "client_get_account E a =
     cbind (read_tables (get_account (ce_accounts E) (ce_codecs E) a)) (\<lambda>found. cpure (Inr (map_option fst found)))"

definition try_get_account :: "('f, 'm) client_env \<Rightarrow> account_id \<Rightarrow> ('f, account_state) client_op" where
  "try_get_account E a =
     cbind (client_get_account E a) (\<lambda>found. cpure (ok_or (AccountDataNotFound a) found))"

section \<open>Blocks\<close>

definition ensure_genesis_in_place :: "('f, 'm) client_env \<Rightarrow> ('f, unit) client_op" where
  "ensure_genesis_in_place E c =
     (if cl_genesis_commitment c \<noteq> None then (Inr (), c)
      else cbind (ask_node (rpc_block_header_by_number (ce_rpc_api E) (Some 0) False)) (\<lambda>(genesis, _).
           cbind (write_db (\<lambda>D. Inr ((), insert_block_header_tx (ce_codecs E) genesis [] False D))) (\<lambda>_ c.
           (Inr (), c\<lparr>cl_genesis_commitment := Some (header_commitment (ce_protocol E) genesis)\<rparr>))) c)"

definition get_block_header_with_proof :: "client_node \<Rightarrow> block_number \<Rightarrow> rpc_error + block_header \<times> digest list" where
  "get_block_header_with_proof N n =
     and_then (rpc_block_header_by_number N (Some n) True) (\<lambda>(header, proof).
     and_then (ok_or (ExpectedDataMissing ''MmrProof'') proof) (\<lambda>path. Inr (header, path)))"

text \<open>Each node of the path with the in-order index of the sibling it is.\<close>

primrec path_indices :: "protocol_ops \<Rightarrow> nat \<Rightarrow> digest list \<Rightarrow> auth_nodes" where
  "path_indices Q idx [] = []"
| "path_indices Q idx (node # nodes) = (po_sibling Q idx, node) # path_indices Q (po_parent Q idx) nodes"

definition adjust_merkle_path_for_forest ::
  "protocol_ops \<Rightarrow> digest list \<Rightarrow> block_number \<Rightarrow> nat \<Rightarrow> client_error + auth_nodes" where
  "adjust_merkle_path_for_forest Q merkle_path block_num forest =
     (case po_tree_depth Q forest (unat block_num) of
        None \<Rightarrow> Inl (Panicked ''forest includes block number'')
      | Some expected_path_len \<Rightarrow>
          Inr (path_indices Q (po_leaf_index Q (unat block_num)) (take expected_path_len merkle_path)))"

definition authenticated_block_nodes :: "protocol \<Rightarrow> protocol_ops \<Rightarrow> block_header \<Rightarrow> auth_nodes \<Rightarrow> auth_nodes" where
  "authenticated_block_nodes P Q hdr path_nodes =
     (po_leaf_index Q (unat (bh_block_num hdr)), header_commitment P hdr) # path_nodes"

definition fetch_block_header ::
  "('f, 'm) client_env \<Rightarrow> block_number \<Rightarrow> 'm \<Rightarrow> client_error + (block_header \<times> auth_nodes) \<times> 'm" where
  "fetch_block_header E block_num mmr =
     and_then (map_err RpcError (get_block_header_with_proof (ce_rpc_api E) block_num)) (\<lambda>(hdr, mmr_proof).
     and_then (adjust_merkle_path_for_forest (ce_protocol_ops E) mmr_proof block_num (mmr_num_leaves (ce_mmr E) mmr))
       (\<lambda>path_nodes.
     and_then (map_err (\<lambda>e. StoreError (MmrError e))
         (mmr_track (ce_mmr E) mmr (unat block_num) (header_commitment (ce_protocol E) hdr) (map snd path_nodes)))
       (\<lambda>mmr'. Inr ((hdr, path_nodes), mmr'))))"

definition get_and_store_authenticated_block ::
  "('f, 'm) client_env \<Rightarrow> block_number \<Rightarrow> 'm \<Rightarrow> ('f, block_header \<times> 'm) client_op" where
  "get_and_store_authenticated_block E block_num mmr =
     (if mmr_is_tracked (ce_mmr E) mmr (unat block_num)
      then cbind (read_db (get_block_header_by_num (ce_codecs E) block_num)) (\<lambda>found.
             cpure (case found of
                 None \<Rightarrow> Inl (Panicked ''Block header should be tracked'')
               | Some (hdr, _) \<Rightarrow> Inr (hdr, mmr)))
      else cbind (cpure (fetch_block_header E block_num mmr)) (\<lambda>((hdr, path_nodes), mmr').
           cbind (write_db (\<lambda>D. Inr ((), insert_block_header_tx (ce_codecs E) hdr (mmr_peaks_of (ce_mmr E) mmr') True D))) (\<lambda>_.
           cbind (write_db (\<lambda>D. and_then (insert_partial_blockchain_nodes_tx
                    (authenticated_block_nodes (ce_protocol E) (ce_protocol_ops E) hdr path_nodes) D) (\<lambda>D'. Inr ((), D')))) (\<lambda>_.
           cpure (Inr (hdr, mmr'))))))"

section \<open>Reasoning about operations\<close>

text \<open>
  A triple: started where \<open>pre\<close> holds, the operation ends where \<open>post\<close> holds of its result, or fails
  where \<open>err\<close> holds.
\<close>

definition client_spec ::
  "('f client \<Rightarrow> bool) \<Rightarrow> ('f, 'a) client_op \<Rightarrow> ('a \<Rightarrow> 'f client \<Rightarrow> bool) \<Rightarrow> ('f client \<Rightarrow> bool) \<Rightarrow> bool" where
  "client_spec pre m post err \<longleftrightarrow>
     (\<forall>c. pre c \<longrightarrow> (case m c of (Inl e, c') \<Rightarrow> err c' | (Inr x, c') \<Rightarrow> post x c'))"

abbreviation client_keeps :: "('f client \<Rightarrow> bool) \<Rightarrow> ('f, 'a) client_op \<Rightarrow> bool" where
  "client_keeps I m \<equiv> client_spec I m (\<lambda>_. I) I"

abbreviation set_db :: "database \<Rightarrow> 'f client \<Rightarrow> 'f client" where
  "set_db D c \<equiv> c\<lparr>cl_store := (cl_store c)\<lparr>st_db := D\<rparr>\<rparr>"

named_theorems client_rule

lemma spec_bind:
  "client_spec pre m mid err \<Longrightarrow> (\<And>x. client_spec (mid x) (k x) post err) \<Longrightarrow> client_spec pre (cbind m k) post err"
  unfolding client_spec_def cbind_def by (fastforce split: prod.splits sum.splits)

lemma keeps_bind [client_rule]:
  "client_keeps I m \<Longrightarrow> (\<And>x. client_keeps I (k x)) \<Longrightarrow> client_keeps I (cbind m k)"
  by (rule spec_bind)

lemma spec_cpure [client_rule]: "client_keeps I (cpure r)"
  by (simp add: client_spec_def cpure_def split: sum.splits)

lemma spec_read [client_rule]: "client_keeps I (read_db f)" "client_keeps I (read_tables g)" "client_keeps I (ask_node r)"
  by (simp_all add: client_spec_def read_db_def read_tables_def ask_node_def cpure_def split: sum.splits)

lemma spec_write:
  assumes "\<And>c x D. pre c \<Longrightarrow> f (client_db c) = Inr (x, D) \<Longrightarrow> post x (set_db D c)"
    and "\<And>c e. pre c \<Longrightarrow> f (client_db c) = Inl e \<Longrightarrow> err c"
  shows "client_spec pre (write_db f) post err"
  using assms by (auto simp: client_spec_def write_db_def split: sum.splits prod.splits)

lemma spec_on_store:
  assumes "\<And>c r st. pre c \<Longrightarrow> f (cl_store c) = (r, st) \<Longrightarrow>
    (case r of Inl _ \<Rightarrow> err (c\<lparr>cl_store := st\<rparr>) | Inr x \<Rightarrow> post x (c\<lparr>cl_store := st\<rparr>))"
  shows "client_spec pre (on_store f) post err"
  unfolding client_spec_def on_store_def
proof (intro allI impI)
  fix c assume "pre c"
  from assms [OF this] show "case case f (cl_store c) of (r, st) \<Rightarrow> (map_err StoreError r, c\<lparr>cl_store := st\<rparr>) of
      (Inl e, c') \<Rightarrow> err c' | (Inr x, c') \<Rightarrow> post x c'"
    by (cases "f (cl_store c)"; cases "fst (f (cl_store c))") auto
qed

lemma spec_fold:
  assumes "\<And>s x. x \<in> set xs \<Longrightarrow> client_spec (I s) (step s x) I err"
  shows "client_spec (I s) (cfold step s xs) I err"
  using assms
proof (induction xs arbitrary: s)
  case Nil
  then show ?case by (simp add: client_spec_def cpure_def)
next
  case (Cons x xs)
  show ?case unfolding cfold.simps
    by (rule spec_bind [where mid = I]) (use Cons in auto)
qed

lemma spec_weaken:
  "client_spec pre m post err \<Longrightarrow> (\<And>c. pre' c \<Longrightarrow> pre c) \<Longrightarrow> (\<And>x c. post x c \<Longrightarrow> post' x c) \<Longrightarrow>
   (\<And>c. err c \<Longrightarrow> err' c) \<Longrightarrow> client_spec pre' m post' err'"
  unfolding client_spec_def by (fastforce split: prod.splits sum.splits)

lemma spec_if [client_rule]:
  "(b \<Longrightarrow> client_spec pre m post err) \<Longrightarrow> (\<not> b \<Longrightarrow> client_spec pre n post err) \<Longrightarrow>
   client_spec pre (if b then m else n) post err"
  by simp

lemma spec_option [client_rule]:
  "(x = None \<Longrightarrow> client_spec pre m post err) \<Longrightarrow> (\<And>y. x = Some y \<Longrightarrow> client_spec pre (k y) post err) \<Longrightarrow>
   client_spec pre (case x of None \<Rightarrow> m | Some y \<Rightarrow> k y) post err"
  by (cases x) simp_all

lemma spec_prod [client_rule]:
  "(\<And>y z. x = (y, z) \<Longrightarrow> client_spec pre (k y z) post err) \<Longrightarrow> client_spec pre (case x of (y, z) \<Rightarrow> k y z) post err"
  by (cases x) simp

lemma spec_triple [client_rule]:
  "(\<And>a b. y = (a, b) \<Longrightarrow> client_spec pre (k a b z) post err) \<Longrightarrow>
   client_spec pre ((case y of (a, b) \<Rightarrow> k a b) z) post err"
  by (cases y) simp

lemma spec_snd: "client_keeps I m \<Longrightarrow> I c \<Longrightarrow> I (snd (m c))"
  unfolding client_spec_def by (cases "m c"; cases "fst (m c)") (auto split: sum.splits)

lemma spec_result: "client_spec pre m post err \<Longrightarrow> pre c \<Longrightarrow> m c = (Inr x, c') \<Longrightarrow> post x c'"
  unfolding client_spec_def by fastforce

section \<open>Staying within the limits\<close>

text \<open>
  The limits the node gives, the number of distinct tags of the store and the number of its accounts.
\<close>

definition limits_known :: "('f, 'm) client_env \<Rightarrow> rpc_limits \<Rightarrow> 'f client \<Rightarrow> bool" where
  "limits_known E L c \<longleftrightarrow>
     cl_rpc_limits c = Some L \<or> cl_rpc_limits c = None \<and> rpc_limits_of_node (ce_rpc_api E) = Inr L"

definition tags_at_most :: "('f, 'm) client_env \<Rightarrow> note_tag set \<Rightarrow> nat \<Rightarrow> 'f client \<Rightarrow> bool" where
  "tags_at_most E tags n c \<longleftrightarrow>
     (\<exists>ts. tags_stored (ce_codecs E) ts (client_db c) \<and> tags \<subseteq> tag_tag ` set ts \<and> card (tag_tag ` set ts) \<le> n)"

definition accounts_at_most :: "nat \<Rightarrow> 'f client \<Rightarrow> bool" where
  "accounts_at_most n c \<longleftrightarrow> card (set (Sqlite_Accounts.get_account_ids (client_tables c))) \<le> n"

definition within_limits :: "('f, 'm) client_env \<Rightarrow> rpc_limits \<Rightarrow> 'f client \<Rightarrow> bool" where
  "within_limits E L c \<longleftrightarrow>
     limits_known E L c \<and> tags_at_most E {} (unat (rl_note_tags_limit L)) c
     \<and> accounts_at_most (unat (rl_account_ids_limit L)) c"

lemma get_unique_note_tags_stored:
  assumes "sql_codecs_ok C" "tags_stored C ts D"
  shows "Sqlite_Transactions.get_unique_note_tags C D = Inr (sorted_list_of_set (tag_tag ` set ts))"
proof -
  let ?rows = "remdups (map fst (db_tags D))"
  have rows: "set ?rows = fst (sc_tag C) ` tag_tag ` set ts"
    using assms(2) by (auto simp: tags_stored_def tag_row_def image_image)
  have "try_map (read_from_bytes (sc_tag C)) ?rows = Inr (map (\<lambda>bs. THE t. bs = fst (sc_tag C) t) ?rows)"
  proof (rule try_map_ok)
    fix bs assume "bs \<in> set ?rows"
    then obtain t where "bs = fst (sc_tag C) t" using rows by blast
    then show "read_from_bytes (sc_tag C) bs = Inr (THE t. bs = fst (sc_tag C) t)"
      using codec_ok_inj [OF sql_codecs_okD(6) [OF assms(1)]] read_from_bytes_ok [OF sql_codecs_okD(6) [OF assms(1)]] by simp
  qed
  moreover have "set (map (\<lambda>bs. THE t. bs = fst (sc_tag C) t) ?rows) = tag_tag ` set ts"
    unfolding set_map rows using codec_ok_inj [OF sql_codecs_okD(6) [OF assms(1)]] by (simp add: image_image)
  ultimately show ?thesis by (simp add: Sqlite_Transactions.get_unique_note_tags_def)
qed

lemma fetch_limits_spec:
  assumes "\<And>c. I c \<Longrightarrow> I (c\<lparr>cl_rpc_limits := Some L\<rparr>)" "\<And>c. I c \<Longrightarrow> limits_known E L c"
  shows "client_spec I (fetch_rpc_limits E) (\<lambda>limits c. limits = L \<and> I c) I"
  unfolding client_spec_def
proof (intro allI impI)
  fix c assume "I c"
  from assms(1) [OF this] assms(2) [OF this] this
  show "case fetch_rpc_limits E c of (Inl e, c') \<Rightarrow> I c' | (Inr limits, c') \<Rightarrow> limits = L \<and> I c'"
    by (auto simp: limits_known_def fetch_rpc_limits_def cbind_def ask_node_def cpure_def)
qed

lemma check_tags_spec:
  assumes "sql_codecs_ok (ce_codecs E)" "\<And>c. I c \<Longrightarrow> I (c\<lparr>cl_rpc_limits := Some L\<rparr>)" "\<And>c. I c \<Longrightarrow> limits_known E L c"
    and tags: "\<And>c. I c \<Longrightarrow> \<exists>n. tags_at_most E {} n c"
  shows "client_spec I (check_note_tag_limit E)
    (\<lambda>_ c. I c \<and> tags_at_most E {} (unat (rl_note_tags_limit L) - 1) c \<and> 0 < rl_note_tags_limit L) I"
  unfolding check_note_tag_limit_def
proof (rule spec_bind [OF fetch_limits_spec [where I = I, OF assms(2,3)]])
  fix limits
  show "client_spec (\<lambda>c. limits = L \<and> I c)
      (cbind (read_db (Sqlite_Transactions.get_unique_note_tags (ce_codecs E)))
        (\<lambda>tags. cpure (if unat (rl_note_tags_limit limits) \<le> length tags
           then Inl (NoteTagsLimitExceeded (rl_note_tags_limit limits)) else Inr ())))
      (\<lambda>_ c. I c \<and> tags_at_most E {} (unat (rl_note_tags_limit L) - 1) c \<and> 0 < rl_note_tags_limit L) I"
    unfolding client_spec_def cbind_def read_db_def cpure_def
  proof (intro allI impI, elim conjE)
    fix c assume c: "limits = L" "I c"
    then obtain ts where ts: "tags_stored (ce_codecs E) ts (client_db c)"
      using tags by (auto simp: tags_at_most_def)
    have "tags_at_most E {} (unat (rl_note_tags_limit L) - 1) c \<and> 0 < rl_note_tags_limit L"
      if "card (tag_tag ` set ts) < unat (rl_note_tags_limit L)"
      using that ts by (auto simp: tags_at_most_def word_less_nat_alt intro!: exI [of _ ts])
    then show "case (case (map_err StoreError (Sqlite_Transactions.get_unique_note_tags (ce_codecs E) (client_db c)), c) of
        (Inl e, c') \<Rightarrow> (Inl e, c')
      | (Inr tags, c') \<Rightarrow> (if unat (rl_note_tags_limit limits) \<le> length tags
           then Inl (NoteTagsLimitExceeded (rl_note_tags_limit limits)) else Inr (), c')) of
      (Inl e, c') \<Rightarrow> I c'
    | (Inr x, c') \<Rightarrow> I c' \<and> tags_at_most E {} (unat (rl_note_tags_limit L) - 1) c' \<and> 0 < rl_note_tags_limit L"
      using c by (simp add: get_unique_note_tags_stored [OF assms(1) ts] not_le)
  qed
qed

lemma check_accounts_spec:
  assumes "\<And>c. I c \<Longrightarrow> I (c\<lparr>cl_rpc_limits := Some L\<rparr>)" "\<And>c. I c \<Longrightarrow> limits_known E L c"
  shows "client_spec I (check_account_limit E)
    (\<lambda>_ c. I c \<and> accounts_at_most (unat (rl_account_ids_limit L) - 1) c \<and> 0 < rl_account_ids_limit L) I"
  unfolding check_account_limit_def
proof (rule spec_bind [OF fetch_limits_spec [where I = I, OF assms]])
  fix limits
  have "card (set ids) \<le> unat l - 1 \<and> 0 < l" if "length ids < unat l" for ids :: "account_id list" and l :: u32
    using that card_length [of ids] by (auto simp: word_less_nat_alt)
  then show "client_spec (\<lambda>c. limits = L \<and> I c)
      (cbind (read_tables (\<lambda>T. Inr (Sqlite_Accounts.get_account_ids T)))
        (\<lambda>ids. cpure (if unat (rl_account_ids_limit limits) \<le> length ids
           then Inl (AccountsLimitExceeded (rl_account_ids_limit limits)) else Inr ())))
      (\<lambda>_ c. I c \<and> accounts_at_most (unat (rl_account_ids_limit L) - 1) c \<and> 0 < rl_account_ids_limit L) I"
    by (auto simp: client_spec_def cbind_def read_tables_def cpure_def accounts_at_most_def not_le)
qed

text \<open>Adding one tag record leaves at most one more tag; removing leaves no more than before.\<close>

lemma add_tag_tx_at_most:
  assumes "tags_at_most E tags n c"
  shows "tags_at_most E (insert (tag_tag t) tags) (if tag_tag t \<in> tags then n else Suc n) (set_db (add_note_tag_tx (ce_codecs E) t (client_db c)) c)"
proof -
  obtain ts where ts: "tags_stored (ce_codecs E) ts (client_db c)" "tags \<subseteq> tag_tag ` set ts" "card (tag_tag ` set ts) \<le> n"
    using assms by (auto simp: tags_at_most_def)
  have "card (tag_tag ` set (ts @ [t])) \<le> (if tag_tag t \<in> tags then n else Suc n)"
    using ts(2,3) card_insert_le_m1 [of "Suc n" "tag_tag ` set ts"] by (auto simp: insert_absorb)
  then show ?thesis
    using add_tag_stored [OF ts(1)] ts(2) by (auto simp: tags_at_most_def intro!: exI [of _ "ts @ [t]"])
qed

lemma add_tag_at_most:
  assumes "sql_codecs_ok (ce_codecs E)" "tags_at_most E {} n c" "add_note_tag (ce_codecs E) t (client_db c) = Inr (x, D)"
  shows "tags_at_most E {tag_tag t} (Suc n) (set_db D c)"
proof -
  obtain ts where ts: "tags_stored (ce_codecs E) ts (client_db c)" "card (tag_tag ` set ts) \<le> n"
    using assms(2) by (auto simp: tags_at_most_def)
  have "tags_stored (ce_codecs E) (if t \<in> set ts then ts else ts @ [t]) D"
    using add_note_tag_stored [OF assms(1) ts(1), of t] assms(3) by auto
  moreover have "card (tag_tag ` set (if t \<in> set ts then ts else ts @ [t])) \<le> Suc n"
    using ts(2) card_insert_le_m1 [of "Suc n" "tag_tag ` set ts"] by auto
  ultimately show ?thesis
    by (auto simp: tags_at_most_def intro!: exI [of _ "if t \<in> set ts then ts else ts @ [t]"])
qed

lemma remove_tag_at_most:
  assumes "sql_codecs_ok (ce_codecs E)" "tags_at_most E {} n c"
  shows "tags_at_most E {} n (set_db (snd (remove_note_tag_tx (ce_codecs E) t (client_db c))) c)"
proof -
  obtain ts where ts: "tags_stored (ce_codecs E) ts (client_db c)" "card (tag_tag ` set ts) \<le> n"
    using assms(2) by (auto simp: tags_at_most_def)
  have "card (tag_tag ` set (filter (\<lambda>s. s \<noteq> t) ts)) \<le> card (tag_tag ` set ts)" by (intro card_mono) auto
  then show ?thesis
    using ts(2) by (auto simp: remove_tag_stored [OF assms(1) ts(1)] tags_stored_def tags_at_most_def intro!: exI [of _ "filter (\<lambda>s. s \<noteq> t) ts"])
qed

text \<open>What writing an account does to the tags and to the set of accounts.\<close>

lemma header_accounts:
  assumes "insert_account_header K C h seed old T = Inr U"
  shows "set (Sqlite_Accounts.get_account_ids U) \<subseteq> insert (hd_id h) (set (Sqlite_Accounts.get_account_ids T))"
proof -
  let ?row = "\<lparr>hw_header = h, hw_commitment = ko_commitment K h, hw_seed = map_option (fst (c_word (sc_base C))) seed, hw_locked = False\<rparr>"
  obtain T1 where hist: "(case old of None \<Rightarrow> Inr T | Some o' \<Rightarrow>
        (let (old_seed, old_locked) = (case bt_get (at_latest_headers T) (hd_id o') of
             None \<Rightarrow> (None, False) | Some row \<Rightarrow> (hw_seed row, hw_locked row))
         in insert_hist_header C \<lparr>hw_header = o', hw_commitment = ko_commitment K o', hw_seed = old_seed, hw_locked = old_locked\<rparr>
              (hd_nonce h) T)) = Inr T1"
    and T1: "insert_latest_header C ?row T1 = Inr U"
    using assms unfolding insert_account_header_def and_then_Inr_conv by blast
  from hist have "at_latest_headers T1 = at_latest_headers T"
    by (auto simp: insert_hist_header_def split: option.splits if_splits)
  with T1 show ?thesis
    by (fastforce simp: insert_latest_header_def Sqlite_Accounts.get_account_ids_def split: if_splits dest: mem_bt_insert)
qed

lemma insert_account_effect:
  assumes "insert_account S K C acc address st = (r, st')"
  shows "st_db st' = st_db st \<and> st_accounts st' = st_accounts st
    \<or> st_db st' = add_note_tag_tx C (with_account_source (ko_address_tag K address) (as_id acc)) (st_db st)
      \<and> set (Sqlite_Accounts.get_account_ids (st_accounts st')) \<subseteq> insert (as_id acc) (set (Sqlite_Accounts.get_account_ids (st_accounts st)))"
proof -
  let ?T1 = "insert_assets (as_id acc) (av_assets (as_vault acc))
      (insert_storage_slots (as_id acc) (as_storage acc) (insert_account_code K (as_code acc) (st_accounts st)))"
  have T1: "at_latest_headers ?T1 = at_latest_headers (st_accounts st)"
    using only_latest_of_trans [OF only_latest_of_inserts(1) only_latest_of_inserts(2)]
    by (simp add: only_latest_of_def same_headers_def insert_account_code_def)
  show ?thesis
  proof (cases "insert_account_header K C (header_of_account K acc) (as_seed acc) None ?T1")
    case (Inl e)
    then show ?thesis using assms by (simp add: insert_account_def Let_def)
  next
    case (Inr T2)
    have "set (Sqlite_Accounts.get_account_ids T2) \<subseteq> insert (as_id acc) (set (Sqlite_Accounts.get_account_ids (st_accounts st)))"
      using header_accounts [OF Inr] T1 by (simp add: Sqlite_Accounts.get_account_ids_def header_of_account_def)
    moreover have "st_db st' = add_note_tag_tx C (with_account_source (ko_address_tag K address) (as_id acc)) (st_db st)"
      "at_latest_headers (st_accounts st') = at_latest_headers T2"
      using assms Inr by (auto simp: insert_account_def Let_def insert_address_def split: sum.splits)
    ultimately show ?thesis by (simp add: Sqlite_Accounts.get_account_ids_def)
  qed
qed

lemma update_account_effect:
  assumes "update_account S K C acc st = (r, st')"
  shows "st_db st' = st_db st
    \<and> set (Sqlite_Accounts.get_account_ids (st_accounts st')) \<subseteq> set (Sqlite_Accounts.get_account_ids (st_accounts st))"
proof (cases "bt_get (at_latest_headers (st_accounts st)) (as_id acc) = None")
  case True
  then show ?thesis using assms by (simp add: update_account_def)
next
  case False
  then have tracked: "as_id acc \<in> set (Sqlite_Accounts.get_account_ids (st_accounts st))"
    by (auto simp: Sqlite_Accounts.get_account_ids_def map_of_eq_None_iff)
  show ?thesis
  proof (cases "fst (update_account_state S K C acc (st_accounts st) (st_forest st))")
    case (Inl e)
    then show ?thesis
      using assms False
      by (cases "update_account_state S K C acc (st_accounts st) (st_forest st)")
        (auto simp: update_account_def in_transaction_def fbind_def fpure_def)
  next
    case (Inr U)
    then obtain F where run: "update_account_state S K C acc (st_accounts st) (st_forest st) = (Inr U, F)"
      by (metis prod.collapse)
    then have "st' = \<lparr>st_db = st_db st, st_accounts = U, st_forest = F\<rparr>"
      using assms False by (auto simp: update_account_def in_transaction_def fbind_def fpure_def)
    moreover obtain old where "insert_account_header K C (header_of_account K acc) None old
        (state_written (as_id acc) (as_nonce acc) acc (st_accounts st)) = Inr U"
      using run unfolding update_account_state_def Let_def fbind_Inr fpure_Inr state_written_def by blast
    from header_accounts [OF this] have "set (Sqlite_Accounts.get_account_ids U) \<subseteq> insert (as_id acc) (set (Sqlite_Accounts.get_account_ids (st_accounts st)))"
      using state_written_keeps(1) [of "st_accounts st" "as_id acc" "as_nonce acc" acc]
      by (simp add: Sqlite_Accounts.get_account_ids_def header_of_account_def same_headers_def)
    ultimately show ?thesis using tracked by auto
  qed
qed

text \<open>The operations on tags and accounts keep the client within the limits, also when they fail.\<close>

lemma within_limits_closed:
  "within_limits E L c \<Longrightarrow> within_limits E L (c\<lparr>cl_rpc_limits := Some L\<rparr>)" "within_limits E L c \<Longrightarrow> limits_known E L c"
  "within_limits E L c \<Longrightarrow> \<exists>n. tags_at_most E {} n c"
  by (auto simp: within_limits_def limits_known_def tags_at_most_def accounts_at_most_def)

lemmas limits_defs = within_limits_def limits_known_def accounts_at_most_def

lemma insert_note_tag_limits:
  assumes "sql_codecs_ok (ce_codecs E)"
  shows "client_keeps (within_limits E L) (insert_note_tag E t)"
  unfolding insert_note_tag_def
proof (rule spec_bind [OF check_tags_spec [where I = "within_limits E L", OF assms within_limits_closed]], assumption+, rule spec_write)
  fix c x D assume "within_limits E L c \<and> tags_at_most E {} (unat (rl_note_tags_limit L) - 1) c \<and> 0 < rl_note_tags_limit L"
    and D: "add_note_tag (ce_codecs E) t (client_db c) = Inr (x, D)"
  then show "within_limits E L (set_db D c)"
    using add_tag_at_most [OF assms _ D] by (fastforce simp: limits_defs tags_at_most_def word_less_nat_alt)
qed simp

lemma remove_tag_limits:
  assumes "sql_codecs_ok (ce_codecs E)" "within_limits E L c"
  shows "within_limits E L (set_db (snd (remove_note_tag_tx (ce_codecs E) t (client_db c))) c)"
  using assms(2) remove_tag_at_most [OF assms(1)] by (simp add: limits_defs)

lemma tag_calls_limits:
  assumes "sql_codecs_ok (ce_codecs E)"
  shows "client_keeps (within_limits E L) (client_add_note_tag E tag)"
    "client_keeps (within_limits E L) (client_remove_note_tag E tag)"
  unfolding client_add_note_tag_def client_remove_note_tag_def
  by (rule spec_bind [OF insert_note_tag_limits [OF assms] spec_cpure],
      rule spec_bind [OF spec_write spec_cpure])
    (use remove_tag_limits [OF assms] in \<open>auto simp: remove_note_tag_def remove_note_tag_tx_def\<close>)

lemma add_untracked_account_limits:
  assumes "sql_codecs_ok (ce_codecs E)"
  shows "client_keeps (within_limits E L) (add_untracked_account E acc)"
proof -
  let ?al = "unat (rl_account_ids_limit L)" and ?tl = "unat (rl_note_tags_limit L)"
  define roomy where "roomy = (\<lambda>c :: 'a client. within_limits E L c \<and> accounts_at_most (?al - 1) c \<and> 0 < rl_account_ids_limit L)"
  have closed: "\<And>c. roomy c \<Longrightarrow> roomy (c\<lparr>cl_rpc_limits := Some L\<rparr>)" "\<And>c. roomy c \<Longrightarrow> limits_known E L c"
    "\<And>c. roomy c \<Longrightarrow> \<exists>n. tags_at_most E {} n c"
    using within_limits_closed unfolding roomy_def by (auto simp: accounts_at_most_def)
  have accounts: "client_spec (within_limits E L) (check_account_limit E) (\<lambda>_. roomy) (within_limits E L)"
    using check_accounts_spec [where I = "within_limits E L", OF within_limits_closed(1,2)] unfolding roomy_def .
  have tags: "client_spec roomy (check_note_tag_limit E) (\<lambda>_ c. roomy c \<and> tags_at_most E {} (?tl - 1) c \<and> 0 < rl_note_tags_limit L)
      (within_limits E L)"
    by (rule spec_weaken [OF check_tags_spec [where I = roomy, OF assms closed]]) (auto simp: roomy_def)
  show ?thesis
    unfolding add_untracked_account_def Let_def
  proof (rule spec_bind [OF accounts], rule spec_bind [OF tags])
    let ?t = "with_account_source (ko_address_tag (ce_accounts E) (po_address_new (ce_protocol_ops E) (as_id acc))) (as_id acc)"
    let ?tagged = "\<lambda>c :: 'a client. limits_known E L c \<and> accounts_at_most (?al - 1) c \<and> 0 < ?al \<and> tags_at_most E {tag_tag ?t} ?tl c"
    have add: "client_spec (\<lambda>c. roomy c \<and> tags_at_most E {} (?tl - 1) c \<and> 0 < rl_note_tags_limit L)
        (write_db (add_note_tag (ce_codecs E) ?t)) (\<lambda>_. ?tagged) (within_limits E L)"
      by (rule spec_write)
        (use add_tag_at_most [OF assms] in \<open>fastforce simp: roomy_def limits_defs word_less_nat_alt\<close>, simp add: roomy_def)
    have insert: "client_spec ?tagged
        (on_store (insert_account (ce_smt E) (ce_accounts E) (ce_codecs E) acc (po_address_new (ce_protocol_ops E) (as_id acc))))
        (\<lambda>_. within_limits E L) (within_limits E L)"
    proof (rule spec_on_store)
      fix c :: "'a client" and r st'
      assume c: "?tagged c"
        and run: "insert_account (ce_smt E) (ce_accounts E) (ce_codecs E) acc (po_address_new (ce_protocol_ops E) (as_id acc)) (cl_store c) = (r, st')"
      have ids: "set (Sqlite_Accounts.get_account_ids (st_accounts st')) \<subseteq> insert (as_id acc) (set (Sqlite_Accounts.get_account_ids (client_tables c)))"
        "st_db st' = client_db c \<or> st_db st' = add_note_tag_tx (ce_codecs E) ?t (client_db c)"
        using insert_account_effect [OF run] by auto
      have "accounts_at_most ?al (c\<lparr>cl_store := st'\<rparr>)"
        using card_mono [OF _ ids(1)] card_insert_le_m1 [of ?al "set (Sqlite_Accounts.get_account_ids (client_tables c))" "as_id acc"] c
        by (auto simp: accounts_at_most_def)
      moreover have "tags_at_most E {} ?tl (c\<lparr>cl_store := st'\<rparr>)"
        using ids(2) c add_tag_tx_at_most [of E "{tag_tag ?t}" ?tl c ?t] by (auto simp: tags_at_most_def)
      ultimately have "within_limits E L (c\<lparr>cl_store := st'\<rparr>)" using c by (simp add: within_limits_def limits_known_def)
      then show "case r of Inl _ \<Rightarrow> within_limits E L (c\<lparr>cl_store := st'\<rparr>) | Inr x \<Rightarrow> within_limits E L (c\<lparr>cl_store := st'\<rparr>)"
        by (cases r) simp_all
    qed
    show "client_spec (\<lambda>c. roomy c \<and> tags_at_most E {} (?tl - 1) c \<and> 0 < rl_note_tags_limit L)
      (cbind (write_db (add_note_tag (ce_codecs E) ?t)) (\<lambda>_. on_store (insert_account (ce_smt E) (ce_accounts E) (ce_codecs E) acc
         (po_address_new (ce_protocol_ops E) (as_id acc)))))
      (\<lambda>_. within_limits E L) (within_limits E L)"
      by (rule spec_bind [OF add insert])
  qed
qed

lemma overwrite_account_limits: "client_keeps (within_limits E L) (overwrite_account E acc overwrite tracked)"
proof -
  have "client_keeps (within_limits E L) (on_store (update_account (ce_smt E) (ce_accounts E) (ce_codecs E) acc))"
  proof (rule spec_on_store)
    fix c :: "'a client" and r st'
    assume "within_limits E L c" and run: "update_account (ce_smt E) (ce_accounts E) (ce_codecs E) acc (cl_store c) = (r, st')"
    then have "within_limits E L (c\<lparr>cl_store := st'\<rparr>)"
      using update_account_effect [OF run] card_mono [of "set (Sqlite_Accounts.get_account_ids (client_tables c))" "set (Sqlite_Accounts.get_account_ids (st_accounts st'))"]
      by (auto simp: limits_defs tags_at_most_def)
    then show "case r of Inl _ \<Rightarrow> within_limits E L (c\<lparr>cl_store := st'\<rparr>) | Inr x \<Rightarrow> within_limits E L (c\<lparr>cl_store := st'\<rparr>)"
      by (cases r) simp_all
  qed
  then show ?thesis
    unfolding overwrite_account_def by (intro client_rule)
qed

lemma account_calls_limits:
  assumes "sql_codecs_ok (ce_codecs E)"
  shows "client_keeps (within_limits E L) (add_account E acc overwrite)"
    "client_keeps (within_limits E L) (import_account_by_id E a)"
proof -
  show add: "client_keeps (within_limits E L) (add_account E acc overwrite)" for acc overwrite
    unfolding add_account_def by (intro client_rule add_untracked_account_limits [OF assms] overwrite_account_limits)
  show "client_keeps (within_limits E L) (import_account_by_id E a)"
    unfolding import_account_by_id_def
    by (intro client_rule, split fetched_account.split) (auto intro: add spec_cpure)
qed

lemma address_calls_limits:
  assumes "sql_codecs_ok (ce_codecs E)"
  shows "client_keeps (within_limits E L) (add_address E address a)"
    "client_keeps (within_limits E L) (client_remove_address E address a)"
proof -
  have insert: "client_keeps (within_limits E L) (cbind (check_note_tag_limit E) (\<lambda>_. on_store (in_transaction (\<lambda>DT.
      fpure (Inr (insert_address (ce_accounts E) (ce_codecs E) address a DT))))))"
  proof (rule spec_bind [OF check_tags_spec [where I = "within_limits E L", OF assms within_limits_closed]], assumption+, rule spec_on_store)
    fix c :: "'a client" and r st'
    assume c: "within_limits E L c \<and> tags_at_most E {} (unat (rl_note_tags_limit L) - 1) c \<and> 0 < rl_note_tags_limit L"
      and "in_transaction (\<lambda>DT. fpure (Inr (insert_address (ce_accounts E) (ce_codecs E) address a DT))) (cl_store c) = (r, st')"
    then have "r = Inr ()" "at_latest_headers (st_accounts st') = at_latest_headers (client_tables c)"
      "st_db st' = add_note_tag_tx (ce_codecs E) (with_account_source (ko_address_tag (ce_accounts E) address) a) (client_db c)"
      by (auto simp: in_transaction_def fpure_def insert_address_def)
    then show "case r of Inl _ \<Rightarrow> within_limits E L (c\<lparr>cl_store := st'\<rparr>) | Inr x \<Rightarrow> within_limits E L (c\<lparr>cl_store := st'\<rparr>)"
      using c add_tag_tx_at_most [of E "{}" "unat (rl_note_tags_limit L) - 1" c "with_account_source (ko_address_tag (ce_accounts E) address) a"]
      by (auto simp: limits_defs tags_at_most_def word_less_nat_alt Sqlite_Accounts.get_account_ids_def)
  qed
  show "client_keeps (within_limits E L) (add_address E address a)"
    unfolding add_address_def Let_def by (rule insert client_rule)+
  show "client_keeps (within_limits E L) (client_remove_address E address a)"
    unfolding client_remove_address_def
  proof (rule spec_on_store)
    fix c :: "'a client" and r st'
    assume c: "within_limits E L c" and "remove_address (ce_accounts E) (ce_codecs E) address a (cl_store c) = (r, st')"
    then have "r = Inr ()" "at_latest_headers (st_accounts st') = at_latest_headers (client_tables c)"
      "st_db st' = snd (remove_note_tag_tx (ce_codecs E) (with_account_source (ko_address_tag (ce_accounts E) address) a) (client_db c))"
      by (auto simp: in_transaction_def fpure_def remove_address_def)
    then show "case r of Inl _ \<Rightarrow> within_limits E L (c\<lparr>cl_store := st'\<rparr>) | Inr x \<Rightarrow> within_limits E L (c\<lparr>cl_store := st'\<rparr>)"
      using remove_tag_limits [OF assms c, of "with_account_source (ko_address_tag (ce_accounts E) address) a"]
      by (auto simp: limits_defs tags_at_most_def Sqlite_Accounts.get_account_ids_def)
  qed
qed

section \<open>Authenticated blocks\<close>

text \<open>
  An invariant of the client that survives what authenticating blocks and tracking tags do to the
  database. The operations that import notes use nothing else of the store before they write notes.
\<close>

locale client_invariant =
  fixes E :: "('f, 'm) client_env"
    and inv :: "'f client \<Rightarrow> bool"
  assumes insert_tag: "client_keeps inv (insert_note_tag E t)"
    and remove_tag: "inv c \<Longrightarrow> inv (set_db (snd (remove_note_tag (ce_codecs E) t (client_db c))) c)"
    and set_headers: "inv c \<Longrightarrow> inv (set_db ((client_db c)\<lparr>db_block_headers := h\<rparr>) c)"
    and set_nodes: "inv c \<Longrightarrow> inv (set_db ((client_db c)\<lparr>db_blockchain_nodes := n\<rparr>) c)"
begin

lemma remove_tag_keeps: "client_keeps inv (write_db (\<lambda>D. Inr (remove_note_tag (ce_codecs E) t D)))"
proof (rule spec_write)
  fix c x D assume "inv c" "Inr (remove_note_tag (ce_codecs E) t (client_db c)) = (Inr (x, D) :: store_error + nat \<times> database)"
  with remove_tag [of c t] show "inv (set_db D c)" by simp
qed simp

lemma block_keeps: "client_keeps inv (get_and_store_authenticated_block E block_num mmr)"
proof -
  have header: "client_keeps inv (write_db (\<lambda>D. Inr ((), insert_block_header_tx (ce_codecs E) hdr peaks f D)))" for hdr peaks f
    by (rule spec_write) (auto simp: insert_block_header_tx_def set_block_header_has_client_notes_def intro: set_headers)
  have nodes: "client_keeps inv (write_db (\<lambda>D. and_then (insert_partial_blockchain_nodes_tx ns D) (\<lambda>D'. Inr ((), D'))))" for ns
    by (rule spec_write) (auto simp: and_then_Inr_conv dest!: insert_nodes_other intro: set_nodes)
  show ?thesis
    unfolding get_and_store_authenticated_block_def by (intro client_rule header nodes)
qed

end

text \<open>The kept nodes are the first of the path, each under the index of the sibling it is.\<close>

lemma path_indices_nth:
  "length (path_indices Q idx path) = length path" "map snd (path_indices Q idx path) = path"
  "i < length path \<Longrightarrow> path_indices Q idx path ! i = (po_sibling Q ((po_parent Q ^^ i) idx), path ! i)"
proof -
  show "length (path_indices Q idx path) = length path" "map snd (path_indices Q idx path) = path"
    by (induction path arbitrary: idx) simp_all
  show "i < length path \<Longrightarrow> path_indices Q idx path ! i = (po_sibling Q ((po_parent Q ^^ i) idx), path ! i)"
    by (induction path arbitrary: idx i) (auto simp: less_Suc_eq_0_disj funpow_swap1)
qed

lemma adjusted_path:
  assumes "adjust_merkle_path_for_forest Q path n forest = Inr nodes" "po_tree_depth Q forest (unat n) = Some depth"
  shows "map snd nodes = take depth path"
    "i < length nodes \<Longrightarrow> fst (nodes ! i) = po_sibling Q ((po_parent Q ^^ i) (po_leaf_index Q (unat n)))"
  using assms by (auto simp: adjust_merkle_path_for_forest_def path_indices_nth)

section \<open>A new account\<close>

lemma cbind_Inr: "cbind m k c = (Inr x, c') \<longleftrightarrow> (\<exists>y c1. m c = (Inr y, c1) \<and> k y c1 = (Inr x, c'))"
  by (auto simp: cbind_def split: prod.splits sum.splits)

lemma checks_keep_store:
  "check_note_tag_limit E c = (r, c') \<Longrightarrow> cl_store c' = cl_store c"
  "check_account_limit E c = (r, c') \<Longrightarrow> cl_store c' = cl_store c"
  by (auto simp: check_note_tag_limit_def check_account_limit_def fetch_rpc_limits_def cbind_def read_db_def read_tables_def
      ask_node_def cpure_def split: sum.splits option.splits prod.splits)

lemma insert_account_stored:
  assumes "insert_account S K C acc address st = (Inr (), st')"
  shows "st_db st' = add_note_tag_tx C (with_account_source (ko_address_tag K address) (as_id acc)) (st_db st)"
    "bt_get (at_latest_headers (st_accounts st')) (as_id acc) =
       Some \<lparr>hw_header = header_of_account K acc, hw_commitment = ko_commitment K (header_of_account K acc),
             hw_seed = map_option (fst (c_word (sc_base C))) (as_seed acc), hw_locked = False\<rparr>"
    "bt_get (at_addresses (st_accounts st')) (fst (ko_address K) address) = Some (as_id acc)"
proof -
  obtain T1 T2 where T2: "insert_account_header K C (header_of_account K acc) (as_seed acc) None T1 = Inr T2"
    and st': "st_db st' = add_note_tag_tx C (with_account_source (ko_address_tag K address) (as_id acc)) (st_db st)"
      "st_accounts st' = T2\<lparr>at_addresses := bt_insert (fst (ko_address K) address) (as_id acc) (at_addresses T2)\<rparr>"
    using assms by (auto simp: insert_account_def Let_def insert_address_def split: sum.splits)
  show "st_db st' = add_note_tag_tx C (with_account_source (ko_address_tag K address) (as_id acc)) (st_db st)" by (rule st')
  show "bt_get (at_latest_headers (st_accounts st')) (as_id acc) =
       Some \<lparr>hw_header = header_of_account K acc, hw_commitment = ko_commitment K (header_of_account K acc),
             hw_seed = map_option (fst (c_word (sc_base C))) (as_seed acc), hw_locked = False\<rparr>"
    using T2 by (auto simp: st' insert_account_header_def insert_latest_header_def header_of_account_def split: if_splits)
  show "bt_get (at_addresses (st_accounts st')) (fst (ko_address K) address) = Some (as_id acc)" by (simp add: st')
qed

text \<open>A client of one account and no tag, with everything it needs of the node at hand.\<close>

definition sample_client_node :: client_node where
  "sample_client_node = node_api.extend sample_node
     (client_node.fields (Inr rpc_limits_default) (Inr Testnet) (\<lambda>a. Inr (FetchedPublicAccount sample_state
        \<lparr>us_commitment = Digest 1, us_last_block_num = 4\<rparr>)) (\<lambda>n b. Inr (sample_header, Some []))
        (\<lambda>ids. Inr []) (\<lambda>nfs n. Inr []))"

definition sample_protocol_ops :: protocol_ops where
  "sample_protocol_ops =
     \<lparr>po_is_new = (\<lambda>acc. as_nonce acc = 0), po_address_new = (\<lambda>a. Address (account_id_raw a)),
      po_address_encode = (\<lambda>_ _. ''address''), po_tree_depth = (\<lambda>forest leaf. if leaf < forest then Some 2 else None),
      po_leaf_index = (\<lambda>n. 2 * n + 1), po_sibling = Suc, po_parent = Suc\<rparr>"

definition sample_client_env :: "(digest set, nat) client_env" where
  "sample_client_env =
     \<lparr>ce_protocol = sample_protocol, ce_protocol_ops = sample_protocol_ops, ce_smt = sample_smt_ops, ce_accounts = sample_account_ops,
      ce_codecs = sample_sql, ce_u32 = sample_word, ce_mmr = sample_mmr_ops, ce_chain = sample_chain_ops,
      ce_rpc_api = sample_client_node, ce_note_transport_api = None, ce_checker = (\<lambda>_ _ _. Inr Consumable),
      ce_tx_discard_delta = None, ce_public_state = (\<lambda>_. sample_state), ce_now = 7\<rparr>"

lemma sample_client_env_sel [simp]:
  "ce_protocol sample_client_env = sample_protocol" "ce_smt sample_client_env = sample_smt_ops"
  "ce_accounts sample_client_env = sample_account_ops" "ce_codecs sample_client_env = sample_sql"
  "ce_mmr sample_client_env = sample_mmr_ops" "ce_chain sample_client_env = sample_chain_ops"
  "ce_rpc_api sample_client_env = sample_client_node" "ce_now sample_client_env = 7"
  "po_is_new (ce_protocol_ops sample_client_env) acc \<longleftrightarrow> as_nonce acc = 0"
  "po_address_new (ce_protocol_ops sample_client_env) a = Address (account_id_raw a)"
  by (simp_all add: sample_client_env_def sample_protocol_ops_def)

lemma sample_address_tag [simp]: "ko_address_tag sample_account_ops x = of_nat (address_raw x)"
  by (simp add: sample_account_ops_def)

definition sample_local_client :: "digest set client" where
  "sample_local_client =
     \<lparr>cl_store = sample_sqlite, cl_settings = [], cl_rpc_limits = Some rpc_limits_default, cl_genesis_commitment = Some (Digest 0)\<rparr>"

lemma sample_account_registered:
  "\<exists>F. insert_and_register_account_state sample_smt_ops (AccountId 5) (as_vault sample_state)
      (map snd (as_storage sample_state)) (st_forest sample_sqlite) = Inr F"
  by (simp add: insert_and_register_account_state_def insert_account_state_def insert_storage_map_nodes_def
      insert_asset_nodes_def insert_entries_def storage_maps_def sample_state_def sample_smt_ops_def
      replace_roots_def sample_sqlite_def stage_roots_def smt_forest_new_def map_filter_simps)

section \<open>Properties\<close>



end
