(* ===== verification/Note_Import.thy ===== *)
theory Note_Import
  imports Client_Api
begin

text \<open>
  Notes brought in from outside (\<^verbatim>\<open>note/import.rs\<close>, \<^verbatim>\<open>note_transport/mod.rs\<close>), the queries of
  \<^verbatim>\<open>note/mod.rs\<close> and the sync of the client (\<^verbatim>\<open>sync/mod.rs\<close>), which imports the notes of the transport
  network first, then runs the state sync over what the store holds and writes the result back.
\<close>

section \<open>Records of imported notes\<close>

abbreviation on_record :: "note_record_error + 'a \<Rightarrow> ('f, 'a) client_op" where
  "on_record r \<equiv> cpure (map_err NoteRecordConversionError r)"

abbreviation flatten :: "'a option list \<Rightarrow> 'a list" where
  "flatten xs \<equiv> List.map_filter (\<lambda>x. x) xs"

fun note_file_id :: "protocol \<Rightarrow> note_file \<Rightarrow> note_id" where
  "note_file_id P (FileNoteId i) = i"
| "note_file_id P (FileNoteDetails details _ _) = details_id P details"
| "note_file_id P (FileNoteWithProof n _) = note_get_id P n"

type_synonym proof_request = "input_note_record option \<times> full_note \<times> note_inclusion_proof"
type_synonym details_request = "input_note_record option \<times> note_details \<times> block_number \<times> note_tag option"

subsection \<open>With a proof\<close>

definition requested_nullifier :: "protocol \<Rightarrow> proof_request \<Rightarrow> nullifier" where
  "requested_nullifier P = (\<lambda>(previous_note, n, _).
     case previous_note of Some r \<Rightarrow> inr_nullifier P r | None \<Rightarrow> note_get_nullifier P n)"

definition lowest_block_height :: "proof_request list \<Rightarrow> block_number" where
  "lowest_block_height requested =
     fold (\<lambda>(_, _, proof) lowest. if ip_block_num proof < lowest then ip_block_num proof else lowest) requested (- 1)"

definition proof_record :: "('f, 'm) client_env \<Rightarrow> proof_request \<Rightarrow> input_note_record" where
  "proof_record E = (\<lambda>(previous_note, n, proof).
     case previous_note of
       Some r \<Rightarrow> r
     | None \<Rightarrow> input_note_record_new (note_into_details n) (Some (ce_now E))
         (Expected \<lparr>ex_metadata = Some (nt_metadata n), ex_after_block_num = ip_block_num proof,
                    ex_tag = Some (md_tag (nt_metadata n))\<rparr>))"

definition authenticate_record ::
  "('f, 'm) client_env \<Rightarrow> block_number \<Rightarrow> input_note_record \<Rightarrow> ('f, bool \<times> input_note_record) client_op" where
  "authenticate_record E block_height r =
     cbind (read_db (get_current_partial_mmr (ce_protocol E) (ce_mmr E) (ce_codecs E) (ce_chain E))) (\<lambda>mmr.
     cbind (get_and_store_authenticated_block E block_height mmr) (\<lambda>(hdr, _).
     on_record (inr_block_header_received (ce_protocol E) r hdr)))"

definition import_unspent_note ::
  "('f, 'm) client_env \<Rightarrow> input_note_record \<Rightarrow> note_inclusion_proof \<Rightarrow> note_metadata \<Rightarrow> ('f, input_note_record option) client_op" where
  "import_unspent_note E r proof metadata =
     cbind (read_db Sqlite_Chain.get_sync_height) (\<lambda>current_block_num.
     cbind (on_record (inr_inclusion_proof_received r proof metadata)) (\<lambda>(note_changed, r1).
     cbind (if ip_block_num proof \<le> current_block_num
            then cbind (authenticate_record E (ip_block_num proof) r1) (\<lambda>(verified, r2).
                 cpure (Inr (note_changed \<or> verified, r2)))
            else cbind (insert_note_tag E (with_note_source (md_tag metadata) (inr_id (ce_protocol E) r1))) (\<lambda>_.
                 cpure (Inr (note_changed, r1)))) (\<lambda>(changed, r2).
     cpure (Inr (if changed then Some r2 else None)))))"

definition import_by_proof_step ::
  "('f, 'm) client_env \<Rightarrow> (nullifier, block_number option) btree_map \<Rightarrow> input_note_record option list \<Rightarrow> proof_request \<Rightarrow>
   ('f, input_note_record option list) client_op" where
  "import_by_proof_step E heights records req =
     (case req of (_, n, proof) \<Rightarrow>
      let P = ce_protocol E; r = proof_record E req
      in case bt_get heights (inr_nullifier P r) of
           Some (Some block_height) \<Rightarrow>
             cbind (on_record (inr_consumed_externally P r (inr_nullifier P r) block_height)) (\<lambda>(changed, r').
             cpure (Inr (records @ (if changed then [Some r', None] else [None]))))
         | _ \<Rightarrow> cbind (import_unspent_note E r proof (nt_metadata n)) (\<lambda>x. cpure (Inr (records @ [x]))))"

definition import_note_records_by_proof ::
  "('f, 'm) client_env \<Rightarrow> proof_request list \<Rightarrow> ('f, input_note_record option list) client_op" where
  "import_note_records_by_proof E requested =
     cbind (ask_node (rpc_nullifier_commit_heights (ce_rpc_api E)
              (as_sorted_set (map (requested_nullifier (ce_protocol E)) requested)) (lowest_block_height requested)))
       (\<lambda>heights. cfold (import_by_proof_step E heights) [] requested)"

subsection \<open>By identifier\<close>

definition import_by_id_step ::
  "('f, 'm) client_env \<Rightarrow> (note_id, input_note_record option) btree_map \<Rightarrow>
   (note_id, input_note_record option) btree_map \<times> proof_request list \<Rightarrow> fetched_note \<Rightarrow>
   ('f, (note_id, input_note_record option) btree_map \<times> proof_request list) client_op" where
  "import_by_id_step E notes = (\<lambda>(records, to_request) fetched.
     let P = ce_protocol E; i = fetched_id P fetched; proof = fetched_inclusion_proof fetched
     in case bt_get notes i of
          None \<Rightarrow> cpure (Inl (NoteImportError (''Failed to retrieve note with id '' @ note_id_display P i @ '' from node'')))
        | Some (Some previous_note) \<Rightarrow>
            cbind (on_record (inr_inclusion_proof_received previous_note proof (fetched_metadata fetched))) (\<lambda>(changed, r).
            if changed
            then cbind (on_record (note_tag_record_from_note P r)) (\<lambda>t.
                 cbind (write_db (\<lambda>D. Inr (remove_note_tag (ce_codecs E) t D))) (\<lambda>_.
                 cpure (Inr (bt_insert i (Some r) records, to_request))))
            else cpure (Inr (bt_insert i None records, to_request)))
        | Some None \<Rightarrow>
            (case fetched of
               FetchedPublic n _ \<Rightarrow> cpure (Inr (records, to_request @ [(None, n, proof)]))
             | FetchedPrivate _ _ _ \<Rightarrow> cpure (Inl (NoteImportError ''Incomplete imported note is private''))))"

definition import_note_records_by_id ::
  "('f, 'm) client_env \<Rightarrow> (note_id, input_note_record option) btree_map \<Rightarrow>
   ('f, (note_id, input_note_record option) btree_map) client_op" where
  "import_note_records_by_id E notes =
     cbind (cpure (map_err (\<lambda>err. case err of NoteNotFound i \<Rightarrow> NoteNotFoundOnChain i | _ \<Rightarrow> RpcError err)
              (rpc_notes_by_id (ce_rpc_api E) (bt_keys notes)))) (\<lambda>fetched_notes.
     if fetched_notes = [] then cpure (Inl (NoteImportError ''No notes fetched from node''))
     else cbind (cfold (import_by_id_step E notes) ([], []) fetched_notes) (\<lambda>(records, to_request).
          if to_request = [] then cpure (Inr records)
          else cbind (import_note_records_by_proof E to_request) (\<lambda>by_proof.
               cpure (Inr (fold (\<lambda>r. bt_insert (inr_id (ce_protocol E) r) (Some r)) (flatten by_proof) records)))))"

subsection \<open>By details\<close>

definition committed_note_step ::
  "note_id list \<Rightarrow> (note_id, (note_metadata \<times> note_inclusion_proof) option) btree_map \<Rightarrow> committed_note \<Rightarrow>
   client_error + (note_id, (note_metadata \<times> note_inclusion_proof) option) btree_map" where
  "committed_note_step expected retrieved sync_note =
     (if cn_note_id sync_note \<notin> set expected then Inr retrieved
      else case cn_metadata sync_note of
        None \<Rightarrow> Inl (Panicked ''metadata should be available after sync_notes_with_details'')
      | Some metadata \<Rightarrow> Inr (bt_insert (cn_note_id sync_note) (Some (metadata, cn_inclusion_proof sync_note)) retrieved))"

definition check_expected_notes ::
  "('f, 'm) client_env \<Rightarrow> block_number \<Rightarrow> (note_id \<times> note_tag) list \<Rightarrow>
   ('f, (note_id, (note_metadata \<times> note_inclusion_proof) option) btree_map) client_op" where
  "check_expected_notes E request_block_num expected_notes =
     cbind (read_db Sqlite_Chain.get_sync_height) (\<lambda>current_block_num.
     if request_block_num > current_block_num then cpure (Inr [])
     else cbind (ask_node (sync_notes_with_details (ce_rpc_api E) request_block_num current_block_num
                   (as_sorted_set (map snd expected_notes)))) (\<lambda>sync_result.
          cpure (try_fold (committed_note_step (map fst expected_notes)) []
            (concat (map (\<lambda>b. bt_values (nsb_notes b))
              (takeWhile (\<lambda>b. \<not> bh_block_num (nsb_block_header b) > current_block_num) (snr_blocks sync_result)))))))"

definition details_record :: "('f, 'm) client_env \<Rightarrow> details_request \<Rightarrow> input_note_record" where
  "details_record E = (\<lambda>(previous_note, details, after_block_num, tag).
     case previous_note of
       Some r \<Rightarrow> r
     | None \<Rightarrow> input_note_record_new details (Some (ce_now E))
         (Expected \<lparr>ex_metadata = None, ex_after_block_num = after_block_num, ex_tag = tag\<rparr>))"

definition import_by_details_step ::
  "('f, 'm) client_env \<Rightarrow> input_note_record option list \<times> (note_id, (note_metadata \<times> note_inclusion_proof) option) btree_map \<Rightarrow>
   details_request \<Rightarrow> ('f, input_note_record option list \<times> (note_id, (note_metadata \<times> note_inclusion_proof) option) btree_map) client_op" where
  "import_by_details_step E = (\<lambda>(records, committed) req.
     let P = ce_protocol E; r = details_record E req; i = inr_id P r
     in case bt_get committed i of
          Some (Some (metadata, proof)) \<Rightarrow>
            cbind (read_db (get_current_partial_mmr P (ce_mmr E) (ce_codecs E) (ce_chain E))) (\<lambda>mmr.
            cbind (get_and_store_authenticated_block E (ip_block_num proof) mmr) (\<lambda>(hdr, _).
            cbind (on_record (inr_inclusion_proof_received r proof metadata)) (\<lambda>(note_changed, r1).
            cbind (on_record (inr_block_header_received P r1 hdr)) (\<lambda>(verified, r2).
            if verified \<or> note_changed
            then cbind (write_db (\<lambda>D. Inr (remove_note_tag (ce_codecs E) (with_note_source (md_tag metadata) (inr_id P r2)) D))) (\<lambda>_.
                 cpure (Inr (records @ [Some r2], bt_remove i committed)))
            else cpure (Inr (records @ [None], bt_remove i committed))))))
        | _ \<Rightarrow> cpure (Inr (records @ [Some r], bt_remove i committed)))"

definition expected_requests :: "protocol \<Rightarrow> details_request list \<Rightarrow> (note_id \<times> note_tag) list" where
  "expected_requests P requested =
     List.map_filter (\<lambda>(_, details, _, tag). map_option (\<lambda>t. (details_id P details, t)) tag) requested"

definition lowest_request_block :: "details_request list \<Rightarrow> block_number" where
  "lowest_request_block requested =
     fold (\<lambda>(_, _, after_block_num, tag) lowest. if tag \<noteq> None \<and> after_block_num < lowest then after_block_num else lowest)
       requested (- 1)"

definition import_note_records_by_details ::
  "('f, 'm) client_env \<Rightarrow> details_request list \<Rightarrow> ('f, input_note_record option list) client_op" where
  "import_note_records_by_details E requested =
     cbind (check_expected_notes E (lowest_request_block requested) (expected_requests (ce_protocol E) requested)) (\<lambda>committed.
     cbind (cfold (import_by_details_step E) ([], committed) requested) (\<lambda>(records, _).
     cpure (Inr records)))"

section \<open>Importing note files\<close>

type_synonym import_requests =
  "(note_id, input_note_record option) btree_map \<times> details_request list \<times> proof_request list"

definition sort_request ::
  "protocol \<Rightarrow> (note_id, input_note_record) btree_map \<Rightarrow> import_requests \<Rightarrow> note_id \<times> note_file \<Rightarrow>
   client_error + import_requests" where
  "sort_request P previous_notes = (\<lambda>(by_id, by_details, by_proof) (i, file).
     let previous_note = bt_get previous_notes i
     in if map_option inr_is_processing previous_note = Some True
        then Inl (NoteImportError (''Can't overwrite note with id '' @ note_id_display P i @ '' as it's currently being processed''))
        else Inr (case file of
            FileNoteId i' \<Rightarrow> (bt_insert i' previous_note by_id, by_details, by_proof)
          | FileNoteDetails details after_block_num tag \<Rightarrow>
              (by_id, by_details @ [(previous_note, details, after_block_num, tag)], by_proof)
          | FileNoteWithProof n proof \<Rightarrow> (by_id, by_details, by_proof @ [(previous_note, n, proof)])))"

definition store_imported ::
  "('f, 'm) client_env \<Rightarrow> note_id list \<Rightarrow> input_note_record \<Rightarrow> ('f, note_id list) client_op" where
  "store_imported E ids r =
     (let P = ce_protocol E
      in cbind (case inr_state r of
             Expected st \<Rightarrow> (case ex_tag st of
                 Some tag \<Rightarrow> cbind (insert_note_tag E (with_note_source tag (inr_id P r))) (\<lambda>_. cpure (Inr ()))
               | None \<Rightarrow> cpure (Inr ()))
           | _ \<Rightarrow> cpure (Inr ())) (\<lambda>_.
         cbind (write_db (\<lambda>D. and_then (upsert_input_notes P (ce_codecs E) [r] D) (\<lambda>D'. Inr ((), D')))) (\<lambda>_.
         cpure (Inr (ids @ [inr_id P r])))))"

definition collect_records :: "('f, 'm) client_env \<Rightarrow> import_requests \<Rightarrow> ('f, input_note_record list) client_op" where
  "collect_records E = (\<lambda>(by_id, by_details, by_proof).
     cbind (if by_id = [] then cpure (Inr [])
            else cbind (import_note_records_by_id E by_id) (\<lambda>m. cpure (Inr (bt_values m)))) (\<lambda>notes_by_id.
     cbind (if by_details = [] then cpure (Inr []) else import_note_records_by_details E by_details) (\<lambda>notes_by_details.
     cbind (if by_proof = [] then cpure (Inr []) else import_note_records_by_proof E by_proof) (\<lambda>notes_by_proof.
     cpure (Inr (flatten (notes_by_id @ notes_by_details @ notes_by_proof)))))))"

definition import_records :: "('f, 'm) client_env \<Rightarrow> note_file list \<Rightarrow> ('f, input_note_record list) client_op" where
  "import_records E note_files =
     (let P = ce_protocol E; files = bt_from_iter (map (\<lambda>f. (note_file_id P f, f)) note_files)
      in cbind (read_db (get_input_notes (ce_codecs E) (FilterList (bt_keys files)))) (\<lambda>previous_notes.
         cbind (cpure (try_fold (sort_request P (bt_from_iter (map (\<lambda>r. (inr_id P r, r)) previous_notes))) ([], [], []) files))
           (collect_records E)))"

definition import_notes :: "('f, 'm) client_env \<Rightarrow> note_file list \<Rightarrow> ('f, note_id list) client_op" where
  "import_notes E note_files =
     cbind (import_records E note_files) (\<lambda>imported_notes. cfold (store_imported E) [] imported_notes)"

section \<open>The transport network\<close>

definition rejoin_note :: "codecs \<Rightarrow> note_transport \<Rightarrow> note_info \<Rightarrow> client_error + full_note" where
  "rejoin_note B T info =
     and_then (map_err (\<lambda>e. DataDeserializationError (tp_show_error T e)) (snd (c_details B) (ni_details_bytes info)))
       (\<lambda>(details, _). Inr \<lparr>nt_assets = nd_assets details, nt_metadata = ni_metadata info, nt_recipient = nd_recipient details\<rparr>)"

definition note_lookback_blocks :: u32 where
  "note_lookback_blocks = 20"

definition fetch_transport_notes :: "('f, 'm) client_env \<Rightarrow> u64 \<Rightarrow> note_tag list \<Rightarrow> ('f, unit) client_op" where
  "fetch_transport_notes E cursor tags =
     (case ce_note_transport_api E of
        None \<Rightarrow> cpure (Inl (NoteTransportError
          ''note transport is disabled; enable it in the client configuration to send or receive notes via P2P''))
      | Some T \<Rightarrow>
          cbind (cpure (map_err NoteTransportError (tp_fetch_notes T tags cursor))) (\<lambda>(note_infos, rcursor).
          cbind (cpure (try_map (rejoin_note (sc_base (ce_codecs E)) T) note_infos)) (\<lambda>notes.
          cbind (read_db Sqlite_Chain.get_sync_height) (\<lambda>sync_height.
          let after_block_num = saturating_sub sync_height note_lookback_blocks
          in cbind (import_notes E (map (\<lambda>n. FileNoteDetails (note_into_details n) after_block_num (Some (md_tag (nt_metadata n)))) notes))
               (\<lambda>_ c. (Inr (), c\<lparr>cl_settings := update_note_transport_cursor rcursor (cl_settings c)\<rparr>))))))"

definition transport_cursor :: "('f, u64) client_op" where
  "transport_cursor c =
     (case get_note_transport_cursor (cl_settings c) of (r, T) \<Rightarrow> (map_err StoreError r, c\<lparr>cl_settings := T\<rparr>))"

definition fetch_private_notes :: "('f, 'm) client_env \<Rightarrow> ('f, unit) client_op" where
  "fetch_private_notes E =
     cbind (read_db (Sqlite_Transactions.get_unique_note_tags (ce_codecs E))) (\<lambda>note_tags.
     cbind transport_cursor (\<lambda>cursor. fetch_transport_notes E cursor note_tags))"

definition fetch_all_private_notes :: "('f, 'm) client_env \<Rightarrow> ('f, unit) client_op" where
  "fetch_all_private_notes E =
     cbind (read_db (Sqlite_Transactions.get_unique_note_tags (ce_codecs E))) (\<lambda>note_tags.
     fetch_transport_notes E 0 note_tags)"

section \<open>Queries\<close>

definition client_screener :: "('f, 'm) client_env \<Rightarrow> 'f client \<Rightarrow> note_screener" where
  "client_screener E c =
     \<lparr>ns_store = screener_store.make
        (Inr (Sqlite_Accounts.get_account_ids (client_tables c)))
        (Sqlite_Chain.get_sync_height (client_db c))
        (\<lambda>a. get_account_code_by_id (ce_accounts E) (ce_codecs E) a (client_tables c))
        (\<lambda>i. get_input_notes (ce_codecs E) (FilterUnique i) (client_db c))
        (\<lambda>i. get_output_notes (ce_codecs E) (FilterUnique i) (client_db c))
        (Sqlite_Transactions.get_unique_note_tags (ce_codecs E) (client_db c)),
      ns_checker = ce_checker E\<rparr>"

definition consumable_step ::
  "protocol \<Rightarrow> account_id option \<Rightarrow> input_note_record \<Rightarrow>
   note_relevances \<times> (input_note_record \<times> (account_id \<times> note_consumption_status) list) list \<Rightarrow>
   note_relevances \<times> (input_note_record \<times> (account_id \<times> note_consumption_status) list) list" where
  "consumable_step P account r = (\<lambda>(relevances, out).
     case bt_get relevances (inr_id P r) of
       None \<Rightarrow> (relevances, out)
     | Some xs \<Rightarrow>
         let kept = (case account of Some a \<Rightarrow> filter (\<lambda>(a', _). a' = a) xs | None \<Rightarrow> xs)
         in (bt_remove (inr_id P r) relevances, if kept = [] then out else out @ [(r, kept)]))"

definition get_consumable_notes ::
  "('f, 'm) client_env \<Rightarrow> account_id option \<Rightarrow>
   ('f, (input_note_record \<times> (account_id \<times> note_consumption_status) list) list) client_op" where
  "get_consumable_notes E account =
     cbind (read_db (get_input_notes (ce_codecs E) FilterCommitted)) (\<lambda>committed_notes.
     cbind (on_record (try_map inr_try_into_note committed_notes)) (\<lambda>notes c.
     cbind (cpure (map_err NoteScreenerError (can_consume_batch (ce_protocol E) (client_screener E c) notes))) (\<lambda>relevances.
     cpure (Inr (snd (fold (consumable_step (ce_protocol E) account) committed_notes (relevances, []))))) c))"

definition get_note_consumability ::
  "('f, 'm) client_env \<Rightarrow> input_note_record \<Rightarrow> ('f, (account_id \<times> note_consumption_status) list) client_op" where
  "get_note_consumability E r =
     cbind (on_record (inr_try_into_note r)) (\<lambda>n c.
     (map_err NoteScreenerError (can_consume (ce_protocol E) (client_screener E c) n), c))"

definition get_input_note :: "('f, 'm) client_env \<Rightarrow> note_id \<Rightarrow> ('f, input_note_record option) client_op" where
  "get_input_note E i =
     cbind (read_db (get_input_notes (ce_codecs E) (FilterUnique i))) (\<lambda>rs.
     cpure (Inr (if rs = [] then None else Some (last rs))))"

definition get_output_note :: "('f, 'm) client_env \<Rightarrow> note_id \<Rightarrow> ('f, output_note_record option) client_op" where
  "get_output_note E i =
     cbind (read_db (get_output_notes (ce_codecs E) (FilterUnique i))) (\<lambda>rs.
     cpure (Inr (if rs = [] then None else Some (last rs))))"

section \<open>The sync of the client\<close>

definition sync_account_header :: "account_ops \<Rightarrow> acct_header \<Rightarrow> account_header" where
  "sync_account_header K h = \<lparr>ah_id = hd_id h, ah_commitment = ko_commitment K h\<rparr>"

definition build_sync_input :: "('f, 'm) client_env \<Rightarrow> ('f, state_sync_input) client_op" where
  "build_sync_input E =
     (let C = ce_codecs E
      in cbind (read_tables (get_account_headers C)) (\<lambda>headers.
         cbind (read_db (Sqlite_Transactions.get_unique_note_tags C)) (\<lambda>note_tags.
         cbind (read_db (get_input_notes C FilterUnspent)) (\<lambda>input_notes.
         cbind (read_db (get_output_notes C FilterUnspent)) (\<lambda>output_notes.
         cbind (read_db (get_transactions C TransactionsUncommitted)) (\<lambda>uncommitted_transactions.
         cpure (Inr \<lparr>si_accounts = map (\<lambda>(h, _). sync_account_header (ce_accounts E) h) headers, si_note_tags = note_tags,
                     si_input_notes = input_notes, si_output_notes = output_notes,
                     si_uncommitted_transactions = uncommitted_transactions\<rparr>)))))))"

definition client_apply_state_sync :: "('f, 'm) client_env \<Rightarrow> state_sync_update \<Rightarrow> ('f, unit) client_op" where
  "client_apply_state_sync E u =
     cbind (on_store (apply_state_sync (ce_protocol E) (ce_smt E) (ce_accounts E) (ce_codecs E) (ce_public_state E) u)) (\<lambda>_.
     write_db (\<lambda>D. Inr ((), prune_irrelevant_blocks D)))"

definition sync_transport_notes :: "('f, 'm) client_env \<Rightarrow> ('f, unit) client_op" where
  "sync_transport_notes E =
     (if ce_note_transport_api E = None then cpure (Inr ())
      else cbind transport_cursor (\<lambda>cursor.
           cbind (read_db (Sqlite_Transactions.get_unique_note_tags (ce_codecs E))) (\<lambda>note_tags.
           fetch_transport_notes E cursor note_tags)))"

definition client_sync_state :: "('f, 'm) client_env \<Rightarrow> ('f, sync_summary) client_op" where
  "client_sync_state E =
     cbind (ensure_genesis_in_place E) (\<lambda>_.
     cbind (ensure_rpc_limits_in_place E) (\<lambda>_.
     cbind (sync_transport_notes E) (\<lambda>_ c.
       let state_sync = state_sync_new (node_api.truncate (ce_rpc_api E))
             (on_note_received (ce_protocol E) (client_screener E c)) (ce_tx_discard_delta E)
       in cbind (read_db (get_current_partial_mmr (ce_protocol E) (ce_mmr E) (ce_codecs E) (ce_chain E))) (\<lambda>mmr.
          cbind (build_sync_input E) (\<lambda>input.
          cbind (cpure (sync_state (ce_protocol E) (ce_mmr E) state_sync mmr input)) (\<lambda>(update, _).
          cbind (client_apply_state_sync E update) (\<lambda>_.
          cpure (Inr (sync_summary_from (ce_protocol E) update)))))) c)))"

end
