(* ===== verification/Client_Notes.thy ===== *)
theory Client_Notes
  imports Note_Import
begin

text \<open>
  What importing notes and the sync of the client guarantee: an import stores records that went
  through the lifecycle of a note, changes no other note, and refuses notes that are being processed;
  no operation takes the client over the limits of the node; a note of the transport network that is
  being processed stops every sync.
\<close>

section \<open>Rules for operations with results\<close>

lemma spec_bind_pure:
  "(\<And>x. r = Inr x \<Longrightarrow> client_spec pre (k x) post err) \<Longrightarrow> (\<And>c. pre c \<Longrightarrow> err c) \<Longrightarrow>
   client_spec pre (cbind (cpure r) k) post err"
  by (cases r) (auto simp: client_spec_def cbind_def cpure_def)

lemma spec_bind_node:
  "(\<And>x. r = Inr x \<Longrightarrow> client_spec pre (k x) post err) \<Longrightarrow> (\<And>c. pre c \<Longrightarrow> err c) \<Longrightarrow>
   client_spec pre (cbind (ask_node r) k) post err"
  unfolding ask_node_def by (rule spec_bind_pure; cases r) auto

lemma spec_bind_record:
  "(\<And>b r'. res = Inr (b, r') \<Longrightarrow> client_spec pre (k (b, r')) post err) \<Longrightarrow> (\<And>c. pre c \<Longrightarrow> err c) \<Longrightarrow>
   client_spec pre (cbind (on_record res) k) post err"
  by (rule spec_bind_pure; cases res) auto

lemma spec_bind_keeps:
  "client_keeps I m \<Longrightarrow> (\<And>x. client_spec I (k x) post I) \<Longrightarrow> client_spec I (cbind m k) post I"
  by (rule spec_bind)

lemma spec_return: "(\<And>c. pre c \<Longrightarrow> post x c) \<Longrightarrow> client_spec pre (cpure (Inr x)) post err"
  by (simp add: client_spec_def cpure_def)

lemma spec_raise: "(\<And>c. pre c \<Longrightarrow> err c) \<Longrightarrow> client_spec pre (cpure (Inl e)) post err"
  by (simp add: client_spec_def cpure_def)

lemma spec_case:
  "client_spec pre m post err \<Longrightarrow> pre c \<Longrightarrow> m c = (res, c') \<Longrightarrow> (case res of Inl _ \<Rightarrow> err c' | Inr x \<Rightarrow> post x c')"
  unfolding client_spec_def by fastforce

lemma spec_known: "(Q \<Longrightarrow> client_spec I m post err) \<Longrightarrow> client_spec (\<lambda>c. I c \<and> Q) m post err"
  by (auto simp: client_spec_def)

section \<open>Records that an import builds\<close>

text \<open>A record with a history of events and a creation time the store can hold.\<close>

definition importable :: "protocol \<Rightarrow> input_note_record \<Rightarrow> bool" where
  "importable P r \<longleftrightarrow> input_note_reachable P r \<and> inr_created_at r \<noteq> None \<and> storable r"

lemma importable_new:
  "unat now < 2 ^ 63 \<Longrightarrow> importable P (input_note_record_new d (Some now) (Expected st))"
  by (simp add: importable_def input_note_reachable.new_expected) (simp add: input_note_record_new_def storable_def)

lemma importable_step:
  assumes "importable P r" "input_note_apply P r ev = Inr (b, r')" "inr_origin r' = inr_origin r"
  shows "importable P r'"
  using assms(1) input_note_reachable.step [of P r ev r'] assms(2) storable_origin [OF assms(3)] assms(3)
  by (auto simp: importable_def input_note_step_def inr_origin_def)

lemma importable_transitions:
  "importable P r \<Longrightarrow> inr_inclusion_proof_received r pr md = Inr (b, r') \<Longrightarrow> importable P r'"
  "importable P r \<Longrightarrow> inr_block_header_received P r hdr = Inr (b, r') \<Longrightarrow> importable P r'"
  "importable P r \<Longrightarrow> inr_consumed_externally P r nf h = Inr (b, r') \<Longrightarrow> importable P r'"
  using importable_step [of P r "InclusionProofReceived pr md" b r'] importable_step [of P r "BlockHeaderReceived hdr" b r']
    importable_step [of P r "ConsumedExternally nf h" b r']
  by (auto dest: transition_origin)

definition all_some :: "('a \<Rightarrow> bool) \<Rightarrow> 'a option list \<Rightarrow> bool" where
  "all_some good rs \<longleftrightarrow> (\<forall>r. Some r \<in> set rs \<longrightarrow> good r)"

lemma set_flatten: "set (flatten xs) = {x. Some x \<in> set xs}"
  by (force simp: List.map_filter_def)

lemma all_some_simps [simp]:
  "all_some good []" "all_some good (rs @ qs) \<longleftrightarrow> all_some good rs \<and> all_some good qs"
  "all_some good (x # rs) \<longleftrightarrow> (\<forall>r. x = Some r \<longrightarrow> good r) \<and> all_some good rs"
  by (auto simp: all_some_def)

lemma all_some_insert:
  assumes "all_some good (bt_values m)" "\<And>r. x = Some r \<Longrightarrow> good r"
  shows "all_some good (bt_values (bt_insert i x m))"
proof -
  have eq: "all_some good (bt_values m') \<longleftrightarrow> (\<forall>p \<in> set m'. \<forall>r. snd p = Some r \<longrightarrow> good r)" for m' :: "('k \<times> _) list"
    unfolding all_some_def by (metis (mono_tags, lifting) image_iff list.set_map)
  show ?thesis using assms unfolding eq by (intro bt_insert_values) blast+
qed

lemma all_some_flatten: "all_some good rs \<longleftrightarrow> (\<forall>r \<in> set (flatten rs). good r)"
  by (simp add: all_some_def set_flatten)

text \<open>
  An import over an invariant of the client and a property of records that the transitions keep and
  that the records it creates have.
\<close>

abbreviation importing :: "('f client \<Rightarrow> bool) \<Rightarrow> ('a \<Rightarrow> bool) \<Rightarrow> 'a option list \<Rightarrow> 'f client \<Rightarrow> bool" where
  "importing I good rs c \<equiv> I c \<and> all_some good rs"

definition requests_from :: "('a \<Rightarrow> bool) \<Rightarrow> (note_id, 'a option) btree_map \<times> ('a option \<times> 'b) list \<times> ('a option \<times> 'c) list \<Rightarrow> bool" where
  "requests_from good = (\<lambda>(by_id, by_details, by_proof).
     (\<forall>i r. bt_get by_id i = Some (Some r) \<longrightarrow> good r) \<and> (\<forall>x \<in> set by_details. \<forall>r. fst x = Some r \<longrightarrow> good r)
     \<and> (\<forall>x \<in> set by_proof. \<forall>r. fst x = Some r \<longrightarrow> good r))"

lemma sorted_requests:
  assumes "try_fold (sort_request P previous) ([], [], []) files = Inr s" "\<And>i r. bt_get previous i = Some r \<Longrightarrow> good r"
  shows "requests_from good s"
  using assms(1)
  by (rule try_fold_invariant) (auto simp: requests_from_def sort_request_def Let_def assms(2) split: if_splits note_file.splits)

lemma previous_note_mem: "bt_get (bt_from_iter (map (\<lambda>r. (f r, r)) rs)) i = Some r \<Longrightarrow> r \<in> set rs \<and> f r = i"
  by (auto simp: bt_get_from_iter dest!: map_of_SomeD)

lemma spec_read_value: "client_spec I (read_db f) (\<lambda>x c. I c \<and> f (client_db c) = Inr x) I"
  by (auto simp: client_spec_def read_db_def split: sum.splits)

locale note_import = client_invariant E inv
  for E :: "('f, 'm) client_env" and inv :: "'f client \<Rightarrow> bool" +
  fixes good :: "input_note_record \<Rightarrow> bool"
  assumes good_new: "good (input_note_record_new d (Some (ce_now E)) (Expected st))"
    and good_transitions:
      "good r \<Longrightarrow> inr_inclusion_proof_received r pr md = Inr (b, r') \<Longrightarrow> good r'"
      "good r \<Longrightarrow> inr_block_header_received (ce_protocol E) r hdr = Inr (b, r') \<Longrightarrow> good r'"
      "good r \<Longrightarrow> inr_consumed_externally (ce_protocol E) r nf h = Inr (b, r') \<Longrightarrow> good r'"
begin

abbreviation imported :: "input_note_record option \<Rightarrow> 'f client \<Rightarrow> bool" where
  "imported x c \<equiv> inv c \<and> (\<forall>r. x = Some r \<longrightarrow> good r)"

lemma authenticate_spec:
  assumes "good r"
  shows "client_spec inv (authenticate_record E n r) (\<lambda>(_, r') c. inv c \<and> good r') inv"
  unfolding authenticate_record_def
proof (rule spec_bind_keeps [OF spec_read(1)], rule spec_bind_keeps [OF block_keeps], rule spec_prod)
  fix hdr
  show "client_spec inv (on_record (inr_block_header_received (ce_protocol E) r hdr))
      (\<lambda>(_, r') c. inv c \<and> good r') inv"
    using good_transitions(2) [OF assms]
    by (cases "inr_block_header_received (ce_protocol E) r hdr") (auto simp: client_spec_def cpure_def)
qed

lemma unspent_note_spec:
  assumes "good r"
  shows "client_spec inv (import_unspent_note E r ip md) imported inv"
  unfolding import_unspent_note_def
proof (rule spec_bind_keeps [OF spec_read(1)], rule spec_bind_record)
  fix current b r1 assume "inr_inclusion_proof_received r ip md = Inr (b, r1)"
  then have r1: "good r1" by (rule good_transitions(1) [OF assms])
  let ?m = "if ip_block_num ip \<le> current
    then cbind (authenticate_record E (ip_block_num ip) r1) (\<lambda>(verified, r2). cpure (Inr (b \<or> verified, r2)))
    else cbind (insert_note_tag E (with_note_source (md_tag md) (inr_id (ce_protocol E) r1))) (\<lambda>_. cpure (Inr (b, r1)))"
  have "client_spec inv ?m (\<lambda>(_, r') c. inv c \<and> good r') inv"
    by (rule spec_if; (rule spec_bind [OF authenticate_spec [OF r1]] | rule spec_bind_keeps [OF insert_tag]))
      (auto intro!: spec_return r1 split: prod.split)
  then have "client_spec inv (cbind ?m (\<lambda>(changed, r2). cpure (Inr (if changed then Some r2 else None)))) imported inv"
    by (rule spec_bind) (auto intro!: spec_return split: prod.split)
  then show "client_spec inv (case (b, r1) of (note_changed, r1) \<Rightarrow>
      cbind (if ip_block_num ip \<le> current
        then cbind (authenticate_record E (ip_block_num ip) r1) (\<lambda>(verified, r2). cpure (Inr (note_changed \<or> verified, r2)))
        else cbind (insert_note_tag E (with_note_source (md_tag md) (inr_id (ce_protocol E) r1))) (\<lambda>_. cpure (Inr (note_changed, r1))))
      (\<lambda>(changed, r2). cpure (Inr (if changed then Some r2 else None)))) imported inv"
    by simp
qed simp

lemma by_proof_step_spec:
  assumes prev: "\<And>r. fst req = Some r \<Longrightarrow> good r"
  shows "client_spec (importing inv good rs) (import_by_proof_step E heights rs req) (importing inv good) inv"
proof (rule spec_known)
  assume rs: "all_some good rs"
  let ?P = "ce_protocol E" and ?r = "proof_record E req"
  obtain p n ip where req: "req = (p, n, ip)" by (cases req)
  have r: "good ?r"
    using prev good_new by (auto simp: proof_record_def req split: option.split)
  have "client_spec inv (cbind (import_unspent_note E ?r ip (nt_metadata n)) (\<lambda>x. cpure (Inr (rs @ [x])))) (importing inv good) inv"
    by (rule spec_bind [OF unspent_note_spec [OF r]]) (simp add: spec_return rs)
  moreover have "client_spec inv (cbind (on_record (inr_consumed_externally ?P ?r (inr_nullifier ?P ?r) h)) (\<lambda>(changed, r').
      cpure (Inr (rs @ (if changed then [Some r', None] else [None]))))) (importing inv good) inv" for h
    by (rule spec_bind_record) (auto intro!: spec_return rs dest: good_transitions(3) [OF r])
  ultimately show "client_spec inv (import_by_proof_step E heights rs req) (importing inv good) inv"
    by (simp add: import_by_proof_step_def req Let_def split: option.split)
qed

lemma by_proof_spec:
  assumes "\<And>req r. req \<in> set requested \<Longrightarrow> fst req = Some r \<Longrightarrow> good r"
  shows "client_spec inv (import_note_records_by_proof E requested) (importing inv good) inv"
  unfolding import_note_records_by_proof_def
proof (rule spec_bind_node)
  fix heights
  show "client_spec inv (cfold (import_by_proof_step E heights) [] requested) (importing inv good) inv"
    by (rule spec_weaken [OF spec_fold [where I = "importing inv good" and s = "[]"]])
      (use assms by_proof_step_spec in \<open>blast | simp\<close>)+
qed

lemma by_id_step_spec:
  assumes prev: "\<And>i r. bt_get notes i = Some (Some r) \<Longrightarrow> good r"
  shows "client_spec (\<lambda>c. importing inv good (bt_values (fst s)) c \<and> (\<forall>req \<in> set (snd s). fst req = None))
    (import_by_id_step E notes s fetched)
    (\<lambda>s c. importing inv good (bt_values (fst s)) c \<and> (\<forall>req \<in> set (snd s). fst req = None)) inv"
proof -
  let ?P = "ce_protocol E"
  obtain records to_request where s: "s = (records, to_request)" by (cases s)
  have "client_spec inv (import_by_id_step E notes (records, to_request) fetched)
    (\<lambda>s c. importing inv good (bt_values (fst s)) c \<and> (\<forall>req \<in> set (snd s). fst req = None)) inv"
    if ok: "all_some good (bt_values records)" "\<forall>req \<in> set to_request. fst req = None"
  proof (cases "bt_get notes (fetched_id ?P fetched)")
    case None
    then show ?thesis by (simp add: import_by_id_step_def Let_def spec_raise)
  next
    case (Some x)
    show ?thesis
    proof (cases x)
      case None
      then show ?thesis using Some ok
        by (auto simp: import_by_id_step_def Let_def intro!: spec_raise spec_return split: fetched_note.split)
    next
      case prev_note: (Some r)
      have "client_spec inv (cbind (on_record (inr_inclusion_proof_received r (fetched_inclusion_proof fetched) (fetched_metadata fetched)))
          (\<lambda>(changed, r). if changed
            then cbind (on_record (note_tag_record_from_note ?P r)) (\<lambda>t.
                 cbind (write_db (\<lambda>D. Inr (remove_note_tag (ce_codecs E) t D))) (\<lambda>_.
                 cpure (Inr (bt_insert (fetched_id ?P fetched) (Some r) records, to_request))))
            else cpure (Inr (bt_insert (fetched_id ?P fetched) None records, to_request))))
          (\<lambda>s c. importing inv good (bt_values (fst s)) c \<and> (\<forall>req \<in> set (snd s). fst req = None)) inv"
        using good_transitions(1) [OF prev [OF Some [unfolded prev_note]]] ok
        by (intro spec_bind_record)
          (auto intro!: spec_bind_pure spec_bind_keeps [OF remove_tag_keeps] spec_return all_some_insert)
      then show ?thesis by (simp add: import_by_id_step_def Let_def Some prev_note)
    qed
  qed
  then show ?thesis unfolding s by (auto simp: client_spec_def)
qed

lemma by_id_spec:
  assumes prev: "\<And>i r. bt_get notes i = Some (Some r) \<Longrightarrow> good r"
  shows "client_spec inv (import_note_records_by_id E notes) (\<lambda>m. importing inv good (bt_values m)) inv"
proof -
  let ?P = "ce_protocol E"
  have insert: "all_some good (bt_values (fold (\<lambda>r. bt_insert (inr_id ?P r) (Some r)) rs records))"
    if "all_some good (bt_values records)" "\<forall>r \<in> set rs. good r" for rs records
    using that
  proof (induction rs arbitrary: records)
    case (Cons r rs)
    have "all_some good (bt_values (bt_insert (inr_id ?P r) (Some r) records))"
      using Cons.prems by (intro all_some_insert) auto
    then show ?case using Cons by simp
  qed simp
  have finish: "client_spec (\<lambda>c. importing inv good (bt_values (fst s)) c \<and> (\<forall>req \<in> set (snd s). fst req = None))
      (case s of (records, to_request) \<Rightarrow> if to_request = [] then cpure (Inr records)
         else cbind (import_note_records_by_proof E to_request) (\<lambda>by_proof.
              cpure (Inr (fold (\<lambda>r. bt_insert (inr_id ?P r) (Some r)) (flatten by_proof) records))))
      (\<lambda>m. importing inv good (bt_values m)) inv" for s
  proof -
    obtain records to_request where s: "s = (records, to_request)" by (cases s)
    have "client_spec inv (cbind (import_note_records_by_proof E to_request) (\<lambda>by_proof.
              cpure (Inr (fold (\<lambda>r. bt_insert (inr_id ?P r) (Some r)) (flatten by_proof) records))))
      (\<lambda>m. importing inv good (bt_values m)) inv"
      if "all_some good (bt_values records)" "\<forall>req \<in> set to_request. fst req = None"
      by (rule spec_bind [OF by_proof_spec ])
        (use that insert in \<open>auto intro!: spec_return simp: all_some_flatten [symmetric]\<close>)
    moreover have "client_spec inv (cpure (Inr records)) (\<lambda>m. importing inv good (bt_values m)) inv"
      if "all_some good (bt_values records)"
      by (rule spec_return) (use that in simp)
    ultimately show ?thesis unfolding s by (auto simp: client_spec_def)
  qed
  show ?thesis
    unfolding import_note_records_by_id_def
    by (rule spec_bind_pure, rule spec_if, rule spec_raise, assumption,
        rule spec_bind [OF spec_weaken [OF spec_fold [OF by_id_step_spec [OF prev], where s = "([], [])"]] finish]) simp_all
qed

lemma check_expected_keeps: "client_keeps inv (check_expected_notes E n expected)"
  unfolding check_expected_notes_def by (intro client_rule)

lemma by_details_step_spec:
  assumes prev: "\<And>r. fst req = Some r \<Longrightarrow> good r"
  shows "client_spec (importing inv good (fst s)) (import_by_details_step E s req) (\<lambda>s. importing inv good (fst s)) inv"
proof (rule spec_known)
  assume rs: "all_some good (fst s)"
  let ?P = "ce_protocol E" and ?r = "details_record E req"
  obtain rs' committed where s: "s = (rs', committed)" by (cases s)
  obtain p details n tag where req: "req = (p, details, n, tag)" by (cases req)
  have r: "good ?r"
    using prev good_new by (auto simp: details_record_def req split: option.split)
  have "client_spec inv
      (cbind (read_db (get_current_partial_mmr ?P (ce_mmr E) (ce_codecs E) (ce_chain E))) (\<lambda>mmr.
       cbind (get_and_store_authenticated_block E (ip_block_num ip) mmr) (\<lambda>(hdr, _).
       cbind (on_record (inr_inclusion_proof_received ?r ip md)) (\<lambda>(note_changed, r1).
       cbind (on_record (inr_block_header_received ?P r1 hdr)) (\<lambda>(verified, r2).
       if verified \<or> note_changed
       then cbind (write_db (\<lambda>D. Inr (remove_note_tag (ce_codecs E) (with_note_source (md_tag md) (inr_id ?P r2)) D))) (\<lambda>_.
            cpure (Inr (rs' @ [Some r2], bt_remove i committed)))
       else cpure (Inr (rs' @ [None], bt_remove i committed)))))))
      (\<lambda>s. importing inv good (fst s)) inv" for ip md i
    using rs r
    by (intro spec_bind_keeps [OF spec_read(1)] spec_bind_keeps [OF block_keeps] spec_prod spec_bind_record)
      (auto simp: s intro!: spec_bind_record spec_bind_keeps [OF remove_tag_keeps] spec_return
        intro: good_transitions(2) [OF good_transitions(1)])
  moreover have "client_spec inv (cpure (Inr (rs' @ [Some ?r], bt_remove i committed))) (\<lambda>s. importing inv good (fst s)) inv" for i
    by (rule spec_return) (use rs r in \<open>simp add: s\<close>)
  ultimately show "client_spec inv (import_by_details_step E s req) (\<lambda>s. importing inv good (fst s)) inv"
    by (simp add: import_by_details_step_def s Let_def split: option.split)
qed

lemma by_details_spec:
  assumes "\<And>req r. req \<in> set requested \<Longrightarrow> fst req = Some r \<Longrightarrow> good r"
  shows "client_spec inv (import_note_records_by_details E requested) (importing inv good) inv"
  unfolding import_note_records_by_details_def
proof (rule spec_bind_keeps [OF check_expected_keeps])
  fix committed
  have "client_spec inv (cfold (import_by_details_step E) ([], committed) requested) (\<lambda>s. importing inv good (fst s)) inv"
    by (rule spec_weaken [OF spec_fold [where I = "\<lambda>s. importing inv good (fst s)" and s = "([], committed)"]])
      (use assms by_details_step_spec in \<open>blast | simp\<close>)+
  then show "client_spec inv (cbind (cfold (import_by_details_step E) ([], committed) requested) (\<lambda>(records, _). cpure (Inr records)))
      (importing inv good) inv"
    by (rule spec_bind) (auto intro: spec_return)
qed

lemma collect_records_spec:
  assumes "requests_from good s"
  shows "client_spec inv (collect_records E s) (\<lambda>rs c. inv c \<and> (\<forall>r \<in> set rs. good r)) inv"
proof -
  obtain by_id by_details by_proof where s: "s = (by_id, by_details, by_proof)" by (cases s)
  have id: "client_spec inv (if by_id = [] then cpure (Inr []) else cbind (import_note_records_by_id E by_id) (\<lambda>m. cpure (Inr (bt_values m))))
      (importing inv good) inv"
    using assms by (auto simp: s requests_from_def intro!: spec_return spec_bind [OF by_id_spec])
  have details: "client_spec (importing inv good xs) (if by_details = [] then cpure (Inr []) else import_note_records_by_details E by_details)
      (\<lambda>ys. importing inv good (xs @ ys)) inv" for xs
    using assms by (intro spec_known spec_if spec_weaken [OF by_details_spec] spec_return) (auto simp: s requests_from_def)
  have pr: "client_spec (importing inv good xs) (if by_proof = [] then cpure (Inr []) else import_note_records_by_proof E by_proof)
      (\<lambda>zs. importing inv good (xs @ zs)) inv" for xs
    using assms by (intro spec_known spec_if spec_weaken [OF by_proof_spec] spec_return) (auto simp: s requests_from_def)
  show ?thesis
    unfolding s collect_records_def prod.case
  proof (rule spec_bind [OF id], rule spec_bind [OF details], rule spec_bind [OF pr], rule spec_return)
    fix xs ys zs and c :: "'f client" assume "importing inv good ((xs @ ys) @ zs) c"
    then show "inv c \<and> (\<forall>r \<in> set (flatten (xs @ ys @ zs)). good r)" by (simp only: all_some_flatten append_assoc) simp
  qed
qed

lemma import_records_spec:
  assumes prev: "\<And>c flt rs. inv c \<Longrightarrow> get_input_notes (ce_codecs E) flt (client_db c) = Inr rs \<Longrightarrow> \<forall>r \<in> set rs. good r"
  shows "client_spec inv (import_records E files) (\<lambda>rs c. inv c \<and> (\<forall>r \<in> set rs. good r)) inv"
proof -
  let ?P = "ce_protocol E" and ?files = "bt_from_iter (map (\<lambda>f. (note_file_id (ce_protocol E) f, f)) files)"
  have read: "client_spec inv (read_db (get_input_notes (ce_codecs E) flt)) (\<lambda>rs c. inv c \<and> (\<forall>r \<in> set rs. good r)) inv" for flt
    by (rule spec_weaken [OF spec_read_value]) (use prev in blast)+
  have "client_spec (\<lambda>c. inv c \<and> (\<forall>r \<in> set rs. good r))
      (cbind (cpure (try_fold (sort_request ?P (bt_from_iter (map (\<lambda>r. (inr_id ?P r, r)) rs))) ([], [], []) ?files)) (collect_records E))
      (\<lambda>rs c. inv c \<and> (\<forall>r \<in> set rs. good r)) inv" for rs
    by (intro spec_known spec_bind_pure collect_records_spec, erule sorted_requests) (use previous_note_mem in fast, simp)
  from spec_bind [OF read this] show ?thesis unfolding import_records_def Let_def .
qed

end

section \<open>Two invariants\<close>

text \<open>Until it writes its records an import leaves the notes alone.\<close>

definition note_tables :: "database \<Rightarrow> (note_id, input_note_row) btree_map \<times> (note_id, output_note_row) btree_map \<times> (digest, bytes) btree_map" where
  "note_tables D = (db_input_notes D, db_output_notes D, db_notes_scripts D)"

lemma note_tables_cong:
  assumes "note_tables D = note_tables D'"
  shows "note_tables_inv P C D = note_tables_inv P C D'" "stored_input C D i = stored_input C D' i"
  using assms by (auto simp: note_tables_def note_tables_inv_def input_rows_ok_def output_rows_ok_def scripts_ok_def
      intro!: stored_input_cong)

lemma insert_note_tag_notes: "client_keeps (\<lambda>c. note_tables (client_db c) = X) (insert_note_tag E t)"
proof -
  have check: "client_keeps (\<lambda>c. note_tables (client_db c) = X) (check_note_tag_limit E)"
    using checks_keep_store(1) [of E] by (auto simp: client_spec_def split: prod.splits sum.splits)
  show ?thesis
    unfolding insert_note_tag_def
    by (intro keeps_bind check spec_write)
      (auto simp: add_note_tag_def and_then_Inr_conv note_tables_def add_note_tag_tx_def split: if_splits)
qed

interpretation notes_kept: note_import E "\<lambda>c. note_tables (client_db c) = X"
    "\<lambda>r. unat (ce_now E) < 2 ^ 63 \<longrightarrow> importable (ce_protocol E) r" for E X
  by unfold_locales
    (rule insert_note_tag_notes, simp_all add: note_tables_def remove_note_tag_def remove_note_tag_tx_def importable_new, (blast intro: importable_transitions)+)

interpretation limits_kept: note_import E "\<lambda>c. sql_codecs_ok (ce_codecs E) \<and> within_limits E L c" "\<lambda>_. True" for E L
proof unfold_locales
  show "client_keeps (\<lambda>c. sql_codecs_ok (ce_codecs E) \<and> within_limits E L c) (insert_note_tag E t)" for t
    using insert_note_tag_limits [of E L t] by (auto simp: client_spec_def split: prod.splits sum.splits)
  show "sql_codecs_ok (ce_codecs E) \<and> within_limits E L (set_db (snd (remove_note_tag (ce_codecs E) t (client_db c))) c)"
    if "sql_codecs_ok (ce_codecs E) \<and> within_limits E L c" for c t
    using that by (simp add: remove_note_tag_def remove_tag_limits)
qed (simp_all add: limits_defs tags_at_most_def tags_stored_def)

section \<open>Storing the records\<close>

text \<open>
  The notes of the store have a history, the given ones are there, and all others are those of \<open>D\<close>.
\<close>

definition notes_imported :: "('f, 'm) client_env \<Rightarrow> database \<Rightarrow> note_id list \<Rightarrow> 'f client \<Rightarrow> bool" where
  "notes_imported E D ids c \<longleftrightarrow>
     sql_codecs_ok (ce_codecs E) \<and> note_tables_inv (ce_protocol E) (ce_codecs E) (client_db c)
     \<and> (\<forall>i r. stored_input (ce_codecs E) (client_db c) i = Some r \<longrightarrow> input_note_reachable (ce_protocol E) r)
     \<and> (\<forall>i. if i \<in> set ids then stored_input (ce_codecs E) (client_db c) i \<noteq> None
            else stored_input (ce_codecs E) (client_db c) i = stored_input (ce_codecs E) D i)"

lemma notes_imported_cong:
  "note_tables (client_db c) = note_tables (client_db c') \<Longrightarrow> notes_imported E D ids c \<Longrightarrow> notes_imported E D ids c'"
  unfolding notes_imported_def by (metis note_tables_cong)

lemma notes_kept_any:
  assumes "\<And>X. client_keeps (\<lambda>c. note_tables (client_db c) = X) m"
    and "\<And>c c'. note_tables (client_db c) = note_tables (client_db c') \<Longrightarrow> I c \<Longrightarrow> I c'"
  shows "client_keeps I m"
  unfolding client_spec_def
proof (intro allI impI)
  fix c assume "I c"
  have "note_tables (client_db (snd (m c))) = note_tables (client_db c)" using spec_snd [OF assms(1)] by blast
  with \<open>I c\<close> have "I (snd (m c))" using assms(2) by metis
  then show "case m c of (Inl e, c') \<Rightarrow> I c' | (Inr x, c') \<Rightarrow> I c'" by (cases "m c"; cases "fst (m c)") auto
qed

lemma upserted_note_imported:
  assumes "notes_imported E D ids c" "importable (ce_protocol E) r"
  shows "notes_imported E D (ids @ [inr_id (ce_protocol E) r]) (set_db (upserted (ce_protocol E) (ce_codecs E) r (client_db c)) c)"
proof -
  let ?P = "ce_protocol E" and ?C = "ce_codecs E"
  have inv: "sql_codecs_ok ?C \<and> note_tables_inv ?P ?C (client_db c)" using assms(1) by (simp add: notes_imported_def)
  have r: "storable r" "stored_record r = r" "input_note_reachable ?P r"
    using assms(2) by (auto simp: importable_def stored_record_id)
  from upserts.fold_steps [OF inv, of "[r]"] r(1)
  have "note_tables_inv ?P ?C (upserted ?P ?C r (client_db c))"
    "stored_input ?C (upserted ?P ?C r (client_db c)) i = (if i = inr_id ?P r then Some r else stored_input ?C (client_db c) i)" for i
    using r(2) by (auto split: if_splits)
  with assms(1) r(3) show ?thesis unfolding notes_imported_def by (simp split: if_splits)
qed

lemma store_imported_spec:
  assumes "importable (ce_protocol E) r"
  shows "client_spec (notes_imported E D ids) (store_imported E ids r) (notes_imported E D)
    (\<lambda>c. \<exists>ids. notes_imported E D ids c)"
proof -
  have "client_keeps (notes_imported E D ids) (case inr_state r of
      Expected st \<Rightarrow> (case ex_tag st of
          Some tag \<Rightarrow> cbind (insert_note_tag E (with_note_source tag (inr_id (ce_protocol E) r))) (\<lambda>_. cpure (Inr ()))
        | None \<Rightarrow> cpure (Inr ()))
    | _ \<Rightarrow> cpure (Inr ()))" (is "client_keeps _ ?m")
    by (rule notes_kept_any [OF _ notes_imported_cong])
      (auto intro: keeps_bind insert_note_tag_notes spec_cpure split: input_note_state.split option.split)
  then have tags: "client_spec (notes_imported E D ids) ?m (\<lambda>_. notes_imported E D ids) (\<lambda>c. \<exists>ids. notes_imported E D ids c)"
    by (rule spec_weaken) auto
  have "storable r" using assms by (simp add: importable_def)
  then have upsert: "client_spec (notes_imported E D ids)
      (write_db (\<lambda>D. and_then (upsert_input_notes (ce_protocol E) (ce_codecs E) [r] D) (\<lambda>D'. Inr ((), D'))))
      (\<lambda>_. notes_imported E D (ids @ [inr_id (ce_protocol E) r])) (\<lambda>c. \<exists>ids. notes_imported E D ids c)"
    by (intro spec_write) (auto simp: upsert_input_notes_eq intro: upserted_note_imported [OF _ assms])
  show ?thesis
    unfolding store_imported_def Let_def
    by (rule spec_bind [OF tags], rule spec_bind [OF upsert], rule spec_return) simp
qed

lemma queried_note_stored:
  assumes "sql_codecs_ok C" "note_tables_inv P C D" "get_input_notes C flt D = Inr rs" "r \<in> set rs"
  shows "stored_input C D (inr_id P r) = Some r"
proof -
  have "r \<in> set (stored_inputs C D)"
    using assms(3,4) get_input_notes_spec [OF assms(1,2), of flt] by (auto split: if_splits)
  then obtain x where x: "x \<in> set (db_input_notes D)" "r = the (stored_input C D (fst x))"
    by (auto simp: stored_inputs_def)
  from assms(1,2) x(1) show ?thesis by (rule input_row_mem) (use x(2) in auto)
qed

lemma stored_note_listed:
  assumes "sql_codecs_ok C" "note_tables_inv P C D" "stored_input C D i = Some r"
  shows "r \<in> set (stored_inputs C D)" "inr_id P r = i"
proof -
  obtain q where q: "inr_id P q = i" "bt_get (db_input_notes D) i = Some (row_of_record P C q)" "r = stored_record q"
    using assms(1,2) by (cases rule: stored_input_cases [where i = i]) (use assms(3) in auto)
  then have "(i, row_of_record P C q) \<in> set (db_input_notes D)" by (metis map_of_SomeD)
  then show "r \<in> set (stored_inputs C D)" using assms(3) by (force simp: stored_inputs_def)
  show "inr_id P r = i" using q by simp
qed

lemma queried_note_importable:
  assumes "sql_codecs_ok C" "note_tables_inv P C D" "get_input_notes C flt D = Inr rs" "r \<in> set rs"
    and "\<forall>i r. stored_input C D i = Some r \<longrightarrow> input_note_reachable P r"
  shows "importable P r"
  using queried_note_stored [OF assms(1-4)] sqlite.created [of C P D "inr_id P r" r] assms(1,2,5)
  by (auto simp: importable_def)

lemma import_notes_spec:
  assumes now: "unat (ce_now E) < 2 ^ 63" and D: "sql_codecs_ok (ce_codecs E)" "note_tables_inv (ce_protocol E) (ce_codecs E) D"
    "\<forall>i r. stored_input (ce_codecs E) D i = Some r \<longrightarrow> input_note_reachable (ce_protocol E) r"
  shows "client_spec (\<lambda>c. note_tables (client_db c) = note_tables D) (import_notes E files)
    (notes_imported E D) (\<lambda>c. \<exists>ids. notes_imported E D ids c)"
proof -
  have start: "notes_imported E D [] c" if "note_tables (client_db c) = note_tables D" for c
    using D note_tables_cong [OF that] by (simp add: notes_imported_def)
  have "client_spec (\<lambda>c. note_tables (client_db c) = note_tables D) (import_records E files)
      (\<lambda>rs c. note_tables (client_db c) = note_tables D \<and> (\<forall>r \<in> set rs. unat (ce_now E) < 2 ^ 63 \<longrightarrow> importable (ce_protocol E) r))
      (\<lambda>c. note_tables (client_db c) = note_tables D)"
  proof (rule notes_kept.import_records_spec)
    fix c :: "'a client" and flt rs
    assume c: "note_tables (client_db c) = note_tables D" "get_input_notes (ce_codecs E) flt (client_db c) = Inr rs"
    show "\<forall>r \<in> set rs. unat (ce_now E) < 2 ^ 63 \<longrightarrow> importable (ce_protocol E) r"
      using queried_note_importable [OF D(1) _ c(2), of "ce_protocol E"] D note_tables_cong [OF c(1)] by simp
  qed
  then have records: "client_spec (\<lambda>c. note_tables (client_db c) = note_tables D) (import_records E files)
      (\<lambda>rs c. notes_imported E D [] c \<and> (\<forall>r \<in> set rs. importable (ce_protocol E) r)) (\<lambda>c. \<exists>ids. notes_imported E D ids c)"
    by (rule spec_weaken) (use now start in blast)+
  show ?thesis
    unfolding import_notes_def
    by (rule spec_bind [OF records], rule spec_known, rule spec_fold) (rule store_imported_spec, blast)
qed

text \<open>An import of a note that is being processed fails and does nothing.\<close>

lemma sort_request_refuses:
  assumes "(i, f) \<in> set files" "bt_get previous i = Some r" "inr_is_processing r"
  shows "\<exists>m. try_fold (sort_request P previous) s files = Inl (NoteImportError m)"
  using assms(1)
proof (induction files arbitrary: s)
  case (Cons x files)
  show ?case
  proof (cases "sort_request P previous s x")
    case (Inl e)
    then have "\<exists>m. e = NoteImportError m" by (auto simp: sort_request_def Let_def split: prod.splits if_splits)
    then show ?thesis using Inl by auto
  next
    case (Inr s')
    have "x \<noteq> (i, f)" using Inr assms(2,3) by (auto simp: sort_request_def Let_def split: prod.splits)
    then show ?thesis using Cons Inr by auto
  qed
qed simp

lemma import_refuses_processing:
  assumes "sql_codecs_ok (ce_codecs E)" "note_tables_inv (ce_protocol E) (ce_codecs E) (client_db c)"
    and "f \<in> set files" "stored_input (ce_codecs E) (client_db c) (note_file_id (ce_protocol E) f) = Some r" "inr_is_processing r"
  shows "\<exists>m. import_notes E files c = (Inl (NoteImportError m), c)"
proof -
  let ?P = "ce_protocol E" and ?C = "ce_codecs E" and ?D = "client_db c" and ?i = "note_file_id (ce_protocol E) f"
  let ?files = "bt_from_iter (map (\<lambda>f. (note_file_id ?P f, f)) files)"
  have key: "?i \<in> set (bt_keys ?files)"
  proof -
    have "map_of (rev (map (\<lambda>f. (note_file_id ?P f, f)) files)) ?i \<noteq> None"
      unfolding map_of_eq_None_iff using assms(3) by (auto simp: image_image)
    then have "bt_get ?files ?i \<noteq> None" by (simp add: bt_get_from_iter)
    then show ?thesis by (simp add: map_of_eq_None_iff)
  qed
  then obtain f' where f': "(?i, f') \<in> set ?files" by auto
  obtain rs where rs: "get_input_notes ?C (FilterList (bt_keys ?files)) ?D = Inr rs"
    "rs = filter (input_filter ?P (FilterList (bt_keys ?files))) (stored_inputs ?C ?D)"
    using get_input_notes_spec [OF assms(1,2)] by simp
  have "r \<in> set (stored_inputs ?C ?D)" and id: "inr_id ?P r = ?i" using stored_note_listed [OF assms(1,2,4)] by auto
  then have "r \<in> set rs" using key rs(2) id by simp
  have unique: "q = r" if "q \<in> set rs" "inr_id ?P q = ?i" for q
    using queried_note_stored [OF assms(1,2) rs(1) that(1)] that(2) assms(4) by simp
  have "bt_get (bt_from_iter (map (\<lambda>r. (inr_id ?P r, r)) rs)) ?i = Some r"
  proof (cases "bt_get (bt_from_iter (map (\<lambda>r. (inr_id ?P r, r)) rs)) ?i")
    case None
    then have "?i \<notin> inr_id ?P ` set rs" by (simp add: bt_get_from_iter map_of_eq_None_iff image_image)
    then show ?thesis using \<open>r \<in> set rs\<close> id by (metis imageI)
  next
    case (Some q)
    then show ?thesis using previous_note_mem [OF Some] unique by blast
  qed
  then obtain m where "try_fold (sort_request ?P (bt_from_iter (map (\<lambda>r. (inr_id ?P r, r)) rs))) ([], [], []) ?files = Inl (NoteImportError m)"
    using sort_request_refuses [OF f' _ assms(5)] by blast
  then show ?thesis
    by (simp add: import_notes_def import_records_def Let_def cbind_def read_db_def rs(1) cpure_def)
qed

text \<open>
  An import by identifiers that fails at a note the node keeps private has already removed the tags of
  the tracked notes it passed before, while none of their records is written.
\<close>

lemma failed_import_drops_tag:
  assumes "rpc_notes_by_id (ce_rpc_api E) (bt_keys notes) = Inr [first, FetchedPrivate i metadata proof]"
    and "bt_get notes (fetched_id (ce_protocol E) first) = Some (Some r)" "bt_get notes i = Some None"
    and "inr_inclusion_proof_received r (fetched_inclusion_proof first) (fetched_metadata first) = Inr (True, r')"
    and "note_tag_record_from_note (ce_protocol E) r' = Inr t"
  shows "import_note_records_by_id E notes c =
    (Inl (NoteImportError ''Incomplete imported note is private''), set_db (snd (remove_note_tag (ce_codecs E) t (client_db c))) c)"
  using assms
  by (simp add: import_note_records_by_id_def import_by_id_step_def cbind_def cpure_def write_db_def Let_def split: prod.split)

section \<open>The calls of the client\<close>

datatype api_call =
    AddAccount account_state bool
  | ImportAccountById account_id
  | AddAddress address account_id
  | RemoveAddress address account_id
  | AddNoteTag note_tag
  | RemoveNoteTag note_tag
  | ImportNotes "note_file list"
  | FetchPrivateNotes

fun run_call :: "('f, 'm) client_env \<Rightarrow> api_call \<Rightarrow> ('f, unit) client_op" where
  "run_call E (AddAccount acc overwrite) = add_account E acc overwrite"
| "run_call E (ImportAccountById a) = import_account_by_id E a"
| "run_call E (AddAddress address a) = add_address E address a"
| "run_call E (RemoveAddress address a) = client_remove_address E address a"
| "run_call E (AddNoteTag tag) = client_add_note_tag E tag"
| "run_call E (RemoveNoteTag tag) = client_remove_note_tag E tag"
| "run_call E (ImportNotes files) = cbind (import_notes E files) (\<lambda>_. cpure (Inr ()))"
| "run_call E FetchPrivateNotes = fetch_private_notes E"

text \<open>Calls one after the other; a failed call does not keep the user from making the next.\<close>

definition run_calls :: "('f, 'm) client_env \<Rightarrow> api_call list \<Rightarrow> 'f client \<Rightarrow> 'f client" where
  "run_calls E calls c = fold (\<lambda>call c. snd (run_call E call c)) calls c"

lemma store_imported_limits:
  assumes "sql_codecs_ok (ce_codecs E)"
  shows "client_keeps (within_limits E L) (store_imported E ids r)"
proof -
  have "db_tags (upserted P C r D) = db_tags D" for P C D
    by (simp add: upserted_def Let_def insert_input_row_def insert_script_row_def set_block_header_has_client_notes_def split: option.split)
  then have upsert: "client_keeps (within_limits E L)
      (write_db (\<lambda>D. and_then (upsert_input_notes (ce_protocol E) (ce_codecs E) [r] D) (\<lambda>D'. Inr ((), D'))))"
    by (intro spec_write) (auto simp: upsert_input_notes_eq limits_defs tags_at_most_def tags_stored_def split: if_splits)
  have tags: "client_keeps (within_limits E L) (case inr_state r of
      Expected st \<Rightarrow> (case ex_tag st of
          Some tag \<Rightarrow> cbind (insert_note_tag E (with_note_source tag (inr_id (ce_protocol E) r))) (\<lambda>_. cpure (Inr ()))
        | None \<Rightarrow> cpure (Inr ()))
    | _ \<Rightarrow> cpure (Inr ()))"
    by (auto intro: keeps_bind insert_note_tag_limits [OF assms] spec_cpure split: input_note_state.split option.split)
  show ?thesis
    unfolding store_imported_def Let_def by (intro keeps_bind tags upsert spec_cpure)
qed

lemma import_notes_limits:
  assumes ok: "sql_codecs_ok (ce_codecs E)"
  shows "client_keeps (within_limits E L) (import_notes E files)"
proof -
  have "client_keeps (within_limits E L) (import_records E files)"
    by (rule spec_weaken [OF limits_kept.import_records_spec [where L = L]]) (use ok in auto)
  then show ?thesis
    unfolding import_notes_def
    by (rule keeps_bind) (rule spec_fold [where I = "\<lambda>_. within_limits E L"], rule store_imported_limits [OF ok])
qed

lemma within_limits_settings [simp]: "within_limits E L (c\<lparr>cl_settings := s\<rparr>) = within_limits E L c"
  by (simp add: limits_defs tags_at_most_def)

lemma fetch_limits:
  assumes "sql_codecs_ok (ce_codecs E)"
  shows "client_keeps (within_limits E L) (fetch_transport_notes E cursor tags)"
    "client_keeps (within_limits E L) (fetch_private_notes E)"
proof -
  have cursor: "client_keeps (within_limits E L) transport_cursor"
    by (simp add: client_spec_def transport_cursor_def split: prod.split sum.split)
  have set: "client_keeps (within_limits E L) (\<lambda>c. (Inr (), c\<lparr>cl_settings := f (cl_settings c)\<rparr>))" for f
    by (simp add: client_spec_def)
  show fetch: "client_keeps (within_limits E L) (fetch_transport_notes E cursor tags)" for cursor tags
    unfolding fetch_transport_notes_def Let_def by (intro client_rule import_notes_limits [OF assms] set)
  show "client_keeps (within_limits E L) (fetch_private_notes E)"
    unfolding fetch_private_notes_def by (intro client_rule cursor fetch)
qed

lemma run_call_limits:
  assumes "sql_codecs_ok (ce_codecs E)"
  shows "client_keeps (within_limits E L) (run_call E call)"
  by (cases call) (auto intro: account_calls_limits tag_calls_limits address_calls_limits keeps_bind import_notes_limits
      fetch_limits spec_cpure assms)

section \<open>The cursor of the transport network\<close>

lemma cursor_read_again:
  "get_note_transport_cursor s = (r, s') \<Longrightarrow> get_note_transport_cursor s' = (r, s')"
  by (auto simp: get_note_transport_cursor_def Let_def get_setting_def set_setting_def split: option.splits)

lemma sync_stops_at_transport:
  assumes "cl_genesis_commitment c \<noteq> None" "cl_rpc_limits c \<noteq> None" "sync_transport_notes E c = (Inl e, c')"
  shows "client_sync_state E c = (Inl e, c')"
  using assms
  by (simp add: client_sync_state_def ensure_genesis_in_place_def ensure_rpc_limits_in_place_def cbind_def)

section \<open>Properties\<close>

text \<open>
  C22. Importing notes is sound: whether the import succeeds or fails, the note tables stay consistent
  and every stored note is a record with a history of lifecycle events, so one that is authenticated
  carries a verified proof; when it succeeds, every note it reports is in the store and every other
  note is as it was.
\<close>

theorem imported_notes_sound:
  fixes E :: "('f, 'm) client_env"
  defines "P \<equiv> ce_protocol E" and "C \<equiv> ce_codecs E"
  assumes "sql_codecs_ok C" "note_tables_inv P C (client_db c)" "unat (ce_now E) < 2 ^ 63"
    and "\<forall>i r. stored_input C (client_db c) i = Some r \<longrightarrow> input_note_reachable P r"
    and "import_notes E files c = (res, c')"
  shows "note_tables_inv P C (client_db c')
    \<and> (\<forall>i r. stored_input C (client_db c') i = Some r \<longrightarrow> input_note_reachable P r)
    \<and> (\<forall>ids. res = Inr ids \<longrightarrow> (\<forall>i. if i \<in> set ids then stored_input C (client_db c') i \<noteq> None
         else stored_input C (client_db c') i = stored_input C (client_db c) i))"
proof -
  have "case res of Inl _ \<Rightarrow> \<exists>ids. notes_imported E (client_db c) ids c' | Inr ids \<Rightarrow> notes_imported E (client_db c) ids c'"
    using spec_case [OF import_notes_spec [OF assms(5) assms(3,4,6) [unfolded P_def C_def]] refl assms(7)] .
  then show ?thesis unfolding P_def C_def by (cases res) (auto simp only: notes_imported_def sum.case sum.simps)
qed

lemma sample_note_id: "details_id sample_protocol (note_into_details (sample_note 5)) = NoteId (Digest 5)"
  by (simp add: sample_defs)

theorem imported_notes_sound_witness:
  "\<exists>c'. import_notes sample_client_env [FileNoteDetails (note_into_details (sample_note 5)) 0 None] sample_local_client =
       (Inr [NoteId (Digest 5)], c')
     \<and> stored_input sample_sql (client_db c') (NoteId (Digest 5)) \<noteq> None"
proof -
  have sel: "client_db sample_local_client = database_new" by (simp add: sample_local_client_def sample_sqlite_def)
  have height: "Sqlite_Chain.get_sync_height database_new = Inr 0" by (simp add: Sqlite_Chain.get_sync_height_def database_new_def)
  have pos: "(0 :: u32) < - 1" by (simp add: word_greater_zero_iff)
  have none: "get_input_notes C flt database_new = Inr []" for C flt by (simp add: get_input_notes_def database_new_def)
  have "\<exists>c'. import_notes sample_client_env [FileNoteDetails (note_into_details (sample_note 5)) 0 None] sample_local_client =
      (Inr [NoteId (Digest 5)], c')"
    by (simp add: import_notes_def import_records_def Let_def cbind_def read_db_def sel none cpure_def bt_from_iter_def sort_request_def
        collect_records_def import_note_records_by_details_def check_expected_notes_def lowest_request_block_def height
        import_by_details_step_def details_record_def sample_note_id map_filter_simps)
      (simp add: pos store_imported_def write_db_def upsert_input_notes_eq cbind_def cpure_def Let_def sample_note_id storable_def
        input_note_record_new_def inr_id_def)
  then obtain c' where c': "import_notes sample_client_env [FileNoteDetails (note_into_details (sample_note 5)) 0 None] sample_local_client =
      (Inr [NoteId (Digest 5)], c')" by blast
  have "stored_input sample_sql database_new i = None" for i by (simp add: stored_input_def database_new_def)
  then have start: "sql_codecs_ok (ce_codecs sample_client_env)"
    "note_tables_inv (ce_protocol sample_client_env) (ce_codecs sample_client_env) (client_db sample_local_client)"
    "unat (ce_now sample_client_env) < 2 ^ 63"
    "\<forall>i r. stored_input (ce_codecs sample_client_env) (client_db sample_local_client) i = Some r \<longrightarrow>
       input_note_reachable (ce_protocol sample_client_env) r"
    using sample_sql_ok database_new_inv by (simp_all add: sel)
  have "stored_input (ce_codecs sample_client_env) (client_db c') (NoteId (Digest 5)) \<noteq> None"
    using imported_notes_sound [OF start c', THEN conjunct2, THEN conjunct2, rule_format, OF refl, of "NoteId (Digest 5)"] by simp
  with c' show ?thesis by simp
qed



text \<open>
  C37. A note of the transport network that the client is consuming stops the sync for good: while the
  network delivers it after the stored cursor, every sync fails before it asks the node for anything
  and leaves the store as it was. The note stays in processing, which only a sync could end.
\<close>

theorem processing_note_blocks_sync:
  fixes E :: "('f, 'm) client_env" and c :: "'f client" and k :: nat
  defines "P \<equiv> ce_protocol E" and "C \<equiv> ce_codecs E"
  assumes "sql_codecs_ok C" "note_tables_inv P C (client_db c)" "cl_genesis_commitment c \<noteq> None" "cl_rpc_limits c \<noteq> None"
    and "ce_note_transport_api E = Some T" "get_note_transport_cursor (cl_settings c) = (Inr cursor, s)"
    and "Sqlite_Transactions.get_unique_note_tags C (client_db c) = Inr tags" "tp_fetch_notes T tags cursor = Inr (infos, next)"
    and "try_map (rejoin_note (sc_base C) T) infos = Inr notes" "Sqlite_Chain.get_sync_height (client_db c) = Inr height"
    and "n \<in> set notes" "stored_input C (client_db c) (note_get_id P n) = Some r" "inr_is_processing r"
  defines "c' \<equiv> ((\<lambda>c. snd (client_sync_state E c)) ^^ k) c"
  shows "(\<exists>m. fst (client_sync_state E c') = Inl (NoteImportError m)) \<and> cl_store c' = cl_store c"
proof -
  have step: "\<exists>m. client_sync_state E d = (Inl (NoteImportError m), d\<lparr>cl_settings := s\<rparr>)"
    if d: "cl_store d = cl_store c" "cl_genesis_commitment d \<noteq> None" "cl_rpc_limits d \<noteq> None"
      "get_note_transport_cursor (cl_settings d) = (Inr cursor, s)" for d
  proof -
    let ?files = "map (\<lambda>n. FileNoteDetails (note_into_details n) (saturating_sub height note_lookback_blocks) (Some (md_tag (nt_metadata n)))) notes"
    have "\<exists>m. import_notes E ?files (d\<lparr>cl_settings := s\<rparr>) = (Inl (NoteImportError m), d\<lparr>cl_settings := s\<rparr>)"
      by (rule import_refuses_processing [where r = r and f = "FileNoteDetails (note_into_details n)
            (saturating_sub height note_lookback_blocks) (Some (md_tag (nt_metadata n)))"])
        (use assms d in simp_all)
    then obtain m where m: "import_notes E ?files (d\<lparr>cl_settings := s\<rparr>) = (Inl (NoteImportError m), d\<lparr>cl_settings := s\<rparr>)" by blast
    have "sync_transport_notes E d = (Inl (NoteImportError m), d\<lparr>cl_settings := s\<rparr>)"
      using assms(7,9-12) d m unfolding C_def
      by (simp add: sync_transport_notes_def fetch_transport_notes_def transport_cursor_def cbind_def read_db_def cpure_def Let_def)
    then show ?thesis using sync_stops_at_transport [OF d(2,3)] by blast
  qed
  have "cl_store c' = cl_store c \<and> cl_genesis_commitment c' \<noteq> None \<and> cl_rpc_limits c' \<noteq> None
      \<and> get_note_transport_cursor (cl_settings c') = (Inr cursor, s)"
    unfolding c'_def
  proof (induction k)
    case (Suc k)
    let ?d = "((\<lambda>c. snd (client_sync_state E c)) ^^ k) c"
    obtain m where "client_sync_state E ?d = (Inl (NoteImportError m), ?d\<lparr>cl_settings := s\<rparr>)" using step Suc by blast
    then show ?case using Suc cursor_read_again [OF assms(8)] by simp
  qed (use assms in simp)
  with step [of c'] show ?thesis by auto
qed

theorem processing_note_blocks_sync_witness:
  "\<exists>E c r. stored_input sample_sql (client_db c) (NoteId (Digest 5)) = Some r \<and> inr_is_processing r
     \<and> (\<exists>m. fst (client_sync_state (E :: (digest set, nat) client_env) (((\<lambda>c. snd (client_sync_state E c)) ^^ 9) c)) = Inl (NoteImportError m))"
proof -
  let ?info = "\<lparr>ni_note_id = NoteId (Digest 5), ni_metadata = sample_metadata,
      ni_details_bytes = fst (c_details sample_codecs) (note_into_details (sample_note 5))\<rparr>"
  let ?T = "\<lparr>tp_fetch_notes = (\<lambda>tags cursor. Inr ([?info], cursor + 1)), tp_show_error = (\<lambda>_. ''bytes'')\<rparr>"
  let ?E = "sample_client_env\<lparr>ce_note_transport_api := Some ?T\<rparr>" and ?c = "set_db sample_store sample_local_client"
  have db: "client_db ?c = sample_store" by simp
  have tags: "tags_stored sample_sql [] sample_store" "Sqlite_Chain.get_sync_height sample_store = Inr 0"
    by (auto simp: tags_stored_def sample_store_def upserted_def Let_def insert_input_row_def insert_script_row_def database_new_def
        Sqlite_Chain.get_sync_height_def set_block_header_has_client_notes_def split: option.split)
  have "codec_ok (c_details sample_codecs)" using sample_codecs_ok by (simp add: codecs_ok_def)
  then have decoded: "try_map (rejoin_note (sc_base (ce_codecs ?E)) ?T) [?info] = Inr [sample_note 5]"
    by (simp add: rejoin_note_def sample_sql_def codec_ok_empty) (simp add: note_into_details_def sample_note_def)
  have processing: "inr_is_processing sample_stored" by (simp add: inr_is_processing_def sample_stored_def sample_record_defs)
  have cursor: "get_note_transport_cursor (cl_settings ?c) = (Inr 0, set_setting cursor_setting (to_be_bytes 0) [])"
    by (simp add: get_note_transport_cursor_def Let_def get_setting_def sample_local_client_def to_be_bytes_def from_be_bytes_def)
  have "\<exists>m. fst (client_sync_state ?E (((\<lambda>c. snd (client_sync_state ?E c)) ^^ 9) ?c)) = Inl (NoteImportError m)"
    using processing_note_blocks_sync [of ?E ?c ?T 0 _ "[]" "[?info]" 1 "[sample_note 5]" 0 "sample_note 5" sample_stored 9, OF _ _ _ _ _ cursor _ _ decoded]
      sample_sql_ok sample_store_ok processing get_unique_note_tags_stored [OF sample_sql_ok tags(1)] tags(2)
    by (simp add: sample_local_client_def sample_note_id)
  with processing sample_store_ok(2) show ?thesis
    by (intro exI [of _ ?E] exI [of _ ?c] exI [of _ sample_stored]) (simp add: db)
qed

end
