(* ===== verification/Spec2Isabelle.thy ===== *)
theory Spec2Isabelle
  imports Note_Screener Smt_Forest Wire_Format Rpc_Notes Token_Amounts Transaction_Request Client_Notes
begin

text \<open>
  A verification of the Miden client, the library behind the wallet and web client of a
  zero-knowledge rollup (\<^verbatim>\<open>src/crates/rust-client\<close>) with its SQLite store
  (\<^verbatim>\<open>src/crates/sqlite-store\<close>). The client keeps notes, transactions, accounts and the part of the
  chain that concerns them in a store, asks a node for what happened since its last sync, moves its
  records through their states, and executes transactions of its own accounts in between.

  \<^bold>\<open>Parts and theories.\<close> File names are relative to \<^verbatim>\<open>rust-client/src\<close> unless they start with
  \<^verbatim>\<open>sqlite-store\<close>.

  \<^item> \<open>Client_Prelude\<close>: machine integers at their width, Rust's results with the question mark operator
    (\<open>and_then\<close>, \<open>try_fold\<close>, \<open>try_map\<close>), ordered maps as sorted association lists (\<open>bt_\<close>), life cycles
    whose final states stay, and versioned tables: a current table and an archive of replaced values.
  \<^item> \<open>Protocol_Types\<close>, \<open>Rpc_Domain\<close>, \<open>Rust_Text\<close>: the data of the protocol crates, the errors and node
    answers the client handles, and text operations of the standard library.
  \<^item> \<open>Input_Note_State\<close>, \<open>Input_Note_Record\<close>, \<open>Output_Note_Record\<close>, \<open>Transaction_Record\<close>
    (\<^verbatim>\<open>store/note_record\<close>, \<^verbatim>\<open>transaction/record.rs\<close>): the state machines of notes and transactions, one
    definition per state and handler method.
  \<^item> \<open>Wire_Format\<close>, \<open>Note_Tags\<close>: the byte encodings of records, statuses and tag sources.
  \<^item> \<open>Note_Update_Tracker\<close>, \<open>Transaction_Tracker\<close>, \<open>Sync_Update\<close> (\<^verbatim>\<open>note/note_update_tracker.rs\<close>,
    \<^verbatim>\<open>sync/state_sync_update.rs\<close>): what a sync or a transaction changes, collected for the store.
  \<^item> \<open>Sync_Ordering\<close>, \<open>State_Sync\<close>, \<open>Note_Screener\<close> (\<^verbatim>\<open>sync/state_sync.rs\<close>, \<^verbatim>\<open>note/note_screener.rs\<close>): one
    sync, from the requests to the node to the collected update, and the decision about each note.
  \<^item> \<open>Rpc_Errors\<close>, \<open>Rpc_Conversions\<close>, \<open>Rpc_Client\<close>, \<open>Rpc_Notes\<close>, \<open>Node_Endpoint\<close> (\<^verbatim>\<open>rpc\<close>): the client of
    the node: typed errors, conversions of messages, retries, limits, pagination, note pages.
  \<^item> \<open>Account_Proofs\<close> (\<^verbatim>\<open>rpc/domain/account.rs\<close>, \<^verbatim>\<open>smt.rs\<close>, \<^verbatim>\<open>transaction/request/foreign.rs\<close>): account proofs and
    whole accounts as the node reports them, and the inputs of foreign accounts.
  \<^item> \<open>Transaction_Request\<close>, \<open>Token_Amounts\<close> (\<^verbatim>\<open>transaction/request\<close>, \<^verbatim>\<open>utils.rs\<close>): requests, their
    builder and checks, and decimal amounts.
  \<^item> \<open>Smt_Forest\<close> (\<^verbatim>\<open>store/smt_forest.rs\<close>): reference counts of the Merkle trees of accounts.
  \<^item> \<open>Sqlite_Database\<close>, \<open>Sqlite_Notes\<close>, \<open>Sqlite_Note_Queries\<close>, \<open>Sqlite_Chain\<close>, \<open>Sqlite_Transactions\<close>
    (\<^verbatim>\<open>sqlite-store/src\<close>: \<^verbatim>\<open>store.sql\<close>, \<^verbatim>\<open>note\<close>, \<^verbatim>\<open>chain_data.rs\<close>, \<^verbatim>\<open>sync.rs\<close>, \<^verbatim>\<open>transaction.rs\<close>): tables as
    maps with encoded columns, and every query and update of them.
  \<^item> \<open>Sqlite_Accounts\<close>, \<open>Sqlite_Account_Writes\<close>, \<open>Sqlite_Account_History\<close>, \<open>Sqlite_Account_Undo\<close>
    (\<^verbatim>\<open>sqlite-store/src/account\<close>): the account tables with their archive, deltas, whole states, undo,
    locks and pruning.
  \<^item> \<open>Sqlite_Store\<close> (\<^verbatim>\<open>sqlite-store/src/lib.rs\<close>, \<^verbatim>\<open>sync.rs\<close>, \<^verbatim>\<open>transaction.rs\<close>): database and forest
    together; local transactions, syncs, opening.
  \<^item> \<open>Client_Api\<close> (\<^verbatim>\<open>lib.rs\<close>, \<^verbatim>\<open>account/mod.rs\<close>, \<^verbatim>\<open>sync/tag.rs\<close>, \<^verbatim>\<open>sync/block_header.rs\<close>): the client over its
    store: limits, tags, accounts, addresses, blocks authenticated on request.
  \<^item> \<open>Note_Import\<close>, \<open>Client_Notes\<close> (\<^verbatim>\<open>note/import.rs\<close>, \<^verbatim>\<open>note_transport/mod.rs\<close>, \<^verbatim>\<open>note/mod.rs\<close>,
    \<^verbatim>\<open>sync/mod.rs\<close>): notes imported from files and from the transport network, queries of notes, the
    sync of the client; and what holds of them.

  \<^bold>\<open>How the code is modelled.\<close> A struct is a record, an enum a datatype with the source's variants, a
  method a function of the record that returns it changed, and an error or panic a value of a sum
  type; a panic has a constructor of its own. Asynchronous calls are sequential, as the client awaits
  each of them. Unsigned integers are words of their width, so additions wrap where the source
  adds unchecked; columns of the database are the signed integers SQLite stores. Transactions of the
  database are atomic, while the forest in memory keeps what an aborted operation did to it. An
  operation of the client makes several calls to the store; what the earlier ones did stays when a
  later one fails.

  \<^bold>\<open>Parameters.\<close> What the protocol, crypto and transaction crates compute is an argument: \<open>protocol\<close>
  (commitments, nullifiers, inclusion proofs), \<open>mmr_ops\<close> and \<open>chain_ops\<close> (partial MMRs), \<open>smt_ops\<close> (Merkle
  forests), \<open>account_ops\<close> (accounts, vaults, storage, code), \<open>codecs\<close> and \<open>sql_codecs\<close> (encodings),
  \<open>wire_ops\<close>, \<open>account_wire\<close>, \<open>rpc_env\<close> and \<open>account_env\<close> (messages and transport), \<open>node_api\<close> (the node as the sync sees it),
  \<open>client_node\<close> and \<open>note_transport\<close> (the node and the transport network as the client sees them),
  \<open>screener_store\<close> and the consumption checker, \<open>note_ops\<close> and \<open>script_ops\<close> (construction of notes and
  scripts). Theorems name what they need of them: codecs read back what they wrote
  (\<open>codecs_ok\<close>, \<open>sql_codecs_ok\<close>), account commitments are injective, popping a root keeps the
  others (\<open>pop_keeps_others\<close>), the node serves one ledger. Every such theorem has a witness at
  concrete parameters (the \<open>sample_\<close> definitions).

  \<^bold>\<open>What is shown.\<close> For the records: final states stay final, an authenticated note carries a verified
  proof, a note is not consumed twice. For the trackers: consistency of maps and indexes, no update
  is lost, discarding a transaction reaches exactly its dependents and ends. For the sync: it is a
  run of both trackers, stores the tip and the relevant blocks, leaves no stale transaction, and
  orders nullifiers by execution. For the node client: the paginated requests return exactly the
  ledger's entries in the range, retries and the unbounded note loop end; accepted account proofs are
  consistent and cover the requested keys, large accounts are assembled from their latest updates. For requests: a validated
  request is covered by the account and its notes. For the encodings and amounts: round trips and
  bounds. For the forest: counts are exact and referenced trees stay. For the store: what the
  trackers computed is what the database returns, for every filter; a sync writes its update and
  nothing else and never moves the sync height back; pruning blocks does not change the partial
  MMR; undoing discarded states restores every account table, alone and through the composition of
  local transactions and syncs, also after pruning, and cannot unlock an account. For the client: no
  sequence of calls takes it over the limits of the node, an import writes what it reports and only
  records with a history, also when it fails half way; a note in processing that the transport
  network delivers stops every sync.

  \<^bold>\<open>Interfaces.\<close> \<open>ordered_map\<close> (what a lookup returns after an insertion, iteration in key order),
  \<open>keyed_table\<close> (folds of row updates), \<open>versioned_table\<close> (archive and restore), \<open>lifecycle\<close> (final states
  stay), \<open>note_callback_contract\<close> (what the sync relies on of the note callback), \<open>note_store\<close> (what
  the note tracker relies on of a store), \<open>client_invariant\<close> and its extension \<open>note_import\<close> (an invariant of
  the client that the writes of an import keep, interpreted for the note tables and for the limits)
  are locales, interpreted on the definitions of the model; the component theories use their facts.

  \<^bold>\<open>Bounds.\<close> Recursions are total except the loop over note pages, a partial function whose
  \<open>None\<close> is not returning; it is shown to return. Pagination has the source's bound of 1000 requests,
  retries the configured maximum. Block numbers and positions stay below \<open>2 ^ 32\<close>, node indexes below
  \<open>2 ^ 63\<close>, where the source panics.

  \<^bold>\<open>Not modelled.\<close> Execution and proving of transactions and the data store that feeds the executor
  (calls into the transaction crate); generated gRPC code; the builder of the client, its random
  number generator and the methods that only forward to the store or the node; the IndexedDB store,
  whose logic is TypeScript, and the web client; the command line; the keystore and the network client
  of the note transport (files and network); the connection pool,
  migrations and lock poisoning of the SQLite store; texts of derived error messages; concurrency
  between processes that share a database.
\<close>

end
